(* ===== verification/Prelude.thy ===== *)
theory Prelude
  imports Main "HOL-Library.Word" "HOL-Library.Multiset" "HOL-Library.Sublist"
    "HOL-Library.Signed_Division"
begin

text \<open>
  Shared vocabulary of the development: Go's \<open>error\<close> values, results and panics, the
  machine integers the program uses, the few string operations of \<open>fmt\<close> and \<open>strings\<close>
  it calls, and the generic list and multiset lemmas that the component theories use.
\<close>

named_theorems go_simps \<open>unfolding rules for results, panics and integer conversions\<close>
named_theorems go_inv \<open>facts that every operation of a component keeps its invariant\<close>


section \<open>Errors, results and panics\<close>

text \<open>
  A Go \<open>error\<close> that is \<open>nil\<close> is \<open>None\<close>. The program compares errors only with
  \<open>nil\<close>, \<open>io.EOF\<close> and \<open>grpc.ErrClientConnTimeout\<close>; every other error is known by
  its message.
\<close>

datatype gerror =
    Errorf string
  | ErrClientConnTimeout
  | IoEOF
  | ContextErr string
  | StepError string gerror

fun Error :: "gerror \<Rightarrow> string" where
  "Error (Errorf m) = m"
| "Error ErrClientConnTimeout = ''grpc: timed out trying to connect''"
| "Error IoEOF = ''EOF''"
| "Error (ContextErr m) = m"
| "Error (StepError s e) = s @ '':'' @ Error e"

type_synonym 'a result = "gerror + 'a"
type_synonym errorv = "gerror option"

text \<open>A computation either returns or panics; a panic carries its message.\<close>

datatype 'a go = Ret 'a | Panic string

fun go_bind :: "'a go \<Rightarrow> ('a \<Rightarrow> 'b go) \<Rightarrow> 'b go" where
  "go_bind (Ret x) f = f x"
| "go_bind (Panic m) f = Panic m"

definition nil_deref :: "'a go" where
  "nil_deref = Panic ''runtime error: invalid memory address or nil pointer dereference''"

definition div_by_zero :: "'a go" where
  "div_by_zero = Panic ''runtime error: integer divide by zero''"

fun is_panic :: "'a go \<Rightarrow> bool" where
  "is_panic (Ret _) = False"
| "is_panic (Panic _) = True"

lemma go_bindE:
  assumes "go_bind m f = Ret y"
  obtains x where "m = Ret x" and "f x = Ret y"
  using assms by (cases m) auto

lemma go_bind_eq_Ret [simp]:
  "go_bind m f = Ret y \<longleftrightarrow> (\<exists>x. m = Ret x \<and> f x = Ret y)"
  by (cases m) auto

lemma is_panic_bind [simp]:
  "is_panic (go_bind m f) \<longleftrightarrow> is_panic m \<or> (\<exists>x. m = Ret x \<and> is_panic (f x))"
  by (cases m) auto

lemma is_panic_iff: "is_panic m \<longleftrightarrow> (\<exists>s. m = Panic s)"
  by (cases m) auto

lemma not_panic_Ret: "\<not> is_panic m \<longleftrightarrow> (\<exists>x. m = Ret x)"
  by (cases m) auto

lemma nil_deref_panics [simp]: "is_panic nil_deref"
  by (simp add: nil_deref_def)

lemma div_by_zero_panics [simp]: "is_panic div_by_zero"
  by (simp add: div_by_zero_def)

lemma nil_deref_neq_Ret [simp]: "nil_deref \<noteq> Ret x" "Ret x \<noteq> nil_deref"
  by (simp_all add: nil_deref_def)

lemma div_by_zero_neq_Ret [simp]: "div_by_zero \<noteq> Ret x" "Ret x \<noteq> div_by_zero"
  by (simp_all add: div_by_zero_def)


section \<open>Machine integers\<close>

text \<open>
  Go's \<open>int32\<close> and \<open>int64\<close> are words read with \<open>sint\<close>. Go's \<open>int\<close> is 64 bits
  wide on the program's platform; values of that type are \<open>int\<close>, with \<open>wrap64\<close> written
  where an operation can leave the range.
\<close>

type_synonym int32 = "32 word"
type_synonym int64 = "64 word"

definition wrap64 :: "int \<Rightarrow> int" where
  "wrap64 i = sint (word_of_int i :: int64)"

definition int32_of :: "int \<Rightarrow> int32" where
  "int32_of i = word_of_int i"

text \<open>Go's \<open>/\<close> on \<open>int32\<close>: truncation towards zero, a panic on a zero divisor.\<close>

definition quot32 :: "int32 \<Rightarrow> int32 \<Rightarrow> int32 go" where
  "quot32 a b = (if b = 0 then div_by_zero else Ret (word_of_int (sint a sdiv sint b)))"

lemma sint32_bounds: "- (2 ^ 31) \<le> sint (w :: int32)" "sint (w :: int32) < 2 ^ 31"
  using sint_ge [of w] sint_lt [of w] by simp_all

lemma sint_int32_of: "- (2 ^ 31) \<le> i \<Longrightarrow> i < 2 ^ 31 \<Longrightarrow> sint (int32_of i) = i"
  by (simp add: int32_of_def int_word_sint)

lemma wrap64_id: "- (2 ^ 63) \<le> i \<Longrightarrow> i < 2 ^ 63 \<Longrightarrow> wrap64 i = i"
  by (simp add: wrap64_def int_word_sint)

lemma sint32_zero_iff [simp]: "sint (w :: int32) = 0 \<longleftrightarrow> w = 0"
  by (metis sint_0 signed_word_eqI)

lemma sdiv_nonneg: "0 \<le> a \<Longrightarrow> 0 < b \<Longrightarrow> (a :: int) sdiv b = a div b"
  by (simp add: signed_divide_int_def sgn_if)

lemma quot32_nonneg:
  assumes "0 \<le> sint a" and "0 < sint b"
  shows "\<exists>q. quot32 a b = Ret q \<and> sint q = sint a div sint b"
proof -
  have "sint a div sint b \<le> sint a"
    using assms zdiv_mono2 [of "sint a" 1 "sint b"] by simp
  with sint32_bounds(2) [of a] have "sint a div sint b < 2 ^ 31" by linarith
  moreover have "0 \<le> sint a div sint b"
    using assms by (simp add: pos_imp_zdiv_nonneg_iff)
  ultimately have "sint (int32_of (sint a div sint b)) = sint a div sint b"
    by (intro sint_int32_of) simp_all
  moreover have "b \<noteq> 0" using assms by auto
  ultimately show ?thesis
    using assms by (simp add: quot32_def sdiv_nonneg int32_of_def)
qed


section \<open>Strings\<close>

text \<open>Decimal printing, Go's verb \<open>%d\<close>.\<close>

definition digit_char :: "nat \<Rightarrow> char" where
  "digit_char d = char_of (48 + d)"

fun show_nat :: "nat \<Rightarrow> string" where
  "show_nat n = (if n < 10 then [digit_char n] else show_nat (n div 10) @ [digit_char (n mod 10)])"

declare show_nat.simps [simp del]

definition show_int :: "int \<Rightarrow> string" where
  "show_int i = (if i < 0 then ''-'' @ show_nat (nat (- i)) else show_nat (nat i))"

definition digit_val :: "char \<Rightarrow> nat" where
  "digit_val c = of_char c - 48"

definition read_nat :: "string \<Rightarrow> nat" where
  "read_nat s = foldl (\<lambda>n c. 10 * n + digit_val c) 0 s"

lemma digit_val_char [simp]: "d < 10 \<Longrightarrow> digit_val (digit_char d) = d"
  by (simp add: digit_val_def digit_char_def of_char_of)

lemma read_nat_snoc: "read_nat (s @ [c]) = 10 * read_nat s + digit_val c"
  by (simp add: read_nat_def)

lemma read_show_nat [simp]: "read_nat (show_nat n) = n"
proof (induction n rule: show_nat.induct)
  case (1 n)
  show ?case
  proof (cases "n < 10")
    case True
    then show ?thesis
      by (subst show_nat.simps) (simp add: read_nat_def)
  next
    case False
    with 1 have "read_nat (show_nat (n div 10)) = n div 10" by simp
    with False show ?thesis
      by (subst show_nat.simps) (simp add: read_nat_snoc)
  qed
qed

lemma show_nat_inj [simp]: "show_nat m = show_nat n \<longleftrightarrow> m = n"
  by (metis read_show_nat)

lemma show_nat_digits: "c \<in> set (show_nat n) \<Longrightarrow> \<exists>d < 10. c = digit_char d"
proof (induction n rule: show_nat.induct)
  case (1 n)
  show ?case
  proof (cases "n < 10")
    case True
    with 1 show ?thesis by (subst (asm) show_nat.simps) auto
  next
    case False
    from 1(2) False have "c \<in> set (show_nat (n div 10)) \<or> c = digit_char (n mod 10)"
      by (subst (asm) show_nat.simps) auto
    with 1(1) False show ?thesis by (auto intro: exI [of _ "n mod 10"])
  qed
qed

text \<open>
  Go's verb \<open>%q\<close>: double quotes, backslashes and control characters are escaped; bytes
  above 127 (valid, printable UTF-8) are kept.
\<close>

definition hex_char :: "nat \<Rightarrow> char" where
  "hex_char d = (if d < 10 then digit_char d else char_of (87 + d))"

definition quote_char :: "char \<Rightarrow> string" where
  "quote_char c =
    (let n = (of_char c :: nat) in
     if n = 34 \<or> n = 92 then [CHR 0x5C, c]
     else if n = 7 then [CHR 0x5C, CHR ''a'']
     else if n = 8 then [CHR 0x5C, CHR ''b'']
     else if n = 9 then [CHR 0x5C, CHR ''t'']
     else if n = 10 then [CHR 0x5C, CHR ''n'']
     else if n = 11 then [CHR 0x5C, CHR ''v'']
     else if n = 12 then [CHR 0x5C, CHR ''f'']
     else if n = 13 then [CHR 0x5C, CHR ''r'']
     else if n < 32 \<or> n = 127 then [CHR 0x5C, CHR ''x'', hex_char (n div 16), hex_char (n mod 16)]
     else [c])"

definition go_quote :: "string \<Rightarrow> string" where
  "go_quote s = [CHR 0x22] @ concat (map quote_char s) @ [CHR 0x22]"

text \<open>\<open>strings.HasPrefix\<close>.\<close>

abbreviation HasPrefix :: "string \<Rightarrow> string \<Rightarrow> bool" where
  "HasPrefix s p \<equiv> prefix p s"


section \<open>Lists\<close>

lemma mset_update_conv:
  "i < length xs \<Longrightarrow> mset (xs[i := y]) + {#xs ! i#} = mset xs + {#y#}"
  by (simp add: mset_update)

lemma sum_list_update_nat:
  "i < length xs \<Longrightarrow> sum_list (xs[i := y]) + xs ! i = sum_list xs + (y :: nat)"
  by (induction xs arbitrary: i) (auto split: nat.splits)

lemma all_set_update:
  "(\<And>x. x \<in> set xs \<Longrightarrow> P x) \<Longrightarrow> P y \<Longrightarrow> x \<in> set (xs[i := y]) \<Longrightarrow> P x"
  by (metis insert_iff set_update_subset_insert subsetD)


lemma sum_list_map_update:
  fixes f :: "'a \<Rightarrow> 'b :: comm_monoid_add"
  shows "i < length xs \<Longrightarrow> sum_list (map f (xs[i := y])) + f (xs ! i) = sum_list (map f xs) + f y"
  by (induction xs arbitrary: i) (auto simp: ac_simps split: nat.splits)

lemma sum_list_map_same_update:
  "i < length xs \<Longrightarrow> f y = f (xs ! i) \<Longrightarrow> sum_list (map f (xs[i := y])) = sum_list (map f xs)"
  by (metis list_update_id map_update nth_map)

lemma sum_list_map_update_ge:
  fixes f :: "'a \<Rightarrow> nat"
  shows "i < length xs \<Longrightarrow> f (xs ! i) \<le> sum_list (map f xs)"
  by (induction xs arbitrary: i) (auto split: nat.splits simp: nth_Cons trans_le_add2)


lemma sum_list_map_same: "\<forall>x \<in> set xs. f x = (k :: nat) \<Longrightarrow> sum_list (map f xs) = k * length xs"
  by (induction xs) auto

end
