(* ===== verification/Float64.thy ===== *)
theory Float64
  imports Prelude "HOL-Library.Log_Nat"
begin

text \<open>
  Go's \<open>float64\<close>: the rationals that the IEEE 754 binary format represents, the two
  infinities and NaN, with rounding to nearest, ties to even. The two zeros are one value:
  no operation of the program tells them apart. A conversion to \<open>int\<close> truncates; outside
  the 64-bit range, where the language leaves the result to the implementation, it is the
  value of the amd64 instruction, the least 64-bit integer.
\<close>

datatype f64 = Fin rat | PInf | NInf | NaN


section \<open>Rounding\<close>

text \<open>The exponent of the leading binary digit of a positive rational.\<close>

definition flog2 :: "rat \<Rightarrow> int" where
  "flog2 x = (case quotient_of x of (p, q) \<Rightarrow>
     let k = bitlen p - bitlen q in if 2 powi k \<le> x then k else k - 1)"

text \<open>Nearest integer, ties to even.\<close>

definition rne :: "rat \<Rightarrow> int" where
  "rne x = (let f = \<lfloor>x\<rfloor>; d = x - of_int f in
     if d < 1 / 2 then f else if 1 / 2 < d then f + 1 else if even f then f else f + 1)"

definition ulp_exp :: "rat \<Rightarrow> int" where
  "ulp_exp x = max (flog2 \<bar>x\<bar> - 52) (- 1074)"

definition round53 :: "rat \<Rightarrow> rat" where
  "round53 x = (if x = 0 then 0 else of_int (rne (x / 2 powi ulp_exp x)) * 2 powi ulp_exp x)"

definition round_f64 :: "rat \<Rightarrow> f64" where
  "round_f64 x = (let y = round53 x in
     if 2 ^ 1024 \<le> y then PInf else if y \<le> - (2 ^ 1024) then NInf else Fin y)"


section \<open>Operations\<close>

definition f64_of_int :: "int \<Rightarrow> f64" where
  "f64_of_int i = round_f64 (of_int i)"

fun f64_mult :: "f64 \<Rightarrow> f64 \<Rightarrow> f64" where
  "f64_mult (Fin a) (Fin b) = round_f64 (a * b)"
| "f64_mult (Fin a) PInf = (if a = 0 then NaN else if 0 < a then PInf else NInf)"
| "f64_mult (Fin a) NInf = (if a = 0 then NaN else if 0 < a then NInf else PInf)"
| "f64_mult PInf (Fin b) = (if b = 0 then NaN else if 0 < b then PInf else NInf)"
| "f64_mult NInf (Fin b) = (if b = 0 then NaN else if 0 < b then NInf else PInf)"
| "f64_mult PInf PInf = PInf"
| "f64_mult PInf NInf = NInf"
| "f64_mult NInf PInf = NInf"
| "f64_mult NInf NInf = PInf"
| "f64_mult _ _ = NaN"

fun f64_div :: "f64 \<Rightarrow> f64 \<Rightarrow> f64" where
  "f64_div (Fin a) (Fin b) =
     (if b = 0 then (if a = 0 then NaN else if 0 < a then PInf else NInf) else round_f64 (a / b))"
| "f64_div (Fin a) PInf = Fin 0"
| "f64_div (Fin a) NInf = Fin 0"
| "f64_div PInf (Fin b) = (if b < 0 then NInf else PInf)"
| "f64_div NInf (Fin b) = (if b < 0 then PInf else NInf)"
| "f64_div _ _ = NaN"

fun f64_add :: "f64 \<Rightarrow> f64 \<Rightarrow> f64" where
  "f64_add (Fin a) (Fin b) = round_f64 (a + b)"
| "f64_add (Fin a) PInf = PInf"
| "f64_add (Fin a) NInf = NInf"
| "f64_add PInf (Fin b) = PInf"
| "f64_add NInf (Fin b) = NInf"
| "f64_add PInf PInf = PInf"
| "f64_add NInf NInf = NInf"
| "f64_add _ _ = NaN"

text \<open>Comparisons with NaN are false.\<close>

fun f64_less :: "f64 \<Rightarrow> f64 \<Rightarrow> bool" where
  "f64_less (Fin a) (Fin b) \<longleftrightarrow> a < b"
| "f64_less NInf (Fin b) \<longleftrightarrow> True"
| "f64_less (Fin a) PInf \<longleftrightarrow> True"
| "f64_less NInf PInf \<longleftrightarrow> True"
| "f64_less _ _ \<longleftrightarrow> False"

fun f64_eq :: "f64 \<Rightarrow> f64 \<Rightarrow> bool" where
  "f64_eq NaN _ \<longleftrightarrow> False"
| "f64_eq _ NaN \<longleftrightarrow> False"
| "f64_eq x y \<longleftrightarrow> x = y"

fun f64_ceil :: "f64 \<Rightarrow> f64" where
  "f64_ceil (Fin a) = Fin (of_int \<lceil>a\<rceil>)"
| "f64_ceil x = x"

definition trunc_rat :: "rat \<Rightarrow> int" where
  "trunc_rat x = (if 0 \<le> x then \<lfloor>x\<rfloor> else \<lceil>x\<rceil>)"

definition indefinite_int :: int where
  "indefinite_int = - (2 ^ 63)"

fun int_of_f64 :: "f64 \<Rightarrow> int" where
  "int_of_f64 (Fin a) = (let t = trunc_rat a in
     if - (2 ^ 63) \<le> t \<and> t < 2 ^ 63 then t else indefinite_int)"
| "int_of_f64 _ = indefinite_int"

declare int_of_f64.simps(1) [simp del]

text \<open>
  \<open>time.Duration\<close> is a number of nanoseconds in an \<open>int64\<close>; \<open>Seconds\<close> adds the
  whole seconds and the remaining nanoseconds divided by 1e9, in floats.
\<close>

definition second_ns :: int where
  "second_ns = 1000000000"

definition millisecond_ns :: int where
  "millisecond_ns = 1000000"

definition Seconds :: "int \<Rightarrow> f64" where
  "Seconds d = f64_add (f64_of_int (d sdiv second_ns))
     (f64_div (f64_of_int (d smod second_ns)) (f64_of_int 1000000000))"


section \<open>Facts on rounding\<close>

lemma bitlen_powi_bounds:
  assumes "0 < p"
  shows "2 powi (bitlen p - 1) \<le> (of_int p :: rat)" and "(of_int p :: rat) < 2 powi bitlen p"
proof -
  have b: "2 ^ nat (bitlen p - 1) \<le> p" "p < 2 ^ nat (bitlen p)"
    using bitlen_bounds [OF assms] by simp_all
  have n: "0 < bitlen p"
    using b(2) assms by (cases "bitlen p \<le> 0") simp_all
  have "(2 :: rat) powi (bitlen p - 1) = 2 ^ nat (bitlen p - 1)"
    using n by (simp add: power_int_def)
  also have "\<dots> = of_int (2 ^ nat (bitlen p - 1))" by simp
  also have "\<dots> \<le> of_int p" using b(1) by (simp only: of_int_le_iff)
  finally show "2 powi (bitlen p - 1) \<le> (of_int p :: rat)" .
  have "(of_int p :: rat) < of_int (2 ^ nat (bitlen p))" using b(2) by (simp only: of_int_less_iff)
  also have "\<dots> = 2 powi bitlen p" using n by (simp add: power_int_def)
  finally show "(of_int p :: rat) < 2 powi bitlen p" .
qed

lemma powi2_pos [simp]: "0 < (2 :: rat) powi k"
  by simp

lemma powi2_Suc: "(2 :: rat) powi (k + 1) = 2 * 2 powi k"
  by (simp add: power_int_add)

lemma flog2_bounds:
  assumes "0 < x"
  shows "2 powi (flog2 x) \<le> x" and "x < 2 powi (flog2 x + 1)"
proof -
  obtain p q where pq: "quotient_of x = (p, q)" by (cases "quotient_of x")
  from quotient_of_denom_pos [OF pq] have q: "0 < q" .
  from quotient_of_div [OF pq] have x: "x = of_int p / of_int q" .
  with assms q have p: "0 < p" by (simp add: zero_less_divide_iff)
  let ?k = "bitlen p - bitlen q"
  note bp = bitlen_powi_bounds [OF p] and bq = bitlen_powi_bounds [OF q]
  have qpos: "(0 :: rat) < of_int q" using q by simp
  have "2 powi (?k - 1) * of_int q < 2 powi (?k - 1) * (2 :: rat) powi bitlen q"
    by (rule mult_strict_left_mono [OF bq(2)]) simp
  also have "\<dots> = 2 powi (bitlen p - 1)"
    by (simp flip: power_int_add)
  also have "\<dots> \<le> of_int p" by (rule bp(1))
  finally have low: "2 powi (?k - 1) \<le> x"
    using qpos by (simp add: x pos_le_divide_eq)
  have "of_int p < (2 :: rat) powi bitlen p" by (rule bp(2))
  also have "\<dots> = 2 powi (?k + 1) * 2 powi (bitlen q - 1)"
    by (simp flip: power_int_add)
  also have "\<dots> \<le> 2 powi (?k + 1) * of_int q"
    by (rule mult_left_mono [OF bq(1)]) simp
  finally have up: "x < 2 powi (?k + 1)"
    using qpos by (simp add: x pos_divide_less_eq)
  show "2 powi (flog2 x) \<le> x" and "x < 2 powi (flog2 x + 1)"
    using low up by (auto simp: flog2_def pq Let_def)
qed

lemma rne_bounds: "of_int (rne x) - x \<le> 1 / 2" "x - of_int (rne x) \<le> 1 / 2"
proof -
  define f :: rat where "f = of_int \<lfloor>x\<rfloor>"
  have f: "f \<le> x" "x < f + 1" by (simp_all add: f_def) linarith
  have "of_int (rne x) = (if x - f < 1 / 2 then f else if 1 / 2 < x - f then f + 1
      else if even \<lfloor>x\<rfloor> then f else f + 1)"
    by (simp add: rne_def Let_def f_def)
  with f show "of_int (rne x) - x \<le> 1 / 2" and "x - of_int (rne x) \<le> 1 / 2"
    by (auto split: if_splits)
qed

lemma rne_eqI:
  assumes "of_int n - 1 / 2 < x" and "x < of_int n + 1 / 2"
  shows "rne x = n"
proof -
  have "of_int (rne x) - of_int n < (1 :: rat)" "of_int n - of_int (rne x) < (1 :: rat)"
    using rne_bounds [of x] assms by linarith+
  then have "of_int (rne x - n) < (of_int 1 :: rat)" "of_int (n - rne x) < (of_int 1 :: rat)"
    by simp_all
  then show ?thesis by (simp only: of_int_less_iff)
qed

lemma rne_ge: "of_int n \<le> x \<Longrightarrow> n \<le> rne x"
proof -
  assume "of_int n \<le> x"
  then have "n \<le> \<lfloor>x\<rfloor>" by linarith
  then show ?thesis by (auto simp: rne_def Let_def)
qed

lemma rne_le: "x \<le> of_int n \<Longrightarrow> rne x \<le> n"
proof (rule ccontr)
  assume x: "x \<le> of_int n" and "\<not> rne x \<le> n"
  then have "of_int n + 1 \<le> (of_int (rne x) :: rat)" by linarith
  with x rne_bounds(1) [of x] show False by linarith
qed

text \<open>
  Rounding never crosses an integer of at most 53 bits: this is what makes the program's
  float arithmetic on request rates agree with integer arithmetic.
\<close>

lemma powi2_mono: "i \<le> j \<Longrightarrow> (2 :: rat) powi i \<le> 2 powi j"
  by (simp add: power_int_increasing)

lemma int_div_powi_neg:
  "e \<le> 0 \<Longrightarrow> of_int n / (2 :: rat) powi e = of_int (n * 2 ^ nat (- e))"
  by (simp add: power_int_def field_simps)

lemma ulp_exp_le_0:
  assumes "0 < x" and "x < 2 ^ 53"
  shows "ulp_exp x \<le> 0"
proof -
  have "2 powi flog2 x < (2 :: rat) powi 53"
    using flog2_bounds(1) [OF assms(1)] assms(2) by (simp add: power_int_def)
  then have "flog2 x < 53"
    by (meson linorder_not_le powi2_mono)
  with assms(1) show ?thesis by (simp add: ulp_exp_def)
qed

lemma ulp_exp_pos:
  assumes "0 < x" and "2 ^ 53 \<le> x"
  shows "1 \<le> ulp_exp x"
proof -
  have "(2 :: rat) powi 53 < 2 powi (flog2 x + 1)"
    using flog2_bounds(2) [OF assms(1)] assms(2) by (simp add: power_int_def)
  then have "53 < flog2 x + 1"
    by (meson linorder_not_le powi2_mono)
  with assms(1) show ?thesis by (simp add: ulp_exp_def)
qed

lemma round53_ge_int:
  assumes "0 < x" and "of_int n \<le> x" and "n \<le> 2 ^ 53"
  shows "of_int n \<le> round53 x"
proof (cases "x < 2 ^ 53")
  case True
  let ?e = "ulp_exp x"
  have e: "?e \<le> 0" using assms(1) True by (rule ulp_exp_le_0)
  have "of_int (n * 2 ^ nat (- ?e)) \<le> x / 2 powi ?e"
    using divide_right_mono [OF assms(2), of "2 powi ?e"] by (simp only: int_div_powi_neg [OF e]) simp
  then have "n * 2 ^ nat (- ?e) \<le> rne (x / 2 powi ?e)" by (rule rne_ge)
  then have "(of_int (n * 2 ^ nat (- ?e)) :: rat) \<le> of_int (rne (x / 2 powi ?e))"
    by (simp only: of_int_le_iff)
  then have "of_int n / 2 powi ?e \<le> (of_int (rne (x / 2 powi ?e)) :: rat)"
    by (simp only: int_div_powi_neg [OF e])
  then show ?thesis using assms(1) by (simp add: round53_def pos_divide_le_eq)
next
  case False
  let ?e = "ulp_exp x"
  from False assms(1) have e: "1 \<le> ?e" by (intro ulp_exp_pos) simp_all
  then have el: "?e = flog2 x - 52" using assms(1) by (simp add: ulp_exp_def)
  have "2 powi (52 + ?e) \<le> x" using flog2_bounds(1) [OF assms(1)] el by simp
  then have "2 powi 52 \<le> x / 2 powi ?e" by (simp add: power_int_add pos_le_divide_eq)
  then have "of_int (2 ^ 52) \<le> x / 2 powi ?e" by (simp add: power_int_def)
  then have "2 ^ 52 \<le> rne (x / 2 powi ?e)" by (rule rne_ge)
  then have "(of_int (2 ^ 52) :: rat) \<le> of_int (rne (x / 2 powi ?e))" by (simp only: of_int_le_iff)
  moreover have "(2 :: rat) \<le> 2 powi ?e" using powi2_mono [OF e] by simp
  ultimately have "of_int (2 ^ 52) * 2 \<le> of_int (rne (x / 2 powi ?e)) * (2 :: rat) powi ?e"
    by (intro mult_mono) simp_all
  moreover have "(of_int n :: rat) \<le> of_int (2 ^ 53)" using assms(3) by (simp only: of_int_le_iff)
  ultimately show ?thesis using assms(1) by (simp add: round53_def)
qed

lemma round53_le_int:
  assumes "0 < x" and "x \<le> of_int n" and "n \<le> 2 ^ 53"
  shows "round53 x \<le> of_int n"
proof (cases "x < 2 ^ 53")
  case True
  let ?e = "ulp_exp x"
  have e: "?e \<le> 0" using assms(1) True by (rule ulp_exp_le_0)
  have "x / 2 powi ?e \<le> of_int (n * 2 ^ nat (- ?e))"
    using divide_right_mono [OF assms(2), of "2 powi ?e"] by (simp only: int_div_powi_neg [OF e]) simp
  then have "rne (x / 2 powi ?e) \<le> n * 2 ^ nat (- ?e)" by (rule rne_le)
  then have "(of_int (rne (x / 2 powi ?e)) :: rat) \<le> of_int (n * 2 ^ nat (- ?e))"
    by (simp only: of_int_le_iff)
  then have "(of_int (rne (x / 2 powi ?e)) :: rat) \<le> of_int n / 2 powi ?e"
    by (simp only: int_div_powi_neg [OF e])
  then show ?thesis using assms(1) by (simp add: round53_def pos_le_divide_eq)
next
  case False
  have "(of_int n :: rat) \<le> of_int (2 ^ 53)" using assms(3) by (simp only: of_int_le_iff)
  with False assms(2) have x: "x = 2 ^ 53" and n: "(of_int n :: rat) = 2 ^ 53" by simp_all
  have "round53 (2 ^ 53) = 2 ^ 53" by code_simp
  with x n show ?thesis by simp
qed

lemma round53_int: "0 \<le> n \<Longrightarrow> n \<le> 2 ^ 53 \<Longrightarrow> round53 (of_int n) = of_int n"
proof (cases "n = 0")
  case False
  assume "0 \<le> n" "n \<le> 2 ^ 53"
  with False show ?thesis
    by (intro antisym round53_le_int round53_ge_int) simp_all
qed (simp add: round53_def)

text \<open>Evaluation: a rational between two powers of two rounds at the lower one's scale.\<close>

lemma flog2_unique:
  assumes "2 powi k \<le> x" and "x < 2 powi (k + 1)"
  shows "flog2 x = k"
proof -
  have x0: "0 < x" using assms(1) powi2_pos [of k] by linarith
  have "(2 :: rat) powi flog2 x < 2 powi (k + 1)" "(2 :: rat) powi k < 2 powi (flog2 x + 1)"
    using flog2_bounds [OF x0] assms by linarith+
  then have "flog2 x < k + 1" "k < flog2 x + 1"
    by (meson linorder_not_le powi2_mono)+
  then show ?thesis by simp
qed

lemma round53_eval:
  assumes "2 powi k \<le> x" and "x < 2 powi (k + 1)" and "- 1022 \<le> k"
  shows "round53 x = of_int (rne (x / 2 powi (k - 52))) * 2 powi (k - 52)"
proof -
  have x0: "0 < x" using assms(1) powi2_pos [of k] by linarith
  then have "ulp_exp x = k - 52"
    using flog2_unique [OF assms(1,2)] assms(3) by (simp add: ulp_exp_def)
  with x0 show ?thesis by (simp add: round53_def)
qed

text \<open>The relative error of a rounding that does not underflow is at most \<open>2 powi -53\<close>.\<close>

lemma round53_error:
  assumes "0 < x" and "2 powi (- 1022) \<le> x"
  shows "\<bar>round53 x - x\<bar> \<le> x / 2 ^ 53"
proof -
  let ?e = "ulp_exp x"
  have "(2 :: rat) powi (- 1022) < 2 powi (flog2 x + 1)"
    using flog2_bounds(2) [OF assms(1)] assms(2) by simp
  then have "- 1022 < flog2 x + 1" by (meson linorder_not_le powi2_mono)
  then have el: "?e = flog2 x - 52" using assms(1) by (simp add: ulp_exp_def)
  have pw: "2 powi ?e * 2 ^ 52 \<le> x"
    using flog2_bounds(1) [OF assms(1)] el by (simp add: power_int_diff)
  have "\<bar>of_int (rne (x / 2 powi ?e)) - x / 2 powi ?e\<bar> \<le> 1 / 2"
    using rne_bounds [of "x / 2 powi ?e"] by linarith
  then have "\<bar>of_int (rne (x / 2 powi ?e)) - x / 2 powi ?e\<bar> * 2 powi ?e \<le> 1 / 2 * 2 powi ?e"
    by (rule mult_right_mono) simp
  moreover have "\<bar>of_int (rne (x / 2 powi ?e)) - x / 2 powi ?e\<bar> * 2 powi ?e
      = \<bar>(of_int (rne (x / 2 powi ?e)) - x / 2 powi ?e) * 2 powi ?e\<bar>"
    by (simp add: abs_mult)
  moreover have "(of_int (rne (x / 2 powi ?e)) - x / 2 powi ?e) * 2 powi ?e = round53 x - x"
    using assms(1) by (simp add: round53_def left_diff_distrib)
  ultimately show ?thesis using pw by simp
qed


section \<open>Facts on the operations\<close>

lemma round_f64_finite: "\<bar>round53 x\<bar> < 2 ^ 1024 \<Longrightarrow> round_f64 x = Fin (round53 x)"
  by (auto simp: round_f64_def Let_def abs_less_iff)

lemma round53_0 [simp]: "round53 0 = 0"
  by (simp add: round53_def)

lemma round_f64_0 [simp]: "round_f64 0 = Fin 0"
  by (simp add: round_f64_finite)

lemma round_f64_bounded:
  assumes "0 < x" and "x \<le> of_int n" and "n \<le> 2 ^ 53"
  shows "round_f64 x = Fin (round53 x)"
proof (rule round_f64_finite)
  have "0 \<le> round53 x" using round53_ge_int [of x 0] assms(1) by simp
  moreover have "round53 x \<le> of_int n" using assms by (rule round53_le_int)
  moreover have "(of_int n :: rat) \<le> of_int (2 ^ 53)" using assms(3) by (simp only: of_int_le_iff)
  moreover have "(of_int (2 ^ 53) :: rat) < 2 ^ 1024" by simp
  ultimately show "\<bar>round53 x\<bar> < 2 ^ 1024" by linarith
qed

lemma f64_of_int_exact:
  assumes "0 \<le> n" and "n \<le> 2 ^ 53"
  shows "f64_of_int n = Fin (of_int n)"
proof -
  have "(of_int n :: rat) \<le> of_int (2 ^ 53)" using assms(2) by (simp only: of_int_le_iff)
  moreover have "(of_int (2 ^ 53) :: rat) < 2 ^ 1024" by simp
  ultimately have "\<bar>of_int n\<bar> < (2 :: rat) ^ 1024" using assms(1) by simp
  then show ?thesis
    unfolding f64_of_int_def using round53_int [OF assms] by (subst round_f64_finite) simp_all
qed

lemma int_of_f64_Fin:
  assumes "0 \<le> y" and "y < 2 ^ 63"
  shows "int_of_f64 (Fin y) = \<lfloor>y\<rfloor>"
proof -
  have "\<lfloor>y\<rfloor> < 2 ^ 63" using assms(2) by (simp add: floor_less_iff)
  moreover have "0 \<le> \<lfloor>y\<rfloor>" using assms(1) by simp
  ultimately show ?thesis using assms(1) by (simp add: int_of_f64.simps trunc_rat_def Let_def)
qed

text \<open>
  A quotient of two integers below \<open>2 ^ 31\<close> rounds to a float with the same ceiling: its
  distance to the next integer is at least the reciprocal of the divisor, far above the
  rounding error.
\<close>

lemma ceiling_round53_quotient:
  assumes "0 < m" and "m < 2 ^ 31" and "0 < p" and "p < 2 ^ 31"
  shows "\<lceil>round53 (of_int m / of_int p)\<rceil> = \<lceil>of_int m / (of_int p :: rat)\<rceil>"
proof -
  define x :: rat where "x = of_int m / of_int p"
  define q where "q = \<lceil>x\<rceil>"
  have x0: "0 < x" using assms by (simp add: x_def)
  have pr: "(1 :: rat) \<le> of_int p" "(of_int p :: rat) < 2 ^ 31"
    using assms(3,4) by simp_all
  have mr: "(1 :: rat) \<le> of_int m" "(of_int m :: rat) < 2 ^ 31"
    using assms(1,2) by simp_all
  have xp: "x * of_int p = of_int m" using assms(3) by (simp add: x_def)
  have xm: "x \<le> of_int m"
    using mult_left_mono [OF pr(1), of x] x0 xp by simp
  have "(2 :: rat) powi (- 1022) \<le> 2 powi (- 31)" by (rule powi2_mono) simp
  also have "\<dots> = 1 / 2 ^ 31" by (simp add: power_int_def field_simps)
  also have "\<dots> \<le> 1 / of_int p" using pr by (intro divide_left_mono) auto
  also have "\<dots> \<le> x" using mr(1) pr by (simp add: x_def divide_right_mono)
  finally have err: "\<bar>round53 x - x\<bar> \<le> x / 2 ^ 53" by (rule round53_error [OF x0])
  have gap: "(x / 2 ^ 53) * of_int p < 1" using xp mr(2) by simp
  have qx: "x \<le> of_int q" "of_int q - 1 < x" unfolding q_def by linarith+
  have "\<lceil>round53 x\<rceil> = q"
  proof (rule ceiling_unique)
    have "(of_int q - 1) * of_int p < x * of_int p"
      using qx(2) pr(1) by (intro mult_strict_right_mono) simp_all
    then have "(of_int ((q - 1) * p) :: rat) < of_int m" by (simp add: xp)
    then have "(q - 1) * p + 1 \<le> m" by (simp only: of_int_less_iff)
    then have "(of_int ((q - 1) * p + 1) :: rat) \<le> of_int m" by (simp only: of_int_le_iff)
    then have "(of_int q - 1) * of_int p + 1 \<le> (of_int m :: rat)" by simp
    then have "(of_int q - 1) * of_int p + (x / 2 ^ 53) * of_int p < x * of_int p"
      using gap xp by linarith
    then have "(of_int q - 1 + x / 2 ^ 53) * of_int p < x * of_int p"
      by (simp only: distrib_right)
    then have "of_int q - 1 + x / 2 ^ 53 < x" using pr(1) by (simp add: mult_less_cancel_right)
    with err show "of_int q - 1 < round53 x" by linarith
  next
    have "q \<le> m" unfolding q_def using xm by (simp add: ceiling_le_iff)
    with assms(2) have "q \<le> 2 ^ 53" by simp
    with x0 qx(1) show "round53 x \<le> of_int q" by (rule round53_le_int)
  qed
  then show ?thesis by (simp add: q_def x_def)
qed

lemma ceiling_quotient:
  assumes "0 < p"
  shows "\<lceil>of_int m / (of_int p :: rat)\<rceil> = (m + p - 1) div p"
proof -
  have "m + p - 1 = (m mod p + p - 1) + p * (m div p)" by (simp add: algebra_simps)
  then have "(m + p - 1) div p = (m mod p + p - 1) div p + m div p"
    using assms by (simp only: div_mult_self2)
  also have "(m mod p + p - 1) div p = (if m mod p = 0 then 0 else 1)"
  proof (cases "m mod p = 0")
    case False
    then have "0 \<le> m mod p - 1" "m mod p - 1 < p"
      using assms pos_mod_sign [of p m] pos_mod_bound [of p m] by linarith+
    then have "(m mod p - 1 + p) div p = 1" using assms by simp
    with False show ?thesis by (simp add: algebra_simps)
  qed (use assms in simp)
  finally show ?thesis
    using assms by (simp add: ceiling_divide_eq_div zdiv_zminus1_eq_if)
qed

lemma ceil_div_f64:
  assumes "0 < m" and "m < 2 ^ 31" and "0 < p" and "p < 2 ^ 31"
  shows "int_of_f64 (f64_ceil (f64_div (f64_of_int m) (f64_of_int p))) = (m + p - 1) div p"
proof -
  let ?x = "of_int m / (of_int p :: rat)"
  have pr: "(1 :: rat) \<le> of_int p" using assms(3) by simp
  have x0: "0 < ?x" using assms by simp
  have xm: "?x \<le> of_int m"
    using assms(1) pr by (simp add: divide_le_eq mult_le_cancel_left1)
  have "f64_div (f64_of_int m) (f64_of_int p) = round_f64 ?x"
    using assms by (simp add: f64_of_int_exact)
  also have "\<dots> = Fin (round53 ?x)"
    using x0 xm assms(2) by (intro round_f64_bounded [of _ m]) simp_all
  finally have "f64_ceil (f64_div (f64_of_int m) (f64_of_int p)) = Fin (of_int \<lceil>?x\<rceil>)"
    by (simp add: ceiling_round53_quotient [OF assms])
  moreover have "int_of_f64 (Fin (of_int \<lceil>?x\<rceil>)) = \<lceil>?x\<rceil>"
  proof -
    have "\<lceil>?x\<rceil> \<le> m" using xm by (simp add: ceiling_le_iff)
    also have "m < 2 ^ 63" using assms(2) by simp
    finally have "\<lceil>?x\<rceil> < 2 ^ 63" .
    then have "(of_int \<lceil>?x\<rceil> :: rat) < of_int (2 ^ 63)" by (simp only: of_int_less_iff)
    moreover have "0 < \<lceil>?x\<rceil>" using x0 by (simp only: zero_less_ceiling)
    ultimately show ?thesis by (subst int_of_f64_Fin) simp_all
  qed
  ultimately have "int_of_f64 (f64_ceil (f64_div (f64_of_int m) (f64_of_int p))) = \<lceil>?x\<rceil>"
    by (simp only:)
  also have "\<dots> = (m + p - 1) div p"
    using ceiling_quotient [OF assms(3)] .
  finally show ?thesis .
qed


text \<open>
  Multiplying a count below \<open>2 ^ 31\<close> by the float 0.1 and truncating is integer division
  by ten: the float is slightly above a tenth, so multiples of ten never fall below their
  quotient, and the excess never reaches the next integer.
\<close>

definition tenth :: rat where
  "tenth = 3602879701896397 / 36028797018963968"

lemma floor_round53_tenth:
  assumes "0 < n" and "n < 2 ^ 31"
  shows "\<lfloor>round53 (of_int n * tenth)\<rfloor> = n div 10"
proof -
  define x where "x = of_int n * tenth"
  have t: "1 / 10 < tenth" "tenth < 1 / 10 + 1 / 2 ^ 57" "0 < tenth" by (simp_all add: tenth_def)
  have nr: "(1 :: rat) \<le> of_int n" "(of_int n :: rat) < 2 ^ 31" using assms by simp_all
  have x0: "0 < x" using nr t by (simp add: x_def)
  have lo: "of_int n / 10 < x"
    using mult_strict_left_mono [OF t(1), of "of_int n"] nr by (simp add: x_def)
  have "x < of_int n * (1 / 10 + 1 / 2 ^ 57)"
    using mult_strict_left_mono [OF t(2), of "of_int n"] nr by (simp add: x_def)
  then have hi: "x < of_int n / 10 + 1 / 2 ^ 26"
    using nr by (simp add: algebra_simps)
  have nq: "n = 10 * (n div 10) + n mod 10" by simp
  have r: "0 \<le> n mod 10" "n mod 10 \<le> 9" using pos_mod_bound [of 10 n] by simp_all
  have nr10: "(of_int n :: rat) = 10 * of_int (n div 10) + of_int (n mod 10)"
    by (subst nq) (simp only: of_int_add of_int_mult of_int_numeral)
  have rr: "(0 :: rat) \<le> of_int (n mod 10)" "(of_int (n mod 10) :: rat) \<le> 9"
    using r by simp_all
  have klo: "of_int (n div 10) \<le> x" using lo nr10 rr by linarith
  have "of_int n / 10 \<le> of_int (n div 10) + (9 / 10 :: rat)" using nr10 rr by linarith
  with hi have khi: "x < of_int (n div 10) + 9 / 10 + 1 / 2 ^ 26" by linarith
  have kb: "n div 10 \<le> 2 ^ 53" using assms by simp
  have "(2 :: rat) powi (- 1022) \<le> 2 powi (- 4)" by (rule powi2_mono) simp
  also have "\<dots> \<le> 1 / 10" by (simp add: power_int_minus)
  also have "\<dots> \<le> x" using lo nr by linarith
  finally have err: "\<bar>round53 x - x\<bar> \<le> x / 2 ^ 53" by (rule round53_error [OF x0])
  have "x < 2 ^ 31" using hi nr by simp
  then have "x / 2 ^ 53 < 1 / 2 ^ 22" by simp
  with abs_le_D1 [OF err] have "round53 x < x + 1 / 2 ^ 22" by linarith
  with khi have "round53 x < of_int (n div 10) + 1" by simp
  moreover have "of_int (n div 10) \<le> round53 x" using x0 klo kb by (rule round53_ge_int)
  ultimately have "\<lfloor>round53 x\<rfloor> = n div 10" by (intro floor_unique) simp_all
  then show ?thesis by (simp add: x_def)
qed

lemma int_times_tenth:
  assumes "0 \<le> n" and "n < 2 ^ 31"
  shows "int_of_f64 (f64_mult (f64_of_int n) (Fin tenth)) = n div 10"
proof (cases "n = 0")
  case True
  then show ?thesis by (simp add: f64_of_int_exact int_of_f64_Fin)
next
  case False
  with assms have n: "0 < n" by simp
  have t: "tenth \<le> 1" "0 < tenth" by (simp_all add: tenth_def)
  let ?x = "of_int n * tenth"
  have x0: "0 < ?x" using n t by simp
  have xn: "?x \<le> of_int n" using n t by (simp add: mult_le_cancel_left1)
  have nb: "n \<le> 2 ^ 53" using assms(2) by simp
  have "f64_mult (f64_of_int n) (Fin tenth) = Fin (round53 ?x)"
    using assms nb x0 xn by (simp add: f64_of_int_exact round_f64_bounded [of _ n])
  moreover have "0 \<le> round53 ?x" using round53_ge_int [OF x0, of 0] x0 by simp
  moreover have "round53 ?x < 2 ^ 63"
  proof -
    have "round53 ?x \<le> of_int n" using x0 xn nb by (rule round53_le_int)
    also have "(of_int n :: rat) < of_int (2 ^ 63)"
      using assms(2) by (subst of_int_less_iff) simp
    finally show ?thesis by simp
  qed
  ultimately show ?thesis
    using floor_round53_tenth [OF n assms(2)] by (simp only: int_of_f64_Fin)
qed

lemma Seconds_100ms: "Seconds (100 * millisecond_ns) = Fin tenth"
proof -
  have "(100 * millisecond_ns) sdiv second_ns = 0" "(100 * millisecond_ns) smod second_ns = 100000000"
    by (simp_all add: millisecond_ns_def second_ns_def signed_divide_int_def signed_modulo_int_def)
  moreover have "rne (1 / 10 / 2 powi (- 56)) = 7205759403792794"
      and "rne (tenth / 2 powi (- 56)) = 7205759403792794"
    by (rule rne_eqI; simp add: tenth_def power_int_minus)+
  then have "round53 (1 / 10) = tenth" "round53 tenth = tenth"
    by (subst round53_eval [of "- 4"]; simp add: tenth_def power_int_minus)+
  moreover have "\<bar>tenth\<bar> < 2 ^ 1024" by (simp add: tenth_def)
  ultimately show ?thesis by (simp add: Seconds_def f64_of_int_exact round_f64_finite)
qed

text \<open>
  Multiplying by a factor of at least one never goes below the integer it starts from, and
  the truncated product is exact as long as it stays in range.
\<close>

lemma int_times_factor_ge:
  assumes "0 < n" and "n \<le> 2 ^ 53" and "1 \<le> g" and "of_int n * g < 2 ^ 62"
  shows "n \<le> int_of_f64 (f64_mult (f64_of_int n) (Fin g))"
proof -
  let ?x = "of_int n * g"
  have nr: "(1 :: rat) \<le> of_int n" using assms(1) by simp
  have nx: "of_int n \<le> ?x" using mult_left_mono [OF assms(3), of "of_int n"] nr by simp
  have x0: "0 < ?x" using nx nr by linarith
  have lo: "of_int n \<le> round53 ?x" using x0 nx assms(2) by (rule round53_ge_int)
  have "(2 :: rat) powi (- 1022) \<le> 2 powi 0" by (rule powi2_mono) simp
  also have "\<dots> = 1" by simp
  also have "1 \<le> ?x" using nx nr by linarith
  finally have "\<bar>round53 ?x - ?x\<bar> \<le> ?x / 2 ^ 53" by (rule round53_error [OF x0])
  from abs_le_D1 [OF this] have "round53 ?x \<le> ?x + ?x / 2 ^ 53" by linarith
  also have "?x / 2 ^ 53 \<le> ?x / 1" using x0 by (intro divide_left_mono) simp_all
  also have "?x + ?x / 1 = 2 * ?x" by simp
  also have "\<dots> < 2 * 2 ^ 62" using assms(4) by (rule mult_strict_left_mono) simp
  finally have hi: "round53 ?x < 2 ^ 63" by simp
  have "\<bar>round53 ?x\<bar> < 2 ^ 1024"
  proof -
    have "(2 :: rat) ^ 63 \<le> 2 ^ 1024" by (rule power_increasing) simp_all
    then show ?thesis using lo nr hi by simp
  qed
  then have "f64_mult (f64_of_int n) (Fin g) = Fin (round53 ?x)"
    using assms(1,2) by (simp add: f64_of_int_exact round_f64_finite)
  moreover have "n \<le> \<lfloor>round53 ?x\<rfloor>" using lo by (simp add: le_floor_iff)
  ultimately show ?thesis using lo nr hi by (simp only: int_of_f64_Fin)
qed


text \<open>Rounding keeps the sign, so a rate that is not positive gives no positive product.\<close>

lemma round53_nonpos: "x \<le> 0 \<Longrightarrow> round53 x \<le> 0"
proof -
  assume "x \<le> 0"
  have "rne y \<le> 0" if "y \<le> 0" for y
  proof -
    have "\<lfloor>y\<rfloor> \<le> 0" "\<lfloor>y\<rfloor> = 0 \<Longrightarrow> y = 0" using that by linarith+
    then show ?thesis by (cases "\<lfloor>y\<rfloor> = 0") (auto simp: rne_def Let_def)
  qed
  moreover have "x / 2 powi ulp_exp x \<le> 0"
    using \<open>x \<le> 0\<close> powi2_pos [of "ulp_exp x"] by (simp add: divide_le_0_iff)
  ultimately have "of_int (rne (x / 2 powi ulp_exp x)) \<le> (0 :: rat)" by simp
  then show ?thesis
    using powi2_pos [of "ulp_exp x"] by (simp add: round53_def mult_le_0_iff)
qed

lemma int_of_f64_nonpos: "x \<le> 0 \<Longrightarrow> int_of_f64 (round_f64 x) \<le> 0"
  using round53_nonpos [of x]
  by (auto simp: round_f64_def Let_def int_of_f64.simps(1) trunc_rat_def indefinite_int_def)

lemma int_times_tenth_nonpos:
  assumes "n \<le> 0"
  shows "int_of_f64 (f64_mult (f64_of_int n) (Fin tenth)) \<le> 0"
proof -
  have t: "0 < tenth" by (simp add: tenth_def)
  have "round53 (of_int n) \<le> 0" using assms by (intro round53_nonpos) simp
  moreover have "\<not> 2 ^ 1024 \<le> round53 (of_int n :: rat)"
    using calculation zero_less_power [of "2 :: rat" 1024] by linarith
  ultimately have "f64_of_int n = NInf \<or> (\<exists>y \<le> 0. f64_of_int n = Fin y)"
    by (simp add: f64_of_int_def round_f64_def Let_def)
  then consider "f64_of_int n = NInf" | y where "f64_of_int n = Fin y" "y \<le> 0" by blast
  then show ?thesis
  proof cases
    case 1
    with t show ?thesis by (simp add: indefinite_int_def)
  next
    case (2 y)
    with t show ?thesis by (simp add: int_of_f64_nonpos mult_le_0_iff)
  qed
qed

end
