(* ===== verification/Messages.thy ===== *)
theory Messages
  imports Float64
begin

text \<open>
  The protocol messages: \<open>executor/pb/executor.pb.go\<close> (the scheduler's commands to an
  executor and its status replies) and \<open>scheduler/pb/scheduler.pb.go\<close> (load test requests,
  the phases streamed back, executor registration), with the nil-safe getters of the
  generated code and the handlers generated for the two services.
\<close>

section \<open>Values of type \<open>interface{}\<close>\<close>

text \<open>
  The dynamic types the program puts into an \<open>interface{}\<close>: metric fields, decoded JSON and
  the Lua values that \<open>ToValue\<close> hands to a logger. A table, function or other reference is
  \<open>GRef\<close>.
\<close>

datatype gval =
    GNil
  | GStr string
  | GInt int
  | GInt32 int32
  | GInt64 int
  | GFloat f64
  | GBool bool
  | GList "gval list"
  | GObj "(string \<times> gval) list"
  | GRef nat


section \<open>Executor messages\<close>

record StatusMessage =
  Status :: string

record ScriptParams =
  Url :: string
  Script :: string
  ScriptId :: string
  RunTime :: int32
  MaxWorkers :: int32
  GrowthFactor :: f64
  TimeBetweenGrowth :: f64
  StartingRequestsPerSecond :: int32
  MaxRequestsPerSecond :: int32

text \<open>A nil \<open>ScriptParams\<close> pointer is \<open>None\<close>.\<close>

record CommandMessage =
  Command :: string
  ScriptParamsPtr :: "ScriptParams option"
  ScriptConfig :: string

fun GetScriptParams :: "CommandMessage option \<Rightarrow> ScriptParams option" where
  "GetScriptParams (Some m) = ScriptParamsPtr m"
| "GetScriptParams None = None"


section \<open>Scheduler messages\<close>

record LoadTestReq =
  req_Url :: string
  req_Script :: string
  req_ScriptName :: string
  req_RunTime :: int32
  req_GrowthFactor :: f64
  req_TimeBetweenGrowth :: f64
  req_StartingRequestsPerSecond :: int32
  req_MaxRequestsPerSecond :: int32
  req_ScriptConfig :: string

text \<open>The \<open>oneof\<close> of \<open>LoadTestResp\<close>; an unset phase is \<open>None\<close>.\<close>

datatype LoadTestResp_Phase =
    Preparing int32
  | Started
  | Finished
  | Errored string

record LoadTestResp =
  Phase :: "LoadTestResp_Phase option"

fun GetPhase :: "LoadTestResp option \<Rightarrow> LoadTestResp_Phase option" where
  "GetPhase (Some m) = Phase m"
| "GetPhase None = None"

definition GetPreparing :: "LoadTestResp option \<Rightarrow> int32 option" where
  "GetPreparing m = (case GetPhase m of Some (Preparing n) \<Rightarrow> Some n | _ \<Rightarrow> None)"

definition GetStart :: "LoadTestResp option \<Rightarrow> unit option" where
  "GetStart m = (case GetPhase m of Some Started \<Rightarrow> Some () | _ \<Rightarrow> None)"

definition GetFinish :: "LoadTestResp option \<Rightarrow> unit option" where
  "GetFinish m = (case GetPhase m of Some Finished \<Rightarrow> Some () | _ \<Rightarrow> None)"

definition GetError :: "LoadTestResp option \<Rightarrow> string option" where
  "GetError m = (case GetPhase m of Some (Errored e) \<Rightarrow> Some e | _ \<Rightarrow> None)"

record RegisterExecutorReq =
  DropletId :: int64
  Port :: int64

record RegisterExecutorResp =
  InfluxAddr :: string
  InfluxUsername :: string
  InfluxPassword :: string
  InfluxDb :: string
  InfluxSsl :: bool

text \<open>
  The generated unary handler decodes the request, runs the service method and drops its
  response when the method reports an error.
\<close>

definition RegisterExecutor_Handler ::
  "(RegisterExecutorReq \<Rightarrow> 's \<Rightarrow> (RegisterExecutorResp \<times> errorv) \<times> 's) \<Rightarrow>
   RegisterExecutorReq result \<Rightarrow> 's \<Rightarrow> RegisterExecutorResp result \<times> 's" where
  "RegisterExecutor_Handler srv dec s = (case dec of
     Inl e \<Rightarrow> (Inl e, s)
   | Inr rq \<Rightarrow> (case srv rq s of
       ((out, Some e), s') \<Rightarrow> (Inl e, s')
     | ((out, None), s') \<Rightarrow> (Inr out, s')))"


end
