(* ===== verification/GoTime.thy ===== *)
theory GoTime
  imports Float64
begin

text \<open>
  The part of Go's package \<open>time\<close> that the program calls beside \<open>Duration.Seconds\<close>:
  \<open>ParseDuration\<close> (used by \<open>client.NewBatchPoints\<close> to check a precision and by the
  duration flags), in the form it has since Go 1.7.
\<close>

definition is_digit :: "char \<Rightarrow> bool" where
  "is_digit c \<longleftrightarrow> 48 \<le> (of_char c :: nat) \<and> (of_char c :: nat) \<le> 57"

definition unitMap :: "string \<rightharpoonup> int" where
  "unitMap u =
    (if u = ''ns'' then Some 1
     else if u = ''us'' \<or> u = [CHR 0xC2, CHR 0xB5, CHR ''s''] \<or> u = [CHR 0xCE, CHR 0xBC, CHR ''s'']
       then Some 1000
     else if u = ''ms'' then Some 1000000
     else if u = ''s'' then Some 1000000000
     else if u = ''m'' then Some 60000000000
     else if u = ''h'' then Some 3600000000000
     else None)"

text \<open>\<open>leadingInt\<close>: the value of the leading digits and the rest, or an overflow.\<close>

fun leadingInt :: "int \<Rightarrow> string \<Rightarrow> (int \<times> string) option" where
  "leadingInt x [] = Some (x, [])"
| "leadingInt x (c # s) =
    (if is_digit c then
       (if x > (2 ^ 63 - 1) div 10 then None
        else let x' = x * 10 + int (digit_val c) in
          if 2 ^ 63 \<le> x' then None else leadingInt x' s)
     else Some (x, c # s))"

text \<open>\<open>leadingFraction\<close>: digits beyond the 63 bits are read and dropped.\<close>

fun leadingFraction :: "int \<Rightarrow> f64 \<Rightarrow> bool \<Rightarrow> string \<Rightarrow> int \<times> f64 \<times> string" where
  "leadingFraction x sc ov [] = (x, sc, [])"
| "leadingFraction x sc ov (c # s) =
    (if is_digit c then
       (if ov \<or> x > (2 ^ 63 - 1) div 10 then leadingFraction x sc True s
        else let y = x * 10 + int (digit_val c) in
          if 2 ^ 63 \<le> y then leadingFraction x sc True s
          else leadingFraction y (f64_mult sc (Fin 10)) ov s)
     else (x, sc, c # s))"

lemma leadingInt_length: "leadingInt x s = Some (v, s') \<Longrightarrow> length s' \<le> length s"
  by (induction x s rule: leadingInt.induct) (auto simp: Let_def split: if_splits)

lemma leadingFraction_length: "leadingFraction x sc ov s = (v, sc', s') \<Longrightarrow> length s' \<le> length s"
  by (induction x sc ov s rule: leadingFraction.induct) (auto simp: Let_def split: if_splits)

definition is_unit_char :: "char \<Rightarrow> bool" where
  "is_unit_char c \<longleftrightarrow> \<not> (c = CHR ''.'' \<or> is_digit c)"

definition invalid_duration :: "string \<Rightarrow> gerror" where
  "invalid_duration s = Errorf (''time: invalid duration '' @ s)"

text \<open>One number with its unit, and the loop over them.\<close>

definition duration_part :: "string \<Rightarrow> string \<Rightarrow> (int \<times> string) result" where
  "duration_part orig s =
    (if \<not> (hd s = CHR ''.'' \<or> is_digit (hd s)) then Inl (invalid_duration orig)
     else case leadingInt 0 s of
       None \<Rightarrow> Inl (invalid_duration orig)
     | Some (v, s1) \<Rightarrow>
         let pre = (length s \<noteq> length s1);
             (f, sc, s2) = (if s1 \<noteq> [] \<and> hd s1 = CHR ''.''
                            then leadingFraction 0 (Fin 1) False (tl s1) else (0, Fin 1, s1));
             post = (s1 \<noteq> [] \<and> hd s1 = CHR ''.'' \<and> length (tl s1) \<noteq> length s2);
             u = takeWhile is_unit_char s2; s3 = dropWhile is_unit_char s2 in
         if \<not> pre \<and> \<not> post then Inl (invalid_duration orig)
         else if u = [] then Inl (Errorf (''time: missing unit in duration '' @ orig))
         else case unitMap u of
           None \<Rightarrow> Inl (Errorf (''time: unknown unit '' @ u @ '' in duration '' @ orig))
         | Some unit \<Rightarrow>
             if v > (2 ^ 63 - 1) div unit then Inl (invalid_duration orig)
             else let w = v * unit;
                      w' = (if f > 0 then wrap64 (w + int_of_f64 (f64_mult (f64_of_int f)
                              (f64_div (f64_of_int unit) sc))) else w) in
               if w' < 0 then Inl (invalid_duration orig) else Inr (w', s3))"

lemma duration_part_decreases:
  assumes "duration_part orig s = Inr (w, s3)"
  shows "length s3 < length s"
proof -
  from assms obtain v s1 where li: "leadingInt 0 s = Some (v, s1)"
    by (auto simp: duration_part_def split: if_splits option.splits)
  obtain f sc s2 where fr: "(if s1 \<noteq> [] \<and> hd s1 = CHR ''.''
      then leadingFraction 0 (Fin 1) False (tl s1) else (0, Fin 1, s1)) = (f, sc, s2)"
    by (metis prod_cases3)
  have "length s2 \<le> length s1"
    using fr leadingFraction_length [of 0 "Fin 1" False "tl s1" f sc s2]
    by (auto split: if_splits)
  moreover have "length s1 \<le> length s" using li by (rule leadingInt_length)
  moreover have u: "takeWhile is_unit_char s2 \<noteq> []" and s3: "s3 = dropWhile is_unit_char s2"
    using assms li fr
    by (auto simp: duration_part_def Let_def split: if_splits option.splits)
  have "length s3 < length s2"
    using u s3 takeWhile_dropWhile_id [of is_unit_char s2]
    by (metis add_cancel_left_left length_0_conv length_append length_dropWhile_le
        linorder_le_less_linear nat_less_le)
  ultimately show ?thesis by simp
qed

function duration_loop :: "string \<Rightarrow> int \<Rightarrow> string \<Rightarrow> int result" where
  "duration_loop orig d s =
    (if s = [] then Inr d
     else case duration_part orig s of
       Inl e \<Rightarrow> Inl e
     | Inr (v, s') \<Rightarrow> let d' = wrap64 (d + v) in
         if d' < 0 then Inl (invalid_duration orig) else duration_loop orig d' s')"
  by pat_completeness auto
termination
  by (relation "measure (\<lambda>(orig, d, s). length s)") (auto dest: duration_part_decreases)

declare duration_loop.simps [simp del]

definition ParseDuration :: "string \<Rightarrow> int result" where
  "ParseDuration orig =
    (let sign = (orig \<noteq> [] \<and> (hd orig = CHR ''-'' \<or> hd orig = CHR ''+''));
         neg = (sign \<and> hd orig = CHR ''-'');
         s = (if sign then tl orig else orig) in
     if s = ''0'' then Inr 0
     else if s = [] then Inl (invalid_duration orig)
     else case duration_loop orig 0 s of
       Inl e \<Rightarrow> Inl e
     | Inr d \<Rightarrow> Inr (if neg then - d else d))"

lemma ParseDuration_1ns: "ParseDuration ''1ns'' = Inr 1"
proof -
  have p: "duration_part ''1ns'' ''1ns'' = Inr (1, [])"
    by (simp add: duration_part_def is_digit_def digit_val_def is_unit_char_def unitMap_def)
  have "duration_loop ''1ns'' 0 ''1ns'' = Inr 1"
    by (subst duration_loop.simps)
      (simp add: p duration_loop.simps [of "''1ns''" 1 "[]"] wrap64_id)
  then show ?thesis by (simp add: ParseDuration_def Let_def)
qed

end
