(* ===== verification/Metrics.thy ===== *)
theory Metrics
  imports Messages GoTime
begin

text \<open>
  The batches of the InfluxDB client (\<open>client/v2/client.go\<close>), the per-worker metrics
  gatherer (\<open>executor/controller/metrics_gatherer.go\<close>) and the interface
  \<open>MetricReporter\<close> of \<open>executor/engine/engine.go\<close> with its two implementations. Every
  method of the gatherer holds its mutex from its first statement to its return, so each is
  one atomic step; \<open>time.Now()\<close> is an argument.
\<close>

section \<open>Points and batches\<close>

record Point =
  pt_name :: string
  pt_tags :: "string \<rightharpoonup> string"
  pt_fields :: "string \<rightharpoonup> gval"
  pt_time :: int

text \<open>The zero \<open>time.Time\<close>, in nanoseconds since the epoch.\<close>

definition zero_time :: int where
  "zero_time = - 62135596800000000000"

definition NewPoint ::
  "string \<Rightarrow> (string \<rightharpoonup> string) \<Rightarrow> (string \<rightharpoonup> gval) \<Rightarrow> int list \<Rightarrow> Point" where
  "NewPoint name tags flds t =
    \<lparr>pt_name = name, pt_tags = tags, pt_fields = flds,
     pt_time = (case t of [] \<Rightarrow> zero_time | t0 # _ \<Rightarrow> t0)\<rparr>"

record BatchPointsConfig =
  cfg_Precision :: string
  cfg_Database :: string
  cfg_RetentionPolicy :: string
  cfg_WriteConsistency :: string

definition zero_BatchPointsConfig :: BatchPointsConfig where
  "zero_BatchPointsConfig = \<lparr>cfg_Precision = '''', cfg_Database = '''',
     cfg_RetentionPolicy = '''', cfg_WriteConsistency = ''''\<rparr>"

record batchpoints =
  Points :: "Point list"
  Database :: string
  Precision :: string
  RetentionPolicy :: string
  WriteConsistency :: string

definition NewBatchPoints :: "BatchPointsConfig \<Rightarrow> batchpoints result" where
  "NewBatchPoints c =
    (let prec = (if cfg_Precision c = '''' then ''ns'' else cfg_Precision c) in
     case ParseDuration (''1'' @ prec) of
       Inl e \<Rightarrow> Inl e
     | Inr _ \<Rightarrow> Inr \<lparr>Points = [], Database = cfg_Database c, Precision = prec,
         RetentionPolicy = cfg_RetentionPolicy c, WriteConsistency = cfg_WriteConsistency c\<rparr>)"

definition AddPoint :: "batchpoints \<Rightarrow> Point \<Rightarrow> batchpoints" where
  "AddPoint bp p = bp\<lparr>Points := Points bp @ [p]\<rparr>"

definition SetPrecision :: "batchpoints \<Rightarrow> string \<Rightarrow> errorv \<times> batchpoints" where
  "SetPrecision bp p = (case ParseDuration (''1'' @ p) of
     Inl e \<Rightarrow> (Some e, bp)
   | Inr _ \<Rightarrow> (None, bp\<lparr>Precision := p\<rparr>))"

definition SetDatabase :: "batchpoints \<Rightarrow> string \<Rightarrow> batchpoints" where
  "SetDatabase bp db = bp\<lparr>Database := db\<rparr>"

definition SetWriteConsistency :: "batchpoints \<Rightarrow> string \<Rightarrow> batchpoints" where
  "SetWriteConsistency bp wc = bp\<lparr>WriteConsistency := wc\<rparr>"

definition SetRetentionPolicy :: "batchpoints \<Rightarrow> string \<Rightarrow> batchpoints" where
  "SetRetentionPolicy bp rp = bp\<lparr>RetentionPolicy := rp\<rparr>"

text \<open>
  What the rest of the program relies on in the interface \<open>BatchPoints\<close>: adding appends
  one point and touches nothing else, and naming the database keeps the points.
\<close>

locale batch_points =
  fixes add :: "'b \<Rightarrow> 'p \<Rightarrow> 'b"
    and points :: "'b \<Rightarrow> 'p list"
    and set_db :: "'b \<Rightarrow> string \<Rightarrow> 'b"
    and db :: "'b \<Rightarrow> string"
  assumes points_add: "points (add b p) = points b @ [p]"
    and db_add: "db (add b p) = db b"
    and points_set_db: "points (set_db b d) = points b"
    and db_set_db: "db (set_db b d) = d"
    and set_db_twice: "set_db (set_db b d) e = set_db b e"
begin

lemma points_add_all: "points (foldl add b ps) = points b @ ps"
  by (induction ps arbitrary: b) (simp_all add: points_add)

lemma db_add_all: "db (foldl add b ps) = db b"
  by (induction ps arbitrary: b) (simp_all add: db_add)

lemma add_all_batches: "points (foldl (foldl add) b pss) = points b @ concat pss"
  by (induction pss arbitrary: b) (simp_all add: points_add_all)

end

interpretation bp: batch_points AddPoint Points SetDatabase Database
  by unfold_locales (simp_all add: AddPoint_def SetDatabase_def)

lemma NewBatchPoints_default:
  "NewBatchPoints zero_BatchPointsConfig =
     Inr \<lparr>Points = [], Database = '''', Precision = ''ns'', RetentionPolicy = '''',
          WriteConsistency = ''''\<rparr>"
  by (simp add: NewBatchPoints_def zero_BatchPointsConfig_def ParseDuration_1ns)


section \<open>The metrics gatherer\<close>

record MetricsGatherer =
  BatchPoints :: batchpoints
  mg_ScriptId :: string
  mg_DropletId :: int
  mg_WorkerId :: int32
  mg_TestId :: int

definition NewMetricsGatherer :: "string \<Rightarrow> int \<Rightarrow> int32 \<Rightarrow> MetricsGatherer result" where
  "NewMetricsGatherer scriptId dropletId workerId =
    (case NewBatchPoints zero_BatchPointsConfig of
       Inl e \<Rightarrow> Inl e
     | Inr bps \<Rightarrow> Inr \<lparr>BatchPoints = bps, mg_ScriptId = scriptId, mg_DropletId = dropletId,
         mg_WorkerId = workerId, mg_TestId = 0\<rparr>)"

definition ClearBatchPoints :: "MetricsGatherer \<Rightarrow> batchpoints result \<times> MetricsGatherer" where
  "ClearBatchPoints m = (case NewBatchPoints zero_BatchPointsConfig of
     Inl e \<Rightarrow> (Inl e, m)
   | Inr newBps \<Rightarrow> (Inr (BatchPoints m), m\<lparr>BatchPoints := newBps\<rparr>))"

definition add_metric :: "string \<Rightarrow> (string \<rightharpoonup> gval) \<Rightarrow> int \<Rightarrow> MetricsGatherer \<Rightarrow> MetricsGatherer" where
  "add_metric table flds now m =
     m\<lparr>BatchPoints := AddPoint (BatchPoints m) (NewPoint table Map.empty flds [now])\<rparr>"

definition IncrScriptExecution :: "int \<Rightarrow> MetricsGatherer \<Rightarrow> MetricsGatherer" where
  "IncrScriptExecution now m = add_metric ''ExecutionExecutionTable''
    [''serverId'' \<mapsto> GInt (mg_DropletId m), ''threadId'' \<mapsto> GInt32 (mg_WorkerId m),
     ''testId'' \<mapsto> GInt (mg_TestId m), ''id'' \<mapsto> GStr (mg_ScriptId m)] now m"

definition IncrStepExecution :: "string \<Rightarrow> int \<Rightarrow> int \<Rightarrow> MetricsGatherer \<Rightarrow> MetricsGatherer" where
  "IncrStepExecution step dur now m = add_metric ''StepExecutionTable''
    [''serverId'' \<mapsto> GInt (mg_DropletId m), ''threadId'' \<mapsto> GInt32 (mg_WorkerId m),
     ''testId'' \<mapsto> GInt (mg_TestId m), ''id'' \<mapsto> GStr (mg_ScriptId m),
     ''duration_ns'' \<mapsto> GInt64 dur, ''step'' \<mapsto> GStr step] now m"

definition IncrStepError :: "string \<Rightarrow> int \<Rightarrow> MetricsGatherer \<Rightarrow> MetricsGatherer" where
  "IncrStepError step now m = add_metric ''StepErrorTable''
    [''serverId'' \<mapsto> GInt (mg_DropletId m), ''threadId'' \<mapsto> GInt32 (mg_WorkerId m),
     ''testId'' \<mapsto> GInt (mg_TestId m), ''id'' \<mapsto> GStr (mg_ScriptId m),
     ''step'' \<mapsto> GStr step] now m"

definition IncrHTTPGet :: "string \<Rightarrow> int \<Rightarrow> int \<Rightarrow> int \<Rightarrow> MetricsGatherer \<Rightarrow> MetricsGatherer" where
  "IncrHTTPGet url code duration now m = add_metric ''GetRequestTable''
    [''serverId'' \<mapsto> GInt (mg_DropletId m), ''threadId'' \<mapsto> GInt32 (mg_WorkerId m),
     ''testId'' \<mapsto> GInt (mg_TestId m), ''id'' \<mapsto> GStr (mg_ScriptId m),
     ''url'' \<mapsto> GStr url, ''code'' \<mapsto> GInt code, ''duration_ns'' \<mapsto> GInt64 duration] now m"

definition IncrHTTPPost :: "string \<Rightarrow> int \<Rightarrow> int \<Rightarrow> int \<Rightarrow> MetricsGatherer \<Rightarrow> MetricsGatherer" where
  "IncrHTTPPost url code duration now m = add_metric ''PostRequestTable''
    [''serverId'' \<mapsto> GInt (mg_DropletId m), ''threadId'' \<mapsto> GInt32 (mg_WorkerId m),
     ''testId'' \<mapsto> GInt (mg_TestId m), ''id'' \<mapsto> GStr (mg_ScriptId m),
     ''url'' \<mapsto> GStr url, ''code'' \<mapsto> GInt code, ''duration_ns'' \<mapsto> GInt64 duration] now m"

definition IncrHTTPError :: "string \<Rightarrow> int \<Rightarrow> MetricsGatherer \<Rightarrow> MetricsGatherer" where
  "IncrHTTPError url now m = add_metric ''ErrorRequestTable''
    [''serverId'' \<mapsto> GInt (mg_DropletId m), ''threadId'' \<mapsto> GInt32 (mg_WorkerId m),
     ''testId'' \<mapsto> GInt (mg_TestId m), ''id'' \<mapsto> GStr (mg_ScriptId m),
     ''url'' \<mapsto> GStr url] now m"

definition AddLuaError :: "gerror \<Rightarrow> int \<Rightarrow> MetricsGatherer \<Rightarrow> MetricsGatherer" where
  "AddLuaError err now m = add_metric ''LuaErrorTable''
    [''serverId'' \<mapsto> GInt (mg_DropletId m), ''threadId'' \<mapsto> GInt32 (mg_WorkerId m),
     ''testId'' \<mapsto> GInt (mg_TestId m), ''id'' \<mapsto> GStr (mg_ScriptId m),
     ''error'' \<mapsto> GStr (Error err)] now m"

definition logMsg :: "gval \<Rightarrow> string \<Rightarrow> int \<Rightarrow> MetricsGatherer \<Rightarrow> MetricsGatherer" where
  "logMsg msg level now m = add_metric ''LogTable''
    [''serverId'' \<mapsto> GInt (mg_DropletId m), ''threadId'' \<mapsto> GInt32 (mg_WorkerId m),
     ''testId'' \<mapsto> GInt (mg_TestId m), ''id'' \<mapsto> GStr (mg_ScriptId m),
     ''msg'' \<mapsto> msg, ''level'' \<mapsto> GStr level] now m"

definition IncrLogInfo :: "gval \<Rightarrow> int \<Rightarrow> MetricsGatherer \<Rightarrow> MetricsGatherer" where
  "IncrLogInfo msg now m = logMsg msg ''info'' now m"

definition IncrLogFatal :: "gval \<Rightarrow> int \<Rightarrow> MetricsGatherer \<Rightarrow> MetricsGatherer" where
  "IncrLogFatal msg now m = logMsg msg ''fatal'' now m"

lemmas metric_op_defs = IncrScriptExecution_def IncrStepExecution_def IncrStepError_def
  IncrHTTPGet_def IncrHTTPPost_def IncrHTTPError_def AddLuaError_def IncrLogInfo_def
  IncrLogFatal_def logMsg_def add_metric_def NewPoint_def


section \<open>The interface \<open>MetricReporter\<close>\<close>

text \<open>
  One constructor per method of the interface, with its arguments; durations are in
  nanoseconds.
\<close>

datatype metric_call =
    CallScriptExecution
  | CallStepExecution string int
  | CallStepError string
  | CallHTTPGet string int int
  | CallHTTPPost string int int
  | CallHTTPError string
  | CallLogInfo gval
  | CallLogFatal gval

text \<open>The dispatch of a call to \<open>*MetricsGatherer\<close> and to \<open>nullMetric\<close>.\<close>

fun gatherer_report :: "metric_call \<Rightarrow> int \<Rightarrow> MetricsGatherer \<Rightarrow> MetricsGatherer" where
  "gatherer_report CallScriptExecution now m = IncrScriptExecution now m"
| "gatherer_report (CallStepExecution s d) now m = IncrStepExecution s d now m"
| "gatherer_report (CallStepError s) now m = IncrStepError s now m"
| "gatherer_report (CallHTTPGet u c d) now m = IncrHTTPGet u c d now m"
| "gatherer_report (CallHTTPPost u c d) now m = IncrHTTPPost u c d now m"
| "gatherer_report (CallHTTPError u) now m = IncrHTTPError u now m"
| "gatherer_report (CallLogInfo v) now m = IncrLogInfo v now m"
| "gatherer_report (CallLogFatal v) now m = IncrLogFatal v now m"

definition nullMetric_report :: "metric_call \<Rightarrow> int \<Rightarrow> unit \<Rightarrow> unit" where
  "nullMetric_report c now m = m"

text \<open>
  The contract of a reporter: a call may append points to what it has recorded, never
  removes or changes one, and keeps the identity its points carry.
\<close>

locale metric_reporter =
  fixes report :: "metric_call \<Rightarrow> int \<Rightarrow> 'm \<Rightarrow> 'm"
    and recorded :: "'m \<Rightarrow> Point list"
    and ident :: "'m \<Rightarrow> 'i"
  assumes report_extends: "prefix (recorded m) (recorded (report c now m))"
    and report_ident: "ident (report c now m) = ident m"
begin

definition report_all :: "(metric_call \<times> int) list \<Rightarrow> 'm \<Rightarrow> 'm" where
  "report_all cs m = foldl (\<lambda>m (c, now). report c now m) m cs"

lemma report_all_extends: "prefix (recorded m) (recorded (report_all cs m))"
proof (induction cs arbitrary: m)
  case (Cons c cs)
  obtain k t where c: "c = (k, t)" by (cases c)
  have "prefix (recorded m) (recorded (report k t m))" by (rule report_extends)
  also have "prefix \<dots> (recorded (report_all cs (report k t m)))" by (rule Cons.IH)
  finally show ?case by (simp add: report_all_def c)
qed (simp add: report_all_def)

lemma report_all_ident: "ident (report_all cs m) = ident m"
  by (induction cs arbitrary: m) (auto simp: report_all_def report_ident)

end

definition gatherer_ident :: "MetricsGatherer \<Rightarrow> string \<times> int \<times> int32 \<times> int" where
  "gatherer_ident m = (mg_ScriptId m, mg_DropletId m, mg_WorkerId m, mg_TestId m)"

definition gatherer_points :: "MetricsGatherer \<Rightarrow> Point list" where
  "gatherer_points m = Points (BatchPoints m)"

interpretation nullMetric: metric_reporter nullMetric_report "\<lambda>_. []" "\<lambda>_. ()"
  by unfold_locales simp_all

interpretation gatherer: metric_reporter gatherer_report gatherer_points gatherer_ident
  by (unfold_locales; case_tac c)
    (simp_all add: metric_op_defs gatherer_ident_def gatherer_points_def AddPoint_def)

text \<open>The identity a point carries: the four fields every table has.\<close>

definition point_ident :: "Point \<Rightarrow> gval option \<times> gval option \<times> gval option \<times> gval option" where
  "point_ident p = (pt_fields p ''id'', pt_fields p ''serverId'', pt_fields p ''threadId'',
     pt_fields p ''testId'')"

definition ident_fields ::
  "string \<times> int \<times> int32 \<times> int \<Rightarrow> gval option \<times> gval option \<times> gval option \<times> gval option" where
  "ident_fields i = (case i of (sid, did, wid, tid) \<Rightarrow>
     (Some (GStr sid), Some (GInt did), Some (GInt32 wid), Some (GInt tid)))"

lemma gatherer_report_point:
  "\<exists>p. gatherer_points (gatherer_report c now m) = gatherer_points m @ [p] \<and>
       point_ident p = ident_fields (gatherer_ident m) \<and> pt_time p = now"
  by (cases c) (simp_all add: metric_op_defs gatherer_points_def AddPoint_def point_ident_def
      ident_fields_def gatherer_ident_def)

lemma AddLuaError_point:
  "\<exists>p. gatherer_points (AddLuaError e now m) = gatherer_points m @ [p] \<and>
       point_ident p = ident_fields (gatherer_ident m) \<and> pt_time p = now"
  by (simp add: metric_op_defs gatherer_points_def AddPoint_def point_ident_def
      ident_fields_def gatherer_ident_def)

lemma gatherer_ident_AddLuaError: "gatherer_ident (AddLuaError e now m) = gatherer_ident m"
  by (simp add: metric_op_defs gatherer_ident_def)

lemma gatherer_run_points:
  "\<exists>ps. gatherer_points (gatherer.report_all cs m) = gatherer_points m @ ps \<and>
        length ps = length cs \<and> map pt_time ps = map snd cs \<and>
        (\<forall>p \<in> set ps. point_ident p = ident_fields (gatherer_ident m))"
proof (induction cs arbitrary: m)
  case (Cons c cs)
  obtain k t where c: "c = (k, t)" by (cases c)
  obtain p where p: "gatherer_points (gatherer_report k t m) = gatherer_points m @ [p]"
      "point_ident p = ident_fields (gatherer_ident m)" "pt_time p = t"
    using gatherer_report_point by blast
  obtain ps where ps: "gatherer_points (gatherer.report_all cs (gatherer_report k t m)) =
        gatherer_points (gatherer_report k t m) @ ps"
      "length ps = length cs" "map pt_time ps = map snd cs"
      "\<forall>p \<in> set ps. point_ident p = ident_fields (gatherer_ident m)"
    using Cons.IH [of "gatherer_report k t m"] by (auto simp: gatherer.report_ident)
  have "gatherer.report_all (c # cs) m = gatherer.report_all cs (gatherer_report k t m)"
    by (simp add: gatherer.report_all_def c)
  with p ps show ?case by (intro exI [of _ "p # ps"]) (simp add: c)
qed (simp add: gatherer.report_all_def)

text \<open>\<open>ClearBatchPoints\<close> never fails, hands out all points and leaves none behind.\<close>

lemma ClearBatchPoints_spec:
  "\<exists>bps m'. ClearBatchPoints m = (Inr bps, m') \<and> Points bps = gatherer_points m \<and>
     gatherer_points m' = [] \<and> gatherer_ident m' = gatherer_ident m"
  by (simp add: ClearBatchPoints_def NewBatchPoints_default gatherer_points_def gatherer_ident_def)

lemma NewMetricsGatherer_spec:
  "\<exists>m. NewMetricsGatherer sid did wid = Inr m \<and> gatherer_points m = [] \<and>
       gatherer_ident m = (sid, did, wid, 0)"
  by (simp add: NewMetricsGatherer_def NewBatchPoints_default gatherer_points_def gatherer_ident_def)

end
