(* ===== verification/Persistence.thy ===== *)
theory Persistence
  imports Metrics
begin

text \<open>
  The persisters (\<open>executor/persister\<close>), the client calls they make
  (\<open>client/v2/client.go\<close>) and the functions of \<open>executor/controller/controller.go\<close> that
  collect the gatherers' batches and hand them to a persister. The HTTP transport, URL
  parsing and the line-protocol printing of a point are parameters; a nil pointer or
  interface is \<open>None\<close>.
\<close>

section \<open>The InfluxDB client\<close>

record ClientConfig =
  conf_URL :: string
  conf_Username :: string
  conf_Password :: string
  conf_UserAgent :: string
  conf_InsecureSkipVerify :: bool

record client =
  cl_url :: string
  cl_username :: string
  cl_password :: string
  cl_useragent :: string
  cl_insecureSkipVerify :: bool

definition NewClient :: "ClientConfig \<Rightarrow> client" where
  "NewClient conf = \<lparr>cl_url = conf_URL conf, cl_username = conf_Username conf,
     cl_password = conf_Password conf,
     cl_useragent = (if conf_UserAgent conf = '''' then ''InfluxDBClient'' else conf_UserAgent conf),
     cl_insecureSkipVerify = conf_InsecureSkipVerify conf\<rparr>"

text \<open>The POST of \<open>Write\<close>: path, body, credentials and query parameters.\<close>

record write_request =
  wr_url :: string
  wr_path :: string
  wr_body :: string
  wr_useragent :: string
  wr_auth :: "(string \<times> string) option"
  wr_params :: "(string \<times> string) list"

definition write_request_of :: "(Point \<Rightarrow> string \<Rightarrow> string) \<Rightarrow> client \<Rightarrow> batchpoints \<Rightarrow> write_request" where
  "write_request_of PrecisionString c bp =
    \<lparr>wr_url = cl_url c, wr_path = ''write'',
     wr_body = concat (map (\<lambda>p. PrecisionString p (Precision bp) @ [CHR 0x0A]) (Points bp)),
     wr_useragent = cl_useragent c,
     wr_auth = (if cl_username c = '''' then None else Some (cl_username c, cl_password c)),
     wr_params = [(''db'', Database bp), (''rp'', RetentionPolicy bp),
       (''precision'', Precision bp), (''consistency'', WriteConsistency bp)]\<rparr>"

text \<open>
  \<open>http\<close> performs the request and reads the body: an error, or the status code and the
  body. Codes 204 and 200 are success; any other makes the body the error.
\<close>

definition Write ::
  "(Point \<Rightarrow> string \<Rightarrow> string) \<Rightarrow> (write_request \<Rightarrow> 'w \<Rightarrow> (int \<times> string) result \<times> 'w) \<Rightarrow>
   client \<Rightarrow> batchpoints \<Rightarrow> 'w \<Rightarrow> errorv \<times> 'w" where
  "Write PrecisionString http c bp w =
    (case http (write_request_of PrecisionString c bp) w of
       (Inl e, w') \<Rightarrow> (Some e, w')
     | (Inr (code, body), w') \<Rightarrow>
         if code \<noteq> 204 \<and> code \<noteq> 200 then (Some (Errorf body), w') else (None, w'))"

text \<open>
  A query's response: the values of a row are their printed form, as \<open>fmt\<close>'s \<open>%v\<close> prints
  the decoded JSON numbers.
\<close>

record Row =
  row_Values :: "string list list"

record Result =
  res_Series :: "Row list"
  res_Err :: errorv

record Response =
  resp_Results :: "Result list"
  resp_Err :: errorv

fun first_error :: "Result list \<Rightarrow> errorv" where
  "first_error [] = None"
| "first_error (r # rs) = (case res_Err r of Some e \<Rightarrow> Some e | None \<Rightarrow> first_error rs)"

definition Response_Error :: "Response \<Rightarrow> errorv" where
  "Response_Error r = (case resp_Err r of Some e \<Rightarrow> Some e | None \<Rightarrow> first_error (resp_Results r))"

definition empty_Response :: Response where
  "empty_Response = \<lparr>resp_Results = [], resp_Err = None\<rparr>"

text \<open>
  \<open>http\<close> answers a query (command and database) with an error, or with the status code
  and the decoded response or decoding error.
\<close>

definition Query ::
  "(string \<times> string \<Rightarrow> 'w \<Rightarrow> (int \<times> Response result) result \<times> 'w) \<Rightarrow>
   string \<times> string \<Rightarrow> 'w \<Rightarrow> (Response option \<times> errorv) \<times> 'w" where
  "Query http q w = (case http q w of
     (Inl e, w') \<Rightarrow> ((None, Some e), w')
   | (Inr (code, dec), w') \<Rightarrow>
       let dec' = (case dec of
                     Inl e \<Rightarrow> if Error e = ''EOF'' \<and> code \<noteq> 200 then Inr empty_Response else Inl e
                   | Inr r \<Rightarrow> Inr r) in
       case dec' of
         Inl e \<Rightarrow> ((None, Some e), w')
       | Inr r \<Rightarrow>
           if code \<noteq> 200 \<and> Response_Error r = None
           then ((Some r, Some (Errorf (''received status code '' @ show_int code @ '' from server''))), w')
           else ((Some r, None), w'))"


section \<open>The InfluxDB persister\<close>

record InfluxPersister =
  ip_client :: "client option"
  ip_database :: string

definition parseUrl :: "string \<Rightarrow> bool \<Rightarrow> string" where
  "parseUrl url useSsl =
    (let pre = (if useSsl then ''https://'' else ''http://'') in
     if \<not> HasPrefix url pre then concat [pre, url] else url)"

definition SetupPersister ::
  "(string \<Rightarrow> string result) \<Rightarrow> string \<Rightarrow> string \<Rightarrow> string \<Rightarrow> string \<Rightarrow> bool \<Rightarrow>
   InfluxPersister \<Rightarrow> errorv \<times> InfluxPersister" where
  "SetupPersister url_Parse influxIP user pass database useSsl f =
    (case url_Parse (parseUrl influxIP useSsl) of
       Inl e \<Rightarrow> (Some e, f)
     | Inr url \<Rightarrow>
         let c = NewClient \<lparr>conf_URL = url, conf_Username = user, conf_Password = pass,
                   conf_UserAgent = '''', conf_InsecureSkipVerify = useSsl\<rparr> in
         (None, f\<lparr>ip_database := database, ip_client := Some c\<rparr>))"

definition Persist ::
  "(Point \<Rightarrow> string \<Rightarrow> string) \<Rightarrow> (write_request \<Rightarrow> 'w \<Rightarrow> (int \<times> string) result \<times> 'w) \<Rightarrow>
   InfluxPersister \<times> 'w \<Rightarrow> batchpoints option \<Rightarrow>
   (errorv \<times> batchpoints option \<times> (InfluxPersister \<times> 'w)) go" where
  "Persist PrecisionString http fw bps = (case fw of (f, w) \<Rightarrow>
     case bps of
       None \<Rightarrow> nil_deref
     | Some b \<Rightarrow>
         let b' = SetDatabase b (ip_database f) in
         (case ip_client f of
            None \<Rightarrow> nil_deref
          | Some c \<Rightarrow> (case Write PrecisionString http c b' w of
              (e, w') \<Rightarrow> Ret (e, Some b', (f, w')))))"

text \<open>\<open>strconv.ParseInt\<close> in base 10 with the width of \<open>int\<close>.\<close>

definition ParseInt10 :: "string \<Rightarrow> int result" where
  "ParseInt10 s =
    (let sign = (s \<noteq> [] \<and> (hd s = CHR ''-'' \<or> hd s = CHR ''+''));
         ds = (if sign then tl s else s);
         v = int (read_nat ds) * (if sign \<and> hd s = CHR ''-'' then - 1 else 1) in
     if ds = [] \<or> \<not> list_all is_digit ds then Inl (Errorf (''invalid syntax: '' @ s))
     else if - (2 ^ 63) \<le> v \<and> v < 2 ^ 63 then Inr v
     else Inl (Errorf (''value out of range: '' @ s)))"

definition count_command :: "string \<Rightarrow> string \<Rightarrow> string" where
  "count_command tableName testID =
     ''select count(id) from '' @ tableName @ '' where id='' @ [CHR 0x27] @ testID @ [CHR 0x27]"

text \<open>\<open>res[0].Series[0].Values[0][1]\<close>, with Go's index panics.\<close>

definition count_cell :: "Result list \<Rightarrow> string go" where
  "count_cell res = (case res of
     [] \<Rightarrow> Panic ''runtime error: index out of range''
   | r # _ \<Rightarrow> (case res_Series r of
       [] \<Rightarrow> Panic ''runtime error: index out of range''
     | row # _ \<Rightarrow> (case row_Values row of
         (_ # x # _) # _ \<Rightarrow> Ret x
       | _ \<Rightarrow> Panic ''runtime error: index out of range'')))"

definition CountOccurrences ::
  "(string \<times> string \<Rightarrow> 'w \<Rightarrow> (int \<times> Response result) result \<times> 'w) \<Rightarrow>
   InfluxPersister \<Rightarrow> string \<Rightarrow> string \<Rightarrow> 'w \<Rightarrow> (int \<times> errorv) go \<times> 'w" where
  "CountOccurrences http f testID tableName w = (case ip_client f of
     None \<Rightarrow> (nil_deref, w)
   | Some c \<Rightarrow>
     (case Query http (count_command tableName testID, ip_database f) w of
        ((_, Some e), w') \<Rightarrow> (Ret (0, Some e), w')
      | ((None, None), w') \<Rightarrow> (nil_deref, w')
      | ((Some result, None), w') \<Rightarrow>
          (case Response_Error result of
             Some e \<Rightarrow> (Ret (0, Some e), w')
           | None \<Rightarrow>
               let res = resp_Results result in
               if res = [] then (Ret (0, Some (Errorf ''no rows found'')), w')
               else (go_bind (count_cell res) (\<lambda>stringCount.
                 case ParseInt10 stringCount of
                   Inl e \<Rightarrow> Ret (0, Some (Errorf (''what I got back was not an int: '' @ Error e)))
                 | Inr n \<Rightarrow> Ret (n, None)), w'))))"

definition DropData ::
  "(string \<times> string \<Rightarrow> 'w \<Rightarrow> (int \<times> Response result) result \<times> 'w) \<Rightarrow>
   InfluxPersister \<Rightarrow> string \<Rightarrow> 'w \<Rightarrow> errorv go \<times> 'w" where
  "DropData http f tableName w = (case ip_client f of
     None \<Rightarrow> (nil_deref, w)
   | Some c \<Rightarrow> (case Query http (''drop series '' @ tableName, ip_database f) w of
       ((_, err), w') \<Rightarrow> (Ret err, w')))"


section \<open>The in-memory persister of the tests\<close>

record TestPersister =
  GetRequestContent :: "string list"
  LoggingContent :: "string list"

text \<open>\<open>fmt\<close>'s rendering of one field and of the whole field map are parameters.\<close>

definition test_record ::
  "(gval option \<Rightarrow> string) \<Rightarrow> ((string \<rightharpoonup> gval) \<Rightarrow> string) \<Rightarrow> TestPersister \<Rightarrow> Point \<Rightarrow> TestPersister" where
  "test_record verb show_map f p =
    (if pt_name p = ''GetRequestTable''
     then f\<lparr>GetRequestContent := GetRequestContent f @
       [verb (pt_fields p ''id'') @ '': '' @ verb (pt_fields p ''url'') @ '' '' @ verb (pt_fields p ''code'')]\<rparr>
     else f\<lparr>LoggingContent := LoggingContent f @
       [verb (pt_fields p ''id'') @ '': '' @ show_map (pt_fields p)]\<rparr>)"

definition TestPersist ::
  "(gval option \<Rightarrow> string) \<Rightarrow> ((string \<rightharpoonup> gval) \<Rightarrow> string) \<Rightarrow> TestPersister \<Rightarrow> batchpoints option \<Rightarrow>
   (errorv \<times> batchpoints option \<times> TestPersister) go" where
  "TestPersist verb show_map f bps = (case bps of
     None \<Rightarrow> nil_deref
   | Some b \<Rightarrow> Ret (None, Some b, foldl (test_record verb show_map) f (Points b)))"

definition TestSetupPersister ::
  "string \<Rightarrow> string \<Rightarrow> string \<Rightarrow> string \<Rightarrow> bool \<Rightarrow> TestPersister \<Rightarrow> errorv \<times> TestPersister" where
  "TestSetupPersister influxIP user pass database useSsl f = (None, f)"


section \<open>Sending with retries\<close>

definition maxRetries :: nat where
  "maxRetries = 10"

text \<open>
  \<open>sendBatchPoints\<close>: the loop gives up when an attempt fails with more than
  \<open>maxRetries\<close> tries counted.
\<close>

function sendBatch_loop ::
  "('p \<Rightarrow> batchpoints option \<Rightarrow> (errorv \<times> batchpoints option \<times> 'p) go) \<Rightarrow> nat \<Rightarrow>
   batchpoints option \<Rightarrow> 'p \<Rightarrow> (errorv \<times> batchpoints option \<times> 'p) go" where
  "sendBatch_loop persist numTries bps p = (case persist p bps of
     Panic m \<Rightarrow> Panic m
   | Ret (None, bps', p') \<Rightarrow> Ret (None, bps', p')
   | Ret (Some err, bps', p') \<Rightarrow>
       if numTries > maxRetries then Ret (Some err, bps', p')
       else sendBatch_loop persist (numTries + 1) bps' p')"
  by pat_completeness auto
termination
  by (relation "measure (\<lambda>(persist, n, bps, p). maxRetries + 1 - n)") auto

declare sendBatch_loop.simps [simp del]

definition sendBatchPoints ::
  "('p \<Rightarrow> batchpoints option \<Rightarrow> (errorv \<times> batchpoints option \<times> 'p) go) \<Rightarrow>
   'p \<Rightarrow> batchpoints option \<Rightarrow> (errorv \<times> batchpoints option \<times> 'p) go" where
  "sendBatchPoints persist p bps = sendBatch_loop persist 0 bps p"

text \<open>\<open>getBatchPoints\<close> clears every gatherer in order into one new batch.\<close>

fun collect_batches ::
  "batchpoints \<Rightarrow> MetricsGatherer list \<Rightarrow> batchpoints result \<times> MetricsGatherer list" where
  "collect_batches bps [] = (Inr bps, [])"
| "collect_batches bps (m # ms) = (case ClearBatchPoints m of
     (Inl e, m') \<Rightarrow> (Inl e, m' # ms)
   | (Inr subBps, m') \<Rightarrow>
       (case collect_batches (foldl AddPoint bps (Points subBps)) ms of
          (r, ms') \<Rightarrow> (r, m' # ms')))"

definition getBatchPoints :: "MetricsGatherer list \<Rightarrow> batchpoints result \<times> MetricsGatherer list" where
  "getBatchPoints metricsList = (case NewBatchPoints zero_BatchPointsConfig of
     Inl e \<Rightarrow> (Inl e, metricsList)
   | Inr bps \<Rightarrow> collect_batches bps metricsList)"

text \<open>
  \<open>sendData\<close> logs both errors and goes on; when collecting fails it sends the nil batch.
\<close>

definition sendData ::
  "('p \<Rightarrow> batchpoints option \<Rightarrow> (errorv \<times> batchpoints option \<times> 'p) go) \<Rightarrow>
   MetricsGatherer list \<Rightarrow> 'p \<Rightarrow> (MetricsGatherer list \<times> 'p) go" where
  "sendData persist metricsList p = (case getBatchPoints metricsList of
     (r, ms') \<Rightarrow>
       let bps = (case r of Inl e \<Rightarrow> None | Inr b \<Rightarrow> Some b) in
       (case sendBatchPoints persist p bps of
          Panic m \<Rightarrow> Panic m
        | Ret (err, bps', p') \<Rightarrow> Ret (ms', p')))"


section \<open>The contract of a persister\<close>

text \<open>A number of consecutive attempts, with the errors they returned.\<close>

fun attempts ::
  "('p \<Rightarrow> batchpoints option \<Rightarrow> (errorv \<times> batchpoints option \<times> 'p) go) \<Rightarrow> nat \<Rightarrow>
   batchpoints option \<Rightarrow> 'p \<Rightarrow> (errorv list \<times> batchpoints option \<times> 'p) go" where
  "attempts persist 0 b p = Ret ([], b, p)"
| "attempts persist (Suc n) b p = (case persist p b of
     Panic m \<Rightarrow> Panic m
   | Ret (e, b', p') \<Rightarrow> (case attempts persist n b' p' of
       Panic m \<Rightarrow> Panic m
     | Ret (es, b'', p'') \<Rightarrow> Ret (e # es, b'', p'')))"

text \<open>
  What the controller relies on: a persister that is set up persists a batch without
  panicking, stays set up, and leaves the points of the batch alone.
\<close>

locale persister =
  fixes persist :: "'p \<Rightarrow> batchpoints option \<Rightarrow> (errorv \<times> batchpoints option \<times> 'p) go"
    and ready :: "'p \<Rightarrow> bool"
  assumes persist_total:
    "ready p \<Longrightarrow> \<exists>e b' p'. persist p (Some b) = Ret (e, Some b', p') \<and> ready p' \<and> Points b' = Points b"
begin

lemma sendBatch_loop_spec:
  assumes "ready p" and "j + numTries = maxRetries + 1"
  shows "\<exists>k es b' p'. k \<le> Suc j \<and> attempts persist k (Some b) p = Ret (es, Some b', p') \<and>
     es \<noteq> [] \<and> None \<notin> set (butlast es) \<and> (last es = None \<or> k = Suc j) \<and>
     Points b' = Points b \<and> ready p' \<and>
     sendBatch_loop persist numTries (Some b) p = Ret (last es, Some b', p')"
  using assms
proof (induction j arbitrary: numTries b p)
  case 0
  obtain e b' p' where p: "persist p (Some b) = Ret (e, Some b', p')" "ready p'" "Points b' = Points b"
    using persist_total [OF \<open>ready p\<close>] by blast
  have "sendBatch_loop persist numTries (Some b) p = Ret (e, Some b', p')"
    using p(1) 0(2) by (subst sendBatch_loop.simps) (simp split: option.splits)
  with p show ?case
    by (intro exI [of _ "Suc 0"] exI [of _ "[e]"] exI [of _ b'] exI [of _ p']) simp
next
  case (Suc j)
  obtain e b1 p1 where p: "persist p (Some b) = Ret (e, Some b1, p1)" "ready p1" "Points b1 = Points b"
    using persist_total [OF \<open>ready p\<close>] by blast
  show ?case
  proof (cases e)
    case None
    with p show ?thesis
      by (intro exI [of _ "Suc 0"] exI [of _ "[None]"] exI [of _ b1] exI [of _ p1])
        (simp add: sendBatch_loop.simps [of persist numTries])
  next
    case (Some err)
    have "j + (numTries + 1) = maxRetries + 1" using Suc.prems(2) by simp
    from Suc.IH [OF p(2) this, of b1] obtain k es b' p' where IH: "k \<le> Suc j"
        "attempts persist k (Some b1) p1 = Ret (es, Some b', p')" "es \<noteq> []"
        "None \<notin> set (butlast es)" "last es = None \<or> k = Suc j" "Points b' = Points b1" "ready p'"
        "sendBatch_loop persist (numTries + 1) (Some b1) p1 = Ret (last es, Some b', p')"
      by blast
    have "\<not> numTries > maxRetries" using Suc.prems(2) by simp
    with p IH Some show ?thesis
      by (intro exI [of _ "Suc k"] exI [of _ "e # es"] exI [of _ b'] exI [of _ p'])
        (auto simp: sendBatch_loop.simps [of persist numTries])
  qed
qed

text \<open>
  At most twelve attempts (\<open>maxRetries + 2\<close>): the first success ends the loop, and only the
  twelfth failure is reported.
\<close>

lemma sendBatchPoints_spec:
  assumes "ready p"
  shows "\<exists>k es b' p'. k \<le> maxRetries + 2 \<and> attempts persist k (Some b) p = Ret (es, Some b', p') \<and>
     es \<noteq> [] \<and> None \<notin> set (butlast es) \<and> (last es = None \<or> k = maxRetries + 2) \<and>
     Points b' = Points b \<and> ready p' \<and>
     sendBatchPoints persist p (Some b) = Ret (last es, Some b', p')"
  using sendBatch_loop_spec [OF assms, of "maxRetries + 1" 0 b]
  by (simp add: sendBatchPoints_def)

end

interpretation influx: persister "Persist line http" "\<lambda>(f, w). ip_client f \<noteq> None"
  for line :: "Point \<Rightarrow> string \<Rightarrow> string"
    and http :: "write_request \<Rightarrow> 'w \<Rightarrow> (int \<times> string) result \<times> 'w"
  by unfold_locales
    (auto simp: Persist_def bp.points_set_db Let_def split: prod.splits)

interpretation testp: persister "TestPersist verb show_map" "\<lambda>_. True"
  for verb :: "gval option \<Rightarrow> string" and show_map :: "(string \<rightharpoonup> gval) \<Rightarrow> string"
  by unfold_locales (simp add: TestPersist_def)


section \<open>Collecting the batches\<close>

lemma collect_batches_spec:
  "\<exists>b ms'. collect_batches bps ms = (Inr b, ms') \<and>
     Points b = Points bps @ concat (map gatherer_points ms) \<and>
     length ms' = length ms \<and> map gatherer_ident ms' = map gatherer_ident ms \<and>
     (\<forall>m \<in> set ms'. gatherer_points m = [])"
proof (induction ms arbitrary: bps)
  case (Cons m ms)
  obtain sub m' where c: "ClearBatchPoints m = (Inr sub, m')" "Points sub = gatherer_points m"
      "gatherer_points m' = []" "gatherer_ident m' = gatherer_ident m"
    using ClearBatchPoints_spec by blast
  obtain b ms' where IH: "collect_batches (foldl AddPoint bps (Points sub)) ms = (Inr b, ms')"
      "Points b = Points bps @ gatherer_points m @ concat (map gatherer_points ms)"
      "length ms' = length ms" "map gatherer_ident ms' = map gatherer_ident ms"
      "\<forall>m \<in> set ms'. gatherer_points m = []"
    using Cons.IH [of "foldl AddPoint bps (Points sub)"] by (auto simp: bp.points_add_all c(2))
  with c show ?case by (intro exI [of _ b] exI [of _ "m' # ms'"]) simp
qed simp

lemma getBatchPoints_spec:
  "\<exists>b ms'. getBatchPoints ms = (Inr b, ms') \<and>
     Points b = concat (map gatherer_points ms) \<and>
     length ms' = length ms \<and> map gatherer_ident ms' = map gatherer_ident ms \<and>
     (\<forall>m \<in> set ms'. gatherer_points m = [])"
proof -
  obtain b0 where b0: "NewBatchPoints zero_BatchPointsConfig = Inr b0" "Points b0 = []"
    by (simp add: NewBatchPoints_default)
  show ?thesis
    using collect_batches_spec [of b0 ms] b0 by (simp add: getBatchPoints_def)
qed



section \<open>Properties\<close>

text \<open>
  C26. Sending a batch with the InfluxDB persister always ends: there is at least one attempt and
  at most \<open>maxRetries + 2 = 12\<close>, all but the last of them failed, the first success ends the
  loop, the result is that of the last attempt, and the points of the batch are never changed by
  an attempt.
\<close>

theorem sendBatchPoints_attempts:
  assumes "ip_client f \<noteq> None"
  shows "\<exists>k es b' fw'. k \<le> 12 \<and> attempts (Persist line http) k (Some b) (f, w) = Ret (es, Some b', fw') \<and>
     es \<noteq> [] \<and> None \<notin> set (butlast es) \<and> (last es = None \<or> k = 12) \<and> Points b' = Points b \<and>
     sendBatchPoints (Persist line http) (f, w) (Some b) = Ret (last es, Some b', fw')"
proof -
  have max: "maxRetries + 2 = 12" by (simp add: maxRetries_def)
  have "case (f, w) of (f, w) \<Rightarrow> ip_client f \<noteq> None" using assms by simp
  from influx.sendBatchPoints_spec [OF this, of line http b, unfolded max]
  obtain k es b' fw' where "k \<le> 12" "attempts (Persist line http) k (Some b) (f, w) = Ret (es, Some b', fw')"
     "es \<noteq> []" "None \<notin> set (butlast es)" "last es = None \<or> k = 12" "Points b' = Points b"
     "sendBatchPoints (Persist line http) (f, w) (Some b) = Ret (last es, Some b', fw')"
    by (elim exE conjE)
  then show ?thesis
    by (intro exI [of _ k] exI [of _ es] exI [of _ b'] exI [of _ fw'] conjI)
qed

definition demo_influx :: InfluxPersister where
  "demo_influx = \<lparr>ip_client = Some (NewClient \<lparr>conf_URL = ''http://db'', conf_Username = '''',
     conf_Password = '''', conf_UserAgent = '''', conf_InsecureSkipVerify = False\<rparr>), ip_database = ''db''\<rparr>"

theorem sendBatchPoints_attempts_witness:
  "\<exists>k es b' fw'. k \<le> 12 \<and> es \<noteq> [] \<and>
     attempts (Persist (\<lambda>p _. pt_name p) (\<lambda>_ n :: nat. (Inl (Errorf ''refused''), n + 1))) k
       (Some \<lparr>Points = [], Database = '''', Precision = ''ns'', RetentionPolicy = '''', WriteConsistency = ''''\<rparr>)
       (demo_influx, 0) = Ret (es, Some b', fw')"
proof -
  have "ip_client demo_influx \<noteq> None" by (simp add: demo_influx_def)
  from sendBatchPoints_attempts [OF this, of "\<lambda>p _. pt_name p" "\<lambda>_ n :: nat. (Inl (Errorf ''refused''), n + 1)"
      "\<lparr>Points = [], Database = '''', Precision = ''ns'', RetentionPolicy = '''', WriteConsistency = ''''\<rparr>" 0]
  show ?thesis by (elim exE conjE) (rule exI, rule exI, rule exI, rule exI, intro conjI)
qed

text \<open>
  Collecting never fails, returns the points of all gatherers in the order of the list and
  leaves every gatherer empty with its identity kept, so the same point is never collected twice.
\<close>

theorem getBatchPoints_collects_all:
  "\<exists>b ms' b2 ms2. getBatchPoints ms = (Inr b, ms') \<and> Points b = concat (map gatherer_points ms) \<and>
     map gatherer_ident ms' = map gatherer_ident ms \<and> getBatchPoints ms' = (Inr b2, ms2) \<and> Points b2 = []"
proof -
  obtain b ms' where b: "getBatchPoints ms = (Inr b, ms')" "Points b = concat (map gatherer_points ms)"
     "map gatherer_ident ms' = map gatherer_ident ms" "\<forall>m \<in> set ms'. gatherer_points m = []"
    using getBatchPoints_spec by blast
  obtain b2 ms2 where "getBatchPoints ms' = (Inr b2, ms2)" "Points b2 = concat (map gatherer_points ms')"
    using getBatchPoints_spec by blast
  with b show ?thesis by auto
qed

text \<open>
  A persister that was set up writes a batch as one request to the configured server: the
  database set up for it, the credentials when there is a user name, and one line per point in
  order; status codes 200 and 204 are the only success.
\<close>

theorem Persist_after_setup:
  assumes "SetupPersister url_Parse addr user pass db ssl f = (None, f')"
    and "http rq w = (Inr (code, body), w')"
    and "rq = \<lparr>wr_url = url, wr_path = ''write'',
      wr_body = concat (map (\<lambda>p. line p (Precision b) @ [CHR 0x0A]) (Points b)),
      wr_useragent = ''InfluxDBClient'',
      wr_auth = (if user = '''' then None else Some (user, pass)),
      wr_params = [(''db'', db), (''rp'', RetentionPolicy b), (''precision'', Precision b),
        (''consistency'', WriteConsistency b)]\<rparr>"
    and "url_Parse (parseUrl addr ssl) = Inr url"
  shows "\<exists>e b'. Persist line http (f', w) (Some b) = Ret (e, Some b', (f', w')) \<and>
    Points b' = Points b \<and> (e = None \<longleftrightarrow> code = 200 \<or> code = 204)"
proof -
  let ?c = "NewClient \<lparr>conf_URL = url, conf_Username = user, conf_Password = pass,
                   conf_UserAgent = '''', conf_InsecureSkipVerify = ssl\<rparr>"
  have f': "ip_client f' = Some ?c" "ip_database f' = db"
    using assms(1,4) by (auto simp: SetupPersister_def Let_def)
  have "write_request_of line ?c (SetDatabase b db) = rq"
    by (simp add: assms(3) write_request_of_def NewClient_def SetDatabase_def)
  with f' assms(2) show ?thesis
    by (auto simp: Persist_def Let_def Write_def SetDatabase_def)
qed

theorem Persist_after_setup_witness:
  "\<exists>f' e b'. SetupPersister Inr ''db'' '''' '''' ''m'' False \<lparr>ip_client = None, ip_database = ''''\<rparr> = (None, f') \<and>
     Persist (\<lambda>p _. pt_name p) (\<lambda>_ n :: nat. (Inr (204, ''''), n + 1)) (f', 0)
       (Some \<lparr>Points = [], Database = '''', Precision = ''ns'', RetentionPolicy = '''', WriteConsistency = ''''\<rparr>) =
       Ret (e, Some b', (f', 1)) \<and> e = None"
proof -
  obtain f' where f': "SetupPersister Inr ''db'' '''' '''' ''m'' False \<lparr>ip_client = None, ip_database = ''''\<rparr> = (None, f')"
    by (simp add: SetupPersister_def Let_def)
  let ?b = "\<lparr>Points = [], Database = '''', Precision = ''ns'', RetentionPolicy = '''', WriteConsistency = ''''\<rparr>"
  from Persist_after_setup [OF f', of "\<lambda>_ n :: nat. (Inr (204, ''''), n + 1)" _ 0 204 "''''" 1 "''http://db''"
      "\<lambda>p _. pt_name p" ?b]
  show ?thesis using f' by (auto simp: parseUrl_def)
qed

end
