(* ===== verification/Flags.thy ===== *)
theory Flags
  imports Persistence
begin

text \<open>
  Options of the commands: the part of Go's \<open>flag\<close> package the programs use, the
  environment flags of \<open>envflag\<close> and the command line of \<open>codegangsta/cli\<close>. A flag's
  value lives in a cell of a heap, because \<open>schedulerd\<close> registers every variable twice, as a
  command line flag and as an environment flag.
\<close>

section \<open>Splitting and reading text\<close>

fun split_on :: "char \<Rightarrow> string \<Rightarrow> string list" where
  "split_on d [] = [[]]"
| "split_on d (c # cs) = (if c = d then [] # split_on d cs
     else case split_on d cs of [] \<Rightarrow> [[c]] | w # ws \<Rightarrow> (c # w) # ws)"

definition Trim :: "char \<Rightarrow> string \<Rightarrow> string" where
  "Trim d s = rev (dropWhile (\<lambda>c. c = d) (rev (dropWhile (\<lambda>c. c = d) s)))"

definition is_space :: "char \<Rightarrow> bool" where
  "is_space c = ((of_char c :: nat) \<in> {9, 10, 11, 12, 13, 32})"

definition TrimSpace :: "string \<Rightarrow> string" where
  "TrimSpace s = rev (dropWhile is_space (rev (dropWhile is_space s)))"

text \<open>\<open>strconv.Atoi\<close>: an optional sign and decimal digits, within 64 bits.\<close>

definition Atoi :: "string \<Rightarrow> int option" where
  "Atoi s = (case ParseInt10 s of Inr i \<Rightarrow> Some i | Inl _ \<Rightarrow> None)"

text \<open>
  \<open>strconv.ParseInt\<close> with base 0 and 64 bits: the prefix \<open>0x\<close> or \<open>0\<close> selects the base.
\<close>

definition hex_val :: "char \<Rightarrow> nat option" where
  "hex_val c = (let n = of_char c in
     if 48 \<le> n \<and> n \<le> 57 then Some (n - 48)
     else if 97 \<le> n \<and> n \<le> 102 then Some (n - 87)
     else if 65 \<le> n \<and> n \<le> 70 then Some (n - 55) else None)"

fun read_base :: "nat \<Rightarrow> nat \<Rightarrow> string \<Rightarrow> nat option" where
  "read_base b n [] = Some n"
| "read_base b n (c # cs) = (case hex_val c of
     Some d \<Rightarrow> if d < b then read_base b (b * n + d) cs else None
   | None \<Rightarrow> None)"

definition ParseInt :: "string \<Rightarrow> int option" where
  "ParseInt s =
    (let sign = (s \<noteq> [] \<and> (hd s = CHR ''-'' \<or> hd s = CHR ''+''));
         ds = (if sign then tl s else s);
         (b, ds') = (if HasPrefix ds ''0x'' \<or> HasPrefix ds ''0X'' then (16, drop 2 ds)
            else if HasPrefix ds ''0'' \<and> 1 < length ds then (8, tl ds) else (10, ds)) in
     if ds' = [] then None
     else case read_base b 0 ds' of
       None \<Rightarrow> None
     | Some n \<Rightarrow> let v = int n * (if sign \<and> hd s = CHR ''-'' then - 1 else 1) in
         if - (2 ^ 63) \<le> v \<and> v < 2 ^ 63 then Some v else None)"

text \<open>Printing durations, and reading and printing floats, is left to the standard library.\<close>

record text_ops =
  ParseFloat :: "string \<Rightarrow> f64 option"
  show_duration :: "int \<Rightarrow> string"
  show_float :: "f64 \<Rightarrow> string"

definition duration_of :: "string \<Rightarrow> int option" where
  "duration_of s = (case ParseDuration s of Inr d \<Rightarrow> Some d | Inl _ \<Rightarrow> None)"

definition ParseBool :: "string \<Rightarrow> bool option" where
  "ParseBool s =
    (if s \<in> {''1'', ''t'', ''T'', ''true'', ''TRUE'', ''True''} then Some True
     else if s \<in> {''0'', ''f'', ''F'', ''false'', ''FALSE'', ''False''} then Some False else None)"


section \<open>Flag sets\<close>

datatype fval =
    FvString string
  | FvInt int
  | FvBool bool
  | FvDuration int
  | FvFloat f64

type_synonym heap = "fval list"

fun fv_Set :: "text_ops \<Rightarrow> fval \<Rightarrow> string \<Rightarrow> fval option" where
  "fv_Set t (FvString _) s = Some (FvString s)"
| "fv_Set t (FvInt _) s = map_option FvInt (ParseInt s)"
| "fv_Set t (FvBool _) s = map_option FvBool (ParseBool s)"
| "fv_Set t (FvDuration _) s = map_option FvDuration (duration_of s)"
| "fv_Set t (FvFloat _) s = map_option FvFloat (ParseFloat t s)"

fun fv_String :: "text_ops \<Rightarrow> fval \<Rightarrow> string" where
  "fv_String t (FvString s) = s"
| "fv_String t (FvInt i) = show_int i"
| "fv_String t (FvBool b) = (if b then ''true'' else ''false'')"
| "fv_String t (FvDuration d) = show_duration t d"
| "fv_String t (FvFloat x) = show_float t x"

fun is_bool_flag :: "fval \<Rightarrow> bool" where
  "is_bool_flag (FvBool _) = True"
| "is_bool_flag _ = False"

record FlagSet =
  fs_formal :: "string \<rightharpoonup> nat"
  fs_actual :: "string list"
  fs_args :: "string list"

definition NewFlagSet :: FlagSet where
  "NewFlagSet = \<lparr>fs_formal = Map.empty, fs_actual = [], fs_args = []\<rparr>"

text \<open>\<open>fs_Var\<close> registers the cell \<open>a\<close>; \<open>fs_VarP\<close> first stores the default in a given cell, \<open>fs_New\<close> in a new one.\<close>

definition fs_Var :: "nat \<Rightarrow> string \<Rightarrow> FlagSet \<Rightarrow> FlagSet go" where
  "fs_Var a name fs = (if fs_formal fs name \<noteq> None then Panic (''flag redefined: '' @ name)
     else Ret (fs\<lparr>fs_formal := (fs_formal fs)(name \<mapsto> a)\<rparr>))"

definition fs_VarP :: "nat \<Rightarrow> string \<Rightarrow> fval \<Rightarrow> FlagSet \<times> heap \<Rightarrow> (FlagSet \<times> heap) go" where
  "fs_VarP a name v s = go_bind (fs_Var a name (fst s)) (\<lambda>fs. Ret (fs, (snd s)[a := v]))"

definition fs_New :: "string \<Rightarrow> fval \<Rightarrow> FlagSet \<times> heap \<Rightarrow> (FlagSet \<times> heap) go" where
  "fs_New name v s = go_bind (fs_Var (length (snd s)) name (fst s)) (\<lambda>fs. Ret (fs, snd s @ [v]))"

definition fs_Lookup :: "FlagSet \<times> heap \<Rightarrow> string \<Rightarrow> fval option" where
  "fs_Lookup s name = (case fs_formal (fst s) name of
     None \<Rightarrow> None
   | Some a \<Rightarrow> if a < length (snd s) then Some (snd s ! a) else None)"

definition fs_Set :: "text_ops \<Rightarrow> string \<Rightarrow> string \<Rightarrow> FlagSet \<times> heap \<Rightarrow> errorv \<times> FlagSet \<times> heap" where
  "fs_Set t name value s = (case fs_formal (fst s) name of
     None \<Rightarrow> (Some (Errorf (''no such flag -'' @ name)), s)
   | Some a \<Rightarrow> (case fv_Set t (snd s ! a) value of
       None \<Rightarrow> (Some (Errorf (''invalid value '' @ go_quote value @ '' for flag -'' @ name)), s)
     | Some v \<Rightarrow> (None, (fst s)\<lparr>fs_actual := name # fs_actual (fst s)\<rparr>, (snd s)[a := v])))"

text \<open>
  Parsing: \<open>-name\<close>, \<open>-name=value\<close> or \<open>-name value\<close>, with one dash or two, up to the first
  argument that is none of these.
\<close>

definition flag_parts :: "string \<Rightarrow> string \<times> string option" where
  "flag_parts s = (case s of
     [] \<Rightarrow> ([], None)
   | c # cs \<Rightarrow> (c # takeWhile (\<lambda>x. x \<noteq> CHR ''='') cs,
       case dropWhile (\<lambda>x. x \<noteq> CHR ''='') cs of [] \<Rightarrow> None | _ # v \<Rightarrow> Some v))"

fun parse_flags :: "text_ops \<Rightarrow> string list \<Rightarrow> FlagSet \<times> heap \<Rightarrow> errorv \<times> FlagSet \<times> heap" where
  "parse_flags t [] s = (None, (fst s)\<lparr>fs_args := []\<rparr>, snd s)"
| "parse_flags t (a # rest) s =
    (case a of
       [] \<Rightarrow> (None, (fst s)\<lparr>fs_args := a # rest\<rparr>, snd s)
     | c # b \<Rightarrow>
       if c \<noteq> CHR ''-'' \<or> b = [] then (None, (fst s)\<lparr>fs_args := a # rest\<rparr>, snd s)
       else if b = ''-'' then (None, (fst s)\<lparr>fs_args := rest\<rparr>, snd s)
       else
         let nm = (if hd b = CHR ''-'' then tl b else b) in
         if hd nm = CHR ''-'' \<or> hd nm = CHR ''='' then (Some (Errorf (''bad flag syntax: '' @ a)), s)
         else (case flag_parts nm of (name, val) \<Rightarrow>
           (case fs_Lookup s name of
              None \<Rightarrow> (Some (Errorf (if name = ''help'' \<or> name = ''h'' then ''flag: help requested''
                 else ''flag provided but not defined: -'' @ name)), s)
            | Some v \<Rightarrow>
                (case val of
                   Some x \<Rightarrow> (case fs_Set t name x s of
                     (Some e, s') \<Rightarrow> (Some e, s')
                   | (None, s') \<Rightarrow> parse_flags t rest s')
                 | None \<Rightarrow>
                     if is_bool_flag v then (case fs_Set t name ''true'' s of
                       (Some e, s') \<Rightarrow> (Some e, s')
                     | (None, s') \<Rightarrow> parse_flags t rest s')
                     else (case rest of
                       [] \<Rightarrow> (Some (Errorf (''flag needs an argument: -'' @ name)), s)
                     | x # rest' \<Rightarrow> (case fs_Set t name x s of
                         (Some e, s') \<Rightarrow> (Some e, s')
                       | (None, s') \<Rightarrow> parse_flags t rest' s'))))))"


section \<open>Environment flags\<close>

text \<open>The typed wrappers of \<open>envflag\<close> differ in the type of the default only.\<close>

definition envflag_StringVar :: "nat \<Rightarrow> string \<Rightarrow> string \<Rightarrow> FlagSet \<times> heap \<Rightarrow> (FlagSet \<times> heap) go" where
  "envflag_StringVar p name v = fs_VarP p name (FvString v)"

definition envflag_IntVar :: "nat \<Rightarrow> string \<Rightarrow> int \<Rightarrow> FlagSet \<times> heap \<Rightarrow> (FlagSet \<times> heap) go" where
  "envflag_IntVar p name v = fs_VarP p name (FvInt v)"

definition envflag_DurationVar :: "nat \<Rightarrow> string \<Rightarrow> int \<Rightarrow> FlagSet \<times> heap \<Rightarrow> (FlagSet \<times> heap) go" where
  "envflag_DurationVar p name v = fs_VarP p name (FvDuration v)"

definition envflag_BoolVar :: "nat \<Rightarrow> string \<Rightarrow> bool \<Rightarrow> FlagSet \<times> heap \<Rightarrow> (FlagSet \<times> heap) go" where
  "envflag_BoolVar p name v = fs_VarP p name (FvBool v)"

definition envflag_Set :: "text_ops \<Rightarrow> string \<Rightarrow> string \<Rightarrow> FlagSet \<times> heap \<Rightarrow> errorv \<times> FlagSet \<times> heap" where
  "envflag_Set t name value s = fs_Set t name value s"

definition envflag_Lookup :: "string \<Rightarrow> FlagSet \<times> heap \<Rightarrow> fval option" where
  "envflag_Lookup name s = fs_Lookup s name"

fun env_args :: "FlagSet \<times> heap \<Rightarrow> string list \<Rightarrow> string list go" where
  "env_args s [] = Ret []"
| "env_args s (e # es) =
    (if CHR ''='' \<notin> set e then Panic ''runtime error: slice bounds out of range''
     else go_bind (env_args s es) (\<lambda>args.
       if envflag_Lookup (takeWhile (\<lambda>c. c \<noteq> CHR ''='') e) s = None then Ret args
       else Ret ((''-'' @ e) # args)))"

definition envflag_Parse :: "text_ops \<Rightarrow> string list \<Rightarrow> FlagSet \<times> heap \<Rightarrow> (errorv \<times> FlagSet \<times> heap) go" where
  "envflag_Parse t env s = go_bind (env_args s env) (\<lambda>args. Ret (parse_flags t args s))"


section \<open>The command line application\<close>

text \<open>A \<open>cli.Flag\<close>: its names, default and the environment variables that replace the default.\<close>

datatype cli_flag =
    StringFlag string string string
  | IntFlag string int string
  | DurationFlag string int string
  | Float64Flag string f64 string
  | BoolFlag string string

fun getName :: "cli_flag \<Rightarrow> string" where
  "getName (StringFlag n _ _) = n"
| "getName (IntFlag n _ _) = n"
| "getName (DurationFlag n _ _) = n"
| "getName (Float64Flag n _ _) = n"
| "getName (BoolFlag n _) = n"

definition eachName :: "string \<Rightarrow> string list" where
  "eachName longName = map (Trim (CHR '' '')) (split_on (CHR '','') longName)"

text \<open>
  The \<open>Apply\<close> methods take the first variable with a valid value, except that a boolean flag stops
  at the first non-empty one and a float flag goes on to the last valid one.
\<close>

fun first_env :: "(string \<Rightarrow> 'a option) \<Rightarrow> (string \<Rightarrow> string) \<Rightarrow> string list \<Rightarrow> 'a \<Rightarrow> 'a" where
  "first_env parse getenv [] v = v"
| "first_env parse getenv (x # xs) v = (let s = getenv (TrimSpace x) in
     if s = '''' then first_env parse getenv xs v
     else case parse s of Some v' \<Rightarrow> v' | None \<Rightarrow> first_env parse getenv xs v)"

fun bool_env :: "(string \<Rightarrow> string) \<Rightarrow> string list \<Rightarrow> bool \<Rightarrow> bool" where
  "bool_env getenv [] v = v"
| "bool_env getenv (x # xs) v = (let s = getenv (TrimSpace x) in
     if s = '''' then bool_env getenv xs v
     else case ParseBool s of Some v' \<Rightarrow> v' | None \<Rightarrow> v)"

fun last_env :: "(string \<Rightarrow> 'a option) \<Rightarrow> (string \<Rightarrow> string) \<Rightarrow> string list \<Rightarrow> 'a \<Rightarrow> 'a" where
  "last_env parse getenv [] v = v"
| "last_env parse getenv (x # xs) v = (let s = getenv (TrimSpace x) in
     last_env parse getenv xs (if s = '''' then v else case parse s of Some v' \<Rightarrow> v' | None \<Rightarrow> v))"

fun new_flags :: "fval \<Rightarrow> string list \<Rightarrow> FlagSet \<times> heap \<Rightarrow> (FlagSet \<times> heap) go" where
  "new_flags v [] s = Ret s"
| "new_flags v (n # ns) s = go_bind (fs_New n v s) (new_flags v ns)"

definition env_vars :: "string \<Rightarrow> string list" where
  "env_vars e = (if e \<noteq> '''' then split_on (CHR '','') e else [])"

definition StringFlag_Apply ::
  "(string \<Rightarrow> string) \<Rightarrow> string \<Rightarrow> string \<Rightarrow> string \<Rightarrow> FlagSet \<times> heap \<Rightarrow> (FlagSet \<times> heap) go" where
  "StringFlag_Apply getenv name v e = new_flags (FvString (first_env Some getenv (env_vars e) v)) (eachName name)"

definition IntFlag_Apply ::
  "(string \<Rightarrow> string) \<Rightarrow> string \<Rightarrow> int \<Rightarrow> string \<Rightarrow> FlagSet \<times> heap \<Rightarrow> (FlagSet \<times> heap) go" where
  "IntFlag_Apply getenv name v e = new_flags (FvInt (first_env ParseInt getenv (env_vars e) v)) (eachName name)"

definition DurationFlag_Apply ::
  "(string \<Rightarrow> string) \<Rightarrow> string \<Rightarrow> int \<Rightarrow> string \<Rightarrow> FlagSet \<times> heap \<Rightarrow> (FlagSet \<times> heap) go" where
  "DurationFlag_Apply getenv name v e =
     new_flags (FvDuration (first_env duration_of getenv (env_vars e) v)) (eachName name)"

definition Float64Flag_Apply ::
  "text_ops \<Rightarrow> (string \<Rightarrow> string) \<Rightarrow> string \<Rightarrow> f64 \<Rightarrow> string \<Rightarrow> FlagSet \<times> heap \<Rightarrow> (FlagSet \<times> heap) go" where
  "Float64Flag_Apply t getenv name v e =
     new_flags (FvFloat (last_env (ParseFloat t) getenv (env_vars e) v)) (eachName name)"

definition BoolFlag_Apply ::
  "(string \<Rightarrow> string) \<Rightarrow> string \<Rightarrow> string \<Rightarrow> FlagSet \<times> heap \<Rightarrow> (FlagSet \<times> heap) go" where
  "BoolFlag_Apply getenv name e = new_flags (FvBool (bool_env getenv (env_vars e) False)) (eachName name)"

fun cli_Apply :: "text_ops \<Rightarrow> (string \<Rightarrow> string) \<Rightarrow> cli_flag \<Rightarrow> FlagSet \<times> heap \<Rightarrow> (FlagSet \<times> heap) go" where
  "cli_Apply t getenv (StringFlag n v e) s = StringFlag_Apply getenv n v e s"
| "cli_Apply t getenv (IntFlag n v e) s = IntFlag_Apply getenv n v e s"
| "cli_Apply t getenv (DurationFlag n v e) s = DurationFlag_Apply getenv n v e s"
| "cli_Apply t getenv (Float64Flag n v e) s = Float64Flag_Apply t getenv n v e s"
| "cli_Apply t getenv (BoolFlag n e) s = BoolFlag_Apply getenv n e s"

fun cli_flagSet :: "text_ops \<Rightarrow> (string \<Rightarrow> string) \<Rightarrow> cli_flag list \<Rightarrow> FlagSet \<times> heap \<Rightarrow> (FlagSet \<times> heap) go" where
  "cli_flagSet t getenv [] s = Ret s"
| "cli_flagSet t getenv (f # fs) s = go_bind (cli_Apply t getenv f s) (cli_flagSet t getenv fs)"

text \<open>
  A context is a flag set with the contexts it is nested in, innermost first; the heap is the one
  all of them share.
\<close>

record Context =
  ctx_flagSet :: FlagSet
  ctx_parents :: "FlagSet list"
  ctx_heap :: heap

definition lookupGlobalFlagSet :: "string \<Rightarrow> Context \<Rightarrow> FlagSet option" where
  "lookupGlobalFlagSet name c = find (\<lambda>fs. fs_formal fs name \<noteq> None)
     (if ctx_parents c \<noteq> [] then ctx_parents c else [ctx_flagSet c])"

definition lookupString :: "text_ops \<Rightarrow> string \<Rightarrow> FlagSet \<times> heap \<Rightarrow> string" where
  "lookupString t name s = (case fs_Lookup s name of Some v \<Rightarrow> fv_String t v | None \<Rightarrow> '''')"

definition lookupInt :: "text_ops \<Rightarrow> string \<Rightarrow> FlagSet \<times> heap \<Rightarrow> int" where
  "lookupInt t name s = (case fs_Lookup s name of
     Some v \<Rightarrow> (case Atoi (fv_String t v) of Some i \<Rightarrow> i | None \<Rightarrow> 0) | None \<Rightarrow> 0)"

definition lookupDuration :: "text_ops \<Rightarrow> string \<Rightarrow> FlagSet \<times> heap \<Rightarrow> int" where
  "lookupDuration t name s = (case fs_Lookup s name of
     Some v \<Rightarrow> (case duration_of (fv_String t v) of Some d \<Rightarrow> d | None \<Rightarrow> 0) | None \<Rightarrow> 0)"

definition lookupFloat64 :: "text_ops \<Rightarrow> string \<Rightarrow> FlagSet \<times> heap \<Rightarrow> f64" where
  "lookupFloat64 t name s = (case fs_Lookup s name of
     Some v \<Rightarrow> (case ParseFloat t (fv_String t v) of Some x \<Rightarrow> x | None \<Rightarrow> Fin 0) | None \<Rightarrow> Fin 0)"

definition lookupBool :: "text_ops \<Rightarrow> string \<Rightarrow> FlagSet \<times> heap \<Rightarrow> bool" where
  "lookupBool t name s = (case fs_Lookup s name of
     Some v \<Rightarrow> (case ParseBool (fv_String t v) of Some b \<Rightarrow> b | None \<Rightarrow> False) | None \<Rightarrow> False)"

definition GlobalString :: "text_ops \<Rightarrow> Context \<Rightarrow> string \<Rightarrow> string" where
  "GlobalString t c name = (case lookupGlobalFlagSet name c of
     Some fs \<Rightarrow> lookupString t name (fs, ctx_heap c) | None \<Rightarrow> '''')"

definition GlobalInt :: "text_ops \<Rightarrow> Context \<Rightarrow> string \<Rightarrow> int" where
  "GlobalInt t c name = (case lookupGlobalFlagSet name c of
     Some fs \<Rightarrow> lookupInt t name (fs, ctx_heap c) | None \<Rightarrow> 0)"

definition GlobalDuration :: "text_ops \<Rightarrow> Context \<Rightarrow> string \<Rightarrow> int" where
  "GlobalDuration t c name = (case lookupGlobalFlagSet name c of
     Some fs \<Rightarrow> lookupDuration t name (fs, ctx_heap c) | None \<Rightarrow> 0)"

definition GlobalBool :: "text_ops \<Rightarrow> Context \<Rightarrow> string \<Rightarrow> bool" where
  "GlobalBool t c name = (case lookupGlobalFlagSet name c of
     Some fs \<Rightarrow> lookupBool t name (fs, ctx_heap c) | None \<Rightarrow> False)"

definition ctx_Bool :: "text_ops \<Rightarrow> Context \<Rightarrow> string \<Rightarrow> bool" where
  "ctx_Bool t c name = lookupBool t name (ctx_flagSet c, ctx_heap c)"

definition ctx_Float64 :: "text_ops \<Rightarrow> Context \<Rightarrow> string \<Rightarrow> f64" where
  "ctx_Float64 t c name = lookupFloat64 t name (ctx_flagSet c, ctx_heap c)"

definition ctx_Duration :: "text_ops \<Rightarrow> Context \<Rightarrow> string \<Rightarrow> int" where
  "ctx_Duration t c name = lookupDuration t name (ctx_flagSet c, ctx_heap c)"

text \<open>
  \<open>normalizeFlags\<close>: a flag with several names must be given by one of them, whose value is then
  copied to the others.
\<close>

fun given_form :: "string list \<Rightarrow> string list \<Rightarrow> string option \<Rightarrow> string option result" where
  "given_form visited [] ff = Inr ff"
| "given_form visited (n # ns) ff =
    (if n \<in> set visited then (case ff of
       Some m \<Rightarrow> Inl (Errorf (''Cannot use two forms of the same flag: '' @ n @ '' '' @ m))
     | None \<Rightarrow> given_form visited ns (Some n))
     else given_form visited ns ff)"

definition copyFlag :: "text_ops \<Rightarrow> string \<Rightarrow> string \<Rightarrow> FlagSet \<times> heap \<Rightarrow> FlagSet \<times> heap" where
  "copyFlag t name ff s = snd (fs_Set t name (lookupString t ff s) s)"

fun normalizeFlags :: "text_ops \<Rightarrow> string list \<Rightarrow> cli_flag list \<Rightarrow> FlagSet \<times> heap \<Rightarrow> errorv \<times> FlagSet \<times> heap" where
  "normalizeFlags t visited [] s = (None, s)"
| "normalizeFlags t visited (f # fs) s = (let parts = eachName (getName f) in
     if length parts = 1 then normalizeFlags t visited fs s
     else case given_form visited parts None of
       Inl e \<Rightarrow> (Some e, s)
     | Inr None \<Rightarrow> normalizeFlags t visited fs s
     | Inr (Some ff) \<Rightarrow> normalizeFlags t visited fs
         (foldl (\<lambda>s n. if n \<notin> set visited then copyFlag t n ff s else s) s parts))"

text \<open>
  \<open>App.Run\<close> for an application without commands of its own: what it does after parsing is to
  show the help or the version, to fail, to run the built-in help command, or to call \<open>Action\<close>
  after \<open>Before\<close> succeeded.
\<close>

definition HelpFlag :: cli_flag where
  "HelpFlag = BoolFlag ''help, h'' ''''"

definition VersionFlag :: cli_flag where
  "VersionFlag = BoolFlag ''version, v'' ''''"

definition checkHelp :: "text_ops \<Rightarrow> Context \<Rightarrow> bool" where
  "checkHelp t c = list_ex (\<lambda>n. GlobalBool t c n \<or> ctx_Bool t c n) (eachName (getName HelpFlag))"

definition checkVersion :: "text_ops \<Rightarrow> Context \<Rightarrow> bool" where
  "checkVersion t c = list_ex (\<lambda>n. GlobalBool t c n \<or> ctx_Bool t c n) (eachName (getName VersionFlag))"

datatype app_end = AppError gerror | AppHelp | AppVersion | AppAction Context

definition App_Run ::
  "text_ops \<Rightarrow> (string \<Rightarrow> string) \<Rightarrow> cli_flag list \<Rightarrow> (Context \<Rightarrow> errorv) \<Rightarrow> string list \<Rightarrow> app_end go" where
  "App_Run t getenv flags before arguments =
    (let flags' = flags @ [HelpFlag, VersionFlag] in
     go_bind (cli_flagSet t getenv flags' (NewFlagSet, [])) (\<lambda>s0.
       case parse_flags t arguments s0 of (err, s1) \<Rightarrow>
       (case normalizeFlags t (fs_actual (fst s1)) flags' s1 of
          (Some nerr, _) \<Rightarrow> Ret (AppError nerr)
        | (None, s2) \<Rightarrow>
            let c = \<lparr>ctx_flagSet = fst s2, ctx_parents = [], ctx_heap = snd s2\<rparr> in
            (case err of
               Some e \<Rightarrow> Ret (AppError e)
             | None \<Rightarrow>
                 if checkHelp t c then Ret AppHelp
                 else if checkVersion t c then Ret AppVersion
                 else (case before c of
                   Some e \<Rightarrow> Ret (AppError e)
                 | None \<Rightarrow>
                     if fs_args (fst s2) \<noteq> [] \<and> hd (fs_args (fst s2)) \<in> {''help'', ''h''} then Ret AppHelp
                     else Ret (AppAction c))))))"

end
