(* ===== verification/SchedulerDB.thy ===== *)
theory SchedulerDB
  imports Messages
begin

text \<open>
  The scheduler's database of droplets, \<open>scheduler/db.go\<close>. The cloud API is a parameter, a
  record of functions on a cloud state. Launching executors is a labelled machine like the
  executor's controller: one goroutine per droplet, the goroutine that closes the channel, the
  caller's loop, and registrations that arrive over gRPC, all sharing the lock and the map of
  waiting droplets.
\<close>

section \<open>The cloud\<close>

record NetworkV4 =
  nw_IPAddress :: string
  nw_Type :: string

record Droplet =
  dr_ID :: int
  dr_Name :: string
  dr_Networks :: "NetworkV4 list option"

record DropletCreateSSHKey =
  sk_ID :: int
  sk_Fingerprint :: string

record DropletCreateRequest =
  cr_Name :: string
  cr_Region :: string
  cr_Size :: string
  cr_ImageSlug :: string
  cr_SSHKeys :: "DropletCreateSSHKey list"
  cr_PrivateNetworking :: bool
  cr_UserData :: string

record 'c cloud_ops =
  c_List :: "'c \<Rightarrow> Droplet list result \<times> 'c"
  c_Create :: "DropletCreateRequest \<Rightarrow> 'c \<Rightarrow> Droplet result \<times> 'c"
  c_Get :: "int \<Rightarrow> 'c \<Rightarrow> Droplet result \<times> 'c"
  c_Delete :: "int \<Rightarrow> 'c \<Rightarrow> errorv \<times> 'c"

text \<open>The part of \<open>Config\<close> in \<open>scheduler/server.go\<close>.\<close>

record Config =
  PullExecutorBinaryURL :: string
  AdvertiseListenAddr :: string
  SSHKeyIDs :: "DropletCreateSSHKey list"
  DropletRegion :: string
  DropletSize :: string
  DropletImageSlug :: string
  MaxWaitExecutorOnline :: int
  MaxWorkerPerExecutor :: int
  MaxExecPSPerExecutor :: int
  cfg_InfluxAddr :: string
  cfg_InfluxUsername :: string
  cfg_InfluxPassword :: string
  cfg_InfluxDBName :: string
  cfg_InfluxSSL :: bool


section \<open>Cleaning up and describing droplets\<close>

definition executorPrefix :: string where
  "executorPrefix = ''executor''"

text \<open>The boot script with its two quoted arguments.\<close>

definition nl :: string where
  "nl = [CHR 0x0A]"

definition bootSequence :: "string \<Rightarrow> string \<Rightarrow> string" where
  "bootSequence url addr = concat (map (\<lambda>l. l @ nl)
    [''#!/usr/bin/env bash'',
     '''',
     ''echo '' @ [CHR 0x22] @ ''the boot script started'' @ [CHR 0x22] @ '' > /tmp/bootscript.log'',
     ''mkdir -p /opt'',
     ''curl '' @ go_quote url @ '' > /opt/executord'',
     ''chmod +x /opt/executord'',
     '''',
     ''cat > /etc/systemd/system/load_executor.service <<EOF'',
     ''[Unit]'',
     ''Description=Load executor service'',
     '''',
     ''[Service]'',
     ''ExecStart=/opt/executord -scheduler_addr '' @ go_quote addr,
     ''Restart=always'',
     ''RestartSec=1'',
     '''',
     ''[Install]'',
     ''WantedBy=multi-user.target'',
     ''EOF'',
     '''',
     ''systemctl enable load_executor.service'',
     ''systemctl start load_executor.service''])"

definition droplet_request :: "Config \<Rightarrow> string \<Rightarrow> nat \<Rightarrow> DropletCreateRequest" where
  "droplet_request cfg sfx i = \<lparr>
     cr_Name = executorPrefix @ ''.'' @ sfx @ ''.'' @ show_nat i,
     cr_Region = DropletRegion cfg, cr_Size = DropletSize cfg, cr_ImageSlug = DropletImageSlug cfg,
     cr_SSHKeys = SSHKeyIDs cfg, cr_PrivateNetworking = True,
     cr_UserData = bootSequence (PullExecutorBinaryURL cfg) (AdvertiseListenAddr cfg)\<rparr>"

text \<open>The clean-up of \<open>NewDB\<close>: leftover executors are deleted, the first failure ends it.\<close>

fun cleanup :: "'c cloud_ops \<Rightarrow> Droplet list \<Rightarrow> 'c \<Rightarrow> errorv \<times> 'c" where
  "cleanup cloud [] c = (None, c)"
| "cleanup cloud (d # ds) c =
    (if \<not> HasPrefix (dr_Name d) executorPrefix then cleanup cloud ds c
     else case c_Delete cloud (dr_ID d) c of
       (Some err, c') \<Rightarrow> (Some err, c')
     | (None, c') \<Rightarrow> cleanup cloud ds c')"

definition NewDB :: "'c cloud_ops \<Rightarrow> 'c \<Rightarrow> unit result \<times> 'c" where
  "NewDB cloud c = (case c_List cloud c of
     (Inl err, c') \<Rightarrow> (Inl err, c')
   | (Inr droplets, c') \<Rightarrow> (case cleanup cloud droplets c' of
       (Some err, c'') \<Rightarrow> (Inl err, c'')
     | (None, c'') \<Rightarrow> (Inr (), c'')))"

fun first_public :: "NetworkV4 list \<Rightarrow> string \<times> bool" where
  "first_public [] = ('''', False)"
| "first_public (n # ns) = (if nw_Type n = ''public'' then (nw_IPAddress n, True) else first_public ns)"

definition ipv4PublicAddress :: "Droplet \<Rightarrow> string \<times> bool" where
  "ipv4PublicAddress d = (case dr_Networks d of None \<Rightarrow> ('''', False) | Some ns \<Rightarrow> first_public ns)"


section \<open>Launching executors\<close>

record executor =
  ex_droplet :: Droplet
  ex_ip :: string
  ex_port :: int
  ex_client :: bool
  ex_cmdClient :: bool

text \<open>
  A launching goroutine: not yet run, waiting for the registration of its droplet, holding the
  port it was sent, about to run its deferred removal, finished.
\<close>

datatype launch_phase =
    GNew
  | GWait int
  | GGot int int
  | GClean int
  | GDone

datatype launch_main =
    MLoop "executor list"
  | MRet "executor list result"

text \<open>
  \<open>waitDroplets\<close> maps a droplet to the contents of its channel, which holds one port. A
  registration that finds the channel full blocks while it holds the lock; this is the only way
  the lock is held from one step to the next. \<open>errors\<close>, \<open>timeouts\<close> and \<open>crash\<close> are: the errors
  ever put on \<open>errc\<close>, the goroutines that left on \<open>ctx.Done\<close>, a nil dereference.
\<close>

record 'c launch =
  la_cloud :: 'c
  waitDroplets :: "int \<rightharpoonup> int list"
  lock_held :: "(int \<times> int) option"
  gors :: "launch_phase list"
  executorc :: "executor list"
  executorc_closed :: bool
  errc :: "gerror list"
  ctx_Err :: errorv
  la_main :: launch_main
  la_crash :: bool
  la_errors :: nat
  la_timeouts :: nat

datatype launch_label =
    GCreate nat
  | GRecv nat
  | GTimeout nat
  | GGet nat
  | GRemove nat
  | GClose
  | NRecv
  | NClosed
  | NErr
  | NCtx
  | CtxDone gerror
  | Register int int
  | Unblock

definition set_gor :: "nat \<Rightarrow> launch_phase \<Rightarrow> 'c launch \<Rightarrow> 'c launch" where
  "set_gor i ph s = s\<lparr>gors := (gors s)[i := ph]\<rparr>"

text \<open>
  \<open>RegisterExecutorUp\<close> as far as it runs with the lock: the error it returns, or that it blocks.
\<close>

datatype register_outcome = RegDone errorv | RegBlocks

definition RegisterExecutorUp ::
  "'c cloud_ops \<Rightarrow> int \<Rightarrow> int \<Rightarrow> 'c launch \<Rightarrow> register_outcome \<times> 'c launch" where
  "RegisterExecutorUp cloud dropletID port s = (case waitDroplets s dropletID of
     None \<Rightarrow> (case c_Delete cloud dropletID (la_cloud s) of
       (err, c') \<Rightarrow>
         (RegDone (Some (Errorf (''unexpected droplet '' @ show_int dropletID @
            '' registered, delete request sent: '' @
            (case err of None \<Rightarrow> ''<nil>'' | Some e \<Rightarrow> Error e)))), s\<lparr>la_cloud := c'\<rparr>))
   | Some ports \<Rightarrow>
       if length ports < 1
       then (RegDone None, s\<lparr>waitDroplets := (waitDroplets s)(dropletID \<mapsto> ports @ [port])\<rparr>)
       else (RegBlocks, s\<lparr>lock_held := Some (dropletID, port)\<rparr>))"

fun gor_step :: "'c cloud_ops \<Rightarrow> Config \<Rightarrow> string \<Rightarrow> launch_label \<Rightarrow> 'c launch \<Rightarrow> 'c launch option" where
  "gor_step cloud cfg sfx (GCreate i) s =
    (if i < length (gors s) \<and> gors s ! i = GNew \<and> lock_held s = None then
       (case c_Create cloud (droplet_request cfg sfx i) (la_cloud s) of
          (Inl err, c') \<Rightarrow> Some (set_gor i GDone
            (s\<lparr>la_cloud := c', errc := errc s @ [err], la_errors := la_errors s + 1\<rparr>))
        | (Inr d, c') \<Rightarrow> Some (set_gor i (GWait (dr_ID d))
            (s\<lparr>la_cloud := c', waitDroplets := (waitDroplets s)(dr_ID d \<mapsto> [])\<rparr>)))
     else None)"
| "gor_step cloud cfg sfx (GRecv i) s =
    (if i < length (gors s) then
       (case gors s ! i of
          GWait did \<Rightarrow> (case waitDroplets s did of
            Some (port # ports) \<Rightarrow> Some (set_gor i (GGot did port)
              (s\<lparr>waitDroplets := (waitDroplets s)(did \<mapsto> ports)\<rparr>))
          | _ \<Rightarrow> None)
        | _ \<Rightarrow> None)
     else None)"
| "gor_step cloud cfg sfx (GTimeout i) s =
    (if i < length (gors s) then
       (case gors s ! i of
          GWait did \<Rightarrow> if ctx_Err s \<noteq> None
            then Some (set_gor i (GClean did) (s\<lparr>la_timeouts := la_timeouts s + 1\<rparr>)) else None
        | _ \<Rightarrow> None)
     else None)"
| "gor_step cloud cfg sfx (GGet i) s =
    (if i < length (gors s) then
       (case gors s ! i of
          GGot did port \<Rightarrow> (case c_Get cloud did (la_cloud s) of
              (Inl err, c') \<Rightarrow> Some (s\<lparr>la_cloud := c', la_crash := True\<rparr>)
            | (Inr d, c') \<Rightarrow> (case ipv4PublicAddress d of
                (ip, found) \<Rightarrow>
                  if \<not> found then Some (set_gor i (GClean did)
                    (s\<lparr>la_cloud := c', la_errors := la_errors s + 1, errc := errc s @
                       [Errorf (''no public IPv4 found on droplet '' @ show_int (dr_ID d))]\<rparr>))
                  else Some (set_gor i (GClean did)
                    (s\<lparr>la_cloud := c', executorc := executorc s @
                       [\<lparr>ex_droplet = d, ex_ip = ip, ex_port = port, ex_client = False, ex_cmdClient = False\<rparr>]\<rparr>))))
        | _ \<Rightarrow> None)
     else None)"
| "gor_step cloud cfg sfx (GRemove i) s =
    (if i < length (gors s) \<and> lock_held s = None then
       (case gors s ! i of
          GClean did \<Rightarrow> Some (set_gor i GDone (s\<lparr>waitDroplets := (waitDroplets s)(did := None)\<rparr>))
        | _ \<Rightarrow> None)
     else None)"
| "gor_step cloud cfg sfx _ s = None"

fun caller_step :: "launch_label \<Rightarrow> 'c launch \<Rightarrow> 'c launch option" where
  "caller_step GClose s =
    (if (\<forall>g \<in> set (gors s). g = GDone) \<and> \<not> executorc_closed s
     then Some (s\<lparr>executorc_closed := True\<rparr>) else None)"
| "caller_step NRecv s = (case la_main s of
     MLoop es \<Rightarrow> (case executorc s of
       e # rest \<Rightarrow> Some (s\<lparr>executorc := rest, la_main := MLoop (es @ [e])\<rparr>)
     | [] \<Rightarrow> None)
   | _ \<Rightarrow> None)"
| "caller_step NClosed s = (case la_main s of
     MLoop es \<Rightarrow> if executorc s = [] \<and> executorc_closed s then Some (s\<lparr>la_main := MRet (Inr es)\<rparr>) else None
   | _ \<Rightarrow> None)"
| "caller_step NErr s = (case la_main s of
     MLoop es \<Rightarrow> (case errc s of
       err # rest \<Rightarrow> Some (s\<lparr>errc := rest, la_main := MRet (Inl err)\<rparr>)
     | [] \<Rightarrow> None)
   | _ \<Rightarrow> None)"
| "caller_step NCtx s = (case la_main s of
     MLoop es \<Rightarrow> (case ctx_Err s of Some e \<Rightarrow> Some (s\<lparr>la_main := MRet (Inl e)\<rparr>) | None \<Rightarrow> None)
   | _ \<Rightarrow> None)"
| "caller_step _ s = None"

definition launch_step ::
  "'c cloud_ops \<Rightarrow> Config \<Rightarrow> string \<Rightarrow> launch_label \<Rightarrow> 'c launch \<Rightarrow> 'c launch option" where
  "launch_step cloud cfg sfx l s =
    (if la_crash s then None
     else case l of
       CtxDone e \<Rightarrow> (if ctx_Err s = None then Some (s\<lparr>ctx_Err := Some e\<rparr>) else None)
     | Register did port \<Rightarrow>
         if lock_held s = None then Some (snd (RegisterExecutorUp cloud did port s)) else None
     | Unblock \<Rightarrow> (case lock_held s of
         None \<Rightarrow> None
       | Some (did, port) \<Rightarrow> (case waitDroplets s did of
           Some [] \<Rightarrow> Some (s\<lparr>lock_held := None, waitDroplets := (waitDroplets s)(did \<mapsto> [port])\<rparr>)
         | _ \<Rightarrow> None))
     | GCreate _ \<Rightarrow> gor_step cloud cfg sfx l s | GRecv _ \<Rightarrow> gor_step cloud cfg sfx l s
     | GTimeout _ \<Rightarrow> gor_step cloud cfg sfx l s | GGet _ \<Rightarrow> gor_step cloud cfg sfx l s
     | GRemove _ \<Rightarrow> gor_step cloud cfg sfx l s
     | _ \<Rightarrow> caller_step l s)"

definition LaunchExecutors_start :: "nat \<Rightarrow> (int \<rightharpoonup> int list) \<Rightarrow> 'c \<Rightarrow> 'c launch" where
  "LaunchExecutors_start n wait c = \<lparr>la_cloud = c, waitDroplets = wait, lock_held = None,
     gors = replicate n GNew, executorc = [], executorc_closed = False, errc = [],
     ctx_Err = None, la_main = MLoop [], la_crash = False, la_errors = 0, la_timeouts = 0\<rparr>"

fun launch_exec ::
  "'c cloud_ops \<Rightarrow> Config \<Rightarrow> string \<Rightarrow> launch_label list \<Rightarrow> 'c launch \<Rightarrow> 'c launch option" where
  "launch_exec cloud cfg sfx [] s = Some s"
| "launch_exec cloud cfg sfx (l # ls) s = (case launch_step cloud cfg sfx l s of
     None \<Rightarrow> None | Some s' \<Rightarrow> launch_exec cloud cfg sfx ls s')"

end
