(* ===== verification/Executors.thy ===== *)
theory Executors
  imports SchedulerDB
begin

text \<open>
  The executors of one load test, \<open>scheduler/db.go\<close>: dialling, sending the run and halt commands,
  waiting for the end, destroying the droplets. Connections are a parameter, a record of functions
  on a network state. The goroutines that \<open>each\<close> starts work on different executors; one order of
  their completion and the case its \<open>select\<close> takes are arguments, and an order or a case that is
  not possible gives \<open>None\<close>.
\<close>

section \<open>The network\<close>

record 'x net_ops =
  n_done :: "'x \<Rightarrow> errorv"
  n_dial :: "string \<Rightarrow> 'x \<Rightarrow> errorv \<times> 'x"
  n_open :: "executor \<Rightarrow> 'x \<Rightarrow> errorv \<times> 'x"
  n_send :: "executor \<Rightarrow> CommandMessage \<Rightarrow> 'x \<Rightarrow> errorv \<times> 'x"
  n_recv :: "executor \<Rightarrow> 'x \<Rightarrow> StatusMessage result \<times> 'x"
  n_reply :: "LoadTestResp \<Rightarrow> 'x \<Rightarrow> errorv \<times> 'x"

text \<open>The loop of \<open>waitTilAlive\<close> retries on time-outs for as long as the context lives.\<close>

partial_function (option) dial_loop ::
  "'x net_ops \<Rightarrow> string \<Rightarrow> executor \<Rightarrow> 'x \<Rightarrow> (errorv \<times> executor \<times> 'x) option" where
  "dial_loop net url e x =
    (if ex_client e then Some (None, e, x)
     else case n_done net x of
       Some err \<Rightarrow> Some (Some err, e, x)
     | None \<Rightarrow> (case n_dial net url x of
         (Some err, x') \<Rightarrow>
           if err = ErrClientConnTimeout then dial_loop net url e x' else Some (Some err, e, x')
       | (None, x') \<Rightarrow> dial_loop net url (e\<lparr>ex_client := True\<rparr>) x'))"

definition waitTilAlive :: "'x net_ops \<Rightarrow> executor \<Rightarrow> 'x \<Rightarrow> (errorv \<times> executor \<times> 'x) option" where
  "waitTilAlive net e x =
    (if ex_client e then Some (None, e, x)
     else dial_loop net (ex_ip e @ '':'' @ show_int (ex_port e)) e x)"


section \<open>Running a function on each executor\<close>

type_synonym 'x task = "executor \<Rightarrow> 'x \<Rightarrow> (errorv \<times> executor \<times> 'x) go option"

fun run_tasks ::
  "'x task \<Rightarrow> nat list \<Rightarrow> executor list \<Rightarrow> 'x \<Rightarrow> (errorv list \<times> executor list \<times> 'x) go option" where
  "run_tasks fn [] es x = Some (Ret ([], es, x))"
| "run_tasks fn (i # is) es x = (case fn (es ! i) x of
     None \<Rightarrow> None
   | Some (Panic m) \<Rightarrow> Some (Panic m)
   | Some (Ret (err, e', x')) \<Rightarrow> (case run_tasks fn is (es[i := e']) x' of
       None \<Rightarrow> None
     | Some (Panic m) \<Rightarrow> Some (Panic m)
     | Some (Ret (errs, es', x'')) \<Rightarrow> Some (Ret (err # errs, es', x''))))"

fun first_err :: "errorv list \<Rightarrow> errorv" where
  "first_err [] = None"
| "first_err (Some e # _) = Some e"
| "first_err (None # es) = first_err es"

text \<open>
  The \<open>select\<close> of \<open>each\<close>: the context is done, or the channel of errors is ready when the first
  \<open>k\<close> goroutines have finished, because one of them failed or because all are through and the
  channel was closed.
\<close>

datatype pick = PickCtx | PickChan nat

definition select_each :: "errorv \<Rightarrow> pick \<Rightarrow> errorv list \<Rightarrow> errorv option" where
  "select_each ctx pk outs = (case pk of
     PickCtx \<Rightarrow> (case ctx of Some e \<Rightarrow> Some (Some e) | None \<Rightarrow> None)
   | PickChan k \<Rightarrow> (case first_err (take k outs) of
       Some e \<Rightarrow> Some (Some e)
     | None \<Rightarrow> if length outs \<le> k then Some None else None))"

definition is_order :: "nat list \<Rightarrow> nat \<Rightarrow> bool" where
  "is_order ord n = (sort ord = [0..<n])"

definition each ::
  "('x \<Rightarrow> errorv) \<Rightarrow> 'x task \<Rightarrow> nat list \<Rightarrow> pick \<Rightarrow> executor list \<Rightarrow> 'x \<Rightarrow>
   (errorv \<times> executor list \<times> 'x) go option" where
  "each ctx_err fn ord pk es x =
    (if \<not> is_order ord (length es) then None
     else case run_tasks fn ord es x of
       None \<Rightarrow> None
     | Some (Panic m) \<Rightarrow> Some (Panic m)
     | Some (Ret (outs, es', x')) \<Rightarrow> (case select_each (ctx_err x') pk outs of
         None \<Rightarrow> None
       | Some r \<Rightarrow> Some (Ret (r, es', x'))))"


section \<open>Commands\<close>

definition run_message ::
  "nat \<Rightarrow> string \<Rightarrow> string \<Rightarrow> string \<Rightarrow> int32 \<Rightarrow> int32 \<Rightarrow> f64 \<Rightarrow> f64 \<Rightarrow> int32 \<Rightarrow> int32 \<Rightarrow> string \<Rightarrow>
   CommandMessage go" where
  "run_message n url script scriptID runtime maxWorkers growthFactor timeBetweenGrowth startingRPS maxRPS config =
    go_bind (quot32 startingRPS (word_of_nat n)) (\<lambda>start. go_bind (quot32 maxRPS (word_of_nat n)) (\<lambda>mx.
      Ret \<lparr>Command = ''Run'', ScriptParamsPtr = Some \<lparr>Url = url, Script = script, ScriptId = scriptID,
        RunTime = runtime, MaxWorkers = maxWorkers, GrowthFactor = growthFactor,
        TimeBetweenGrowth = timeBetweenGrowth, StartingRequestsPerSecond = start,
        MaxRequestsPerSecond = mx\<rparr>, ScriptConfig = config\<rparr>))"

definition run_task :: "'x net_ops \<Rightarrow> CommandMessage go \<Rightarrow> 'x task" where
  "run_task net msg e x = (case waitTilAlive net e x of
     None \<Rightarrow> None
   | Some (Some err, e1, x1) \<Rightarrow> Some (Ret (Some err, e1, x1))
   | Some (None, e1, x1) \<Rightarrow>
       (let send = (\<lambda>e2 x2. (case msg of
              Panic m \<Rightarrow> Some (Panic m)
            | Ret inm \<Rightarrow> (case n_send net e2 inm x2 of (err, x3) \<Rightarrow> Some (Ret (err, e2, x3))))) in
        if ex_cmdClient e1 then send e1 x1
        else (case n_open net e1 x1 of
          (Some err, x2) \<Rightarrow> Some (Ret (Some err, e1, x2))
        | (None, x2) \<Rightarrow> send (e1\<lparr>ex_cmdClient := True\<rparr>) x2)))"

definition halt_task :: "'x net_ops \<Rightarrow> 'x task" where
  "halt_task net e x =
    (if \<not> ex_cmdClient e then Some (Ret (Some (Errorf ''nothing to halt''), e, x))
     else case n_send net e \<lparr>Command = ''Halt'', ScriptParamsPtr = None, ScriptConfig = ''''\<rparr> x of
       (err, x') \<Rightarrow> Some (Ret (err, e, x')))"

definition wait_task :: "'x net_ops \<Rightarrow> 'x task" where
  "wait_task net e x =
    (if \<not> ex_cmdClient e then Some (Ret (Some (Errorf ''no execution running''), e, x))
     else case n_recv net e x of
       (Inl err, x') \<Rightarrow> Some (Ret (Some err, e, x'))
     | (Inr res, x') \<Rightarrow> Some (Ret (None, e, x')))"

definition kill_task :: "'c cloud_ops \<Rightarrow> 'c task" where
  "kill_task cloud e c = (case c_Delete cloud (dr_ID (ex_droplet e)) c of
     (err, c') \<Rightarrow> Some (Ret (err, e, c')))"

definition executeCommand where
  "executeCommand net url script scriptID runtime maxWorkers growthFactor timeBetweenGrowth startingRPS maxRPS
     config ord pk es x =
   each (n_done net) (run_task net (run_message (length es) url script scriptID runtime maxWorkers growthFactor
     timeBetweenGrowth startingRPS maxRPS config)) ord pk es x"

definition haltCommand where
  "haltCommand net ord pk es x = each (n_done net) (halt_task net) ord pk es x"

definition waitCompletion where
  "waitCompletion net ord pk es x = each (n_done net) (wait_task net) ord pk es x"

text \<open>The background context of \<open>killall\<close> is never done.\<close>

definition killall where
  "killall cloud ord pk es c = each (\<lambda>_. None) (kill_task cloud) ord pk es c"


section \<open>What \<open>each\<close> promises\<close>

lemma first_err_None: "first_err es = None \<longleftrightarrow> (\<forall>e \<in> set es. e = None)"
  by (induction es rule: first_err.induct) auto

lemma first_err_Some: "first_err es = Some e \<Longrightarrow> Some e \<in> set es"
  by (induction es rule: first_err.induct) auto

lemma is_order_props:
  assumes "is_order ord n"
  shows "set ord = {..<n}" and "distinct ord" and "length ord = n"
proof -
  have "mset ord = mset [0..<n]" using assms by (metis is_order_def mset_sort)
  then show "set ord = {..<n}" "distinct ord" "length ord = n"
    by (metis atLeast_upt set_mset_mset) (metis \<open>mset ord = mset [0..<n]\<close> distinct_upt mset_eq_imp_distinct_iff,
        metis \<open>mset ord = mset [0..<n]\<close> diff_zero length_upt size_mset)
qed

text \<open>
  The contract of a task, as the callers of \<open>each\<close> use it: it always returns, and keeps of its
  executor what \<open>keep\<close> observes.
\<close>

locale each_task =
  fixes fn :: "'x task" and keep :: "executor \<Rightarrow> 'k"
  assumes task_returns: "\<exists>err e' x'. fn e x = Some (Ret (err, e', x')) \<and> keep e' = keep e"
begin

lemma run_tasks_total:
  "\<forall>i \<in> set ord. i < length es \<Longrightarrow> \<exists>outs es' x'. run_tasks fn ord es x = Some (Ret (outs, es', x')) \<and>
     length outs = length ord \<and> map keep es' = map keep es"
proof (induction ord arbitrary: es x)
  case (Cons i ord)
  obtain err e' x' where t: "fn (es ! i) x = Some (Ret (err, e', x'))" "keep e' = keep (es ! i)"
    using task_returns by blast
  have "\<forall>j \<in> set ord. j < length (es[i := e'])" using Cons.prems by simp
  from Cons.IH [OF this, of x'] obtain outs es' x'' where
    "run_tasks fn ord (es[i := e']) x' = Some (Ret (outs, es', x''))" "length outs = length ord"
    "map keep es' = map keep (es[i := e'])" by blast
  moreover have "map keep (es[i := e']) = map keep es"
    using t(2) Cons.prems by (simp add: map_update list_update_same_conv)
  ultimately show ?case using t by auto
qed simp

text \<open>When all have answered, \<open>each\<close> is ready; nil means that every task succeeded.\<close>

lemma each_ready:
  assumes "is_order ord (length es)"
  shows "\<exists>r es' x'. each ctx fn ord (PickChan (length es)) es x = Some (Ret (r, es', x')) \<and> map keep es' = map keep es"
proof -
  have "\<forall>i \<in> set ord. i < length es" using is_order_props(1) [OF assms] by auto
  from run_tasks_total [OF this, of x] obtain outs es' x' where
    "run_tasks fn ord es x = Some (Ret (outs, es', x'))" "length outs = length ord" "map keep es' = map keep es"
    by blast
  with assms is_order_props(3) [OF assms] show ?thesis
    by (auto simp: each_def select_each_def split: option.split)
qed

lemma each_nil:
  assumes "each ctx fn ord pk es x = Some (Ret (None, es', x'))"
  shows "\<exists>outs. run_tasks fn ord es x = Some (Ret (outs, es', x')) \<and> (\<forall>e \<in> set outs. e = None)"
  using assms
  by (auto simp: each_def select_each_def first_err_None split: if_splits option.splits go.splits pick.splits)

end

lemma each_cases:
  assumes "each ctx fn ord pk es x = Some (Ret (r, es', x'))"
  shows "\<exists>outs. run_tasks fn ord es x = Some (Ret (outs, es', x')) \<and>
     (case r of None \<Rightarrow> \<forall>e \<in> set outs. e = None | Some e \<Rightarrow> Some e \<in> set outs \<or> ctx x' = Some e)"
  using assms
  by (auto simp: each_def select_each_def first_err_None dest!: first_err_Some in_set_takeD
      split: if_splits option.splits go.splits pick.splits)

interpretation halt: each_task "halt_task net" id for net :: "'x net_ops"
  by unfold_locales (auto simp: halt_task_def split: prod.split)

interpretation wait: each_task "wait_task net" id for net :: "'x net_ops"
  by unfold_locales (auto simp: wait_task_def split: prod.split sum.split)

interpretation kill: each_task "kill_task cloud" id for cloud :: "'c cloud_ops"
  by unfold_locales (auto simp: kill_task_def split: prod.split)



section \<open>Waiting for an executor\<close>

lemma dial_loop_returns:
  assumes "\<And>x x'. n_done net x = None \<Longrightarrow> n_dial net url x = (Some ErrClientConnTimeout, x') \<Longrightarrow> left x' < (left x :: nat)"
  shows "\<exists>err e' x'. dial_loop net url e x = Some (err, e', x') \<and> (err = None \<longleftrightarrow> ex_client e') \<and>
    ex_droplet e' = ex_droplet e \<and> (ex_cmdClient e' = ex_cmdClient e)"
proof (induction "left x" arbitrary: e x rule: less_induct)
  case less
  show ?case
  proof (cases "ex_client e")
    case True
    then show ?thesis by (simp add: dial_loop.simps)
  next
    case False
    show ?thesis
    proof (cases "n_done net x")
      case (Some err)
      with False show ?thesis by (simp add: dial_loop.simps)
    next
      case None
      obtain r x' where d: "n_dial net url x = (r, x')" by fastforce
      show ?thesis
      proof (cases "r = Some ErrClientConnTimeout")
        case True
        have "dial_loop net url e x = dial_loop net url e x'"
          using False None d True by (subst dial_loop.simps) simp
        moreover have "left x' < left x" using assms None d True by simp
        ultimately show ?thesis using less by simp
      next
        case neq: False
        with False None d show ?thesis
          by (cases r) (simp_all add: dial_loop.simps [of net url e] dial_loop.simps [of net url "e\<lparr>ex_client := True\<rparr>"])
      qed
    qed
  qed
qed

text \<open>
  C28. Waiting for an executor always comes back when the context does: if every dial that times
  out brings the deadline nearer, the loop returns, with nil exactly when the executor has a
  client, and otherwise with the error of the dial or of the context.
\<close>

theorem waitTilAlive_returns:
  assumes "\<And>x x'. n_done net x = None \<Longrightarrow>
      n_dial net (ex_ip e @ '':'' @ show_int (ex_port e)) x = (Some ErrClientConnTimeout, x') \<Longrightarrow>
      left x' < (left x :: nat)"
  shows "\<exists>err e' x'. waitTilAlive net e x = Some (err, e', x') \<and> (err = None \<longleftrightarrow> ex_client e') \<and>
    ex_droplet e' = ex_droplet e"
  using dial_loop_returns [of net "ex_ip e @ '':'' @ show_int (ex_port e)" left e x, OF assms]
  by (auto simp: waitTilAlive_def)

text \<open>A network on which the executor answers the third dial, before the context is done.\<close>

definition demo_net :: "nat net_ops" where
  "demo_net = \<lparr>n_done = (\<lambda>x. if 10 \<le> x then Some (ContextErr ''context deadline exceeded'') else None),
     n_dial = (\<lambda>url x. (if x < 2 then Some ErrClientConnTimeout else None, x + 1)),
     n_open = (\<lambda>e x. (None, x)), n_send = (\<lambda>e m x. (None, x)),
     n_recv = (\<lambda>e x. (Inr \<lparr>Status = ''OK''\<rparr>, x)), n_reply = (\<lambda>m x. (None, x))\<rparr>"

definition demo_executor :: executor where
  "demo_executor = \<lparr>ex_droplet = \<lparr>dr_ID = 1, dr_Name = ''executor.x.0'', dr_Networks = None\<rparr>,
     ex_ip = ''1.2.3.4'', ex_port = 50053, ex_client = False, ex_cmdClient = False\<rparr>"

theorem waitTilAlive_returns_witness:
  "\<exists>err e' x'. waitTilAlive demo_net demo_executor 0 = Some (err, e', x') \<and> (err = None \<longleftrightarrow> ex_client e')"
proof -
  have "\<exists>err e' x'. waitTilAlive demo_net demo_executor 0 = Some (err, e', x') \<and> (err = None \<longleftrightarrow> ex_client e') \<and>
      ex_droplet e' = ex_droplet demo_executor"
    by (rule waitTilAlive_returns [of demo_net demo_executor "\<lambda>x. 10 - x" 0])
      (auto simp: demo_net_def split: if_splits)
  then show ?thesis by blast
qed

end
