(* ===== verification/LaunchProps.thy ===== *)
theory LaunchProps
  imports SchedulerDB
begin

text \<open>
  What launching executors guarantees under every interleaving, and where it does not: the
  accounting of the goroutines, the clean-up of the map of waiting droplets, and the deadlock a
  repeated registration causes. The clean-up of leftover droplets at start is at the end.
\<close>

section \<open>Accounting\<close>

definition finished :: "launch_phase \<Rightarrow> nat" where
  "finished g = (case g of GClean _ \<Rightarrow> 1 | GDone \<Rightarrow> 1 | _ \<Rightarrow> 0)"

definition joined :: "'c launch \<Rightarrow> nat" where
  "joined s = (case la_main s of MLoop es \<Rightarrow> length es | MRet (Inr es) \<Rightarrow> length es | _ \<Rightarrow> 0)"

definition returned_error :: "'c launch \<Rightarrow> bool" where
  "returned_error s = (case la_main s of MRet (Inl _) \<Rightarrow> True | _ \<Rightarrow> False)"

definition launch_ok :: "nat \<Rightarrow> 'c launch \<Rightarrow> bool" where
  "launch_ok n s = (length (gors s) = n \<and>
     (returned_error s \<or> joined s + length (executorc s) + la_errors s + la_timeouts s =
        sum_list (map finished (gors s))) \<and>
     (executorc_closed s \<longrightarrow> (\<forall>g \<in> set (gors s). g = GDone)) \<and>
     (\<forall>es. la_main s = MRet (Inr es) \<longrightarrow> executorc_closed s \<and> executorc s = []) \<and>
     (la_timeouts s \<noteq> 0 \<longrightarrow> ctx_Err s \<noteq> None) \<and>
     length (errc s) \<le> la_errors s)"

lemma finished_simps [simp]:
  "finished GNew = 0" "finished (GWait d) = 0" "finished (GGot d p) = 0"
  "finished (GClean d) = 1" "finished GDone = 1"
  by (simp_all add: finished_def)

lemma not_closed:
  "launch_ok n s \<Longrightarrow> i < length (gors s) \<Longrightarrow> gors s ! i \<noteq> GDone \<Longrightarrow>
     \<not> executorc_closed s \<and> (\<forall>es. la_main s \<noteq> MRet (Inr es))"
  by (auto simp: launch_ok_def)

lemma launch_ok_move:
  assumes ok: "launch_ok n s" and i: "i < length (gors s)" and nd: "gors s ! i \<noteq> GDone"
    and s': "gors s' = (gors s)[i := g]" "la_main s' = la_main s" "executorc_closed s' = executorc_closed s"
      "ctx_Err s' = ctx_Err s" "length (errc s') + la_errors s \<le> length (errc s) + la_errors s'"
      "la_timeouts s' \<noteq> la_timeouts s \<Longrightarrow> ctx_Err s \<noteq> None"
      "length (executorc s') + la_errors s' + la_timeouts s' + finished (gors s ! i) =
       length (executorc s) + la_errors s + la_timeouts s + finished g"
  shows "launch_ok n s'"
proof -
  have sum: "sum_list (map finished (gors s')) + finished (gors s ! i) = sum_list (map finished (gors s)) + finished g"
    using sum_list_map_update [OF i, of finished g] s'(1) by simp
  from not_closed [OF ok i nd] ok sum s' show ?thesis
    by (auto simp: launch_ok_def joined_def returned_error_def)
qed

lemma launch_ok_frame:
  "launch_ok n (s\<lparr>la_cloud := c, la_crash := b\<rparr>) = launch_ok n s"
  "launch_ok n (s\<lparr>la_cloud := c\<rparr>) = launch_ok n s"
  "launch_ok n (s\<lparr>waitDroplets := m\<rparr>) = launch_ok n s"
  "launch_ok n (s\<lparr>lock_held := h\<rparr>) = launch_ok n s"
  "launch_ok n (s\<lparr>lock_held := h, waitDroplets := m\<rparr>) = launch_ok n s"
  by (simp_all add: launch_ok_def joined_def returned_error_def)

lemma gor_step_ok: "gor_step cloud cfg sfx l s = Some s' \<Longrightarrow> launch_ok n s \<Longrightarrow> launch_ok n s'"
proof (induction cloud cfg sfx l s rule: gor_step.induct)
  case (1 cloud cfg sfx i s)
  then show ?case
    by (auto simp: set_gor_def split: if_splits prod.splits sum.splits intro!: launch_ok_move [of n s i])
next
  case (2 cloud cfg sfx i s)
  then show ?case
    by (auto simp: set_gor_def split: if_splits launch_phase.splits option.splits list.splits
        intro!: launch_ok_move [of n s i])
next
  case (3 cloud cfg sfx i s)
  then show ?case
    by (auto simp: set_gor_def split: if_splits launch_phase.splits intro!: launch_ok_move [of n s i])
next
  case (4 cloud cfg sfx i s)
  then obtain d p where g: "i < length (gors s)" "gors s ! i = GGot d p"
    by (auto split: if_splits launch_phase.splits)
  obtain r c' where get: "c_Get cloud d (la_cloud s) = (r, c')" by fastforce
  show ?case
  proof (cases r)
    case (Inl err)
    with 4 g get show ?thesis by (auto simp: launch_ok_frame)
  next
    case (Inr dr)
    with 4 g get show ?thesis
      by (auto simp: set_gor_def split: prod.splits if_splits intro!: launch_ok_move [of n s i])
  qed
next
  case (5 cloud cfg sfx i s)
  then show ?case
    by (auto simp: set_gor_def split: if_splits launch_phase.splits intro!: launch_ok_move [of n s i])
qed auto


lemma caller_step_ok: "caller_step l s = Some s' \<Longrightarrow> launch_ok n s \<Longrightarrow> launch_ok n s'"
  by (induction l s rule: caller_step.induct)
    (auto simp: launch_ok_def joined_def returned_error_def
      split: launch_main.splits list.splits if_splits option.splits)

lemma launch_step_cases [consumes 1, case_names ctx register unblock gor caller]:
  assumes "launch_step cloud cfg sfx l s = Some s'"
  obtains e where "l = CtxDone e" "ctx_Err s = None" "s' = s\<lparr>ctx_Err := Some e\<rparr>"
  | d p where "l = Register d p" "lock_held s = None" "s' = snd (RegisterExecutorUp cloud d p s)"
  | d p where "l = Unblock" "lock_held s = Some (d, p)" "waitDroplets s d = Some []"
      "s' = s\<lparr>lock_held := None, waitDroplets := (waitDroplets s)(d \<mapsto> [p])\<rparr>"
  | "gor_step cloud cfg sfx l s = Some s'"
  | "caller_step l s = Some s'"
  using assms
  by (cases l) (auto simp: launch_step_def split: if_splits option.splits prod.splits list.splits)

lemma launch_step_ok:
  assumes "launch_step cloud cfg sfx l s = Some s'" and "launch_ok n s"
  shows "launch_ok n s'"
  using assms(1)
proof (cases rule: launch_step_cases)
  case (ctx e)
  with assms(2) show ?thesis by (auto simp: launch_ok_def joined_def returned_error_def)
next
  case (register d p)
  with assms(2) show ?thesis
    by (auto simp: RegisterExecutorUp_def launch_ok_frame split: option.splits prod.splits if_splits)
next
  case (unblock d p)
  with assms(2) show ?thesis by (simp add: launch_ok_frame)
next
  case gor
  with assms(2) show ?thesis by (rule gor_step_ok [rotated])
next
  case caller
  with assms(2) show ?thesis by (rule caller_step_ok [rotated])
qed

lemma launch_exec_inv:
  assumes "\<And>l s s'. launch_step cloud cfg sfx l s = Some s' \<Longrightarrow> P s \<Longrightarrow> P s'"
  shows "launch_exec cloud cfg sfx ls s = Some s' \<Longrightarrow> P s \<Longrightarrow> P s'"
  by (induction ls arbitrary: s) (auto split: option.splits intro: assms)

lemma launch_start_ok: "launch_ok n (LaunchExecutors_start n wait c)"
  by (auto simp: launch_ok_def LaunchExecutors_start_def joined_def returned_error_def sum_list_replicate
      map_replicate)

text \<open>
  C11. When \<open>LaunchExecutors\<close> returns executors, every one of the requested droplets is accounted
  for: it is one of the executors, or its goroutine reported an error, or it gave up because the
  context was done. Without error and before the deadline it returns exactly as many executors as
  were asked for.
\<close>

theorem LaunchExecutors_accounts:
  assumes "launch_exec cloud cfg sfx ls (LaunchExecutors_start n wait c) = Some s"
    and "la_main s = MRet (Inr es)"
  shows "length es + la_errors s + la_timeouts s = n \<and>
    (la_errors s = 0 \<longrightarrow> ctx_Err s = None \<longrightarrow> length es = n)"
proof -
  have ok: "launch_ok n s"
    by (rule launch_exec_inv [of cloud cfg sfx "launch_ok n", OF _ assms(1)])
      (auto intro: launch_step_ok launch_start_ok)
  have "sum_list (map finished (gors s)) = n" if "\<forall>g \<in> set (gors s). g = GDone"
  proof -
    have "\<forall>g \<in> set (gors s). finished g = 1" using that by (metis finished_simps(5))
    from sum_list_map_same [OF this] ok show ?thesis by (simp add: launch_ok_def)
  qed
  with ok assms(2) show ?thesis
    by (auto simp: launch_ok_def joined_def returned_error_def)
qed

section \<open>The map of waiting droplets\<close>

fun gor_droplet :: "launch_phase \<Rightarrow> int set" where
  "gor_droplet (GWait d) = {d}"
| "gor_droplet (GGot d p) = {d}"
| "gor_droplet (GClean d) = {d}"
| "gor_droplet _ = {}"

definition wait_ok :: "'c launch \<Rightarrow> bool" where
  "wait_ok s = (dom (waitDroplets s) \<subseteq> \<Union> (gor_droplet ` set (gors s)) \<and>
     (\<forall>d ports. waitDroplets s d = Some ports \<longrightarrow> length ports \<le> 1))"

lemma wait_ok_update:
  assumes "wait_ok s" and "i < length (gors s)" and "gors s' = (gors s)[i := g]"
    and dom: "\<And>d. d \<in> dom (waitDroplets s') \<Longrightarrow> d \<in> gor_droplet g \<or>
      d \<in> dom (waitDroplets s) \<and> d \<notin> gor_droplet (gors s ! i)"
    and "\<forall>d ports. waitDroplets s' d = Some ports \<longrightarrow> length ports \<le> 1"
  shows "wait_ok s'"
proof -
  have "d \<in> \<Union> (gor_droplet ` set (gors s'))" if "d \<in> dom (waitDroplets s')" for d
  proof (cases "d \<in> gor_droplet g")
    case True
    with assms(2,3) show ?thesis by (metis UN_I set_update_memI)
  next
    case False
    with dom [OF that] assms(1) obtain x where x: "x \<in> set (gors s)" "d \<in> gor_droplet x"
      "d \<notin> gor_droplet (gors s ! i)" unfolding wait_ok_def by blast
    from x(1) obtain k where k: "k < length (gors s)" "gors s ! k = x" by (metis in_set_conv_nth)
    with x(2,3) have "gors s' ! k = x" "k < length (gors s')" using assms(3) k(1) by (cases "k = i"; auto)+
    then have "x \<in> set (gors s')" by (metis nth_mem)
    with x(2) show ?thesis by blast
  qed
  with assms(5) show ?thesis unfolding wait_ok_def by blast
qed

lemma wait_ok_frame: "wait_ok (s\<lparr>la_cloud := c, la_crash := b\<rparr>) = wait_ok s"
  by (simp add: wait_ok_def)

lemma gor_step_wait:
  assumes "gor_step cloud cfg sfx l s = Some s'" and "wait_ok s"
  shows "wait_ok s'"
proof -
  have len: "waitDroplets s d = Some ports \<Longrightarrow> length ports \<le> Suc 0" for d ports
    using assms(2) by (simp add: wait_ok_def)
  show ?thesis
  proof (cases l)
    case (GCreate i)
    obtain r c where "c_Create cloud (droplet_request cfg sfx i) (la_cloud s) = (r, c)" by fastforce
    with GCreate assms show ?thesis
      by (cases r) (auto dest: len simp: set_gor_def split: if_splits intro!: wait_ok_update [of s i])
  next
    case (GRecv i)
    with assms(1) obtain d p ps where *: "i < length (gors s)" "gors s ! i = GWait d" "waitDroplets s d = Some (p # ps)"
      by (auto split: if_splits launch_phase.splits option.splits list.splits)
    with GRecv assms len [of d "p # ps"] show ?thesis
      by (auto dest: len simp: set_gor_def split: if_splits intro!: wait_ok_update [of s i])
  next
    case (GTimeout i)
    with assms show ?thesis
      by (auto dest: len simp: set_gor_def split: if_splits launch_phase.splits intro!: wait_ok_update [of s i])
  next
    case (GGet i)
    with assms(1) obtain d p where *: "i < length (gors s)" "gors s ! i = GGot d p"
      by (auto split: if_splits launch_phase.splits)
    obtain r c where "c_Get cloud d (la_cloud s) = (r, c)" by fastforce
    note get = this
    show ?thesis
    proof (cases r)
      case (Inl err)
      with get GGet assms * show ?thesis by (auto simp: wait_ok_frame)
    next
      case (Inr dr)
      with get GGet assms * show ?thesis
        by (auto dest: len simp: set_gor_def split: prod.splits if_splits intro!: wait_ok_update [of s i])
    qed
  next
    case (GRemove i)
    with assms show ?thesis
      by (auto dest: len simp: set_gor_def split: if_splits launch_phase.splits intro!: wait_ok_update [of s i])
  qed (use assms(1) in auto)
qed


lemma launch_step_wait:
  assumes "launch_step cloud cfg sfx l s = Some s'" and "wait_ok s"
  shows "wait_ok s'"
  using assms(1)
proof (cases rule: launch_step_cases)
  case (register d p)
  with assms(2) show ?thesis
    by (auto simp: RegisterExecutorUp_def wait_ok_def split: option.splits prod.splits if_splits)
next
  case (unblock d p)
  with assms(2) show ?thesis by (auto simp: wait_ok_def split: if_splits)
next
  case gor
  then show ?thesis using assms(2) by (rule gor_step_wait)
next
  case caller
  then have "gors s' = gors s \<and> waitDroplets s' = waitDroplets s"
    by (induction l s rule: caller_step.induct)
      (auto split: if_splits launch_main.splits option.splits list.splits)
  with assms(2) show ?thesis by (simp add: wait_ok_def)
qed (use assms(2) in \<open>simp add: wait_ok_def\<close>)

lemma launch_start_wait: "wait_ok (LaunchExecutors_start n Map.empty c)"
  by (simp add: wait_ok_def LaunchExecutors_start_def)

text \<open>
  C29. A launch leaves nothing behind in the map of waiting droplets: when its goroutines are done,
  which is when the channel of executors is closed, no droplet of the launch is still expected, so
  a late registration is treated as unexpected. No channel ever holds more than one port.
\<close>

theorem LaunchExecutors_cleans_map:
  assumes "launch_exec cloud cfg sfx ls (LaunchExecutors_start n Map.empty c) = Some s"
  shows "(\<forall>d ports. waitDroplets s d = Some ports \<longrightarrow> length ports \<le> 1) \<and>
    (executorc_closed s \<longrightarrow> waitDroplets s = Map.empty)"
proof -
  have "wait_ok s"
    by (rule launch_exec_inv [of cloud cfg sfx wait_ok, OF _ assms])
      (auto intro: launch_step_wait launch_start_wait)
  moreover have "launch_ok n s"
    by (rule launch_exec_inv [of cloud cfg sfx "launch_ok n", OF _ assms])
      (auto intro: launch_step_ok launch_start_ok)
  moreover have "\<Union> (gor_droplet ` set (gors s)) = {}" if "\<forall>g \<in> set (gors s). g = GDone"
    using that by force
  ultimately show ?thesis by (auto simp: wait_ok_def launch_ok_def)
qed


section \<open>A third registration\<close>

definition stuck :: "int \<Rightarrow> int \<Rightarrow> 'c launch \<Rightarrow> bool" where
  "stuck d p s = (lock_held s = Some (d, p) \<and> (\<exists>x xs. waitDroplets s d = Some (x # xs)) \<and>
     GWait d \<notin> set (gors s))"

lemma stuck_step:
  assumes "launch_step cloud cfg sfx l s = Some s'" and "stuck d p s"
  shows "stuck d p s' \<and> (\<forall>i. l \<noteq> GCreate i \<and> l \<noteq> GRemove i) \<and> (\<forall>d p. l \<noteq> Register d p)"
  using assms(1)
proof (cases rule: launch_step_cases)
  case gor
  then show ?thesis
    using assms(2)
    by (cases l) (auto simp: stuck_def set_gor_def in_set_conv_nth nth_list_update
        split: if_splits launch_phase.splits option.splits list.splits prod.splits sum.splits)
next
  case caller
  then show ?thesis
    using assms(2)
    by (cases l) (auto simp: stuck_def split: if_splits launch_main.splits option.splits list.splits)
qed (use assms(2) in \<open>auto simp: stuck_def\<close>)




section \<open>Starting with a clean account\<close>

text \<open>Deleting a list of droplets, up to the first failure.\<close>

fun delete_all :: "'c cloud_ops \<Rightarrow> int list \<Rightarrow> 'c \<Rightarrow> errorv \<times> 'c" where
  "delete_all cloud [] c = (None, c)"
| "delete_all cloud (i # is) c = (case c_Delete cloud i c of
     (Some err, c') \<Rightarrow> (Some err, c') | (None, c') \<Rightarrow> delete_all cloud is c')"

lemma cleanup_delete_all:
  "cleanup cloud ds c = delete_all cloud (map dr_ID (filter (\<lambda>d. HasPrefix (dr_Name d) executorPrefix) ds)) c"
  by (induction ds arbitrary: c) (auto split: prod.splits option.splits)

text \<open>
  Starting the scheduler asks the cloud to delete exactly the listed droplets whose name
  begins with the executor prefix, each once and in the order of the listing, and nothing else; it
  succeeds exactly when the listing and all these deletions do.
\<close>

theorem NewDB_deletes_leftovers:
  "NewDB cloud c = (case c_List cloud c of
     (Inl err, c') \<Rightarrow> (Inl err, c')
   | (Inr ds, c') \<Rightarrow>
       (case delete_all cloud (map dr_ID (filter (\<lambda>d. HasPrefix (dr_Name d) executorPrefix) ds)) c' of
          (Some err, c'') \<Rightarrow> (Inl err, c'')
        | (None, c'') \<Rightarrow> (Inr (), c'')))"
  by (simp add: NewDB_def cleanup_delete_all split: prod.split sum.split)


section \<open>A concrete cloud\<close>

text \<open>
  The cloud of the witnesses: droplets are numbered from one; details show a private and a public
  address.
\<close>

definition demo_cloud :: "(Droplet list \<times> int list) cloud_ops" where
  "demo_cloud = \<lparr>c_List = (\<lambda>c. (Inr (fst c), c)),
     c_Create = (\<lambda>r c. let d = \<lparr>dr_ID = int (length (fst c)) + 1, dr_Name = cr_Name r, dr_Networks = None\<rparr>
        in (Inr d, (fst c @ [d], snd c))),
     c_Get = (\<lambda>i c. (Inr \<lparr>dr_ID = i, dr_Name = ''executor.x'', dr_Networks =
        Some [\<lparr>nw_IPAddress = ''10.0.0.1'', nw_Type = ''private''\<rparr>,
          \<lparr>nw_IPAddress = ''1.2.3.4'', nw_Type = ''public''\<rparr>]\<rparr>, c)),
     c_Delete = (\<lambda>i c. (None, (filter (\<lambda>d. dr_ID d \<noteq> i) (fst c), snd c @ [i])))\<rparr>"

definition demo_cfg :: Config where
  "demo_cfg = \<lparr>PullExecutorBinaryURL = ''http://h/executord'', AdvertiseListenAddr = ''s:50045'',
     SSHKeyIDs = [], DropletRegion = ''nyc3'', DropletSize = ''512mb'', DropletImageSlug = ''ubuntu-15-04-x64'',
     MaxWaitExecutorOnline = 0, MaxWorkerPerExecutor = 500, MaxExecPSPerExecutor = 100,
     cfg_InfluxAddr = ''db'', cfg_InfluxUsername = ''u'', cfg_InfluxPassword = ''p'',
     cfg_InfluxDBName = ''m'', cfg_InfluxSSL = False\<rparr>"

lemma demo_cloud_simps [simp]:
  "c_Create demo_cloud r (ds, del) = (Inr \<lparr>dr_ID = int (length ds) + 1, dr_Name = cr_Name r, dr_Networks = None\<rparr>,
     (ds @ [\<lparr>dr_ID = int (length ds) + 1, dr_Name = cr_Name r, dr_Networks = None\<rparr>], del))"
  "c_Get demo_cloud i c = (Inr \<lparr>dr_ID = i, dr_Name = ''executor.x'', dr_Networks =
        Some [\<lparr>nw_IPAddress = ''10.0.0.1'', nw_Type = ''private''\<rparr>,
          \<lparr>nw_IPAddress = ''1.2.3.4'', nw_Type = ''public''\<rparr>]\<rparr>, c)"
  by (simp_all add: demo_cloud_def Let_def)

lemmas launch_eval = LaunchExecutors_start_def launch_step_def set_gor_def RegisterExecutorUp_def
  ipv4PublicAddress_def

theorem LaunchExecutors_accounts_witness:
  "\<exists>s es. launch_exec demo_cloud demo_cfg ''x'' [GCreate 0, Register 1 50053, GRecv 0, GGet 0, NRecv, GRemove 0,
      GClose, NClosed] (LaunchExecutors_start 1 Map.empty ([], [])) = Some s \<and>
     la_main s = MRet (Inr es) \<and> length es = 1"
proof -
  obtain s es where s: "launch_exec demo_cloud demo_cfg ''x'' [GCreate 0, Register 1 50053, GRecv 0, GGet 0, NRecv, GRemove 0,
      GClose, NClosed] (LaunchExecutors_start 1 Map.empty ([], [])) = Some s" "la_main s = MRet (Inr es)"
      "la_errors s = 0" "ctx_Err s = None"
    by (simp add: launch_eval)
  from LaunchExecutors_accounts [OF s(1,2)] s show ?thesis by blast
qed

theorem LaunchExecutors_cleans_map_witness:
  "\<exists>s. launch_exec demo_cloud demo_cfg ''x'' [GCreate 0, CtxDone (Errorf ''deadline''), GTimeout 0, GRemove 0, GClose]
      (LaunchExecutors_start 1 Map.empty ([], [])) = Some s \<and> executorc_closed s \<and> waitDroplets s = Map.empty"
proof -
  obtain s where s: "launch_exec demo_cloud demo_cfg ''x'' [GCreate 0, CtxDone (Errorf ''deadline''), GTimeout 0, GRemove 0, GClose]
      (LaunchExecutors_start 1 Map.empty ([], [])) = Some s" "executorc_closed s"
    by (simp add: launch_eval)
  from LaunchExecutors_cleans_map [OF s(1)] s show ?thesis by blast
qed


definition flaky_cloud :: "(Droplet list \<times> int list) cloud_ops" where
  "flaky_cloud = demo_cloud\<lparr>c_Create := (\<lambda>r c. if fst c = [] then c_Create demo_cloud r c
     else (Inl (Errorf ''droplet limit exceeded''), c))\<rparr>"


end
