(* ===== verification/LuaEngine.thy ===== *)
theory LuaEngine
  imports Metrics
begin

text \<open>
  The script engine: \<open>executor/engine/lua.go\<close> and \<open>executor/engine/http_binding.go\<close>.
  The Lua interpreter itself is a parameter: what a chunk or a function does is an
  interaction tree, a terminating computation that calls the host (globals, the step table,
  logging, HTTP) and finally returns a value or raises an error. The host functions, the
  stack operations of \<open>go-lua\<close> that the engine performs itself, and the driver loop over
  the steps are modelled as written. The clock, HTTP and number printing are parameters.
\<close>

section \<open>Lua values, scripts and the state of the virtual machine\<close>

datatype lval =
    LNil
  | LBool bool
  | LNum f64
  | LStr string
  | LTable "(string \<times> lval) list"
  | LStepTable
  | LFun nat
  | LRef nat

text \<open>Host calls of a script. \<open>HSetStep\<close> is an assignment into the step table.\<close>

datatype hcall =
    HGetGlobal string
  | HSetGlobal string lval
  | HGetStep lval
  | HSetStep lval lval
  | HInfo lval
  | HFatal lval
  | HGet lval
  | HPost lval lval lval

datatype itree =
    IRet lval
  | IErr gerror
  | ICall hcall "lval \<Rightarrow> itree"

record http_resp =
  StatusCode :: int
  StatusText :: string
  ContentLength :: int
  Header :: "(string \<times> string) list"
  Body :: "string result"

text \<open>
  The parameters: the interpreter (loading a chunk, calling any value with one argument),
  clock, HTTP client, number printing, cancellation of the context.
\<close>

record 'w engine_ops =
  lua_load :: "string \<Rightarrow> itree result"
  lua_apply :: "lval \<Rightarrow> lval \<Rightarrow> itree"
  w_now :: "'w \<Rightarrow> int \<times> 'w"
  w_get :: "string \<Rightarrow> 'w \<Rightarrow> http_resp result \<times> 'w"
  w_post :: "string \<Rightarrow> string \<Rightarrow> string \<Rightarrow> 'w \<Rightarrow> http_resp result \<times> 'w"
  numberToString :: "f64 \<Rightarrow> string"
  show_lval :: "lval \<Rightarrow> string"
  ctx_done :: "'w \<Rightarrow> bool"

text \<open>The stack is listed from the bottom; the step table's fields are keyed by any value.\<close>

record lua_state =
  lstack :: "lval list"
  globals :: "string \<Rightarrow> lval"
  step_fields :: "lval \<Rightarrow> lval"

text \<open>
  \<open>LuaProgram\<close> with the world it runs in. \<open>current\<close> is the captured \<open>currentStep\<close>
  once \<open>Execute\<close> has installed its loggers, and \<open>None\<close> while \<open>info\<close> and \<open>fatal\<close> are
  still the ones that refuse to log.
\<close>

record ('m, 'w) LuaProgram =
  vm :: lua_state
  configured :: bool
  prog_steps :: "string list"
  metrics :: 'm
  current :: "string option"
  out :: string
  world :: 'w

type_synonym 'm reporter = "metric_call \<Rightarrow> int \<Rightarrow> 'm \<Rightarrow> 'm"


section \<open>Stack operations\<close>

definition l_push :: "lval \<Rightarrow> lua_state \<Rightarrow> lua_state" where
  "l_push v l = l\<lparr>lstack := lstack l @ [v]\<rparr>"

definition Top :: "lua_state \<Rightarrow> nat" where
  "Top l = length (lstack l)"

text \<open>A negative index \<open>- k\<close> is the \<open>k\<close>-th value from the top.\<close>

definition indexToValue :: "nat \<Rightarrow> lua_state \<Rightarrow> lval go" where
  "indexToValue k l = (if 1 \<le> k \<and> k \<le> Top l then Ret (lstack l ! (Top l - k))
     else Panic ''runtime error: index out of range'')"

definition l_Global :: "string \<Rightarrow> lua_state \<Rightarrow> lua_state" where
  "l_Global name l = l_push (globals l name) l"

definition l_NewTable :: "lua_state \<Rightarrow> lua_state" where
  "l_NewTable l = l_push (LTable []) l"

definition tableAt :: "lua_state \<Rightarrow> lval \<Rightarrow> string \<Rightarrow> lval go" where
  "tableAt l t name = (case t of
     LStepTable \<Rightarrow> Ret (step_fields l (LStr name))
   | LTable fs \<Rightarrow> Ret (case map_of fs name of Some v \<Rightarrow> v | None \<Rightarrow> LNil)
   | _ \<Rightarrow> Panic ''Uncaught Lua error: runtime error'')"

definition l_Field :: "nat \<Rightarrow> string \<Rightarrow> lua_state \<Rightarrow> lua_state go" where
  "l_Field k name l = go_bind (indexToValue k l) (\<lambda>t.
     go_bind (tableAt l t name) (\<lambda>v. Ret (l_push v l)))"

definition l_PushValue :: "nat \<Rightarrow> lua_state \<Rightarrow> lua_state go" where
  "l_PushValue k l = go_bind (indexToValue k l) (\<lambda>v. Ret (l_push v l))"

definition l_Remove :: "nat \<Rightarrow> lua_state \<Rightarrow> lua_state go" where
  "l_Remove k l = (if 1 \<le> k \<and> k \<le> Top l
     then Ret (l\<lparr>lstack := take (Top l - k) (lstack l) @ drop (Top l - k + 1) (lstack l)\<rparr>)
     else Panic ''runtime error: slice bounds out of range'')"

definition l_Pop :: "nat \<Rightarrow> lua_state \<Rightarrow> lua_state" where
  "l_Pop n l = l\<lparr>lstack := take (Top l - n) (lstack l)\<rparr>"

definition l_SetGlobal :: "string \<Rightarrow> lua_state \<Rightarrow> lua_state go" where
  "l_SetGlobal name l = go_bind (indexToValue 1 l) (\<lambda>v.
     Ret ((l_Pop 1 l)\<lparr>globals := (globals l)(name := v)\<rparr>))"


section \<open>Host functions\<close>

definition CheckString :: "'w engine_ops \<Rightarrow> lval \<Rightarrow> string result" where
  "CheckString ops v = (case v of
     LStr s \<Rightarrow> Inr s
   | LNum f \<Rightarrow> Inr (numberToString ops f)
   | _ \<Rightarrow> Inl (Errorf ''string expected''))"

definition lval_to_gval :: "lval \<Rightarrow> gval" where
  "lval_to_gval v = (case v of
     LNil \<Rightarrow> GNil | LBool b \<Rightarrow> GBool b | LNum f \<Rightarrow> GFloat f | LStr s \<Rightarrow> GStr s
   | LTable _ \<Rightarrow> GRef 0 | LStepTable \<Rightarrow> GRef 0 | LFun n \<Rightarrow> GRef n | LRef n \<Rightarrow> GRef n)"

text \<open>A metric call takes its time stamp from the clock.\<close>

definition emit :: "'w engine_ops \<Rightarrow> 'm reporter \<Rightarrow> metric_call \<Rightarrow> ('m, 'w) LuaProgram \<Rightarrow> ('m, 'w) LuaProgram" where
  "emit ops report c s = (case w_now ops (world s) of
     (now, w') \<Rightarrow> s\<lparr>metrics := report c now (metrics s), world := w'\<rparr>)"

text \<open>
  \<open>registerStep\<close>, the \<open>__newindex\<close> metamethod of the step table. Lua calls it only for a
  key whose value is nil; any other assignment is raw.
\<close>

definition registerStep ::
  "'w engine_ops \<Rightarrow> lval \<Rightarrow> lval \<Rightarrow> ('m, 'w) LuaProgram \<Rightarrow> lval result \<times> ('m, 'w) LuaProgram" where
  "registerStep ops key v s =
    (if configured s then (Inl (Errorf ''step is immutable''), s)
     else case CheckString ops key of
       Inl e \<Rightarrow> (Inl e, s)
     | Inr stepName \<Rightarrow>
         (Inr LNil, s\<lparr>vm := (vm s)\<lparr>step_fields := (step_fields (vm s))(LStr stepName := v)\<rparr>,
                      prog_steps := prog_steps s @ [stepName]\<rparr>))"

definition set_step ::
  "'w engine_ops \<Rightarrow> lval \<Rightarrow> lval \<Rightarrow> ('m, 'w) LuaProgram \<Rightarrow> lval result \<times> ('m, 'w) LuaProgram" where
  "set_step ops key v s =
    (if step_fields (vm s) key \<noteq> LNil
     then (Inr LNil, s\<lparr>vm := (vm s)\<lparr>step_fields := (step_fields (vm s))(key := v)\<rparr>\<rparr>)
     else registerStep ops key v s)"

text \<open>
  The loggers: the metric is recorded first; before \<open>Execute\<close> the function then panics with
  an error, which the protected call turns into a Lua error.
\<close>

definition log_line :: "string \<Rightarrow> string \<Rightarrow> string \<Rightarrow> string" where
  "log_line lvl step msg =
     ''{'' @ [CHR 0x22] @ ''lvl'' @ [CHR 0x22] @ '':'' @ [CHR 0x22] @ lvl @ [CHR 0x22] @ '',''
     @ [CHR 0x22] @ ''step'' @ [CHR 0x22] @ '':'' @ go_quote step @ '',''
     @ [CHR 0x22] @ ''msg'' @ [CHR 0x22] @ '':'' @ [CHR 0x22] @ msg @ [CHR 0x22] @ ''}'' @ [CHR 0x0A]"

definition host_log ::
  "'w engine_ops \<Rightarrow> 'm reporter \<Rightarrow> string \<Rightarrow> (gval \<Rightarrow> metric_call) \<Rightarrow> lval \<Rightarrow>
   ('m, 'w) LuaProgram \<Rightarrow> lval result \<times> ('m, 'w) LuaProgram" where
  "host_log ops report lvl call v s =
    (let s' = emit ops report (call (lval_to_gval v)) s in
     case current s' of
       None \<Rightarrow> (Inl (Errorf ([CHR 0x27] @ lvl @ [CHR 0x27] @ '' is not defined outside of steps'')), s')
     | Some step \<Rightarrow> (Inr LNil, s'\<lparr>out := out s' @ log_line lvl step (show_lval ops v)\<rparr>))"

text \<open>
  \<open>pushResponse\<close>: the table of a response. Header names are distinct; \<open>Header.Get\<close> gives the
  first value.
\<close>

definition pushResponse :: "http_resp \<Rightarrow> lval result" where
  "pushResponse resp = (case Body resp of
     Inl e \<Rightarrow> Inl e
   | Inr body \<Rightarrow> Inr (LTable
       [(''code'', LNum (f64_of_int (StatusCode resp))),
        (''status'', LStr (StatusText resp)),
        (''body'', LStr body),
        (''content_length'', LNum (f64_of_int (ContentLength resp))),
        (''header'', LTable (map (\<lambda>(k, v). (k, LStr v)) (Header resp)))]))"

text \<open>
  \<open>httpBind.get\<close> and \<open>httpBind.post\<close> after their argument checks. \<open>lua.Errorf\<close> unwinds
  the Go stack, so the deferred request metric is recorded on the path where only the body
  cannot be read as well.
\<close>

definition http_finish ::
  "'w engine_ops \<Rightarrow> 'm reporter \<Rightarrow> string \<Rightarrow> (int \<Rightarrow> int \<Rightarrow> metric_call) \<Rightarrow> string \<Rightarrow> int \<Rightarrow>
   http_resp result \<Rightarrow> ('m, 'w) LuaProgram \<Rightarrow> lval result \<times> ('m, 'w) LuaProgram" where
  "http_finish ops report verb done_call u start r s = (case r of
     Inl e \<Rightarrow> (Inl (Errorf (''lua-http: can'' @ [CHR 0x27] @ ''t '' @ verb @ '': '' @ Error e)),
               emit ops report (CallHTTPError u) s)
   | Inr resp \<Rightarrow>
       let r' = pushResponse resp;
           s1 = (case r' of Inl e \<Rightarrow> emit ops report (CallHTTPError u) s | Inr _ \<Rightarrow> s);
           (now, w') = w_now ops (world s1);
           s2 = emit ops report (done_call (StatusCode resp) (now - start)) (s1\<lparr>world := w'\<rparr>) in
       (case r' of
          Inl e \<Rightarrow> (Inl (Errorf (''lua-http: can'' @ [CHR 0x27] @ ''t read body from '' @ verb @ '': '' @ Error e)), s2)
        | Inr t \<Rightarrow> (Inr t, s2)))"

definition http_get ::
  "'w engine_ops \<Rightarrow> 'm reporter \<Rightarrow> lval \<Rightarrow> ('m, 'w) LuaProgram \<Rightarrow> lval result \<times> ('m, 'w) LuaProgram" where
  "http_get ops report v s = (case CheckString ops v of
     Inl e \<Rightarrow> (Inl e, s)
   | Inr u \<Rightarrow>
       let (start, w1) = w_now ops (world s); (r, w2) = w_get ops u w1 in
       http_finish ops report ''GET'' (CallHTTPGet u) u start r (s\<lparr>world := w2\<rparr>))"

definition http_post ::
  "'w engine_ops \<Rightarrow> 'm reporter \<Rightarrow> lval \<Rightarrow> lval \<Rightarrow> lval \<Rightarrow> ('m, 'w) LuaProgram \<Rightarrow>
   lval result \<times> ('m, 'w) LuaProgram" where
  "http_post ops report v1 v2 v3 s = (case CheckString ops v1 of
     Inl e \<Rightarrow> (Inl e, s)
   | Inr u \<Rightarrow> (case CheckString ops v2 of
       Inl e \<Rightarrow> (Inl e, s)
     | Inr contentType \<Rightarrow> (case CheckString ops v3 of
         Inl e \<Rightarrow> (Inl e, s)
       | Inr body \<Rightarrow>
           let (start, w1) = w_now ops (world s); (r, w2) = w_post ops u contentType body w1 in
           http_finish ops report ''POST'' (CallHTTPPost u) u start r (s\<lparr>world := w2\<rparr>))))"

fun host ::
  "'w engine_ops \<Rightarrow> 'm reporter \<Rightarrow> hcall \<Rightarrow> ('m, 'w) LuaProgram \<Rightarrow> lval result \<times> ('m, 'w) LuaProgram" where
  "host ops report (HGetGlobal x) s = (Inr (globals (vm s) x), s)"
| "host ops report (HSetGlobal x v) s = (Inr LNil, s\<lparr>vm := (vm s)\<lparr>globals := (globals (vm s))(x := v)\<rparr>\<rparr>)"
| "host ops report (HGetStep k) s = (Inr (step_fields (vm s) k), s)"
| "host ops report (HSetStep k v) s = set_step ops k v s"
| "host ops report (HInfo v) s = host_log ops report ''info'' CallLogInfo v s"
| "host ops report (HFatal v) s = host_log ops report ''fatal'' CallLogFatal v s"
| "host ops report (HGet v) s = http_get ops report v s"
| "host ops report (HPost v1 v2 v3) s = http_post ops report v1 v2 v3 s"

primrec run_itree ::
  "itree \<Rightarrow> 'w engine_ops \<Rightarrow> 'm reporter \<Rightarrow> ('m, 'w) LuaProgram \<Rightarrow> lval result \<times> ('m, 'w) LuaProgram" where
  "run_itree (IRet v) ops report s = (Inr v, s)"
| "run_itree (IErr e) ops report s = (Inl e, s)"
| "run_itree (ICall c k) ops report s = (case host ops report c s of
     (Inl e, s') \<Rightarrow> (Inl e, s')
   | (Inr r, s') \<Rightarrow> run_itree (k r) ops report s')"


section \<open>Loading a program\<close>

text \<open>
  \<open>configureLua\<close>: the metatable is pushed and registered, then the step table is pushed,
  stored as the global \<open>step\<close> and given the metatable, and both are popped.
\<close>

definition configureLua :: "lua_state \<Rightarrow> lua_state go" where
  "configureLua l0 =
    (let l1 = l_push (LRef 0) l0; l2 = l_push LStepTable l1 in
     go_bind (l_PushValue 1 l2) (\<lambda>l3.
     go_bind (l_SetGlobal ''step'' l3) (\<lambda>l4. Ret (l_Pop 2 l4))))"

definition l_Register :: "string \<Rightarrow> nat \<Rightarrow> lua_state \<Rightarrow> lua_state go" where
  "l_Register name f l = l_SetGlobal name (l_push (LRef f) l)"

definition NewState :: lua_state where
  "NewState = \<lparr>lstack = [], globals = (\<lambda>_. LNil), step_fields = (\<lambda>_. LNil)\<rparr>"

text \<open>
  \<open>engine.Lua\<close>: build the state, register the host functions, compile the source and run
  the chunk once in a protected call, which leaves its error on the stack.
\<close>

definition Lua ::
  "'w engine_ops \<Rightarrow> 'm reporter \<Rightarrow> 'm \<Rightarrow> string \<Rightarrow> 'w \<Rightarrow> (('m, 'w) LuaProgram \<times> errorv) go" where
  "Lua ops report met source w =
    go_bind (configureLua NewState) (\<lambda>l1.
    go_bind (l_Register ''info'' 1 l1) (\<lambda>l2.
    go_bind (l_Register ''fatal'' 2 l2) (\<lambda>l3.
    go_bind (l_Register ''get'' 3 l3) (\<lambda>l4.
    go_bind (l_Register ''post'' 4 l4) (\<lambda>l5.
      let prgm = \<lparr>vm = l5, configured = False, prog_steps = [], metrics = met, current = None,
                  out = [], world = w\<rparr> in
      (case lua_load ops source of
         Inl e \<Rightarrow> Ret (prgm\<lparr>vm := l_push (LStr (Error e)) (vm prgm)\<rparr>,
                      Some (Errorf (''compiling program: '' @ Error e)))
       | Inr chunk \<Rightarrow> (case run_itree chunk ops report prgm of
           (Inl e, p') \<Rightarrow> Ret (p'\<lparr>vm := l_push (LStr (Error e)) (vm p')\<rparr>,
                             Some (Errorf (''preparing program: '' @ Error e)))
         | (Inr _, p') \<Rightarrow> Ret (p'\<lparr>configured := True\<rparr>, None))))))))"


section \<open>Configuration\<close>

text \<open>
  A configuration is the decoded JSON object in the order the map is ranged over;
  \<open>show\<close> prints a value for the error message.
\<close>

fun config_scalar :: "gval \<Rightarrow> bool" where
  "config_scalar (GStr _) = True"
| "config_scalar (GInt _) = True"
| "config_scalar (GFloat _) = True"
| "config_scalar (GBool _) = True"
| "config_scalar GNil = True"
| "config_scalar _ = False"

definition config_error :: "(gval \<Rightarrow> string) \<Rightarrow> gval \<Rightarrow> string \<Rightarrow> gerror" where
  "config_error show v key =
     Errorf (''invalid type for lua config file: '' @ show v @ '', key was: '' @ key)"

fun VerifyConfig :: "(gval \<Rightarrow> string) \<Rightarrow> (string \<times> gval) list \<Rightarrow> errorv" where
  "VerifyConfig show [] = None"
| "VerifyConfig show ((key, v) # json) =
    (if config_scalar v then VerifyConfig show json else Some (config_error show v key))"

text \<open>Every scalar but nil is pushed as its printed string.\<close>

fun config_lval :: "(gval \<Rightarrow> string) \<Rightarrow> gval \<Rightarrow> lval" where
  "config_lval show GNil = LNil"
| "config_lval show v = LStr (show v)"

fun AddConfig :: "(gval \<Rightarrow> string) \<Rightarrow> (string \<times> gval) list \<Rightarrow> lua_state \<Rightarrow> (errorv \<times> lua_state) go" where
  "AddConfig show [] l = Ret (None, l)"
| "AddConfig show ((key, v) # json) l =
    (if config_scalar v
     then go_bind (l_SetGlobal key (l_push (config_lval show v) l)) (\<lambda>l'. AddConfig show json l')
     else Ret (Some (config_error show v key), l))"


section \<open>Running the steps\<close>

text \<open>
  A protected call with one argument and one result: function and argument leave the stack,
  the result or the error object is pushed.
\<close>

definition ProtectedCall11 ::
  "'w engine_ops \<Rightarrow> 'm reporter \<Rightarrow> ('m, 'w) LuaProgram \<Rightarrow> (errorv \<times> ('m, 'w) LuaProgram) go" where
  "ProtectedCall11 ops report s =
    go_bind (indexToValue 2 (vm s)) (\<lambda>f. go_bind (indexToValue 1 (vm s)) (\<lambda>a.
      (case run_itree (lua_apply ops f a) ops report (s\<lparr>vm := l_Pop 2 (vm s)\<rparr>) of
         (Inl e, s') \<Rightarrow> Ret (Some e, s'\<lparr>vm := l_push (LStr (Error e)) (vm s')\<rparr>)
       | (Inr v, s') \<Rightarrow> Ret (None, s'\<lparr>vm := l_push v (vm s')\<rparr>))))"

text \<open>The loop of \<open>runSteps\<close>, with the \<open>reporter\<close> that \<open>Execute\<close> passes in.\<close>

fun step_loop ::
  "'w engine_ops \<Rightarrow> 'm reporter \<Rightarrow> string list \<Rightarrow> ('m, 'w) LuaProgram \<Rightarrow>
   (errorv \<times> ('m, 'w) LuaProgram) go" where
  "step_loop ops report [] s = Ret (None, s)"
| "step_loop ops report (stepName # rest) s0 =
    (let s = s0\<lparr>current := Some stepName\<rparr> in
     if ctx_done ops (world s) then Ret (None, s)
     else let i = Top (vm s) in
       go_bind (l_Field i stepName (vm s)) (\<lambda>l1.
       go_bind (l_PushValue i l1) (\<lambda>l2.
       go_bind (l_Remove (i + 1) l2) (\<lambda>l3.
         let (start, w1) = w_now ops (world s) in
         go_bind (ProtectedCall11 ops report (s\<lparr>vm := l3, world := w1\<rparr>)) (\<lambda>(err, s1).
           (case err of
              Some e \<Rightarrow> Ret (Some (StepError stepName e), emit ops report (CallStepError stepName) s1)
            | None \<Rightarrow>
                if Top (vm s1) \<noteq> 2 then Panic ''Uncaught Lua error: runtime error''
                else let (now, w2) = w_now ops (world s1) in
                  step_loop ops report rest
                    (emit ops report (CallStepExecution stepName (now - start)) (s1\<lparr>world := w2\<rparr>))))))))"

definition runSteps ::
  "'w engine_ops \<Rightarrow> 'm reporter \<Rightarrow> ('m, 'w) LuaProgram \<Rightarrow> (errorv \<times> ('m, 'w) LuaProgram) go" where
  "runSteps ops report s =
    (let s1 = s\<lparr>vm := l_NewTable (l_Global ''step'' (vm s))\<rparr>;
         s2 = emit ops report CallScriptExecution s1 in
     go_bind (step_loop ops report (prog_steps s2) s2) (\<lambda>(err, s3).
       Ret (err, s3\<lparr>vm := l_Pop 2 (vm s3)\<rparr>)))"

definition Execute ::
  "'w engine_ops \<Rightarrow> 'm reporter \<Rightarrow> ('m, 'w) LuaProgram \<Rightarrow> (errorv \<times> ('m, 'w) LuaProgram) go" where
  "Execute ops report s = runSteps ops report (s\<lparr>current := Some ''<not a step>''\<rparr>)"


section \<open>Host functions do not touch the stack\<close>

definition with_stack :: "lval list \<Rightarrow> ('m, 'w) LuaProgram \<Rightarrow> ('m, 'w) LuaProgram" where
  "with_stack st s = s\<lparr>vm := (vm s)\<lparr>lstack := st\<rparr>\<rparr>"

lemma with_stack_simps [simp]:
  "configured (with_stack st s) = configured s"
  "prog_steps (with_stack st s) = prog_steps s"
  "metrics (with_stack st s) = metrics s"
  "current (with_stack st s) = current s"
  "out (with_stack st s) = out s"
  "world (with_stack st s) = world s"
  "globals (vm (with_stack st s)) = globals (vm s)"
  "step_fields (vm (with_stack st s)) = step_fields (vm s)"
  "lstack (vm (with_stack st s)) = st"
  "with_stack st (with_stack st' s) = with_stack st s"
  by (simp_all add: with_stack_def)

lemma with_stack_update:
  "(with_stack st s)\<lparr>metrics := m, world := w\<rparr> = with_stack st (s\<lparr>metrics := m, world := w\<rparr>)"
  "(with_stack st s)\<lparr>world := w\<rparr> = with_stack st (s\<lparr>world := w\<rparr>)"
  "(with_stack st s)\<lparr>out := t\<rparr> = with_stack st (s\<lparr>out := t\<rparr>)"
  "(with_stack st s)\<lparr>current := c\<rparr> = with_stack st (s\<lparr>current := c\<rparr>)"
  "(with_stack st s)\<lparr>vm := (vm (with_stack st s))\<lparr>globals := g\<rparr>\<rparr> =
     with_stack st (s\<lparr>vm := (vm s)\<lparr>globals := g\<rparr>\<rparr>)"
  "(with_stack st s)\<lparr>vm := (vm (with_stack st s))\<lparr>step_fields := f\<rparr>\<rparr> =
     with_stack st (s\<lparr>vm := (vm s)\<lparr>step_fields := f\<rparr>\<rparr>)"
  "(with_stack st s)\<lparr>vm := (vm (with_stack st s))\<lparr>step_fields := f\<rparr>, prog_steps := xs\<rparr> =
     with_stack st (s\<lparr>vm := (vm s)\<lparr>step_fields := f\<rparr>, prog_steps := xs\<rparr>)"
  by (simp_all add: with_stack_def)

lemma emit_with_stack: "emit ops report c (with_stack st s) = with_stack st (emit ops report c s)"
  by (simp add: emit_def with_stack_update split: prod.split)

lemma emit_simps [simp]:
  "vm (emit ops report c s) = vm s"
  "configured (emit ops report c s) = configured s"
  "prog_steps (emit ops report c s) = prog_steps s"
  "current (emit ops report c s) = current s"
  by (simp_all add: emit_def split: prod.split)

lemma http_finish_with_stack:
  "http_finish ops report verb dc u start r (with_stack st s) =
     map_prod id (with_stack st) (http_finish ops report verb dc u start r s)"
  by (auto simp: http_finish_def emit_with_stack with_stack_update Let_def
      split: sum.splits prod.splits)

lemma host_with_stack:
  "host ops report c (with_stack st s) = map_prod id (with_stack st) (host ops report c s)"
proof (cases c)
  case (HSetStep k v)
  then show ?thesis
    by (simp add: set_step_def registerStep_def with_stack_update split: sum.splits)
next
  case (HInfo v)
  then show ?thesis
    by (simp add: host_log_def Let_def emit_with_stack with_stack_update split: option.splits)
next
  case (HFatal v)
  then show ?thesis
    by (simp add: host_log_def Let_def emit_with_stack with_stack_update split: option.splits)
next
  case (HGet v)
  then show ?thesis
    by (simp add: http_get_def Let_def with_stack_update http_finish_with_stack
        split: sum.splits prod.splits)
next
  case (HPost v1 v2 v3)
  then show ?thesis
    by (simp add: http_post_def Let_def with_stack_update http_finish_with_stack
        split: sum.splits prod.splits)
qed (simp_all add: with_stack_update)

lemma run_itree_with_stack:
  "run_itree t ops report (with_stack st s) = map_prod id (with_stack st) (run_itree t ops report s)"
proof (induction t arbitrary: s)
  case (ICall c k)
  show ?case
    by (simp add: host_with_stack ICall split: prod.splits sum.splits)
qed simp_all


section \<open>The steps as a pipeline\<close>

text \<open>
  The specification of \<open>runSteps\<close>, without a stack: every step is called with the value the
  step before it returned, the first one with an empty table; an error or a cancelled
  context ends the run.
\<close>

fun pipe ::
  "'w engine_ops \<Rightarrow> 'm reporter \<Rightarrow> string list \<Rightarrow> lval \<Rightarrow> ('m, 'w) LuaProgram \<Rightarrow>
   errorv \<times> ('m, 'w) LuaProgram" where
  "pipe ops report [] arg s = (None, s)"
| "pipe ops report (name # rest) arg s0 =
    (let s = s0\<lparr>current := Some name\<rparr> in
     if ctx_done ops (world s) then (None, s)
     else let (start, w1) = w_now ops (world s) in
       (case run_itree (lua_apply ops (step_fields (vm s) (LStr name)) arg) ops report (s\<lparr>world := w1\<rparr>) of
          (Inl e, s1) \<Rightarrow> (Some (StepError name e), emit ops report (CallStepError name) s1)
        | (Inr v, s1) \<Rightarrow>
            let (now, w2) = w_now ops (world s1) in
            pipe ops report rest v
              (emit ops report (CallStepExecution name (now - start)) (s1\<lparr>world := w2\<rparr>))))"

lemma l_push_with_stack: "s\<lparr>vm := l_push v (vm s)\<rparr> = with_stack (lstack (vm s) @ [v]) s"
  by (simp add: l_push_def with_stack_def)

lemma ProtectedCall11_eq:
  "ProtectedCall11 ops report (with_stack (base @ [f, a]) s) =
    (case run_itree (lua_apply ops f a) ops report s of
       (Inl e, s') \<Rightarrow> Ret (Some e, with_stack (base @ [LStr (Error e)]) s')
     | (Inr v, s') \<Rightarrow> Ret (None, with_stack (base @ [v]) s'))"
proof -
  have "(with_stack (base @ [f, a]) s)\<lparr>vm := l_Pop 2 (vm (with_stack (base @ [f, a]) s))\<rparr> =
      with_stack base s"
    by (simp add: with_stack_def l_Pop_def Top_def)
  then show ?thesis
    by (simp add: ProtectedCall11_def indexToValue_def Top_def nth_append run_itree_with_stack
        l_push_with_stack split: prod.splits sum.splits)
qed

text \<open>One round of the loop moves function and argument into place over the step table.\<close>

lemma step_frame:
  assumes "lstack l = [LStepTable, arg]"
  shows "go_bind (l_Field (Suc (Suc 0)) name l) (\<lambda>l1. go_bind (l_PushValue (Suc (Suc 0)) l1) (\<lambda>l2.
     go_bind (l_Remove (Suc (Suc (Suc 0))) l2) F)) = F (l\<lparr>lstack := [LStepTable, step_fields l (LStr name), arg]\<rparr>)"
  using assms
  by (simp add: l_Field_def l_PushValue_def l_Remove_def indexToValue_def Top_def tableAt_def
      l_push_def)

lemma step_loop_pipe:
  "\<exists>y. step_loop ops report names (with_stack [LStepTable, arg] s) =
     (case pipe ops report names arg s of (e, s') \<Rightarrow> Ret (e, with_stack [LStepTable, y] s'))"
proof (induction names arbitrary: arg s)
  case (Cons name rest)
  let ?s = "s\<lparr>current := Some name\<rparr>"
  obtain start w1 where now: "w_now ops (world s) = (start, w1)" by (cases "w_now ops (world s)")
  let ?f = "step_fields (vm s) (LStr name)"
  have frame: "(with_stack [LStepTable, arg] ?s)\<lparr>vm := (vm (with_stack [LStepTable, arg] ?s))
      \<lparr>lstack := [LStepTable, ?f, arg]\<rparr>, world := w1\<rparr> =
      with_stack ([LStepTable] @ [?f, arg]) (?s\<lparr>world := w1\<rparr>)"
    by (simp add: with_stack_def)
  have body: "step_loop ops report (name # rest) (with_stack [LStepTable, arg] s) =
      (if ctx_done ops (world s) then Ret (None, with_stack [LStepTable, arg] ?s)
       else go_bind (ProtectedCall11 ops report (with_stack ([LStepTable] @ [?f, arg]) (?s\<lparr>world := w1\<rparr>)))
         (\<lambda>(err, s1). case err of
            Some e \<Rightarrow> Ret (Some (StepError name e), emit ops report (CallStepError name) s1)
          | None \<Rightarrow> if Top (vm s1) \<noteq> 2 then Panic ''Uncaught Lua error: runtime error''
              else let (now, w2) = w_now ops (world s1) in step_loop ops report rest
                (emit ops report (CallStepExecution name (now - start)) (s1\<lparr>world := w2\<rparr>))))"
    by (simp add: frame step_frame [of "vm (with_stack [LStepTable, arg] ?s)" arg name]
        with_stack_update now Top_def Let_def)
  obtain r s1 where run: "run_itree (lua_apply ops ?f arg) ops report (?s\<lparr>world := w1\<rparr>) = (r, s1)"
    by (cases "run_itree (lua_apply ops ?f arg) ops report (?s\<lparr>world := w1\<rparr>)")
  show ?case
  proof (cases "ctx_done ops (world s)")
    case True
    then show ?thesis by (intro exI [of _ arg]) (simp only: body, simp add: Let_def)
  next
    case False
    show ?thesis
    proof (cases r)
      case (Inl e)
      with False run now show ?thesis
        by (intro exI [of _ "LStr (Error e)"])
          (simp only: body, simp add: ProtectedCall11_eq [of _ _ "[LStepTable]", simplified] Let_def emit_with_stack)
    next
      case (Inr v)
      obtain now2 w2 where n2: "w_now ops (world s1) = (now2, w2)" by (cases "w_now ops (world s1)")
      from False run now Inr n2 Cons.IH [of v "emit ops report (CallStepExecution name (now2 - start)) (s1\<lparr>world := w2\<rparr>)"]
      show ?thesis
        by (simp only: body)
          (simp add: ProtectedCall11_eq [of _ _ "[LStepTable]", simplified] Let_def Top_def with_stack_update emit_with_stack)
    qed
  qed
qed (auto intro: exI [of _ arg])

lemma runSteps_eq_pipe:
  assumes "lstack (vm s) = []" and "globals (vm s) ''step'' = LStepTable"
  shows "runSteps ops report s =
    (case pipe ops report (prog_steps s) (LTable []) (emit ops report CallScriptExecution s) of
       (e, s') \<Rightarrow> Ret (e, with_stack [] s'))"
proof -
  have s: "s\<lparr>vm := l_NewTable (l_Global ''step'' (vm s))\<rparr> = with_stack [LStepTable, LTable []] s"
    using assms by (simp add: l_NewTable_def l_Global_def l_push_def with_stack_def)
  obtain y where "step_loop ops report (prog_steps s)
      (with_stack [LStepTable, LTable []] (emit ops report CallScriptExecution s)) =
      (case pipe ops report (prog_steps s) (LTable []) (emit ops report CallScriptExecution s) of
         (e, s') \<Rightarrow> Ret (e, with_stack [LStepTable, y] s'))"
    using step_loop_pipe by blast
  moreover have "\<And>y s'. (with_stack [LStepTable, y] s')\<lparr>vm := l_Pop 2 (vm (with_stack [LStepTable, y] s'))\<rparr> =
      with_stack [] s'"
    by (simp add: with_stack_def l_Pop_def Top_def)
  ultimately show ?thesis
    by (simp add: runSteps_def s Let_def emit_with_stack split: prod.splits)
qed


section \<open>Loading, configuring and running together\<close>

lemma l_SetGlobal_push:
  "l_SetGlobal name (l_push v l) = Ret (l\<lparr>globals := (globals l)(name := v)\<rparr>)"
  by (simp add: l_SetGlobal_def l_push_def indexToValue_def l_Pop_def Top_def)

lemma configureLua_eq: "configureLua l = Ret (l\<lparr>globals := (globals l)(''step'' := LStepTable)\<rparr>)"
proof -
  let ?l2 = "l_push LStepTable (l_push (LRef 0) l)"
  have "l_PushValue 1 ?l2 = Ret (l_push LStepTable ?l2)"
    by (simp add: l_PushValue_def indexToValue_def l_push_def Top_def nth_append)
  then show ?thesis
    by (simp add: configureLua_def Let_def l_SetGlobal_push) (simp add: l_push_def l_Pop_def Top_def)
qed

text \<open>The program a script starts from.\<close>

definition fresh_program :: "'m \<Rightarrow> 'w \<Rightarrow> ('m, 'w) LuaProgram" where
  "fresh_program met w =
    \<lparr>vm = NewState\<lparr>globals := (\<lambda>_. LNil)(''step'' := LStepTable, ''info'' := LRef 1,
        ''fatal'' := LRef 2, ''get'' := LRef 3, ''post'' := LRef 4)\<rparr>,
     configured = False, prog_steps = [], metrics = met, current = None, out = [], world = w\<rparr>"

lemma Lua_eq:
  "Lua ops report met source w = (case lua_load ops source of
     Inl e \<Rightarrow> Ret (with_stack [LStr (Error e)] (fresh_program met w),
                 Some (Errorf (''compiling program: '' @ Error e)))
   | Inr chunk \<Rightarrow> (case run_itree chunk ops report (fresh_program met w) of
       (Inl e, p') \<Rightarrow> Ret (p'\<lparr>vm := l_push (LStr (Error e)) (vm p')\<rparr>,
                         Some (Errorf (''preparing program: '' @ Error e)))
     | (Inr _, p') \<Rightarrow> Ret (p'\<lparr>configured := True\<rparr>, None)))"
proof -
  have "configureLua NewState = Ret (NewState\<lparr>globals := (\<lambda>_. LNil)(''step'' := LStepTable)\<rparr>)"
    by (simp add: configureLua_eq NewState_def)
  moreover have reg: "l_Register name f (NewState\<lparr>globals := g\<rparr>) =
      Ret (NewState\<lparr>globals := g(name := LRef f)\<rparr>)" for name f g
    by (simp add: l_Register_def l_SetGlobal_push)
  ultimately show ?thesis
    by (simp only: Lua_def go_bind.simps reg Let_def flip: fresh_program_def)
      (cases "lua_load ops source"; simp add: fresh_program_def with_stack_def l_push_def NewState_def)
qed

lemma host_stack: "host ops report c s = (r, s') \<Longrightarrow> lstack (vm s') = lstack (vm s)"
  using host_with_stack [of ops report c "lstack (vm s)" s]
  by (simp add: with_stack_def) (metis with_stack_def with_stack_simps(9))

lemma run_itree_stack:
  "run_itree t ops report s = (r, s') \<Longrightarrow> lstack (vm s') = lstack (vm s)"
proof (induction t arbitrary: s)
  case (ICall c k)
  obtain q s1 where h: "host ops report c s = (q, s1)" by (cases "host ops report c s")
  from host_stack [OF h] have st: "lstack (vm s1) = lstack (vm s)" .
  show ?case
  proof (cases q)
    case (Inr v)
    with ICall.prems h have "run_itree (k v) ops report s1 = (r, s')" by simp
    from ICall.IH [OF _ this] st show ?thesis by simp
  qed (use ICall.prems h st in auto)
qed auto

text \<open>After loading, the list of steps is fixed: a new name is refused.\<close>

lemma http_finish_steps [simp]:
  "prog_steps (snd (http_finish ops report verb dc u start r s)) = prog_steps s"
  "configured (snd (http_finish ops report verb dc u start r s)) = configured s"
  "globals (vm (snd (http_finish ops report verb dc u start r s))) = globals (vm s)"
  by (auto simp: http_finish_def Let_def split: sum.splits prod.splits)

lemma host_configured: "configured (snd (host ops report c s)) = configured s"
  by (cases c) (simp_all add: set_step_def registerStep_def host_log_def http_get_def http_post_def
      Let_def case_prod_beta split: sum.split option.split)

lemma host_steps_fixed: "configured s \<Longrightarrow> prog_steps (snd (host ops report c s)) = prog_steps s"
  by (cases c) (simp_all add: set_step_def registerStep_def host_log_def http_get_def http_post_def
      Let_def case_prod_beta split: sum.split option.split)

lemma run_itree_steps_fixed:
  "configured s \<Longrightarrow> prog_steps (snd (run_itree t ops report s)) = prog_steps s \<and>
     configured (snd (run_itree t ops report s))"
proof (induction t arbitrary: s)
  case (ICall c k)
  obtain r s1 where h: "host ops report c s = (r, s1)" by (cases "host ops report c s")
  have "prog_steps s1 = prog_steps s" "configured s1"
    using host_steps_fixed [OF ICall.prems, of ops report c] host_configured [of ops report c s] h
      ICall.prems by simp_all
  then show ?case using h ICall.IH by (cases r) auto
qed auto

end
