(* ===== verification/Worker.thy ===== *)
theory Worker
  imports LuaEngine
begin

text \<open>
  One job of a worker, \<open>executor/controller/worker.go\<close>: load the script with the worker's
  gatherer as reporter, apply the configuration, execute, and record a script error. The
  reporter is write-only, so a job is modelled by the sequence of reports it makes; the last
  section shows that replaying this sequence into a gatherer is the same as running the
  script on the gatherer itself.
\<close>

section \<open>Reports\<close>

datatype emission =
    EmMetric metric_call int
  | EmLuaError gerror int

fun apply_emission :: "MetricsGatherer \<Rightarrow> emission \<Rightarrow> MetricsGatherer" where
  "apply_emission m (EmMetric c now) = gatherer_report c now m"
| "apply_emission m (EmLuaError e now) = AddLuaError e now m"

definition trace_report :: "emission list reporter" where
  "trace_report c now es = es @ [EmMetric c now]"

text \<open>How the job leaves the worker: back in its loop, returned, or with the process down.\<close>

datatype job_end = JContinue | JReturn | JPanic string

text \<open>
  The body of the loop after \<open>testNum++\<close>, on the worker's own gatherer. The decoder of the
  configuration text and the printing of configuration values are parameters; the loaded
  program runs with a background context.
\<close>

definition run_prog ::
  "'w engine_ops \<Rightarrow> (MetricsGatherer, 'w) LuaProgram \<Rightarrow> MetricsGatherer \<times> job_end" where
  "run_prog ops prog = (case Execute ops gatherer_report prog of
     Panic m \<Rightarrow> (metrics prog, JPanic m)
   | Ret (None, p) \<Rightarrow> (metrics p, JContinue)
   | Ret (Some err, p) \<Rightarrow> (AddLuaError err (fst (w_now ops (world p))) (metrics p), JContinue))"

definition worker_run ::
  "'w engine_ops \<Rightarrow> (string \<Rightarrow> (string \<times> gval) list result) \<Rightarrow> (gval \<Rightarrow> string) \<Rightarrow>
   ScriptParams \<Rightarrow> string \<Rightarrow> MetricsGatherer \<Rightarrow> 'w \<Rightarrow> MetricsGatherer \<times> job_end" where
  "worker_run ops unmarshal sh command config met w =
    (case Lua ops gatherer_report met (Script command) w of
       Panic m \<Rightarrow> (met, JPanic m)
     | Ret (prog, Some err) \<Rightarrow> (metrics prog, JReturn)
     | Ret (prog, None) \<Rightarrow>
         if config \<noteq> '''' then
           (case unmarshal config of
              Inl err \<Rightarrow> (metrics prog, JReturn)
            | Inr cfg \<Rightarrow> (case AddConfig sh cfg (vm prog) of
                Panic m \<Rightarrow> (metrics prog, JPanic m)
              | Ret (Some err, l) \<Rightarrow> (metrics prog, JReturn)
              | Ret (None, l) \<Rightarrow> run_prog ops (prog\<lparr>vm := l\<rparr>)))
         else run_prog ops prog)"

text \<open>The same body as the list of reports it makes.\<close>

definition run_loaded ::
  "'w engine_ops \<Rightarrow> (emission list, 'w) LuaProgram \<Rightarrow> emission list \<times> job_end" where
  "run_loaded ops prog = (case Execute ops trace_report prog of
     Panic m \<Rightarrow> (metrics prog, JPanic m)
   | Ret (None, p) \<Rightarrow> (metrics p, JContinue)
   | Ret (Some err, p) \<Rightarrow> (metrics p @ [EmLuaError err (fst (w_now ops (world p)))], JContinue))"

definition worker_job ::
  "'w engine_ops \<Rightarrow> (string \<Rightarrow> (string \<times> gval) list result) \<Rightarrow> (gval \<Rightarrow> string) \<Rightarrow>
   ScriptParams \<Rightarrow> string \<Rightarrow> 'w \<Rightarrow> emission list \<times> job_end" where
  "worker_job ops unmarshal sh command config w =
    (case Lua ops trace_report [] (Script command) w of
       Panic m \<Rightarrow> ([], JPanic m)
     | Ret (prog, Some err) \<Rightarrow> (metrics prog, JReturn)
     | Ret (prog, None) \<Rightarrow>
         if config \<noteq> '''' then
           (case unmarshal config of
              Inl err \<Rightarrow> (metrics prog, JReturn)
            | Inr cfg \<Rightarrow> (case AddConfig sh cfg (vm prog) of
                Panic m \<Rightarrow> (metrics prog, JPanic m)
              | Ret (Some err, l) \<Rightarrow> (metrics prog, JReturn)
              | Ret (None, l) \<Rightarrow> run_loaded ops (prog\<lparr>vm := l\<rparr>)))
         else run_loaded ops prog)"


section \<open>Replaying a trace\<close>

fun replay_one :: "'m reporter \<Rightarrow> 'm \<Rightarrow> emission \<Rightarrow> 'm" where
  "replay_one report m (EmMetric c now) = report c now m"
| "replay_one report m (EmLuaError e now) = m"

text \<open>The same program with its trace played into a reporter that started as \<open>m0\<close>.\<close>

definition replay :: "'m reporter \<Rightarrow> 'm \<Rightarrow> (emission list, 'w) LuaProgram \<Rightarrow> ('m, 'w) LuaProgram" where
  "replay report m0 s = \<lparr>vm = vm s, configured = configured s, prog_steps = prog_steps s,
     metrics = foldl (replay_one report) m0 (metrics s), current = current s, out = out s,
     world = world s\<rparr>"

lemma replay_simps [simp]:
  "vm (replay report m0 s) = vm s"
  "configured (replay report m0 s) = configured s"
  "prog_steps (replay report m0 s) = prog_steps s"
  "current (replay report m0 s) = current s"
  "out (replay report m0 s) = out s"
  "world (replay report m0 s) = world s"
  "metrics (replay report m0 s) = foldl (replay_one report) m0 (metrics s)"
  by (simp_all add: replay_def)

lemma replay_update:
  "(replay report m0 s)\<lparr>vm := l\<rparr> = replay report m0 (s\<lparr>vm := l\<rparr>)"
  "(replay report m0 s)\<lparr>world := w\<rparr> = replay report m0 (s\<lparr>world := w\<rparr>)"
  "(replay report m0 s)\<lparr>out := t\<rparr> = replay report m0 (s\<lparr>out := t\<rparr>)"
  "(replay report m0 s)\<lparr>current := c\<rparr> = replay report m0 (s\<lparr>current := c\<rparr>)"
  "(replay report m0 s)\<lparr>configured := b\<rparr> = replay report m0 (s\<lparr>configured := b\<rparr>)"
  "(replay report m0 s)\<lparr>prog_steps := xs\<rparr> = replay report m0 (s\<lparr>prog_steps := xs\<rparr>)"
  by (simp_all add: replay_def)

lemma emit_replay: "emit ops report c (replay report m0 s) = replay report m0 (emit ops trace_report c s)"
  by (simp add: emit_def trace_report_def replay_def split: prod.split)

lemmas replay_rules = emit_replay replay_update Let_def

lemma http_finish_replay:
  "http_finish ops report verb dc u start r (replay report m0 s) =
     map_prod id (replay report m0) (http_finish ops trace_report verb dc u start r s)"
  by (auto simp: http_finish_def replay_rules split: sum.splits prod.splits)

lemma host_replay:
  "host ops report c (replay report m0 s) =
     map_prod id (replay report m0) (host ops trace_report c s)"
proof (cases c)
  case (HSetStep k v)
  then show ?thesis
    by (simp add: set_step_def registerStep_def replay_rules split: sum.splits)
next
  case (HInfo v)
  then show ?thesis by (simp add: host_log_def replay_rules split: option.splits)
next
  case (HFatal v)
  then show ?thesis by (simp add: host_log_def replay_rules split: option.splits)
next
  case (HGet v)
  then show ?thesis
    by (simp add: http_get_def replay_rules http_finish_replay split: sum.splits prod.splits)
next
  case (HPost v1 v2 v3)
  then show ?thesis
    by (simp add: http_post_def replay_rules http_finish_replay split: sum.splits prod.splits)
qed (simp_all add: replay_update)

lemma run_itree_replay:
  "run_itree t ops report (replay report m0 s) =
     map_prod id (replay report m0) (run_itree t ops trace_report s)"
proof (induction t arbitrary: s)
  case (ICall c k)
  show ?case by (simp add: host_replay ICall split: prod.splits sum.splits)
qed simp_all

definition replay_out ::
  "'m reporter \<Rightarrow> 'm \<Rightarrow> (errorv \<times> (emission list, 'w) LuaProgram) go \<Rightarrow> (errorv \<times> ('m, 'w) LuaProgram) go" where
  "replay_out report m0 r = (case r of Panic m \<Rightarrow> Panic m | Ret (e, s) \<Rightarrow> Ret (e, replay report m0 s))"

lemma replay_out_simps [simp]:
  "replay_out report m0 (Panic m) = Panic m"
  "replay_out report m0 (Ret (e, s)) = Ret (e, replay report m0 s)"
  by (simp_all add: replay_out_def)

lemma ProtectedCall11_replay:
  "ProtectedCall11 ops report (replay report m0 s) =
     replay_out report m0 (ProtectedCall11 ops trace_report s)"
  by (cases "indexToValue 2 (vm s)"; cases "indexToValue 1 (vm s)")
    (simp_all add: ProtectedCall11_def run_itree_replay replay_update split: prod.splits sum.splits)

lemma step_loop_replay:
  fixes ops :: "'w engine_ops"
  shows "step_loop ops report names (replay report m0 s) =
     replay_out report m0 (step_loop ops trace_report names s)"
proof (induction names arbitrary: s)
  case (Cons name rest)
  obtain start w1 where now: "w_now ops (world s) = (start, w1)" by (cases "w_now ops (world s)")
  have call: "go_bind (ProtectedCall11 ops report (replay report m0 t)) (\<lambda>(err, s1). case err of
        Some e \<Rightarrow> Ret (Some (StepError name e), emit ops report (CallStepError name) s1)
      | None \<Rightarrow> if Top (vm s1) \<noteq> 2 then Panic ''Uncaught Lua error: runtime error''
          else let (now, w2) = w_now ops (world s1) in
            step_loop ops report rest (emit ops report (CallStepExecution name (now - start)) (s1\<lparr>world := w2\<rparr>))) =
    replay_out report m0 (go_bind (ProtectedCall11 ops trace_report t) (\<lambda>(err, s1). case err of
        Some e \<Rightarrow> Ret (Some (StepError name e), emit ops trace_report (CallStepError name) s1)
      | None \<Rightarrow> if Top (vm s1) \<noteq> 2 then Panic ''Uncaught Lua error: runtime error''
          else let (now, w2) = w_now ops (world s1) in
            step_loop ops trace_report rest (emit ops trace_report (CallStepExecution name (now - start)) (s1\<lparr>world := w2\<rparr>))))"
    for t :: "(emission list, 'w) LuaProgram"
    by (cases "ProtectedCall11 ops trace_report t")
      (auto simp: ProtectedCall11_replay replay_rules Cons.IH split: option.split prod.split)
  have bind: "go_bind m (\<lambda>l. replay_out report m0 (f l)) = replay_out report m0 (go_bind m f)"
    for m :: "lua_state go" and f :: "lua_state \<Rightarrow> (errorv \<times> (emission list, 'w) LuaProgram) go"
    by (cases m) simp_all
  show ?case
    by (simp add: Let_def replay_update now call bind)
qed simp

text \<open>Loading and executing agree on every reporter with the trace.\<close>

lemma Execute_replay:
  fixes ops :: "'w engine_ops"
  shows "Execute ops report (replay report m0 s) = replay_out report m0 (Execute ops trace_report s)"
proof -
  have "go_bind (replay_out report m0 m) (\<lambda>(e, s3). Ret (e, s3\<lparr>vm := l_Pop 2 (vm s3)\<rparr>)) =
      replay_out report m0 (go_bind m (\<lambda>(e, s3). Ret (e, s3\<lparr>vm := l_Pop 2 (vm s3)\<rparr>)))"
    for m :: "(errorv \<times> (emission list, 'w) LuaProgram) go"
    by (cases m) (auto simp: replay_update)
  then show ?thesis
    by (simp add: Execute_def runSteps_def replay_rules step_loop_replay)
qed

lemma Lua_replay:
  "Lua ops report m0 source w = (case Lua ops trace_report [] source w of
     Panic m \<Rightarrow> Panic m | Ret (p, e) \<Rightarrow> Ret (replay report m0 p, e))"
proof -
  have fresh: "fresh_program m0 w = replay report m0 (fresh_program [] w)"
    by (simp add: fresh_program_def replay_def)
  show ?thesis
    by (cases "lua_load ops source")
      (auto simp: Lua_eq fresh run_itree_replay with_stack_def replay_update split: prod.splits sum.splits)
qed


text \<open>No script error is recorded before the script has ended.\<close>

definition only_metrics :: "emission list \<Rightarrow> bool" where
  "only_metrics es = list_all (\<lambda>e. case e of EmMetric _ _ \<Rightarrow> True | _ \<Rightarrow> False) es"

lemma replay_gatherer:
  "only_metrics es \<Longrightarrow> foldl (replay_one gatherer_report) m es = foldl apply_emission m es"
  by (induction es arbitrary: m) (auto simp: only_metrics_def split: emission.splits)

text \<open>A property of the metrics that every report keeps is kept by a whole run.\<close>

lemma http_finish_metrics:
  "(\<And>c now m. P m \<Longrightarrow> P (report c now m)) \<Longrightarrow> P (metrics s) \<Longrightarrow>
     P (metrics (snd (http_finish ops report verb dc u start r s)))"
  by (auto simp: http_finish_def emit_def Let_def split: sum.splits prod.splits)

lemma host_metrics:
  assumes keep: "\<And>c now m. P m \<Longrightarrow> P (report c now m)" and "P (metrics s)"
  shows "P (metrics (snd (host ops report c s)))"
  using assms(2)
  by (cases c) (auto simp: set_step_def registerStep_def host_log_def http_get_def http_post_def
      Let_def emit_def case_prod_beta intro: keep http_finish_metrics [of P report] split: sum.split option.split)

lemma run_itree_metrics:
  assumes keep: "\<And>c now m. P m \<Longrightarrow> P (report c now m)"
  shows "P (metrics s) \<Longrightarrow> P (metrics (snd (run_itree t ops report s)))"
proof (induction t arbitrary: s)
  case (ICall c k)
  obtain r s1 where h: "host ops report c s = (r, s1)" by (cases "host ops report c s")
  with host_metrics [of P report, OF keep ICall.prems, of ops c] ICall.IH show ?case
    by (cases r) auto
qed auto


lemma ProtectedCall11_metrics:
  assumes keep: "\<And>c now m. P m \<Longrightarrow> P (report c now m)" and "P (metrics s)"
    and "ProtectedCall11 ops report s = Ret (e, s')"
  shows "P (metrics s')"
proof -
  let ?s = "s\<lparr>vm := l_Pop 2 (vm s)\<rparr>"
  have "P (metrics (snd (run_itree t ops report ?s)))" for t
    using run_itree_metrics [of P report, OF keep, of ?s] assms(2) by simp
  note run = this
  from assms(3) obtain t where "(case run_itree t ops report ?s of
         (Inl e, s') \<Rightarrow> Ret (Some e, s'\<lparr>vm := l_push (LStr (Error e)) (vm s')\<rparr>)
       | (Inr v, s') \<Rightarrow> Ret (None, s'\<lparr>vm := l_push v (vm s')\<rparr>)) = Ret (e, s')"
    unfolding ProtectedCall11_def by (elim go_bindE)
  with run [of t] show ?thesis
    by (cases "run_itree t ops report ?s"; cases "fst (run_itree t ops report ?s)") auto
qed

lemma emit_metrics:
  "(\<And>c now m. P m \<Longrightarrow> P (report c now m)) \<Longrightarrow> P (metrics s) \<Longrightarrow> P (metrics (emit ops report c s))"
  by (simp add: emit_def split: prod.split)

lemma step_loop_metrics:
  assumes keep: "\<And>c now m. P m \<Longrightarrow> P (report c now m)"
  shows "P (metrics s) \<Longrightarrow> step_loop ops report names s = Ret (e, s') \<Longrightarrow> P (metrics s')"
proof (induction names arbitrary: s)
  case (Cons name rest)
  show ?case
  proof (cases "ctx_done ops (world s)")
    case True
    with Cons.prems show ?thesis by auto
  next
    case False
    obtain start w1 where now: "w_now ops (world s) = (start, w1)" by (cases "w_now ops (world s)")
    let ?K = "\<lambda>err s1. case err of
              Some e \<Rightarrow> Ret (Some (StepError name e), emit ops report (CallStepError name) s1)
            | None \<Rightarrow> if Top (vm s1) \<noteq> 2 then Panic ''Uncaught Lua error: runtime error''
                else let (now, w2) = w_now ops (world s1) in step_loop ops report rest
                    (emit ops report (CallStepExecution name (now - start)) (s1\<lparr>world := w2\<rparr>))"
    let ?i = "Top (vm s)"
    have "go_bind (l_Field ?i name (vm s)) (\<lambda>l1. go_bind (l_PushValue ?i l1) (\<lambda>l2.
        go_bind (l_Remove (?i + 1) l2) (\<lambda>l3.
          go_bind (ProtectedCall11 ops report (s\<lparr>current := Some name, vm := l3, world := w1\<rparr>)) (case_prod ?K)))) =
        step_loop ops report (name # rest) s"
      using False by (simp add: Let_def now)
    also note Cons.prems(2)
    finally obtain l3 errs where
      "ProtectedCall11 ops report (s\<lparr>current := Some name, vm := l3, world := w1\<rparr>) = Ret errs"
      "case_prod ?K errs = Ret (e, s')"
      by (elim go_bindE)
    then obtain err s1 where
      call: "ProtectedCall11 ops report (s\<lparr>current := Some name, vm := l3, world := w1\<rparr>) = Ret (err, s1)"
      and rest: "?K err s1 = Ret (e, s')"
      by (cases errs) auto
    have s1: "P (metrics s1)"
      using ProtectedCall11_metrics [of P report, OF keep _ call] Cons.prems(1) by simp
    then have "P (metrics (emit ops report c (s1\<lparr>world := w\<rparr>)))" "P (metrics (emit ops report c s1))" for c w
      by (simp_all add: emit_metrics [of P report, OF keep])
    with rest Cons.IH show ?thesis by (auto simp: Let_def split: option.splits if_splits prod.splits)
  qed
qed auto

lemma Execute_metrics:
  assumes keep: "\<And>c now m. P m \<Longrightarrow> P (report c now m)"
    and "P (metrics s)" and "Execute ops report s = Ret (e, s')"
  shows "P (metrics s')"
proof -
  let ?s = "emit ops report CallScriptExecution
    (s\<lparr>current := Some ''<not a step>'', vm := l_NewTable (l_Global ''step'' (vm s))\<rparr>)"
  have "P (metrics ?s)" using assms(2) by (simp add: emit_metrics [of P report, OF keep])
  moreover from assms(3) obtain s3 where "step_loop ops report (prog_steps s) ?s = Ret (e, s3)"
    "metrics s' = metrics s3"
    by (auto simp: Execute_def runSteps_def Let_def)
  ultimately show ?thesis using step_loop_metrics [of P report, OF keep] by simp
qed

lemma Lua_metrics:
  assumes keep: "\<And>c now m. P m \<Longrightarrow> P (report c now m)"
    and "P m0" and "Lua ops report m0 source w = Ret (p, e)"
  shows "P (metrics p)"
proof -
  have fresh: "metrics (fresh_program m0 w) = m0" by (simp add: fresh_program_def)
  have "P (metrics (snd (run_itree t ops report (fresh_program m0 w))))" for t
    by (rule run_itree_metrics [of P report, OF keep]) (use fresh assms(2) in simp_all)
  with fresh show ?thesis
    using assms(2,3) by (auto simp: Lua_eq case_prod_beta split: sum.splits)
qed

lemma trace_only_metrics: "only_metrics m \<Longrightarrow> only_metrics (trace_report c now m)"
  by (simp add: only_metrics_def trace_report_def)

lemma run_prog_trace:
  assumes "only_metrics (metrics p)" and "run_loaded ops p = (es, e)"
  shows "run_prog ops (replay gatherer_report m0 p) = (foldl apply_emission m0 es, e)"
  using assms Execute_metrics [of only_metrics trace_report p ops, OF trace_only_metrics]
  by (cases "Execute ops trace_report p")
    (auto simp: run_prog_def run_loaded_def Execute_replay replay_gatherer split: option.splits)


end
