(* ===== verification/Controller.thy ===== *)
theory Controller
  imports Worker Persistence
begin

text \<open>
  The controller of an executor, \<open>executor/controller/controller.go\<close>, with the loop of its
  workers, \<open>executor/controller/worker.go\<close>. The goroutines are a labelled machine: a label
  names a goroutine and, where a \<open>select\<close> has several ready cases, the case it takes, so that
  a list of labels is one interleaving. A step that is not enabled is \<open>None\<close>. Channels are
  their contents and whether they are closed; the wait group is its counter. The fields
  \<open>reported\<close>, \<open>delivered\<close>, \<open>dropped\<close> and \<open>jobs_sent\<close> are history, not program state.
\<close>

section \<open>Rate of the load test\<close>

definition getNumberOfIterations :: "int \<Rightarrow> int \<Rightarrow> int" where
  "getNumberOfIterations tickTimer requestsPerSecond =
     int_of_f64 (f64_mult (f64_of_int requestsPerSecond) (Seconds tickTimer))"

definition tickTimer :: int where
  "tickTimer = 100 * millisecond_ns"

definition numSavedExecutions :: int where
  "numSavedExecutions = 1000"

text \<open>The rate after one growth tick, and whether it may grow further.\<close>

definition grow :: "ScriptParams \<Rightarrow> int \<Rightarrow> int \<times> bool" where
  "grow command requestsPerSecond =
    (let r = int_of_f64 (f64_mult (f64_of_int requestsPerSecond) (GrowthFactor command)) in
     if r > sint (MaxRequestsPerSecond command)
     then (sint (MaxRequestsPerSecond command), False) else (r, True))"

text \<open>
  A duration given as a float is truncated before it is multiplied by a second;
  \<open>time.NewTicker\<close> panics on an interval that is not positive.
\<close>

definition growth_interval :: "ScriptParams \<Rightarrow> int" where
  "growth_interval command = wrap64 (second_ns * int_of_f64 (TimeBetweenGrowth command))"

definition NewTicker :: "int \<Rightarrow> unit go" where
  "NewTicker d = (if d \<le> 0 then Panic ''non-positive interval for NewTicker'' else Ret ())"


section \<open>State\<close>

datatype worker_phase =
    WNew
  | WIdle
  | WGot
  | WRunning "emission list" job_end
  | WDead

record worker =
  w_phase :: worker_phase
  w_testNum :: int
  w_Done :: bool

datatype sender_phase =
    SNew
  | SCollect nat batchpoints
  | SSend nat "batchpoints option"
  | SDead

datatype main_phase =
    MSelect
  | MSend int
  | MStop nat
  | MWait
  | MCollect nat batchpoints
  | MReturn "batchpoints result"

record 'p run_state =
  main :: main_phase
  jobs :: nat
  jobs_closed :: bool
  requestsPerSecond :: int
  iterations :: int
  growthActive :: bool
  totalIterations :: int
  halt_closed :: bool
  done_closed :: bool
  workers :: "worker list"
  metricsList :: "MetricsGatherer list"
  senders :: "sender_phase list"
  wg :: nat
  pers :: 'p
  crashed :: "string option"
  reported :: "Point list"
  delivered :: "Point list"
  dropped :: "Point list"
  jobs_sent :: nat

text \<open>What the machine runs in: the command, the engine and the persister.\<close>

record ('w, 'p) ctl_env =
  env_ops :: "'w engine_ops"
  env_unmarshal :: "string \<Rightarrow> (string \<times> gval) list result"
  env_show :: "gval \<Rightarrow> string"
  env_persist :: "'p \<Rightarrow> batchpoints option \<Rightarrow> (errorv \<times> batchpoints option \<times> 'p) go"
  env_Command :: ScriptParams
  env_Config :: string
  env_droplet :: int

definition channel_cap :: "('w, 'p) ctl_env \<Rightarrow> nat" where
  "channel_cap env = nat (sint (MaxRequestsPerSecond (env_Command env)))"

text \<open>The loop that creates the gatherers and starts the workers.\<close>

fun make_workers :: "string \<Rightarrow> int \<Rightarrow> nat \<Rightarrow> nat \<Rightarrow> (worker list \<times> MetricsGatherer list) result" where
  "make_workers sid did i 0 = Inr ([], [])"
| "make_workers sid did i (Suc n) = (case NewMetricsGatherer sid did (of_nat i) of
     Inl e \<Rightarrow> Inl e
   | Inr m \<Rightarrow> (case make_workers sid did (Suc i) n of
       Inl e \<Rightarrow> Inl e
     | Inr (ws, ms) \<Rightarrow>
         Inr (\<lparr>w_phase = WNew, w_testNum = 0, w_Done = False\<rparr> # ws, m # ms)))"

text \<open>\<open>runScript\<close> up to its loop.\<close>

definition start_run :: "('w, 'p) ctl_env \<Rightarrow> 'p \<Rightarrow> 'p run_state result go" where
  "start_run env p =
    (let command = env_Command env in
     if sint (MaxRequestsPerSecond command) < 0 then Panic ''makechan: size out of range''
     else case make_workers (ScriptId command) (env_droplet env) 0 (nat (sint (MaxWorkers command))) of
       Inl e \<Rightarrow> Ret (Inl e)
     | Inr (ws, ms) \<Rightarrow>
         let rps = sint (StartingRequestsPerSecond command) in
         go_bind (NewTicker tickTimer) (\<lambda>_. go_bind (NewTicker (growth_interval command)) (\<lambda>_.
           Ret (Inr \<lparr>main = MSelect, jobs = 0, jobs_closed = False, requestsPerSecond = rps,
             iterations = getNumberOfIterations tickTimer rps, growthActive = True,
             totalIterations = 0, halt_closed = False, done_closed = False, workers = ws,
             metricsList = ms, senders = [], wg = 0, pers = p, crashed = None,
             reported = [], delivered = [], dropped = [], jobs_sent = 0\<rparr>))))"


section \<open>Steps\<close>

text \<open>
  \<open>LHalt\<close> and \<open>LTimer\<close> close the two stop channels from outside. The next group belongs to the
  goroutine of \<open>runScript\<close>, the \<open>LW\<close> labels to a worker, the \<open>LS\<close> labels to a \<open>sendData\<close>.
\<close>

datatype 'w label =
    LHalt
  | LTimer
  | LSelHalt
  | LSelDone
  | LTick
  | LGrow
  | LSend
  | LHand nat
  | LSendDone
  | LSendHalt
  | LSendEnd
  | LStop
  | LWait
  | LCollect
  | LWStart nat
  | LWDone nat
  | LWTake nat
  | LWClosed nat
  | LWRun nat 'w
  | LWEmit nat
  | LWFinish nat
  | LSStart nat
  | LSCollect nat
  | LSAttempt nat

definition guard :: "bool \<Rightarrow> 'a \<Rightarrow> 'a option" where
  "guard b x = (if b then Some x else None)"

text \<open>The loop of \<open>runScript\<close>, \<open>stopWorkers\<close> and the final \<open>getBatchPoints\<close>.\<close>

fun main_step :: "('w, 'p) ctl_env \<Rightarrow> 'w label \<Rightarrow> 'p run_state \<Rightarrow> 'p run_state option" where
  "main_step env LSelHalt s = guard (main s = MSelect \<and> halt_closed s)
     (s\<lparr>jobs_closed := True, main := MStop 0\<rparr>)"
| "main_step env LSelDone s = guard (main s = MSelect \<and> done_closed s)
     (s\<lparr>jobs_closed := True, main := MStop 0\<rparr>)"
| "main_step env LTick s = guard (main s = MSelect)
     (s\<lparr>totalIterations := wrap64 (totalIterations s + iterations s), main := MSend 1\<rparr>)"
| "main_step env LSend s = (case main s of
     MSend i \<Rightarrow> guard (i < iterations s \<and> jobs s < channel_cap env)
       (s\<lparr>jobs := jobs s + 1, jobs_sent := jobs_sent s + 1, main := MSend (i + 1)\<rparr>)
   | _ \<Rightarrow> None)"
| "main_step env (LHand k) s = (case main s of
     MSend i \<Rightarrow> guard (i < iterations s \<and> channel_cap env = 0 \<and> k < length (workers s) \<and>
         w_phase (workers s ! k) = WIdle)
       (s\<lparr>workers := (workers s)[k := (workers s ! k)\<lparr>w_phase := WGot\<rparr>],
          jobs_sent := jobs_sent s + 1, main := MSend (i + 1)\<rparr>)
   | _ \<Rightarrow> None)"
| "main_step env LSendDone s = (case main s of
     MSend i \<Rightarrow> guard (i < iterations s \<and> done_closed s) (s\<lparr>main := MSelect\<rparr>)
   | _ \<Rightarrow> None)"
| "main_step env LSendHalt s = (case main s of
     MSend i \<Rightarrow> guard (i < iterations s \<and> halt_closed s) (s\<lparr>main := MSelect\<rparr>)
   | _ \<Rightarrow> None)"
| "main_step env LSendEnd s = (case main s of
     MSend i \<Rightarrow> guard (\<not> i < iterations s)
       (if totalIterations s > numSavedExecutions
        then s\<lparr>totalIterations := 0, senders := senders s @ [SNew], main := MSelect\<rparr>
        else s\<lparr>main := MSelect\<rparr>)
   | _ \<Rightarrow> None)"
| "main_step env LGrow s = guard (main s = MSelect)
     (if growthActive s
      then case grow (env_Command env) (requestsPerSecond s) of (r, active) \<Rightarrow>
        s\<lparr>requestsPerSecond := r, growthActive := active, iterations := getNumberOfIterations tickTimer r\<rparr>
      else s)"
| "main_step env LStop s = (case main s of
     MStop i \<Rightarrow> Some (if i < length (workers s)
       then s\<lparr>workers := (workers s)[i := (workers s ! i)\<lparr>w_Done := True\<rparr>], main := MStop (i + 1)\<rparr>
       else s\<lparr>main := MWait\<rparr>)
   | _ \<Rightarrow> None)"
| "main_step env LWait s = guard (main s = MWait \<and> wg s = 0)
     (s\<lparr>main := (case NewBatchPoints zero_BatchPointsConfig of
        Inl e \<Rightarrow> MReturn (Inl e) | Inr b \<Rightarrow> MCollect 0 b)\<rparr>)"
| "main_step env LCollect s = (case main s of
     MCollect i b \<Rightarrow> Some (if i < length (metricsList s)
       then case ClearBatchPoints (metricsList s ! i) of
           (Inl e, m) \<Rightarrow> s\<lparr>metricsList := (metricsList s)[i := m], main := MReturn (Inl e)\<rparr>
         | (Inr sub, m) \<Rightarrow> s\<lparr>metricsList := (metricsList s)[i := m],
             main := MCollect (i + 1) (foldl AddPoint b (Points sub))\<rparr>
       else s\<lparr>main := MReturn (Inr b)\<rparr>)
   | _ \<Rightarrow> None)"
| "main_step env _ s = None"


text \<open>
  \<open>worker.execute\<close>. Receiving from the channel and the second look at \<open>Done\<close> are two steps;
  the reports of a job are made one at a time, so that they interleave with the senders.
\<close>

definition set_worker :: "nat \<Rightarrow> worker \<Rightarrow> 'p run_state \<Rightarrow> 'p run_state" where
  "set_worker k w s = s\<lparr>workers := (workers s)[k := w]\<rparr>"

definition worker_return :: "nat \<Rightarrow> worker \<Rightarrow> 'p run_state \<Rightarrow> 'p run_state" where
  "worker_return k w s = set_worker k (w\<lparr>w_phase := WDead\<rparr>) (s\<lparr>wg := wg s - 1\<rparr>)"

fun worker_step :: "('w, 'p) ctl_env \<Rightarrow> 'w label \<Rightarrow> 'p run_state \<Rightarrow> 'p run_state option" where
  "worker_step env (LWStart k) s = guard (k < length (workers s) \<and> w_phase (workers s ! k) = WNew)
     (set_worker k ((workers s ! k)\<lparr>w_phase := WIdle\<rparr>) (s\<lparr>wg := wg s + 1\<rparr>))"
| "worker_step env (LWDone k) s =
     guard (k < length (workers s) \<and> w_phase (workers s ! k) = WIdle \<and> w_Done (workers s ! k))
     (worker_return k (workers s ! k) s)"
| "worker_step env (LWTake k) s =
     guard (k < length (workers s) \<and> w_phase (workers s ! k) = WIdle \<and> 0 < jobs s)
     (set_worker k ((workers s ! k)\<lparr>w_phase := WGot\<rparr>) (s\<lparr>jobs := jobs s - 1\<rparr>))"
| "worker_step env (LWClosed k) s =
     guard (k < length (workers s) \<and> w_phase (workers s ! k) = WIdle \<and> jobs s = 0 \<and> jobs_closed s)
     (worker_return k (workers s ! k) s)"
| "worker_step env (LWRun k w) s =
     guard (k < length (workers s) \<and> w_phase (workers s ! k) = WGot)
     (let wk = workers s ! k in
      if w_Done wk then worker_return k wk s
      else case worker_job (env_ops env) (env_unmarshal env) (env_show env) (env_Command env) (env_Config env) w of
        (es, e) \<Rightarrow> set_worker k (wk\<lparr>w_phase := WRunning es e, w_testNum := w_testNum wk + 1\<rparr>)
          (s\<lparr>metricsList := (metricsList s)[k := (metricsList s ! k)\<lparr>mg_TestId := w_testNum wk\<rparr>]\<rparr>))"
| "worker_step env (LWEmit k) s = (if k < length (workers s) then
     (case w_phase (workers s ! k) of
        WRunning (em # es) e \<Rightarrow>
          let m = metricsList s ! k; m' = apply_emission m em in
          Some (set_worker k ((workers s ! k)\<lparr>w_phase := WRunning es e\<rparr>)
            (s\<lparr>metricsList := (metricsList s)[k := m'],
               reported := reported s @ drop (length (gatherer_points m)) (gatherer_points m')\<rparr>))
      | _ \<Rightarrow> None) else None)"
| "worker_step env (LWFinish k) s = (if k < length (workers s) then
     (case w_phase (workers s ! k) of
        WRunning [] e \<Rightarrow> Some (case e of
            JContinue \<Rightarrow> set_worker k ((workers s ! k)\<lparr>w_phase := WIdle\<rparr>) s
          | JReturn \<Rightarrow> worker_return k (workers s ! k) s
          | JPanic msg \<Rightarrow> s\<lparr>crashed := Some msg\<rparr>)
      | _ \<Rightarrow> None) else None)"
| "worker_step env _ s = None"

text \<open>
  \<open>sendData\<close> in its own goroutine: one step per gatherer collected and one per attempt.
\<close>

definition set_sender :: "nat \<Rightarrow> sender_phase \<Rightarrow> 'p run_state \<Rightarrow> 'p run_state" where
  "set_sender j ph s = s\<lparr>senders := (senders s)[j := ph]\<rparr>"

fun sender_step :: "('w, 'p) ctl_env \<Rightarrow> 'w label \<Rightarrow> 'p run_state \<Rightarrow> 'p run_state option" where
  "sender_step env (LSStart j) s = guard (j < length (senders s) \<and> senders s ! j = SNew)
     (set_sender j (case NewBatchPoints zero_BatchPointsConfig of
        Inl e \<Rightarrow> SSend 0 None | Inr b \<Rightarrow> SCollect 0 b) (s\<lparr>wg := wg s + 1\<rparr>))"
| "sender_step env (LSCollect j) s = (if j < length (senders s) then
     (case senders s ! j of
        SCollect i b \<Rightarrow> Some (if i < length (metricsList s)
          then case ClearBatchPoints (metricsList s ! i) of
              (Inl e, m) \<Rightarrow> set_sender j (SSend 0 None) (s\<lparr>metricsList := (metricsList s)[i := m]\<rparr>)
            | (Inr sub, m) \<Rightarrow> set_sender j (SCollect (i + 1) (foldl AddPoint b (Points sub)))
                (s\<lparr>metricsList := (metricsList s)[i := m]\<rparr>)
          else set_sender j (SSend 0 (Some b)) s)
      | _ \<Rightarrow> None) else None)"
| "sender_step env (LSAttempt j) s = (if j < length (senders s) then
     (case senders s ! j of
        SSend numTries b \<Rightarrow> Some (case env_persist env (pers s) b of
            Panic msg \<Rightarrow> s\<lparr>crashed := Some msg\<rparr>
          | Ret (None, b', p') \<Rightarrow> set_sender j SDead (s\<lparr>pers := p', wg := wg s - 1,
              delivered := delivered s @ (case b' of Some bp \<Rightarrow> Points bp | None \<Rightarrow> [])\<rparr>)
          | Ret (Some err, b', p') \<Rightarrow>
              if numTries > maxRetries
              then set_sender j SDead (s\<lparr>pers := p', wg := wg s - 1,
                dropped := dropped s @ (case b' of Some bp \<Rightarrow> Points bp | None \<Rightarrow> [])\<rparr>)
              else set_sender j (SSend (numTries + 1) b') (s\<lparr>pers := p'\<rparr>))
      | _ \<Rightarrow> None) else None)"
| "sender_step env _ s = None"

text \<open>A process that has panicked makes no further step.\<close>

definition step :: "('w, 'p) ctl_env \<Rightarrow> 'w label \<Rightarrow> 'p run_state \<Rightarrow> 'p run_state option" where
  "step env l s =
    (if crashed s \<noteq> None then None
     else case l of
       LHalt \<Rightarrow> guard (\<not> halt_closed s) (s\<lparr>halt_closed := True\<rparr>)
     | LTimer \<Rightarrow> guard (\<not> done_closed s) (s\<lparr>done_closed := True\<rparr>)
     | LWStart _ \<Rightarrow> worker_step env l s | LWDone _ \<Rightarrow> worker_step env l s
     | LWTake _ \<Rightarrow> worker_step env l s | LWClosed _ \<Rightarrow> worker_step env l s
     | LWRun _ _ \<Rightarrow> worker_step env l s | LWEmit _ \<Rightarrow> worker_step env l s
     | LWFinish _ \<Rightarrow> worker_step env l s
     | LSStart _ \<Rightarrow> sender_step env l s | LSCollect _ \<Rightarrow> sender_step env l s
     | LSAttempt _ \<Rightarrow> sender_step env l s
     | _ \<Rightarrow> main_step env l s)"

fun exec :: "('w, 'p) ctl_env \<Rightarrow> 'w label list \<Rightarrow> 'p run_state \<Rightarrow> 'p run_state option" where
  "exec env [] s = Some s"
| "exec env (l # ls) s = (case step env l s of None \<Rightarrow> None | Some s' \<Rightarrow> exec env ls s')"

inductive reach :: "('w, 'p) ctl_env \<Rightarrow> 'p \<Rightarrow> 'p run_state \<Rightarrow> bool" for env p where
  init: "start_run env p = Ret (Inr s) \<Longrightarrow> reach env p s"
| stepped: "reach env p s \<Longrightarrow> step env l s = Some s' \<Longrightarrow> reach env p s'"

inductive_simps reach_simps: "reach env p s"

lemma reach_exec: "reach env p s \<Longrightarrow> exec env ls s = Some s' \<Longrightarrow> reach env p s'"
  by (induction ls arbitrary: s) (auto split: option.splits intro: reach.stepped)

lemma guard_simps [simp]: "guard True x = Some x" "guard False x = None"
  by (simp_all add: guard_def)

lemma guard_eq_Some [simp]: "guard b x = Some y \<longleftrightarrow> b \<and> x = y"
  by (simp add: guard_def)

lemma exec_append: "exec env (ls @ ms) s = Option.bind (exec env ls s) (exec env ms)"
  by (induction ls arbitrary: s) (auto split: option.splits)


section \<open>Running the instructions\<close>

text \<open>The checks of \<open>RunInstructions\<close> before it starts the run; the script reports to nobody.\<close>

definition check_instructions :: "('w, 'p) ctl_env \<Rightarrow> 'w \<Rightarrow> errorv go" where
  "check_instructions env w =
    (case Lua (env_ops env) nullMetric_report () (Script (env_Command env)) w of
       Panic m \<Rightarrow> Panic m
     | Ret (_, Some err) \<Rightarrow> Ret (Some err)
     | Ret (_, None) \<Rightarrow>
         if env_Config env \<noteq> '''' then
           (case env_unmarshal env (env_Config env) of
              Inl err \<Rightarrow> Ret (Some err)
            | Inr cfg \<Rightarrow> Ret (VerifyConfig (env_show env) cfg))
         else Ret None)"

text \<open>
  \<open>RunInstructions\<close> under a given schedule; \<open>None\<close> when the schedule is not possible or does
  not run \<open>runScript\<close> to its end.
\<close>

definition RunInstructions ::
  "('w, 'p) ctl_env \<Rightarrow> 'w label list \<Rightarrow> 'p \<Rightarrow> 'w \<Rightarrow> (errorv \<times> 'p) go option" where
  "RunInstructions env ls p w = (case check_instructions env w of
     Panic m \<Rightarrow> Some (Panic m)
   | Ret (Some err) \<Rightarrow> Some (Ret (Some err, p))
   | Ret None \<Rightarrow> (case start_run env p of
       Panic m \<Rightarrow> Some (Panic m)
     | Ret (Inl err) \<Rightarrow> Some (Ret (Some err, p))
     | Ret (Inr s) \<Rightarrow> (case exec env ls s of
         None \<Rightarrow> None
       | Some s' \<Rightarrow> (case crashed s' of
           Some m \<Rightarrow> Some (Panic m)
         | None \<Rightarrow> (case main s' of
             MReturn (Inl err) \<Rightarrow> Some (Ret (Some err, pers s'))
           | MReturn (Inr bps) \<Rightarrow>
               Some (case sendBatchPoints (env_persist env) (pers s') (Some bps) of
                 Panic m \<Rightarrow> Panic m
               | Ret (err, _, p') \<Rightarrow> Ret (err, p'))
           | _ \<Rightarrow> None)))))"


section \<open>Structural invariants\<close>

definition w_active :: "worker \<Rightarrow> nat" where
  "w_active w = (case w_phase w of WNew \<Rightarrow> 0 | WDead \<Rightarrow> 0 | _ \<Rightarrow> 1)"

definition s_active :: "sender_phase \<Rightarrow> nat" where
  "s_active ph = (case ph of SNew \<Rightarrow> 0 | SDead \<Rightarrow> 0 | _ \<Rightarrow> 1)"

definition active :: "'p run_state \<Rightarrow> nat" where
  "active s = sum_list (map w_active (workers s)) + sum_list (map s_active (senders s))"

text \<open>The wait group counts the goroutines that have started and not finished.\<close>

definition wg_ok :: "'p run_state \<Rightarrow> bool" where
  "wg_ok s = (wg s = active s \<and> length (metricsList s) = length (workers s))"

lemma active_worker:
  assumes "k < length (workers s)"
  shows "active (set_worker k w s) + w_active (workers s ! k) = active s + w_active w"
  using sum_list_map_update [OF assms, of w_active w] by (simp add: active_def set_worker_def)

lemma active_sender:
  assumes "j < length (senders s)"
  shows "active (set_sender j ph s) + s_active (senders s ! j) = active s + s_active ph"
  using sum_list_map_update [OF assms, of s_active ph] by (simp add: active_def set_sender_def)


lemma active_frame [simp]:
  "active (s\<lparr>main := a\<rparr>) = active s" "active (s\<lparr>jobs := n\<rparr>) = active s"
  "active (s\<lparr>jobs_closed := b\<rparr>) = active s" "active (s\<lparr>halt_closed := b\<rparr>) = active s"
  "active (s\<lparr>done_closed := b\<rparr>) = active s" "active (s\<lparr>wg := n\<rparr>) = active s"
  "active (s\<lparr>metricsList := ms\<rparr>) = active s" "active (s\<lparr>pers := p\<rparr>) = active s"
  "active (s\<lparr>crashed := c\<rparr>) = active s" "active (s\<lparr>reported := ps\<rparr>) = active s"
  "active (s\<lparr>delivered := ps\<rparr>) = active s" "active (s\<lparr>dropped := ps\<rparr>) = active s"
  "active (s\<lparr>jobs_sent := n\<rparr>) = active s" "active (s\<lparr>totalIterations := i\<rparr>) = active s"
  "active (s\<lparr>requestsPerSecond := i\<rparr>) = active s" "active (s\<lparr>iterations := i\<rparr>) = active s"
  "active (s\<lparr>growthActive := b\<rparr>) = active s"
  by (simp_all add: active_def)

lemma main_step_wg: "main_step env l s = Some s' \<Longrightarrow> wg_ok s \<Longrightarrow> wg_ok s'"
proof (induction env l s rule: main_step.induct)
  case (5 env k s)
  then show ?case
    by (auto simp: wg_ok_def active_def w_active_def split: main_phase.splits
        intro!: sum_list_map_same_update [symmetric])
next
  case (10 env s)
  then show ?case
    by (auto simp: wg_ok_def active_def w_active_def split: main_phase.splits if_splits
        intro!: sum_list_map_same_update [symmetric])
qed (auto simp: wg_ok_def active_def s_active_def split: main_phase.splits if_splits prod.splits sum.splits)

lemma worker_return_wg:
  assumes "wg_ok s" and "k < length (workers s)" and "w_active (workers s ! k) = 1"
  shows "wg_ok (worker_return k (workers s ! k) s)"
  using assms active_worker [OF assms(2), of "(workers s ! k)\<lparr>w_phase := WDead\<rparr>"]
  by (auto simp: wg_ok_def worker_return_def set_worker_def active_def w_active_def)

lemma set_worker_wg:
  assumes "wg_ok s" and "k < length (workers s)" and "w_active w = w_active (workers s ! k)"
  shows "wg_ok (set_worker k w s)"
  using assms active_worker [OF assms(2), of w] by (simp add: wg_ok_def) (simp add: set_worker_def)

lemma w_active_simps [simp]:
  "w_active (w\<lparr>w_phase := WNew\<rparr>) = 0" "w_active (w\<lparr>w_phase := WDead\<rparr>) = 0"
  "w_active (w\<lparr>w_phase := WIdle\<rparr>) = 1" "w_active (w\<lparr>w_phase := WGot\<rparr>) = 1"
  "w_active (w\<lparr>w_phase := WRunning es e\<rparr>) = 1"
  "w_active (w\<lparr>w_phase := WRunning es e, w_testNum := n\<rparr>) = 1"
  "w_active (w\<lparr>w_Done := b\<rparr>) = w_active w"
  by (simp_all add: w_active_def)

lemma w_active_phase:
  "w_phase w = WNew \<Longrightarrow> w_active w = 0" "w_phase w = WIdle \<Longrightarrow> w_active w = 1"
  "w_phase w = WGot \<Longrightarrow> w_active w = 1" "w_phase w = WRunning es e \<Longrightarrow> w_active w = 1"
  "w_phase w = WDead \<Longrightarrow> w_active w = 0"
  by (simp_all add: w_active_def)

lemma wg_ok_frame:
  "wg_ok (s\<lparr>jobs := n\<rparr>) = wg_ok s"
  "wg_ok (s\<lparr>crashed := c\<rparr>) = wg_ok s"
  "wg_ok (s\<lparr>metricsList := (metricsList s)[k := m]\<rparr>) = wg_ok s"
  "wg_ok (s\<lparr>metricsList := (metricsList s)[k := m], reported := ps\<rparr>) = wg_ok s"
  "wg_ok (s\<lparr>pers := p\<rparr>) = wg_ok s"
  "wg_ok (s\<lparr>halt_closed := b\<rparr>) = wg_ok s"
  "wg_ok (s\<lparr>done_closed := b\<rparr>) = wg_ok s"
  by (simp_all add: wg_ok_def)

lemma worker_step_wg: "worker_step env l s = Some s' \<Longrightarrow> wg_ok s \<Longrightarrow> wg_ok s'"
proof (induction env l s rule: worker_step.induct)
  case (1 env k s)
  then show ?case
    using active_worker [of k s "(workers s ! k)\<lparr>w_phase := WIdle\<rparr>"]
    by (auto simp: wg_ok_def set_worker_def active_def w_active_phase)
next
  case (3 env k s)
  then show ?case by (auto simp: w_active_phase wg_ok_frame intro!: set_worker_wg)
next
  case (5 env k w s)
  then show ?case
    by (auto simp: w_active_phase wg_ok_frame Let_def split: if_splits prod.splits
        intro!: set_worker_wg worker_return_wg)
next
  case (6 env k s)
  then show ?case
    by (auto simp: w_active_phase wg_ok_frame Let_def split: if_splits worker_phase.splits list.splits
        intro!: set_worker_wg)
next
  case (7 env k s)
  then show ?case
    by (auto simp: w_active_phase wg_ok_frame split: if_splits worker_phase.splits list.splits job_end.splits
        intro!: set_worker_wg worker_return_wg)
qed (auto simp: worker_return_wg w_active_phase)

lemma set_sender_wg:
  assumes "wg_ok s" and "j < length (senders s)" and "s_active ph = s_active (senders s ! j)"
  shows "wg_ok (set_sender j ph s)"
  using assms active_sender [OF assms(2), of ph] by (simp add: wg_ok_def) (simp add: set_sender_def)

lemma sender_done_wg:
  assumes "wg_ok s" and "j < length (senders s)" and "s_active (senders s ! j) = 1"
    and "workers t = workers s" and "senders t = senders s" and "metricsList t = metricsList s"
    and "wg t = wg s - 1"
  shows "wg_ok (set_sender j SDead t)"
  using assms active_sender [of j t SDead]
  by (simp add: wg_ok_def active_def s_active_def set_sender_def)

lemma s_active_simps [simp]:
  "s_active SNew = 0" "s_active SDead = 0" "s_active (SCollect i b) = 1" "s_active (SSend n c) = 1"
  by (simp_all add: s_active_def)

lemma sender_step_wg: "sender_step env l s = Some s' \<Longrightarrow> wg_ok s \<Longrightarrow> wg_ok s'"
proof (induction env l s rule: sender_step.induct)
  case (1 env j s)
  then show ?case
    using active_sender [of j s "case NewBatchPoints zero_BatchPointsConfig of
        Inl e \<Rightarrow> SSend 0 None | Inr b \<Rightarrow> SCollect 0 b"]
    by (auto simp: wg_ok_def set_sender_def active_def split: sum.splits)
next
  case (2 env j s)
  then show ?case
    by (auto simp: wg_ok_frame split: if_splits sender_phase.splits prod.splits sum.splits
        intro!: set_sender_wg)
next
  case (3 env j s)
  then show ?case
    by (auto simp: wg_ok_frame split: if_splits sender_phase.splits prod.splits go.splits option.splits
        ) ((rule sender_done_wg [of s]; simp; fail) | (rule set_sender_wg; simp add: wg_ok_frame; fail))+
qed auto

lemma step_cases [consumes 1, case_names halt timer main worker sender]:
  assumes "step env l s = Some s'"
  obtains "l = LHalt" "\<not> halt_closed s" "s' = s\<lparr>halt_closed := True\<rparr>" "crashed s = None"
  | "l = LTimer" "\<not> done_closed s" "s' = s\<lparr>done_closed := True\<rparr>" "crashed s = None"
  | "main_step env l s = Some s'" "crashed s = None"
  | "worker_step env l s = Some s'" "crashed s = None"
  | "sender_step env l s = Some s'" "crashed s = None"
  using assms by (cases l) (auto simp: step_def split: if_splits)

lemma step_wg: "step env l s = Some s' \<Longrightarrow> wg_ok s \<Longrightarrow> wg_ok s'"
  by (erule step_cases) (auto simp: wg_ok_frame intro: main_step_wg worker_step_wg sender_step_wg)


text \<open>
  The stop protocol: the job channel is closed when the loop is left, the \<open>Done\<close> channels are
  closed one after the other, and once the wait group has been passed no worker can report any
  more, so the gatherers that have been collected stay empty.
\<close>

fun w_running :: "worker_phase \<Rightarrow> bool" where
  "w_running (WRunning es e) = True"
| "w_running _ = False"

definition quiet :: "'p run_state \<Rightarrow> bool" where
  "quiet s = (\<forall>w \<in> set (workers s). w_Done w \<and> \<not> w_running (w_phase w))"

definition collected :: "nat \<Rightarrow> 'p run_state \<Rightarrow> bool" where
  "collected i s = (\<forall>k < i. k < length (metricsList s) \<longrightarrow> gatherer_points (metricsList s ! k) = [])"

definition stop_ok :: "'p run_state \<Rightarrow> bool" where
  "stop_ok s = (case main s of
     MSelect \<Rightarrow> \<not> jobs_closed s \<and> (\<forall>w \<in> set (workers s). \<not> w_Done w)
   | MSend i \<Rightarrow> \<not> jobs_closed s \<and> (\<forall>w \<in> set (workers s). \<not> w_Done w)
   | MStop i \<Rightarrow> jobs_closed s \<and> i \<le> length (workers s) \<and> (\<forall>k < i. w_Done (workers s ! k))
   | MWait \<Rightarrow> jobs_closed s \<and> (\<forall>w \<in> set (workers s). w_Done w)
   | MCollect i b \<Rightarrow> jobs_closed s \<and> quiet s \<and> i \<le> length (metricsList s) \<and> collected i s
   | MReturn r \<Rightarrow> jobs_closed s \<and> quiet s \<and> (\<exists>b. r = Inr b) \<and> collected (length (metricsList s)) s)"

lemma in_set_update: "x \<in> set (xs[i := y]) \<Longrightarrow> x = y \<or> x \<in> set xs"
  by (metis insert_iff set_update_subset_insert subsetD)

lemma inactive_not_running:
  assumes "wg_ok s" and "wg s = 0" and "w \<in> set (workers s)"
  shows "\<not> w_running (w_phase w)"
proof -
  have "w_active w = 0" using assms by (simp add: wg_ok_def active_def)
  then show ?thesis by (cases "w_phase w") (simp_all add: w_active_phase)
qed

text \<open>Clearing a gatherer never fails.\<close>

definition cleared :: "MetricsGatherer \<Rightarrow> MetricsGatherer" where
  "cleared m = snd (ClearBatchPoints m)"

lemma ClearBatchPoints_eq: "ClearBatchPoints m = (Inr (BatchPoints m), cleared m)"
  by (simp add: ClearBatchPoints_def NewBatchPoints_default cleared_def)

lemma cleared_simps [simp]:
  "gatherer_points (cleared m) = []" "gatherer_ident (cleared m) = gatherer_ident m"
  by (simp_all add: ClearBatchPoints_def NewBatchPoints_default cleared_def gatherer_points_def
      gatherer_ident_def)

lemma main_step_stop:
  "main_step env l s = Some s' \<Longrightarrow> wg_ok s \<Longrightarrow> stop_ok s \<Longrightarrow> stop_ok s'"
proof (induction env l s rule: main_step.induct)
  case (5 env k s)
  then show ?case
    by (auto simp: stop_ok_def split: main_phase.splits dest!: in_set_update)
next
  case (10 env s)
  then show ?case
    by (auto simp: stop_ok_def nth_list_update all_set_conv_all_nth less_Suc_eq
        split: main_phase.splits if_splits)
next
  case (11 env s)
  then show ?case
    by (auto simp: stop_ok_def quiet_def collected_def NewBatchPoints_default inactive_not_running)
next
  case (12 env s)
  then show ?case
    by (auto simp: stop_ok_def quiet_def collected_def nth_list_update less_Suc_eq ClearBatchPoints_eq
        split: main_phase.splits if_splits)
qed (auto simp: stop_ok_def split: main_phase.splits if_splits prod.splits)


lemma quiet_update:
  assumes "quiet s" and "k < length (workers s)" and "w_Done w = w_Done (workers s ! k)"
    and "\<not> w_running (w_phase w)" and "workers s' = (workers s)[k := w]"
  shows "quiet s'"
  using assms by (auto simp: quiet_def all_set_conv_all_nth nth_list_update)

lemma worker_step_effect:
  assumes "worker_step env l s = Some s'"
  obtains (crash) msg where "s' = s\<lparr>crashed := Some msg\<rparr>"
  | (move) k w where "k < length (workers s)" "workers s' = (workers s)[k := w]"
      "w_Done w = w_Done (workers s ! k)" "main s' = main s" "jobs_closed s' = jobs_closed s"
      "length (metricsList s') = length (metricsList s)"
      "w_Done (workers s ! k) \<Longrightarrow> \<not> w_running (w_phase (workers s ! k)) \<Longrightarrow>
         \<not> w_running (w_phase w) \<and> metricsList s' = metricsList s"
  using assms
proof (cases l)
  case (LWStart k)
  with assms move [of k] show ?thesis by (auto simp: set_worker_def)
next
  case (LWDone k)
  with assms move [of k] show ?thesis by (auto simp: worker_return_def set_worker_def)
next
  case (LWTake k)
  with assms move [of k] show ?thesis by (auto simp: set_worker_def)
next
  case (LWClosed k)
  with assms move [of k] show ?thesis by (auto simp: worker_return_def set_worker_def)
next
  case (LWRun k w)
  with assms move [of k] show ?thesis
    by (auto simp: worker_return_def set_worker_def Let_def split: if_splits prod.splits)
next
  case (LWEmit k)
  with assms move [of k] show ?thesis
    by (auto simp: set_worker_def Let_def split: if_splits worker_phase.splits list.splits)
next
  case (LWFinish k)
  with assms obtain e where k: "k < length (workers s)" "w_phase (workers s ! k) = WRunning [] e"
    and s': "s' = (case e of JContinue \<Rightarrow> set_worker k ((workers s ! k)\<lparr>w_phase := WIdle\<rparr>) s
          | JReturn \<Rightarrow> worker_return k (workers s ! k) s | JPanic msg \<Rightarrow> s\<lparr>crashed := Some msg\<rparr>)"
    by (auto split: if_splits worker_phase.splits list.splits)
  show ?thesis
  proof (cases e)
    case (JPanic msg)
    with s' crash show ?thesis by simp
  qed (use s' k move [of k] in \<open>auto simp: worker_return_def set_worker_def\<close>)
qed auto

lemma worker_step_stop: "worker_step env l s = Some s' \<Longrightarrow> stop_ok s \<Longrightarrow> stop_ok s'"
proof (erule worker_step_effect)
  fix k w assume *: "stop_ok s" "k < length (workers s)" "workers s' = (workers s)[k := w]"
      "w_Done w = w_Done (workers s ! k)" "main s' = main s" "jobs_closed s' = jobs_closed s"
      "length (metricsList s') = length (metricsList s)"
      "w_Done (workers s ! k) \<Longrightarrow> \<not> w_running (w_phase (workers s ! k)) \<Longrightarrow>
         \<not> w_running (w_phase w) \<and> metricsList s' = metricsList s"
  have done_eq: "\<forall>j < length (workers s). w_Done (workers s' ! j) = w_Done (workers s ! j)"
    using *(2-4) by (simp add: nth_list_update)
  have "quiet s \<Longrightarrow> quiet s' \<and> metricsList s' = metricsList s"
    using *(2-4,8) quiet_update [of s k w s'] by (auto simp: quiet_def)
  with * done_eq show "stop_ok s'"
    by (auto simp: stop_ok_def all_set_conv_all_nth collected_def split: main_phase.splits)
qed (simp add: stop_ok_def quiet_def collected_def split: main_phase.splits)

lemma sender_step_effect:
  assumes "sender_step env l s = Some s'"
  shows "workers s' = workers s \<and> main s' = main s \<and> jobs_closed s' = jobs_closed s \<and>
    (metricsList s' = metricsList s \<or>
     (\<exists>i < length (metricsList s). metricsList s' = (metricsList s)[i := cleared (metricsList s ! i)]))"
  using assms
  by (cases l) (auto simp: set_sender_def ClearBatchPoints_eq
      split: if_splits sender_phase.splits go.splits prod.splits option.splits)

lemma sender_step_stop: "sender_step env l s = Some s' \<Longrightarrow> stop_ok s \<Longrightarrow> stop_ok s'"
  using sender_step_effect [of env l s s']
  by (auto simp: stop_ok_def quiet_def collected_def nth_list_update split: main_phase.splits)

lemma stop_ok_frame:
  "stop_ok (s\<lparr>halt_closed := b\<rparr>) = stop_ok s" "stop_ok (s\<lparr>done_closed := b\<rparr>) = stop_ok s"
  by (simp_all add: stop_ok_def quiet_def collected_def split: main_phase.split)

lemma step_stop: "step env l s = Some s' \<Longrightarrow> wg_ok s \<Longrightarrow> stop_ok s \<Longrightarrow> stop_ok s'"
  by (erule step_cases)
    (auto intro: main_step_stop worker_step_stop sender_step_stop simp: stop_ok_frame)

end
