(* ===== verification/EngineProps.thy ===== *)
theory EngineProps
  imports LuaEngine
begin

text \<open>
  What the script engine guarantees: loading and running a script leave the virtual machine
  usable, the configuration is installed exactly when it verifies, and the metrics a run
  reports account for the steps and requests it made.
\<close>

section \<open>A reporter that records its calls\<close>

definition log_report :: "metric_call list reporter" where
  "log_report c now m = m @ [c]"

definition is_step_call :: "metric_call \<Rightarrow> bool" where
  "is_step_call c = (case c of CallScriptExecution \<Rightarrow> True | CallStepExecution _ _ \<Rightarrow> True
     | CallStepError _ \<Rightarrow> True | _ \<Rightarrow> False)"

definition step_calls :: "(metric_call list, 'w) LuaProgram \<Rightarrow> metric_call list" where
  "step_calls s = filter is_step_call (metrics s)"

lemma metrics_emit_log [simp]: "metrics (emit ops log_report c s) = metrics s @ [c]"
  by (simp add: emit_def log_report_def split: prod.split)

lemma step_calls_update [simp]:
  "step_calls (s\<lparr>world := w\<rparr>) = step_calls s"
  "step_calls (s\<lparr>current := k\<rparr>) = step_calls s"
  "step_calls (s\<lparr>vm := l\<rparr>) = step_calls s"
  "step_calls (with_stack st s) = step_calls s"
  by (simp_all add: step_calls_def)

lemma step_calls_emit:
  "step_calls (emit ops log_report c s) = step_calls s @ (if is_step_call c then [c] else [])"
  by (simp add: step_calls_def)

lemma http_finish_step_calls:
  "(\<And>a b. \<not> is_step_call (dc a b)) \<Longrightarrow>
     step_calls (snd (http_finish ops log_report verb dc u start r s)) = step_calls s"
  by (auto simp: http_finish_def Let_def step_calls_emit is_step_call_def
      split: sum.splits prod.splits)

lemma host_log_step_calls:
  "(\<And>a. \<not> is_step_call (dc a)) \<Longrightarrow>
     step_calls (snd (host_log ops log_report lvl dc v s)) = step_calls s"
  by (auto simp: host_log_def Let_def step_calls_def split: option.splits)

lemma host_step_calls: "step_calls (snd (host ops log_report c s)) = step_calls s"
proof (cases c)
  case (HSetStep k v)
  then show ?thesis
    by (simp add: set_step_def registerStep_def step_calls_def split: sum.split)
qed (simp_all add: host_log_step_calls http_get_def http_post_def http_finish_step_calls
    is_step_call_def Let_def case_prod_beta split: sum.split)

lemma run_itree_step_calls: "step_calls (snd (run_itree t ops log_report s)) = step_calls s"
proof (induction t arbitrary: s)
  case (ICall c k)
  obtain r s1 where h: "host ops log_report c s = (r, s1)" by (cases "host ops log_report c s")
  with host_step_calls [of ops c s] ICall.IH show ?case by (cases r) auto
qed auto


section \<open>The trace of a run\<close>

text \<open>
  A run that got through \<open>n\<close> steps with the durations \<open>ds\<close> and ended with \<open>e\<close>: one execution
  metric per completed step and an error metric for the step that failed.
\<close>

definition run_trace :: "string list \<Rightarrow> int list \<Rightarrow> errorv \<Rightarrow> metric_call list" where
  "run_trace names ds e = map2 CallStepExecution names ds @
     (case e of Some _ \<Rightarrow> [CallStepError (names ! length ds)] | None \<Rightarrow> [])"

lemma run_trace_Cons:
  "run_trace (name # names) (d # ds) e = CallStepExecution name d # run_trace names ds e"
  by (simp add: run_trace_def split: option.split)

lemma pipe_trace:
  assumes "pipe ops log_report names arg s = (e, s')"
  shows "\<exists>ds. length ds \<le> length names \<and>
      step_calls s' = step_calls s @ run_trace names ds e \<and>
      (case e of
         None \<Rightarrow> length ds = length names \<or> ctx_done ops (world s')
       | Some err \<Rightarrow> length ds < length names \<and> (\<exists>c. err = StepError (names ! length ds) c))"
  using assms
proof (induction names arbitrary: arg s)
  case Nil
  then show ?case by (auto simp: run_trace_def)
next
  case (Cons name rest)
  let ?s = "s\<lparr>current := Some name\<rparr>"
  obtain start w1 where now: "w_now ops (world s) = (start, w1)" by (cases "w_now ops (world s)")
  obtain r s1 where run: "run_itree (lua_apply ops (step_fields (vm s) (LStr name)) arg) ops log_report
      (?s\<lparr>world := w1\<rparr>) = (r, s1)" by fastforce
  have s1: "step_calls s1 = step_calls s"
    using run_itree_step_calls [of _ ops "?s\<lparr>world := w1\<rparr>"] run by (metis snd_conv step_calls_update(1,2))
  show ?case
  proof (cases "ctx_done ops (world s)")
    case True
    with Cons.prems show ?thesis by (intro exI [of _ "[]"]) (auto simp: run_trace_def Let_def)
  next
    case False
    show ?thesis
    proof (cases r)
      case (Inl c)
      with Cons.prems False now run s1 show ?thesis
        by (intro exI [of _ "[]"])
          (auto simp: run_trace_def Let_def step_calls_emit is_step_call_def)
    next
      case (Inr v)
      obtain t2 w2 where n2: "w_now ops (world s1) = (t2, w2)" by (cases "w_now ops (world s1)")
      from Cons.prems False now run Inr n2 have
        "pipe ops log_report rest v (emit ops log_report (CallStepExecution name (t2 - start)) (s1\<lparr>world := w2\<rparr>)) = (e, s')"
        by (simp add: Let_def)
      from Cons.IH [OF this] s1 obtain ds where "length ds \<le> length rest"
        "step_calls s' = step_calls s @ CallStepExecution name (t2 - start) # run_trace rest ds e"
        "case e of None \<Rightarrow> length ds = length rest \<or> ctx_done ops (world s')
         | Some err \<Rightarrow> length ds < length rest \<and> (\<exists>c. err = StepError (rest ! length ds) c)"
        by (auto simp: step_calls_emit is_step_call_def)
      then show ?thesis
        by (intro exI [of _ "(t2 - start) # ds"]) (auto simp: run_trace_Cons split: option.splits)
    qed
  qed
qed


section \<open>Running a loaded program\<close>

lemma Lua_loaded:
  assumes "Lua ops report met source w = Ret (p, None)"
  shows "lstack (vm p) = []" and "configured p"
  using assms run_itree_stack [of _ ops report "fresh_program met w"]
  by (auto simp: Lua_eq NewState_def fresh_program_def split: sum.splits prod.splits)

lemma pipe_steps_fixed:
  "configured s \<Longrightarrow> pipe ops report names arg s = (e, s') \<Longrightarrow>
     prog_steps s' = prog_steps s \<and> configured s'"
proof (induction names arbitrary: arg s)
  case (Cons name rest)
  obtain start w1 where now: "w_now ops (world s) = (start, w1)" by (cases "w_now ops (world s)")
  let ?s = "s\<lparr>current := Some name, world := w1\<rparr>"
  obtain r s1 where run: "run_itree (lua_apply ops (step_fields (vm s) (LStr name)) arg) ops report ?s = (r, s1)"
    by fastforce
  have "prog_steps s1 = prog_steps s" "configured s1"
    using run_itree_steps_fixed [of ?s _ ops report] Cons.prems(1) run
    by (metis (no_types, lifting) LuaProgram.select_convs(2,3) LuaProgram.surjective
        LuaProgram.update_convs(5,7) snd_conv)+
  with Cons.prems now run show ?case
    by (cases r) (auto simp: Let_def split: if_splits prod.splits dest!: Cons.IH [rotated])
qed auto

lemma Execute_pipe:
  assumes "lstack (vm p) = []" and "globals (vm p) ''step'' = LStepTable"
  shows "Execute ops report p =
    (case pipe ops report (prog_steps p) (LTable [])
            (emit ops report CallScriptExecution (p\<lparr>current := Some ''<not a step>''\<rparr>)) of
       (e, p') \<Rightarrow> Ret (e, with_stack [] p'))"
  using runSteps_eq_pipe [of "p\<lparr>current := Some ''<not a step>''\<rparr>" ops report] assms
  by (simp add: Execute_def)

text \<open>
  C3. A script that loaded and still holds the step table in the global \<open>step\<close> is executed
  as a pipeline: each step is called on the result of the one before it, the first on an
  empty table, and the stack is left as it was found. The stack juggling of \<open>runSteps\<close> refines
  the stackless pipeline.
\<close>

theorem Execute_refines_pipeline:
  assumes "Lua ops report met source w = Ret (p, None)"
    and "globals (vm p) ''step'' = LStepTable"
  shows "Execute ops report p =
    (case pipe ops report (prog_steps p) (LTable [])
            (emit ops report CallScriptExecution (p\<lparr>current := Some ''<not a step>''\<rparr>)) of
       (e, p') \<Rightarrow> Ret (e, with_stack [] p'))"
  using Lua_loaded [OF assms(1)] assms(2) by (intro Execute_pipe) simp_all


section \<open>A concrete engine for the witnesses\<close>

text \<open>
  The world is the clock; a script registers one step, which fails when called on anything
  but a table. Every request is answered with status 200.
\<close>

definition demo_ops :: "int engine_ops" where
  "demo_ops = \<lparr>
     lua_load = (\<lambda>src. if src = ''boom'' then Inr (IErr (Errorf ''boom''))
        else if src = ''reset'' then
          Inr (ICall (HSetStep (LStr ''a'') (LFun 0)) (\<lambda>_. ICall (HSetGlobal ''step'' LNil) (\<lambda>_. IRet LNil)))
        else Inr (ICall (HSetStep (LStr ''a'') (LFun 0)) (\<lambda>_.
            ICall (HSetStep (LStr ''b'') (LFun 1)) (\<lambda>_. IRet LNil)))),
     lua_apply = (\<lambda>f a. if f = LFun 0 then ICall (HGet (LStr ''u'')) IRet else IErr (Errorf ''bad'')),
     w_now = (\<lambda>t. (t, t + 1)),
     w_get = (\<lambda>u w. (Inr \<lparr>StatusCode = 200, StatusText = ''200 OK'', ContentLength = 2, Header = [],
        Body = Inr ''ok''\<rparr>, w)),
     w_post = (\<lambda>u ct b w. (Inl (Errorf ''refused''), w)),
     numberToString = (\<lambda>_. ''n''), show_lval = (\<lambda>_. ''v''), ctx_done = (\<lambda>_. False)\<rparr>"

lemma demo_ops_simps [simp]:
  "w_now demo_ops t = (t, t + 1)" "ctx_done demo_ops t = False"
  "lua_load demo_ops ''two'' = Inr (ICall (HSetStep (LStr ''a'') (LFun 0)) (\<lambda>_.
            ICall (HSetStep (LStr ''b'') (LFun 1)) (\<lambda>_. IRet LNil)))"
  "lua_load demo_ops ''reset'' = Inr (ICall (HSetStep (LStr ''a'') (LFun 0))
     (\<lambda>_. ICall (HSetGlobal ''step'' LNil) (\<lambda>_. IRet LNil)))"
  by (simp_all add: demo_ops_def)

definition demo_program :: "(metric_call list, int) LuaProgram" where
  "demo_program = (case Lua demo_ops log_report [] ''two'' 0 of
     Ret (p, _) \<Rightarrow> p | Panic _ \<Rightarrow> fresh_program [] 0)"

lemma demo_loaded:
  "Lua demo_ops log_report [] ''two'' 0 = Ret (demo_program, None)"
  "globals (vm demo_program) ''step'' = LStepTable"
  "prog_steps demo_program = [''a'', ''b'']"
  by (simp_all add: demo_program_def Lua_eq fresh_program_def set_step_def registerStep_def
      CheckString_def NewState_def)

theorem Execute_refines_pipeline_witness:
  "Lua demo_ops log_report [] ''two'' 0 = Ret (demo_program, None) \<and>
   Execute demo_ops log_report demo_program =
    (case pipe demo_ops log_report [''a'', ''b''] (LTable [])
        (emit demo_ops log_report CallScriptExecution
          (demo_program\<lparr>current := Some ''<not a step>''\<rparr>)) of
       (e, p') \<Rightarrow> Ret (e, with_stack [] p'))"
  using Execute_refines_pipeline [OF demo_loaded(1,2)] demo_loaded by simp



section \<open>Losing the step table\<close>

text \<open>
  C35. The name \<open>step\<close> is an ordinary global: once a script, or a configuration key, has
  replaced the table by something that cannot be indexed, the field access of \<open>runSteps\<close>,
  which is not a protected call, panics and takes the whole executor down.
\<close>

theorem Execute_panics_without_step_table:
  assumes "lstack (vm p) = []" and "prog_steps p \<noteq> []"
    and "\<not> ctx_done ops (snd (w_now ops (world p)))"
    and "globals (vm p) ''step'' \<noteq> LStepTable" and "\<And>fs. globals (vm p) ''step'' \<noteq> LTable fs"
  shows "Execute ops report p = Panic ''Uncaught Lua error: runtime error''"
proof -
  obtain name rest where steps: "prog_steps p = name # rest" using assms(2) by (cases "prog_steps p") auto
  let ?s = "p\<lparr>current := Some ''<not a step>'', vm := l_NewTable (l_Global ''step'' (vm p))\<rparr>"
  have tab: "tableAt l (globals (vm p) ''step'') n = Panic ''Uncaught Lua error: runtime error''" for l n
    using assms(4,5) by (auto simp: tableAt_def split: lval.split)
  have "world (emit ops report CallScriptExecution ?s) = snd (w_now ops (world p))"
    by (simp add: emit_def split: prod.split)
  with assms(1,3) steps tab show ?thesis
    by (simp add: Execute_def runSteps_def Let_def l_Field_def indexToValue_def Top_def
        l_NewTable_def l_Global_def l_push_def)
qed

text \<open>The script \<open>reset\<close> registers a step and then assigns nil to \<open>step\<close>.\<close>

definition demo_reset :: "(metric_call list, int) LuaProgram" where
  "demo_reset = (case Lua demo_ops log_report [] ''reset'' 0 of
     Ret (p, _) \<Rightarrow> p | Panic _ \<Rightarrow> fresh_program [] 0)"

theorem Execute_panics_without_step_table_witness:
  "Lua demo_ops log_report [] ''reset'' 0 = Ret (demo_reset, None) \<and>
   Execute demo_ops log_report demo_reset = Panic ''Uncaught Lua error: runtime error''"
proof -
  have p: "Lua demo_ops log_report [] ''reset'' 0 = Ret (demo_reset, None)"
    "globals (vm demo_reset) ''step'' = LNil" "prog_steps demo_reset = [''a'']"
    by (simp_all add: demo_reset_def Lua_eq fresh_program_def set_step_def registerStep_def
        CheckString_def NewState_def)
  with Lua_loaded(1) [OF p(1)] Execute_panics_without_step_table [of demo_reset demo_ops log_report]
  show ?thesis by simp
qed


section \<open>Configuration\<close>

lemma AddConfig_rejected:
  "VerifyConfig show json = Some e \<Longrightarrow> \<exists>l'. AddConfig show json l = Ret (Some e, l')"
  by (induction json arbitrary: l) (auto simp: l_SetGlobal_push split: if_splits)

text \<open>
  \<open>AddConfig\<close>, run by every worker, agrees with \<open>VerifyConfig\<close>, run once before the test:
  it never panics, it reports the same error, and for a configuration that verifies it sets
  exactly the listed globals, the later entry winning, and leaves the stack, the step table and
  every other global alone.
\<close>

theorem AddConfig_agrees_with_VerifyConfig:
  "case VerifyConfig show json of
     Some e \<Rightarrow> \<exists>l'. AddConfig show json l = Ret (Some e, l')
   | None \<Rightarrow> AddConfig show json l = Ret (None, l\<lparr>globals := (\<lambda>x.
       case map_of (rev json) x of None \<Rightarrow> globals l x | Some v \<Rightarrow> config_lval show v)\<rparr>)"
proof (cases "VerifyConfig show json")
  case None
  then have "AddConfig show json l = Ret (None, l\<lparr>globals := (\<lambda>x.
       case map_of (rev json) x of None \<Rightarrow> globals l x | Some v \<Rightarrow> config_lval show v)\<rparr>)"
  proof (induction json arbitrary: l)
    case (Cons kv json)
    obtain k v where kv: "kv = (k, v)" by (cases kv)
    from Cons show ?case
      by (auto simp: kv l_SetGlobal_push map_add_def fun_eq_iff lua_state.equality
          split: if_splits option.splits)
  qed simp
  with None show ?thesis by simp
qed (use AddConfig_rejected in \<open>auto\<close>)


section \<open>Registration of steps\<close>

text \<open>The chunk \<open>step.n1 = f1 ... step.nk = fk\<close>.\<close>

fun steps_chunk :: "(string \<times> lval) list \<Rightarrow> itree" where
  "steps_chunk [] = IRet LNil"
| "steps_chunk ((n, f) # defs) = ICall (HSetStep (LStr n) f) (\<lambda>_. steps_chunk defs)"

lemma run_steps_chunk:
  assumes "distinct (map fst defs)" and "\<forall>n \<in> fst ` set defs. step_fields (vm s) (LStr n) = LNil"
    and "\<not> configured s"
  shows "run_itree (steps_chunk defs) ops report s =
    (Inr LNil, s\<lparr>vm := (vm s)\<lparr>step_fields := (\<lambda>k. case k of
        LStr n \<Rightarrow> (case map_of defs n of Some f \<Rightarrow> f | None \<Rightarrow> step_fields (vm s) k)
      | _ \<Rightarrow> step_fields (vm s) k)\<rparr>, prog_steps := prog_steps s @ map fst defs\<rparr>)"
  using assms
proof (induction defs arbitrary: s)
  case Nil
  have "(\<lambda>k. case k of
        LStr n \<Rightarrow> (case map_of ([] :: (string \<times> lval) list) n of Some f \<Rightarrow> f | None \<Rightarrow> step_fields (vm s) k)
      | _ \<Rightarrow> step_fields (vm s) k) = step_fields (vm s)"
    by (auto simp: fun_eq_iff split: lval.split)
  then show ?case by (simp del: map_of.simps)
next
  case (Cons d defs)
  obtain n f where d: "d = (n, f)" by (cases d)
  let ?s = "s\<lparr>vm := (vm s)\<lparr>step_fields := (step_fields (vm s))(LStr n := f)\<rparr>,
              prog_steps := prog_steps s @ [n]\<rparr>"
  have "run_itree (steps_chunk (d # defs)) ops report s = run_itree (steps_chunk defs) ops report ?s"
    using Cons.prems by (simp add: d set_step_def registerStep_def CheckString_def)
  also have "\<dots> = (Inr LNil, ?s\<lparr>vm := (vm ?s)\<lparr>step_fields := (\<lambda>k. case k of
        LStr n \<Rightarrow> (case map_of defs n of Some f \<Rightarrow> f | None \<Rightarrow> step_fields (vm ?s) k)
      | _ \<Rightarrow> step_fields (vm ?s) k)\<rparr>, prog_steps := prog_steps ?s @ map fst defs\<rparr>)"
    using Cons.prems by (intro Cons.IH) (auto simp: d)
  also have "(\<lambda>k. case k of LStr n \<Rightarrow> (case map_of defs n of Some f \<Rightarrow> f | None \<Rightarrow> step_fields (vm ?s) k)
      | _ \<Rightarrow> step_fields (vm ?s) k) = (\<lambda>k. case k of
        LStr n \<Rightarrow> (case map_of (d # defs) n of Some f \<Rightarrow> f | None \<Rightarrow> step_fields (vm s) k)
      | _ \<Rightarrow> step_fields (vm s) k)"
    using Cons.prems(1) by (auto simp: d fun_eq_iff dest: map_of_SomeD split: lval.split option.split)
      (metis fst_conv image_eqI map_of_SomeD)
  finally show ?case by (simp add: d)
qed

text \<open>
  Loading a script that defines distinct steps registers them in the order of their
  definition, each with its function, and afterwards the table is closed: assigning a new
  name is an error that changes nothing.
\<close>

theorem Lua_registers_steps_in_order:
  assumes "distinct (map fst defs)" and "lua_load ops source = Inr (steps_chunk defs)"
  shows "\<exists>p. Lua ops report met source w = Ret (p, None) \<and> prog_steps p = map fst defs \<and>
    (\<forall>(n, f) \<in> set defs. step_fields (vm p) (LStr n) = f) \<and>
    (\<forall>n v. n \<notin> fst ` set defs \<longrightarrow>
       host ops report (HSetStep (LStr n) v) p = (Inl (Errorf ''step is immutable''), p))"
proof -
  have init: "step_fields (vm (fresh_program met w)) = (\<lambda>_. LNil)" "\<not> configured (fresh_program met w)"
      "prog_steps (fresh_program met w) = []"
    by (simp_all add: fresh_program_def NewState_def)
  note run = run_steps_chunk [OF assms(1), of "fresh_program met w" ops report]
  show ?thesis
    using assms run init
    by (auto simp: Lua_eq set_step_def registerStep_def map_of_eq_None_iff image_iff
        split: option.split)
qed

theorem Lua_registers_steps_in_order_witness:
  "distinct (map fst [(''a'', LFun 0), (''b'', LFun 1)]) \<and>
   (\<exists>p. Lua demo_ops log_report [] ''two'' 0 = Ret (p, None) \<and> prog_steps p = [''a'', ''b''])"
  using Lua_registers_steps_in_order [of "[(''a'', LFun 0), (''b'', LFun 1)]" demo_ops "''two''" log_report "[]" 0]
  by auto


section \<open>HTTP metrics\<close>

text \<open>The requests a call to \<open>get\<close> or \<open>post\<close> reports, by outcome.\<close>

definition http_calls :: "string \<Rightarrow> (int \<Rightarrow> int \<Rightarrow> metric_call) \<Rightarrow> http_resp result \<Rightarrow> int \<Rightarrow> metric_call list" where
  "http_calls u dc r d = (case r of
     Inl _ \<Rightarrow> [CallHTTPError u]
   | Inr resp \<Rightarrow> (case Body resp of
       Inl _ \<Rightarrow> [CallHTTPError u, dc (StatusCode resp) d]
     | Inr _ \<Rightarrow> [dc (StatusCode resp) d]))"

text \<open>
  A \<open>get\<close> on a usable URL reports exactly one error metric when the request fails, one
  request metric with the status code when it succeeds, and both, the error first, when only
  reading the body fails. Lua sees an error exactly when an error metric was reported.
\<close>

theorem http_get_reports_outcome:
  assumes "CheckString ops v = Inr u" and "w_now ops (world s) = (start, w1)"
    and "w_get ops u w1 = (r, w2)"
  shows "\<exists>d res s'. http_get ops log_report v s = (res, s') \<and>
     metrics s' = metrics s @ http_calls u (CallHTTPGet u) r d \<and>
     (isl res \<longleftrightarrow> CallHTTPError u \<in> set (http_calls u (CallHTTPGet u) r d))"
  using assms
  by (auto simp: http_get_def http_finish_def http_calls_def pushResponse_def Let_def
      split: sum.split prod.split)

theorem http_get_reports_outcome_witness:
  "CheckString demo_ops (LStr ''u'') = Inr ''u'' \<and>
   (\<exists>d res s'. http_get demo_ops log_report (LStr ''u'') (fresh_program [] 0) = (res, s') \<and>
      metrics s' = [CallHTTPGet ''u'' 200 d] \<and> \<not> isl res)"
proof -
  have "CheckString demo_ops (LStr ''u'') = Inr ''u''" by (simp add: CheckString_def)
  moreover have "w_now demo_ops (world (fresh_program [] 0)) = (0, 1)" by (simp add: fresh_program_def)
  moreover have "w_get demo_ops ''u'' 1 = (Inr \<lparr>StatusCode = 200, StatusText = ''200 OK'',
      ContentLength = 2, Header = [], Body = Inr ''ok''\<rparr>, 1)"
    by (simp add: demo_ops_def)
  ultimately show ?thesis
    using http_get_reports_outcome [of demo_ops "LStr ''u''" "''u''" "fresh_program [] 0" 0 1]
    by (auto simp: http_calls_def fresh_program_def)
qed

end
