(* ===== verification/ControllerProps.thy ===== *)
theory ControllerProps
  imports Controller EngineProps
begin

text \<open>
  What a run of the controller guarantees under every interleaving: no metric point is lost or
  duplicated, a stopped run always comes to its end, the rate stays within the command's bounds
  and the job channel within its capacity.
\<close>

section \<open>Conservation of points\<close>

definition gathered :: "'p run_state \<Rightarrow> Point multiset" where
  "gathered s = sum_list (map (\<lambda>m. mset (gatherer_points m)) (metricsList s))"

definition sender_points :: "sender_phase \<Rightarrow> Point multiset" where
  "sender_points ph = (case ph of
     SCollect i b \<Rightarrow> mset (Points b) | SSend n (Some b) \<Rightarrow> mset (Points b) | _ \<Rightarrow> {#})"

definition in_flight :: "'p run_state \<Rightarrow> Point multiset" where
  "in_flight s = sum_list (map sender_points (senders s))"

definition main_points :: "main_phase \<Rightarrow> Point multiset" where
  "main_points ph = (case ph of
     MCollect i b \<Rightarrow> mset (Points b) | MReturn (Inr b) \<Rightarrow> mset (Points b) | _ \<Rightarrow> {#})"

definition accounted :: "'p run_state \<Rightarrow> Point multiset" where
  "accounted s = gathered s + in_flight s + main_points (main s) + mset (delivered s) + mset (dropped s)"

definition conserved :: "'p run_state \<Rightarrow> bool" where
  "conserved s = (mset (reported s) = accounted s)"

lemma sender_points_simps [simp]:
  "sender_points SNew = {#}" "sender_points SDead = {#}"
  "sender_points (SCollect i b) = mset (Points b)" "sender_points (SSend n (Some b)) = mset (Points b)"
  "sender_points (SSend n None) = {#}"
  by (simp_all add: sender_points_def)

lemma main_points_simps [simp]:
  "main_points MSelect = {#}" "main_points (MSend n) = {#}" "main_points (MStop i) = {#}"
  "main_points MWait = {#}" "main_points (MCollect i b) = mset (Points b)"
  "main_points (MReturn (Inr b)) = mset (Points b)" "main_points (MReturn (Inl e)) = {#}"
  by (simp_all add: main_points_def)

lemma gathered_update:
  assumes "k < length (metricsList s)"
  shows "sum_list (map (\<lambda>m. mset (gatherer_points m)) ((metricsList s)[k := m])) +
     mset (gatherer_points (metricsList s ! k)) = gathered s + mset (gatherer_points m)"
  using sum_list_map_update [OF assms, of "\<lambda>m. mset (gatherer_points m)" m] by (simp add: gathered_def)

lemma gathered_clear:
  assumes "k < length (metricsList s)"
  shows "gathered s = sum_list (map (\<lambda>m. mset (gatherer_points m))
     ((metricsList s)[k := cleared (metricsList s ! k)])) + mset (gatherer_points (metricsList s ! k))"
  using gathered_update [OF assms, of "cleared (metricsList s ! k)"] by simp

lemma in_flight_update:
  assumes "j < length (senders s)"
  shows "sum_list (map sender_points ((senders s)[j := ph])) + sender_points (senders s ! j) =
     in_flight s + sender_points ph"
  using sum_list_map_update [OF assms, of sender_points ph] by (simp add: in_flight_def)

lemma NewBatchPoints_empty:
  "\<exists>b. NewBatchPoints zero_BatchPointsConfig = Inr b \<and> Points b = []"
  by (simp add: NewBatchPoints_default)

lemma main_step_conserved: "main_step env l s = Some s' \<Longrightarrow> conserved s \<Longrightarrow> conserved s'"
proof (induction env l s rule: main_step.induct)
  case (11 env s)
  then show ?case
    using NewBatchPoints_empty by (auto simp: conserved_def accounted_def gathered_def in_flight_def)
next
  case (12 env s)
  then show ?case
    using gathered_clear [of _ s]
    by (auto simp: conserved_def accounted_def in_flight_def ClearBatchPoints_eq bp.points_add_all
        gatherer_points_def gathered_def split: main_phase.splits if_splits)
qed (auto simp: conserved_def accounted_def gathered_def in_flight_def
    split: main_phase.splits if_splits prod.splits)

lemma apply_emission_points:
  "\<exists>p. gatherer_points (apply_emission m em) = gatherer_points m @ [p] \<and>
     point_ident p = ident_fields (gatherer_ident m)"
  by (cases em) (use gatherer_report_point AddLuaError_point in \<open>fastforce\<close>)+

lemma worker_step_metrics:
  assumes "worker_step env l s = Some s'" and "length (metricsList s) = length (workers s)"
  shows "senders s' = senders s \<and> main s' = main s \<and> delivered s' = delivered s \<and>
    dropped s' = dropped s \<and> pers s' = pers s \<and>
    (\<exists>ps. reported s' = reported s @ ps \<and> gathered s' = gathered s + mset ps)"
  using assms
proof (induction env l s rule: worker_step.induct)
  case (5 env k w s)
  let ?m = "(metricsList s ! k)\<lparr>mg_TestId := w_testNum (workers s ! k)\<rparr>"
  have "gatherer_points ?m = gatherer_points (metricsList s ! k)" by (simp add: gatherer_points_def)
  with 5 gathered_update [of k s ?m] show ?case
    by (auto simp: set_worker_def worker_return_def Let_def gathered_def split: if_splits prod.splits)
next
  case (6 env k s)
  then obtain em es e where k: "k < length (workers s)" and w: "w_phase (workers s ! k) = WRunning (em # es) e"
    by (auto split: if_splits worker_phase.splits list.splits)
  obtain p where p: "gatherer_points (apply_emission (metricsList s ! k) em) =
      gatherer_points (metricsList s ! k) @ [p]" using apply_emission_points by blast
  from 6 k w p gathered_update [of k s "apply_emission (metricsList s ! k) em"] show ?case
    by (auto simp: set_worker_def Let_def gathered_def intro!: exI [of _ "[p]"])
next
  case (7 env k s)
  then show ?case
    by (auto simp: set_worker_def worker_return_def gathered_def
        split: if_splits worker_phase.splits list.splits job_end.splits)
qed (auto simp: set_worker_def worker_return_def gathered_def)

lemma worker_step_conserved:
  "worker_step env l s = Some s' \<Longrightarrow> length (metricsList s) = length (workers s) \<Longrightarrow>
     conserved s \<Longrightarrow> conserved s'"
  using worker_step_metrics [of env l s s']
  by (auto simp: conserved_def accounted_def in_flight_def)


lemma make_workers_ok:
  "\<exists>ws ms. make_workers sid did i n = Inr (ws, ms) \<and> length ws = n \<and> length ms = n \<and>
     (\<forall>w \<in> set ws. w_phase w = WNew \<and> \<not> w_Done w \<and> w_testNum w = 0) \<and>
     (\<forall>m \<in> set ms. gatherer_points m = []) \<and>
     (\<forall>k < n. gatherer_ident (ms ! k) = (sid, did, of_nat (i + k), 0))"
proof (induction n arbitrary: i)
  case (Suc n)
  obtain m where m: "NewMetricsGatherer sid did (of_nat i) = Inr m" "gatherer_points m = []"
      "gatherer_ident m = (sid, did, of_nat i, 0)"
    using NewMetricsGatherer_spec by blast
  obtain ws ms where "make_workers sid did (Suc i) n = Inr (ws, ms)" "length ws = n" "length ms = n"
     "\<forall>w \<in> set ws. w_phase w = WNew \<and> \<not> w_Done w \<and> w_testNum w = 0"
     "\<forall>m \<in> set ms. gatherer_points m = []"
     "\<forall>k < n. gatherer_ident (ms ! k) = (sid, did, of_nat (Suc i + k), 0)"
    using Suc.IH [of "Suc i"] by blast
  with m show ?case by (auto simp: nth_Cons add.commute split: nat.split)
qed simp

lemma gathered_empty:
  "\<forall>m \<in> set ms. gatherer_points m = [] \<Longrightarrow> sum_list (map (\<lambda>m. mset (gatherer_points m)) ms) = {#}"
  by (induction ms) auto

lemma start_run_inv:
  assumes "start_run env p = Ret (Inr s)"
  shows "wg_ok s" and "stop_ok s" and "conserved s" and "pers s = p" and "senders s = []"
    and "jobs s = 0" and "length (workers s) = nat (sint (MaxWorkers (env_Command env)))"
proof -
  let ?c = "env_Command env"
  obtain ws ms where w: "make_workers (ScriptId ?c) (env_droplet env) 0 (nat (sint (MaxWorkers ?c))) = Inr (ws, ms)"
    "length ws = nat (sint (MaxWorkers ?c))" "length ms = length ws"
    "\<forall>w \<in> set ws. w_phase w = WNew \<and> \<not> w_Done w" "\<forall>m \<in> set ms. gatherer_points m = []"
    using make_workers_ok by metis
  note g = gathered_empty [OF w(5)]
  have a: "sum_list (map w_active ws) = 0"
    using w(4) by (induction ws) (auto simp: w_active_phase)
  from assms w g a
  show "wg_ok s" "stop_ok s" "conserved s" "pers s = p" "senders s = []" "jobs s = 0"
    "length (workers s) = nat (sint (MaxWorkers ?c))"
    by (auto simp: start_run_def Let_def wg_ok_def active_def stop_ok_def conserved_def accounted_def
        gathered_def in_flight_def split: if_splits)
qed

lemma reach_wg_stop: "reach env p s \<Longrightarrow> wg_ok s \<and> stop_ok s"
  by (induction rule: reach.induct) (auto intro: start_run_inv step_wg step_stop)

text \<open>What the run relies on of a persister, and what holds of its batches.\<close>

definition batches_ok :: "'p run_state \<Rightarrow> bool" where
  "batches_ok s = (\<forall>ph \<in> set (senders s). \<forall>n. ph \<noteq> SSend n None)"

context persister
begin

lemma sender_step_conserved:
  assumes "sender_step env l s = Some s'" and "env_persist env = persist" and "ready (pers s)"
    and "batches_ok s" and "conserved s"
  shows "ready (pers s') \<and> batches_ok s' \<and> conserved s' \<and> reported s' = reported s \<and> main s' = main s"
  using assms
proof (induction env l s rule: sender_step.induct)
  case (1 env j s)
  obtain b where b: "NewBatchPoints zero_BatchPointsConfig = Inr b" "Points b = []"
    using NewBatchPoints_empty by blast
  with 1 in_flight_update [of j s "SCollect 0 b"] show ?case
    by (auto simp: set_sender_def batches_ok_def conserved_def accounted_def in_flight_def gathered_def
        dest!: in_set_update)
next
  case (2 env j s)
  then obtain i b where j: "j < length (senders s)" "senders s ! j = SCollect i b"
    by (auto split: if_splits sender_phase.splits)
  let ?b = "foldl AddPoint b (Points (BatchPoints (metricsList s ! i)))"
  have "mset (Points ?b) = mset (Points b) + mset (gatherer_points (metricsList s ! i))"
    by (simp add: bp.points_add_all gatherer_points_def)
  with 2 j in_flight_update [OF j(1), of "SCollect (i + 1) ?b"] in_flight_update [OF j(1), of "SSend 0 (Some b)"]
    gathered_clear [of i s]
  show ?case
    by (auto simp: set_sender_def batches_ok_def conserved_def accounted_def in_flight_def gathered_def
        ClearBatchPoints_eq ac_simps split: if_splits dest!: in_set_update)
next
  case (3 env j s)
  then obtain n b where j: "j < length (senders s)" "senders s ! j = SSend n (Some b)"
    unfolding batches_ok_def by (fastforce split: if_splits sender_phase.splits simp: all_set_conv_all_nth)
  obtain e b' p' where p: "persist (pers s) (Some b) = Ret (e, Some b', p')" "ready p'" "Points b' = Points b"
    using persist_total [OF 3(3)] by blast
  from 3 j p in_flight_update [OF j(1), of SDead] in_flight_update [OF j(1), of "SSend (n + 1) (Some b')"]
  show ?case
    by (cases e) (auto simp: set_sender_def batches_ok_def conserved_def accounted_def in_flight_def gathered_def
        split: if_splits dest!: in_set_update)
qed auto

lemma step_conserved:
  assumes "step env l s = Some s'" and "env_persist env = persist" and "ready (pers s)"
    and "batches_ok s" and "conserved s" and "wg_ok s"
  shows "ready (pers s') \<and> batches_ok s' \<and> conserved s'"
  using assms(1)
proof (cases rule: step_cases)
  case main
  have "pers s' = pers s \<and> (senders s' = senders s \<or> senders s' = senders s @ [SNew])"
    using main(1) by (induction env l s rule: main_step.induct)
      (auto split: main_phase.splits if_splits prod.splits sum.splits)
  with assms main main_step_conserved show ?thesis by (auto simp: batches_ok_def)
next
  case worker
  with assms worker_step_conserved [OF worker(1)] worker_step_metrics [OF worker(1)] show ?thesis
    by (simp add: batches_ok_def wg_ok_def)
next
  case sender
  with assms sender_step_conserved show ?thesis by blast
qed (use assms in \<open>simp_all add: batches_ok_def conserved_def accounted_def gathered_def in_flight_def\<close>)

lemma run_conserved:
  assumes "reach env p s" and "env_persist env = persist" and "ready p"
  shows "ready (pers s) \<and> batches_ok s \<and> conserved s"
  using assms(1)
proof (induction rule: reach.induct)
  case (init s)
  then show ?case using start_run_inv [OF init] assms(3) by (simp add: batches_ok_def)
next
  case (stepped s l s')
  then show ?case using step_conserved [OF stepped(2) assms(2)] reach_wg_stop [OF stepped(1)] by blast
qed

lemma run_returned:
  assumes "reach env p s" and "env_persist env = persist" and "ready p" and "main s = MReturn r"
  shows "\<exists>b. r = Inr b \<and> mset (reported s) =
     mset (Points b) + in_flight s + mset (delivered s) + mset (dropped s)"
proof -
  from reach_wg_stop [OF assms(1)] assms(4) obtain b where
    r: "r = Inr b" and empty: "\<forall>m \<in> set (metricsList s). gatherer_points m = []"
    by (auto simp: stop_ok_def collected_def all_set_conv_all_nth)
  have "gathered s = {#}"
    using empty gathered_empty by (simp add: gathered_def)
  with r run_conserved [OF assms(1-3)] assms(4) show ?thesis
    by (simp add: conserved_def accounted_def ac_simps)
qed

end

text \<open>
  C1. Under every interleaving of the controller, its workers and its senders, no metric point
  is lost or duplicated: the points reported so far are, as a multiset, those still with the
  gatherers, those in batches being sent, those in the batch being collected at the end, those
  delivered, and those of batches given up after the last retry.
\<close>

theorem no_point_lost:
  assumes "reach env (f, w) s" and "env_persist env = Persist line http" and "ip_client f \<noteq> None"
  shows "mset (reported s) =
    gathered s + in_flight s + main_points (main s) + mset (delivered s) + mset (dropped s)"
  using influx.run_conserved [OF assms(1,2)] assms(3) by (simp add: conserved_def accounted_def)

text \<open>
  C10. When \<open>runScript\<close> returns it returns a batch, never an error, and every point reported by
  any worker is in that batch or was picked up by a periodic sender: none is left behind in a
  gatherer.
\<close>

theorem returned_batch_complete:
  assumes "reach env (f, w) s" and "env_persist env = Persist line http" and "ip_client f \<noteq> None"
    and "main s = MReturn r"
  shows "\<exists>b. r = Inr b \<and>
    mset (reported s) = mset (Points b) + in_flight s + mset (delivered s) + mset (dropped s)"
  using influx.run_returned [OF assms(1,2)] assms(3,4) by simp


section \<open>Rate and channel\<close>

lemma iterations_tenth:
  "0 \<le> n \<Longrightarrow> n < 2 ^ 31 \<Longrightarrow> getNumberOfIterations tickTimer n = n div 10"
  by (simp add: getNumberOfIterations_def tickTimer_def Seconds_100ms int_times_tenth)

text \<open>
  The command's numbers are sensible: what the listener checks, plus a growth factor that is a
  number and less than two thousand million.
\<close>

definition sane_rate :: "ScriptParams \<Rightarrow> bool" where
  "sane_rate c = (10 < sint (StartingRequestsPerSecond c) \<and>
     sint (StartingRequestsPerSecond c) \<le> sint (MaxRequestsPerSecond c) \<and>
     (case GrowthFactor c of Fin g \<Rightarrow> 1 \<le> g \<and> g < 2 ^ 31 | _ \<Rightarrow> False))"

lemma grow_bounds:
  assumes "sane_rate c" and "0 < r" and "r \<le> sint (MaxRequestsPerSecond c)"
  shows "r \<le> fst (grow c r) \<and> fst (grow c r) \<le> sint (MaxRequestsPerSecond c)"
proof -
  obtain g where g: "GrowthFactor c = Fin g" "1 \<le> g" "g < 2 ^ 31"
    using assms(1) by (auto simp: sane_rate_def split: f64.splits)
  have r31: "r < 2 ^ 31" using assms(3) sint32_bounds(2) [of "MaxRequestsPerSecond c"] by simp
  have "of_int r * g < 2 ^ 31 * (2 ^ 31 :: rat)"
    using r31 g assms(2) by (intro mult_strict_mono) (auto simp flip: of_int_less_iff)
  then have "of_int r * g < 2 ^ 62" by simp
  with int_times_factor_ge [of r g] assms(2) r31 g have "r \<le> int_of_f64 (f64_mult (f64_of_int r) (Fin g))"
    by simp
  with g assms(3) show ?thesis by (simp add: grow_def Let_def)
qed


definition rate_ok :: "('w, 'p) ctl_env \<Rightarrow> 'p run_state \<Rightarrow> bool" where
  "rate_ok env s =
    (let c = env_Command env in
     sint (StartingRequestsPerSecond c) \<le> requestsPerSecond s \<and>
     requestsPerSecond s \<le> sint (MaxRequestsPerSecond c) \<and>
     iterations s = requestsPerSecond s div 10 \<and> jobs s \<le> channel_cap env)"

lemma rate_frame:
  "requestsPerSecond s' = requestsPerSecond s \<Longrightarrow> iterations s' = iterations s \<Longrightarrow>
     jobs s' \<le> channel_cap env \<Longrightarrow> rate_ok env s \<Longrightarrow> rate_ok env s'"
  by (simp add: rate_ok_def Let_def)

lemma rate_grow:
  assumes "sane_rate (env_Command env)" and "rate_ok env s"
  shows "rate_ok env (case grow (env_Command env) (requestsPerSecond s) of (r, act) \<Rightarrow>
     s\<lparr>requestsPerSecond := r, growthActive := act, iterations := getNumberOfIterations tickTimer r\<rparr>)"
proof -
  let ?c = "env_Command env"
  obtain r a where r: "grow ?c (requestsPerSecond s) = (r, a)" by fastforce
  have "0 < requestsPerSecond s" "requestsPerSecond s \<le> sint (MaxRequestsPerSecond ?c)"
    using assms by (simp_all add: sane_rate_def rate_ok_def Let_def)
  with grow_bounds [OF assms(1) this] r have
    b: "requestsPerSecond s \<le> r" "r \<le> sint (MaxRequestsPerSecond ?c)" "0 \<le> r" by simp_all
  moreover from b have "r < 2 ^ 31" using sint32_bounds(2) [of "MaxRequestsPerSecond ?c"] by simp
  ultimately show ?thesis
    using assms(2) by (simp add: r rate_ok_def Let_def iterations_tenth)
qed

lemma step_rate:
  assumes "step env l s = Some s'" and "sane_rate (env_Command env)" and "rate_ok env s"
  shows "rate_ok env s'"
  using assms(1)
proof (cases rule: step_cases)
  case main
  then show ?thesis
    using assms(3) rate_grow [OF assms(2,3)]
    by (induction env l s rule: main_step.induct)
      (auto simp: rate_ok_def Let_def split: main_phase.splits if_splits prod.splits sum.splits)
next
  case worker
  then have "requestsPerSecond s' = requestsPerSecond s \<and> iterations s' = iterations s \<and> jobs s' \<le> jobs s"
    by (cases l) (auto simp: set_worker_def worker_return_def Let_def
        split: if_splits prod.splits worker_phase.splits list.splits job_end.splits)
  with assms(3) show ?thesis by (auto simp: rate_ok_def Let_def)
next
  case sender
  then have "requestsPerSecond s' = requestsPerSecond s \<and> iterations s' = iterations s \<and> jobs s' = jobs s"
    by (cases l) (auto simp: set_sender_def
        split: if_splits prod.splits sender_phase.splits go.splits option.splits sum.splits)
  with assms(3) show ?thesis by (auto simp: rate_ok_def Let_def)
qed (use assms(3) in \<open>simp_all add: rate_ok_def Let_def\<close>)

lemma start_run_rate:
  assumes "start_run env p = Ret (Inr s)" and "sane_rate (env_Command env)"
  shows "rate_ok env s"
proof -
  let ?c = "env_Command env"
  have "requestsPerSecond s = sint (StartingRequestsPerSecond ?c)" "jobs s = 0"
    "iterations s = getNumberOfIterations tickTimer (requestsPerSecond s)"
    using assms(1) by (auto simp: start_run_def Let_def split: if_splits sum.splits)
  with assms(2) sint32_bounds(2) [of "StartingRequestsPerSecond ?c"] show ?thesis
    by (auto simp: rate_ok_def sane_rate_def Let_def iterations_tenth)
qed



section \<open>Jobs of one tick\<close>

lemma sends:
  assumes "main s = MSend i" and "int n \<le> iterations s - i" and "jobs s + n \<le> channel_cap env"
    and "crashed s = None"
  shows "exec env (replicate n LSend) s =
    Some (s\<lparr>jobs := jobs s + n, jobs_sent := jobs_sent s + n, main := MSend (i + int n)\<rparr>)"
  using assms
proof (induction n arbitrary: s i)
  case (Suc n)
  let ?s = "s\<lparr>jobs := jobs s + 1, jobs_sent := jobs_sent s + 1, main := MSend (i + 1)\<rparr>"
  have "step env LSend s = Some ?s" using Suc.prems by (simp add: step_def)
  moreover have "exec env (replicate n LSend) ?s =
      Some (?s\<lparr>jobs := jobs ?s + n, jobs_sent := jobs_sent ?s + n, main := MSend (i + 1 + int n)\<rparr>)"
    using Suc.prems by (intro Suc.IH) auto
  ultimately show ?case by (simp add: algebra_simps)
qed simp

text \<open>
  C32. A tick that is neither stopped nor blocked enqueues \<open>iterations - 1\<close> jobs, one fewer than
  the number it adds to its running total, and then looks at the total to decide on starting a
  sender.
\<close>

theorem tick_sends_one_less:
  assumes "main s = MSelect" and "crashed s = None" and "1 \<le> iterations s"
    and "jobs s + nat (iterations s - 1) \<le> channel_cap env"
  shows "\<exists>s'. exec env (LTick # replicate (nat (iterations s - 1)) LSend @ [LSendEnd]) s = Some s' \<and>
    main s' = MSelect \<and> jobs_sent s' = jobs_sent s + nat (iterations s - 1) \<and>
    jobs s' = jobs s + nat (iterations s - 1) \<and>
    (let t = wrap64 (totalIterations s + iterations s) in
     if t > numSavedExecutions
     then totalIterations s' = 0 \<and> senders s' = senders s @ [SNew]
     else totalIterations s' = t \<and> senders s' = senders s)"
proof -
  let ?n = "nat (iterations s - 1)"
  let ?t = "s\<lparr>totalIterations := wrap64 (totalIterations s + iterations s), main := MSend 1\<rparr>"
  have "step env LTick s = Some ?t" using assms by (simp add: step_def)
  moreover have "exec env (replicate ?n LSend) ?t =
      Some (?t\<lparr>jobs := jobs ?t + ?n, jobs_sent := jobs_sent ?t + ?n, main := MSend (1 + int ?n)\<rparr>)"
    using assms by (intro sends) auto
  moreover have "\<not> 1 + int ?n < iterations s" using assms(3) by simp
  ultimately show ?thesis
    using assms(2) by (simp add: exec_append step_def Let_def)
qed

text \<open>A tick at a rate from eleven to nineteen requests per second sends no job at all.\<close>

lemma slow_tick_sends_nothing:
  assumes "main s = MSelect" and "crashed s = None" and "iterations s = 1"
  shows "\<exists>s'. exec env [LTick, LSendEnd] s = Some s' \<and> main s' = MSelect \<and> jobs_sent s' = jobs_sent s \<and>
    step env LSend (the (step env LTick s)) = None"
  using assms by (simp add: step_def guard_def)


section \<open>A stopped run comes to its end\<close>

definition stopping :: "'p run_state \<Rightarrow> bool" where
  "stopping s = (case main s of MStop _ \<Rightarrow> True | MWait \<Rightarrow> True | MCollect _ _ \<Rightarrow> True | _ \<Rightarrow> False)"

definition main_rank :: "nat \<Rightarrow> main_phase \<Rightarrow> nat" where
  "main_rank n ph = (case ph of MStop i \<Rightarrow> 2 * n + 4 - i | MWait \<Rightarrow> n + 3 | MCollect i b \<Rightarrow> n + 2 - i | _ \<Rightarrow> 0)"

definition worker_rank :: "worker \<Rightarrow> nat" where
  "worker_rank w = (case w_phase w of WNew \<Rightarrow> 2 | WIdle \<Rightarrow> 1 | WGot \<Rightarrow> 5 | WRunning es e \<Rightarrow> 4 | WDead \<Rightarrow> 0)"

definition sender_rank :: "nat \<Rightarrow> sender_phase \<Rightarrow> nat" where
  "sender_rank n ph = (case ph of SNew \<Rightarrow> n + 16 | SCollect i b \<Rightarrow> n - i + 15
     | SSend k b \<Rightarrow> 13 - k + 1 | SDead \<Rightarrow> 0)"

definition pending :: "worker \<Rightarrow> nat" where
  "pending w = (case w_phase w of WRunning es e \<Rightarrow> length es | _ \<Rightarrow> 0)"

text \<open>First the work left to do, then the reports of the jobs being run.\<close>

definition rank1 :: "'p run_state \<Rightarrow> nat" where
  "rank1 s = main_rank (length (metricsList s)) (main s) + 5 * jobs s +
     sum_list (map worker_rank (workers s)) +
     sum_list (map (sender_rank (length (metricsList s))) (senders s)) +
     (if halt_closed s then 0 else 1) + (if done_closed s then 0 else 1) +
     (if crashed s = None then 1 else 0)"

definition rank2 :: "'p run_state \<Rightarrow> nat" where
  "rank2 s = sum_list (map pending (workers s))"

definition stop_order :: "('p run_state \<times> 'p run_state) set" where
  "stop_order = inv_image (less_than <*lex*> less_than) (\<lambda>s. (rank1 s, rank2 s))"

lemma wf_stop_order: "wf stop_order"
  unfolding stop_order_def by (intro wf_inv_image wf_lex_prod wf_less_than)

lemma stop_orderI:
  "rank1 s' < rank1 s \<or> rank1 s' \<le> rank1 s \<and> rank2 s' < rank2 s \<Longrightarrow> (s', s) \<in> stop_order"
  by (auto simp: stop_order_def)


lemma main_step_rank:
  assumes "main_step env l s = Some s'" and "stopping s" and "stop_ok s" and "wg_ok s"
  shows "(s', s) \<in> stop_order"
proof (rule stop_orderI, rule disjI1)
  have len: "length (metricsList s) = length (workers s)" using assms(4) by (simp add: wg_ok_def)
  show "rank1 s' < rank1 s"
  proof (cases "main s")
    case (MStop i)
    have same: "i < length (workers s) \<Longrightarrow>
        sum_list (map worker_rank ((workers s)[i := (workers s ! i)\<lparr>w_Done := True\<rparr>])) =
        sum_list (map worker_rank (workers s))"
      by (intro sum_list_map_same_update) (simp_all add: worker_rank_def)
    from MStop assms(1,3) show ?thesis
      by (cases l) (auto simp: rank1_def main_rank_def len same stop_ok_def)
  next
    case MWait
    with assms(1) show ?thesis
      by (cases l) (auto simp: rank1_def main_rank_def NewBatchPoints_default)
  next
    case (MCollect i b)
    with assms(1,3) show ?thesis
      by (cases l) (auto simp: rank1_def main_rank_def ClearBatchPoints_eq stop_ok_def)
  qed (use assms(2) in \<open>auto simp: stopping_def\<close>)
qed

lemma worker_rank_simps [simp]:
  "worker_rank (w\<lparr>w_phase := WIdle\<rparr>) = 1" "worker_rank (w\<lparr>w_phase := WGot\<rparr>) = 5"
  "worker_rank (w\<lparr>w_phase := WDead\<rparr>) = 0" "worker_rank (w\<lparr>w_phase := WRunning es e\<rparr>) = 4"
  "worker_rank (w\<lparr>w_phase := WRunning es e, w_testNum := n\<rparr>) = 4"
  "pending (w\<lparr>w_phase := WRunning es e\<rparr>) = length es"
  by (simp_all add: worker_rank_def pending_def)

lemma worker_rank_phase:
  "w_phase w = WNew \<Longrightarrow> worker_rank w = 2" "w_phase w = WIdle \<Longrightarrow> worker_rank w = 1"
  "w_phase w = WGot \<Longrightarrow> worker_rank w = 5" "w_phase w = WRunning es e \<Longrightarrow> worker_rank w = 4"
  "w_phase w = WRunning es e \<Longrightarrow> pending w = length es"
  by (simp_all add: worker_rank_def pending_def)

lemma worker_step_rank:
  assumes "worker_step env l s = Some s'" and "crashed s = None"
  shows "(s', s) \<in> stop_order"
  using assms
proof (cases l)
  note upd = sum_list_map_update [of _ "workers s" worker_rank]
  note defs = rank1_def set_worker_def worker_return_def worker_rank_phase
  { case (LWStart k)
    with assms upd [of k "(workers s ! k)\<lparr>w_phase := WIdle\<rparr>"] show ?thesis
      by (auto intro!: stop_orderI simp: defs)
  next
    case (LWDone k)
    with assms upd [of k "(workers s ! k)\<lparr>w_phase := WDead\<rparr>"] show ?thesis
      by (auto intro!: stop_orderI simp: defs)
  next
    case (LWTake k)
    with assms upd [of k "(workers s ! k)\<lparr>w_phase := WGot\<rparr>"] show ?thesis
      by (auto intro!: stop_orderI simp: defs)
  next
    case (LWClosed k)
    with assms upd [of k "(workers s ! k)\<lparr>w_phase := WDead\<rparr>"] show ?thesis
      by (auto intro!: stop_orderI simp: defs)
  next
    case (LWRun k w)
    obtain es e where job: "worker_job (env_ops env) (env_unmarshal env) (env_show env) (env_Command env)
        (env_Config env) w = (es, e)" by fastforce
    with LWRun assms upd [of k "(workers s ! k)\<lparr>w_phase := WDead\<rparr>"]
      upd [of k "(workers s ! k)\<lparr>w_phase := WRunning es e, w_testNum := w_testNum (workers s ! k) + 1\<rparr>"]
    show ?thesis by (auto intro!: stop_orderI simp: defs Let_def split: if_splits)
  next
    case (LWEmit k)
    with assms(1) obtain em es e where k: "k < length (workers s)"
      "w_phase (workers s ! k) = WRunning (em # es) e"
      by (auto split: if_splits worker_phase.splits list.splits)
    with LWEmit assms upd [of k "(workers s ! k)\<lparr>w_phase := WRunning es e\<rparr>"]
      sum_list_map_update [OF k(1), of pending "(workers s ! k)\<lparr>w_phase := WRunning es e\<rparr>"]
    show ?thesis by (auto intro!: stop_orderI simp: defs rank2_def Let_def)
  next
    case (LWFinish k)
    with assms(1) obtain e where k: "k < length (workers s)" "w_phase (workers s ! k) = WRunning [] e"
      by (auto split: if_splits worker_phase.splits list.splits)
    with LWFinish assms upd [of k "(workers s ! k)\<lparr>w_phase := WIdle\<rparr>"]
      upd [of k "(workers s ! k)\<lparr>w_phase := WDead\<rparr>"]
    show ?thesis by (cases e) (auto intro!: stop_orderI simp: defs)
  }
qed auto


lemma sender_step_rank:
  assumes "sender_step env l s = Some s'" and "crashed s = None"
  shows "(s', s) \<in> stop_order"
proof (rule stop_orderI, rule disjI1)
  let ?r = "sender_rank (length (metricsList s))"
  have upd: "j < length (senders s) \<Longrightarrow> sum_list (map ?r ((senders s)[j := ph])) + ?r (senders s ! j) =
      sum_list (map ?r (senders s)) + ?r ph" for j ph
    by (rule sum_list_map_update)
  show "rank1 s' < rank1 s"
  proof (cases l)
    case (LSStart j)
    obtain b where "NewBatchPoints zero_BatchPointsConfig = Inr b" using NewBatchPoints_empty by blast
    with LSStart assms upd [of j "SCollect 0 b"] show ?thesis
      by (auto simp: rank1_def set_sender_def sender_rank_def)
  next
    case (LSCollect j)
    with assms(1) obtain i b where j: "j < length (senders s)" "senders s ! j = SCollect i b"
      by (auto split: if_splits sender_phase.splits)
    with LSCollect assms upd [of j "SCollect (i + 1) (foldl AddPoint b (Points (BatchPoints (metricsList s ! i))))"]
      upd [of j "SSend 0 (Some b)"]
    show ?thesis
      by (auto simp: rank1_def set_sender_def sender_rank_def ClearBatchPoints_eq split: if_splits)
  next
    case (LSAttempt j)
    with assms(1) obtain n b where j: "j < length (senders s)" "senders s ! j = SSend n b"
      by (auto split: if_splits sender_phase.splits)
    show ?thesis
    proof (cases "env_persist env (pers s) b")
      case (Panic msg)
      with LSAttempt j assms show ?thesis by (auto simp: rank1_def)
    next
      case (Ret x)
      obtain e b' p' where "x = (e, b', p')" by (cases x)
      with Ret LSAttempt j assms upd [of j SDead] upd [of j "SSend (n + 1) b'"] show ?thesis
        by (cases e) (auto simp: rank1_def set_sender_def sender_rank_def maxRetries_def split: if_splits)
    qed
  qed (use assms in auto)
qed

lemma step_of_worker: "worker_step env l s = Some s' \<Longrightarrow> crashed s = None \<Longrightarrow> step env l s = Some s'"
  by (cases l) (simp_all add: step_def)

lemma step_of_sender: "sender_step env l s = Some s' \<Longrightarrow> crashed s = None \<Longrightarrow> step env l s = Some s'"
  by (cases l) (simp_all add: step_def)

lemma active_enabled:
  assumes "wg_ok s" and "stop_ok s" and "main s = MWait" and "crashed s = None" and "wg s \<noteq> 0"
  shows "\<exists>l s'. step env l s = Some s'"
proof -
  have "active s \<noteq> 0" using assms(1,5) by (simp add: wg_ok_def)
  then consider k where "k < length (workers s)" "w_active (workers s ! k) \<noteq> 0"
    | j where "j < length (senders s)" "s_active (senders s ! j) \<noteq> 0"
    by (auto simp: active_def in_set_conv_nth)
  then show ?thesis
  proof cases
    case (1 k)
    have "\<exists>l s'. worker_step env l s = Some s'"
    proof (cases "w_phase (workers s ! k)")
      case WIdle
      with 1 assms(2,3) show ?thesis
        by (intro exI [of _ "if jobs s = 0 then LWClosed k else LWTake k"]) (auto simp: stop_ok_def guard_def)
    next
      case WGot
      with 1 show ?thesis by (intro exI [of _ "LWRun k undefined"]) (auto simp: guard_def)
    next
      case (WRunning es e)
      with 1 show ?thesis
        by (intro exI [of _ "if es = [] then LWFinish k else LWEmit k"]) (auto simp: Let_def split: list.split)
    qed (use 1 in \<open>auto simp: w_active_phase\<close>)
    with assms(4) show ?thesis using step_of_worker by blast
  next
    case (2 j)
    have "\<exists>l s'. sender_step env l s = Some s'"
      using 2 by (cases "senders s ! j")
        (auto intro: exI [of _ "LSCollect j"] exI [of _ "LSAttempt j"])
    with assms(4) show ?thesis using step_of_sender by blast
  qed
qed



section \<open>Checks before the run\<close>

lemma VerifyConfig_AddConfig:
  "VerifyConfig sh json = None \<Longrightarrow> \<exists>l'. AddConfig sh json l = Ret (None, l')"
  by (induction json arbitrary: l) (auto simp: l_SetGlobal_push split: if_splits)

text \<open>
  After the checks of \<open>RunInstructions\<close> have passed, a worker never gives up because of the
  configuration: if the script loads, its job ends with the worker back in its loop (or with a
  panic of the script), never with the worker returning.
\<close>

theorem checked_config_keeps_workers:
  assumes "check_instructions env w0 = Ret None"
    and "Lua (env_ops env) trace_report [] (Script (env_Command env)) w = Ret (prog, None)"
    and "worker_job (env_ops env) (env_unmarshal env) (env_show env) (env_Command env) (env_Config env) w = (es, e)"
  shows "e \<noteq> JReturn"
proof -
  have cfg: "env_Config env \<noteq> '''' \<Longrightarrow> \<exists>cfg. env_unmarshal env (env_Config env) = Inr cfg \<and>
      VerifyConfig (env_show env) cfg = None"
    using assms(1) by (auto simp: check_instructions_def split: go.splits option.splits if_splits sum.splits)
  have run: "snd (run_loaded (env_ops env) q) \<noteq> JReturn" for q
    by (auto simp: run_loaded_def split: go.split option.split)
  show ?thesis
  proof (cases "env_Config env = ''''")
    case True
    with assms(2,3) run [of prog] show ?thesis by (auto simp: worker_job_def)
  next
    case False
    with cfg obtain c where c: "env_unmarshal env (env_Config env) = Inr c"
      "VerifyConfig (env_show env) c = None" by blast
    obtain l where "AddConfig (env_show env) c (vm prog) = Ret (None, l)"
      using VerifyConfig_AddConfig [OF c(2)] by blast
    with False c(1) assms(2,3) run [of "prog\<lparr>vm := l\<rparr>"] show ?thesis by (auto simp: worker_job_def)
  qed
qed


section \<open>A concrete run\<close>

definition demo_command :: ScriptParams where
  "demo_command = \<lparr>Url = ''u'', Script = ''two'', ScriptId = ''id'', RunTime = 10, MaxWorkers = 1,
     GrowthFactor = Fin 2, TimeBetweenGrowth = Fin 1, StartingRequestsPerSecond = 20,
     MaxRequestsPerSecond = 40\<rparr>"

definition demo_persister :: "InfluxPersister \<times> nat" where
  "demo_persister = (\<lparr>ip_client = Some (NewClient \<lparr>conf_URL = ''http://db'', conf_Username = '''',
     conf_Password = '''', conf_UserAgent = '''', conf_InsecureSkipVerify = False\<rparr>), ip_database = ''db''\<rparr>, 0)"

definition demo_line :: "Point \<Rightarrow> string \<Rightarrow> string" where
  "demo_line p prec = pt_name p"

definition demo_http :: "write_request \<Rightarrow> nat \<Rightarrow> (int \<times> string) result \<times> nat" where
  "demo_http r n = (Inr (204, ''''), n + 1)"

definition demo_env :: "(int, InfluxPersister \<times> nat) ctl_env" where
  "demo_env = \<lparr>env_ops = demo_ops, env_unmarshal = (\<lambda>_. Inr []), env_show = (\<lambda>_. ''v''),
     env_persist = Persist demo_line demo_http, env_Command = demo_command, env_Config = '''',
     env_droplet = 7\<rparr>"

lemma demo_env_simps [simp]:
  "env_ops demo_env = demo_ops" "env_Command demo_env = demo_command" "env_Config demo_env = ''''"
  "env_persist demo_env = Persist demo_line demo_http" "env_droplet demo_env = 7"
  by (simp_all add: demo_env_def)

lemma demo_command_simps [simp]:
  "Script demo_command = ''two''" "MaxWorkers demo_command = 1"
  "StartingRequestsPerSecond demo_command = 20" "MaxRequestsPerSecond demo_command = 40"
  "GrowthFactor demo_command = Fin 2" "TimeBetweenGrowth demo_command = Fin 1"
  by (simp_all add: demo_command_def)

definition demo_start :: "(InfluxPersister \<times> nat) run_state" where
  "demo_start = (case start_run demo_env demo_persister of Ret (Inr s) \<Rightarrow> s | _ \<Rightarrow> undefined)"

lemma demo_interval: "growth_interval demo_command = second_ns"
  by (simp add: growth_interval_def int_of_f64_Fin second_ns_def wrap64_id)

lemma demo_start_eq: "\<exists>ms. start_run demo_env demo_persister = Ret (Inr demo_start) \<and> length ms = 1 \<and>
   demo_start = \<lparr>main = MSelect, jobs = 0, jobs_closed = False, requestsPerSecond = 20,
     iterations = 2, growthActive = True, totalIterations = 0, halt_closed = False, done_closed = False,
     workers = [\<lparr>w_phase = WNew, w_testNum = 0, w_Done = False\<rparr>],
     metricsList = ms, senders = [], wg = 0, pers = demo_persister, crashed = None,
     reported = [], delivered = [], dropped = [], jobs_sent = 0\<rparr>"
proof -
  have tick: "NewTicker tickTimer = Ret ()" "NewTicker second_ns = Ret ()"
    by (simp_all add: NewTicker_def tickTimer_def millisecond_ns_def second_ns_def)
  obtain m where m: "NewMetricsGatherer (ScriptId demo_command) 7 0 = Inr m"
    using NewMetricsGatherer_spec by blast
  have "start_run demo_env demo_persister = Ret (Inr \<lparr>main = MSelect, jobs = 0, jobs_closed = False, requestsPerSecond = 20,
     iterations = 2, growthActive = True, totalIterations = 0, halt_closed = False, done_closed = False,
     workers = [\<lparr>w_phase = WNew, w_testNum = 0, w_Done = False\<rparr>],
     metricsList = [m], senders = [], wg = 0, pers = demo_persister, crashed = None,
     reported = [], delivered = [], dropped = [], jobs_sent = 0\<rparr>)"
    by (simp add: start_run_def Let_def m tick demo_interval iterations_tenth)
  then show ?thesis by (intro exI [of _ "[m]"]) (simp add: demo_start_def)
qed


text \<open>One job, run to its end, then a halt.\<close>

lemma demo_ops_apply [simp]:
  "lua_apply demo_ops (LFun 0) a = ICall (HGet (LStr ''u'')) IRet"
  "lua_apply demo_ops (LFun 1) a = IErr (Errorf ''bad'')"
  "lua_apply demo_ops (LFun (Suc 0)) a = IErr (Errorf ''bad'')"
  "w_get demo_ops u w = (Inr \<lparr>StatusCode = 200, StatusText = ''200 OK'', ContentLength = 2, Header = [],
        Body = Inr ''ok''\<rparr>, w)"
  by (simp_all add: demo_ops_def)

lemma demo_job:
  "\<exists>e1 e2 e3 e4 e5. worker_job demo_ops unm sh demo_command '''' 0 = ([e1, e2, e3, e4, e5], JContinue)"
proof -
  have "Lua demo_ops trace_report [] ''two'' 0 = Ret (p, None) \<Longrightarrow> globals (vm p) ''step'' = LStepTable \<and>
      prog_steps p = [''a'', ''b''] \<and> lstack (vm p) = []" for p
    by (auto simp: Lua_eq fresh_program_def set_step_def registerStep_def CheckString_def NewState_def)
  moreover obtain p where p: "Lua demo_ops trace_report [] ''two'' 0 = Ret (p, None)"
    "metrics p = []" "step_fields (vm p) (LStr ''a'') = LFun 0" "step_fields (vm p) (LStr ''b'') = LFun 1"
    by (simp add: Lua_eq fresh_program_def set_step_def registerStep_def CheckString_def NewState_def)
  ultimately have q: "globals (vm p) ''step'' = LStepTable" "prog_steps p = [''a'', ''b'']" "lstack (vm p) = []"
    by auto
  show ?thesis
    by (simp add: worker_job_def p run_loaded_def Execute_pipe q Let_def emit_def trace_report_def
        http_get_def http_finish_def pushResponse_def CheckString_def)
qed

definition demo_schedule :: "int label list" where
  "demo_schedule = [LWStart 0, LTick, LSend, LSendEnd, LWTake 0, LWRun 0 0, LWEmit 0, LWEmit 0, LWEmit 0,
     LWEmit 0, LWEmit 0, LWFinish 0, LHalt, LSelHalt, LStop, LStop, LWDone 0, LWait, LCollect, LCollect]"

lemma demo_run:
  "\<exists>s b. exec demo_env demo_schedule demo_start = Some s \<and> main s = MReturn (Inr b) \<and>
     length (reported s) = 5 \<and> crashed s = None \<and> pers s = demo_persister"
proof -
  obtain ms where s0: "demo_start = \<lparr>main = MSelect, jobs = 0, jobs_closed = False, requestsPerSecond = 20,
     iterations = 2, growthActive = True, totalIterations = 0, halt_closed = False, done_closed = False,
     workers = [\<lparr>w_phase = WNew, w_testNum = 0, w_Done = False\<rparr>],
     metricsList = ms, senders = [], wg = 0, pers = demo_persister, crashed = None,
     reported = [], delivered = [], dropped = [], jobs_sent = 0\<rparr>" "length ms = 1"
    using demo_start_eq by blast
  obtain m where ms: "ms = [m]" using s0(2) by (cases ms) auto
  obtain e1 e2 e3 e4 e5 where job: "worker_job demo_ops (env_unmarshal demo_env) (env_show demo_env)
      demo_command '''' 0 = ([e1, e2, e3, e4, e5], JContinue)"
    using demo_job by blast
  have em: "length (drop (length (gatherer_points m)) (gatherer_points (apply_emission m em))) = 1" for m em
    using apply_emission_points [of m em] by auto
  show ?thesis
    by (simp add: demo_schedule_def s0(1) ms step_def set_worker_def worker_return_def channel_cap_def
        numSavedExecutions_def wrap64_id job Let_def NewBatchPoints_default ClearBatchPoints_eq em [simplified])
qed


lemma demo_reach_start: "reach demo_env demo_persister demo_start"
proof (rule reach.init)
  show "start_run demo_env demo_persister = Ret (Inr demo_start)"
    using demo_start_eq by (elim exE conjE)
qed

lemma demo_start_fields:
  "main demo_start = MSelect" "crashed demo_start = None" "halt_closed demo_start = False"
  "iterations demo_start = 2" "jobs demo_start = 0"
proof -
  obtain ms where s0: "demo_start = \<lparr>main = MSelect, jobs = 0, jobs_closed = False, requestsPerSecond = 20,
     iterations = 2, growthActive = True, totalIterations = 0, halt_closed = False, done_closed = False,
     workers = [\<lparr>w_phase = WNew, w_testNum = 0, w_Done = False\<rparr>],
     metricsList = ms, senders = [], wg = 0, pers = demo_persister, crashed = None,
     reported = [], delivered = [], dropped = [], jobs_sent = 0\<rparr>"
    using demo_start_eq by (elim exE conjE)
  show "main demo_start = MSelect" "crashed demo_start = None" "halt_closed demo_start = False"
    "iterations demo_start = 2" "jobs demo_start = 0"
    by (simp_all add: s0)
qed

lemma demo_reach:
  "\<exists>s b. reach demo_env demo_persister s \<and> main s = MReturn (Inr b) \<and> length (reported s) = 5"
proof -
  obtain s b where s: "exec demo_env demo_schedule demo_start = Some s" "main s = MReturn (Inr b)"
    "length (reported s) = 5" using demo_run by (elim exE conjE)
  from reach_exec [OF demo_reach_start s(1)] s(2,3) show ?thesis by (intro exI conjI)
qed

lemma demo_client: "ip_client (fst demo_persister) \<noteq> None"
  by (simp add: demo_persister_def)

theorem no_point_lost_witness:
  "\<exists>s. reach demo_env demo_persister s \<and> length (reported s) = 5 \<and> mset (reported s) =
    gathered s + in_flight s + main_points (main s) + mset (delivered s) + mset (dropped s)"
proof -
  obtain s where "reach demo_env demo_persister s" "length (reported s) = 5" using demo_reach by blast
  with no_point_lost [of demo_env "fst demo_persister" "snd demo_persister" s demo_line demo_http] demo_client
  show ?thesis by auto
qed

theorem returned_batch_complete_witness:
  "\<exists>s b. reach demo_env demo_persister s \<and> main s = MReturn (Inr b) \<and> length (reported s) = 5 \<and>
    mset (reported s) = mset (Points b) + in_flight s + mset (delivered s) + mset (dropped s)"
proof -
  obtain s b where s: "reach demo_env demo_persister s" "main s = MReturn (Inr b)" "length (reported s) = 5"
    using demo_reach by blast
  with returned_batch_complete [of demo_env "fst demo_persister" "snd demo_persister" s demo_line demo_http "Inr b"]
    demo_client
  show ?thesis by auto
qed


theorem tick_sends_one_less_witness:
  "\<exists>s'. exec demo_env [LTick, LSend, LSendEnd] demo_start = Some s' \<and> main s' = MSelect \<and> jobs s' = 1"
proof -
  have "channel_cap demo_env = 40" by (simp add: channel_cap_def)
  with demo_start_fields show ?thesis
    using tick_sends_one_less [of demo_start demo_env] by (auto simp: numeral_2_eq_2)
qed


theorem checked_config_keeps_workers_witness:
  "check_instructions demo_env 0 = Ret None \<and>
   snd (worker_job demo_ops (env_unmarshal demo_env) (env_show demo_env) demo_command '''' 0) \<noteq> JReturn"
proof -
  have c: "check_instructions demo_env 0 = Ret None"
    by (simp add: check_instructions_def Lua_eq fresh_program_def set_step_def registerStep_def
        CheckString_def NewState_def)
  obtain p where p: "Lua demo_ops trace_report [] ''two'' 0 = Ret (p, None)"
    by (simp add: Lua_eq fresh_program_def set_step_def registerStep_def CheckString_def NewState_def)
  obtain es e where j: "worker_job demo_ops (env_unmarshal demo_env) (env_show demo_env) demo_command '''' 0 = (es, e)"
    by fastforce
  from checked_config_keeps_workers [OF c, of 0 p es e] p j c show ?thesis by simp
qed

end
