(* ===== verification/Listener.thy ===== *)
theory Listener
  imports ControllerProps
begin

text \<open>
  The gRPC side of an executor, \<open>executor/controller/executor_grpc_listener.go\<close>: checking a
  command, running it while listening for a halt, and registering with the scheduler. The
  incoming stream is the list of results of its \<open>Recv\<close> calls; what \<open>Send\<close>, dialling, the
  registration call and \<open>net.Listen\<close> answer are parameters, as is the printing of floats.
\<close>

section \<open>Checking a command\<close>

definition bad_verb :: "(f64 \<Rightarrow> string) \<Rightarrow> f64 \<Rightarrow> string" where
  "bad_verb show_f64 x = ''%!d(float64='' @ show_f64 x @ '')''"

definition verifyCommand :: "(f64 \<Rightarrow> string) \<Rightarrow> ScriptParams option \<Rightarrow> errorv go" where
  "verifyCommand show_f64 ptr = (case ptr of
     None \<Rightarrow> nil_deref
   | Some cmd \<Rightarrow> Ret (
     if sint (MaxWorkers cmd) < 1 then
       Some (Errorf (''Max Workers must be greater than 0. Given MaxWorkers: '' @ show_int (sint (MaxWorkers cmd))))
     else if sint (RunTime cmd) \<le> 1 then
       Some (Errorf (''You must run for greater than 1 second. Given Runtime: '' @ show_int (sint (RunTime cmd))))
     else if sint (StartingRequestsPerSecond cmd) \<le> 10 then
       Some (Errorf (''Max Requests per seconds must be greater than 10. Given StartingRequestsPerSecond: '' @
         show_int (sint (StartingRequestsPerSecond cmd))))
     else if sint (MaxRequestsPerSecond cmd) < 1 then
       Some (Errorf (''Max Requests per seconds must be greater than 0. Given MaxRequestsPerSecond: '' @
         show_int (sint (MaxRequestsPerSecond cmd))))
     else if sint (MaxRequestsPerSecond cmd) < sint (StartingRequestsPerSecond cmd) then
       Some (Errorf (''Max Requests per seconds must be greater than Starting Requests Per Second. Given MaxRequestsPerSecond: '' @
         show_int (sint (MaxRequestsPerSecond cmd)) @ '' StartingRequestsPerSecond: '' @
         show_int (sint (StartingRequestsPerSecond cmd))))
     else if f64_less (GrowthFactor cmd) (Fin 1) then
       Some (Errorf (''Growth Factor must be greater or equal to 1. Given GrowthFactor: '' @
         bad_verb show_f64 (GrowthFactor cmd)))
     else if f64_less (TimeBetweenGrowth cmd) (Fin tenth) then
       Some (Errorf (''Time Between Growth must be greater or equal to 0.1. Given TimeBetweenGrowth: '' @
         bad_verb show_f64 (TimeBetweenGrowth cmd)))
     else None))"


section \<open>Listening for a halt\<close>

text \<open>
  What the listening goroutine has done after some results of \<open>Recv\<close>: whether it set \<open>halted\<close>,
  the replies it sent, and whether it returned, which closes the halt channel. The variable
  \<open>serverErr\<close> inside the function shadows the pointer parameter, which is never written.
\<close>

record listen_state =
  ls_halted :: bool
  ls_replies :: "StatusMessage list"
  ls_returned :: bool

fun listenForHalt :: "CommandMessage result list \<Rightarrow> listen_state \<Rightarrow> listen_state" where
  "listenForHalt [] st = st"
| "listenForHalt (Inl serverErr # rest) st = st\<lparr>ls_returned := True\<rparr>"
| "listenForHalt (Inr mes # rest) st =
    (if Command mes = ''Halt'' then st\<lparr>ls_halted := True, ls_returned := True\<rparr>
     else listenForHalt rest (st\<lparr>ls_replies := ls_replies st @ [\<lparr>Status = ''Invalid''\<rparr>]\<rparr>))"

definition listen_start :: listen_state where
  "listen_start = \<lparr>ls_halted = False, ls_replies = [], ls_returned = False\<rparr>"


section \<open>Executing a command\<close>

record ('w, 'p) GRPCExecutorStarter =
  st_persister :: 'p
  st_dropletId :: int
  st_ops :: "'w engine_ops"
  st_unmarshal :: "string \<Rightarrow> (string \<times> gval) list result"
  st_show :: "gval \<Rightarrow> string"
  st_persist :: "'p \<Rightarrow> batchpoints option \<Rightarrow> (errorv \<times> batchpoints option \<times> 'p) go"

definition controller_env :: "('w, 'p) GRPCExecutorStarter \<Rightarrow> ScriptParams \<Rightarrow> string \<Rightarrow> ('w, 'p) ctl_env" where
  "controller_env st c config = \<lparr>env_ops = st_ops st, env_unmarshal = st_unmarshal st,
     env_show = st_show st, env_persist = st_persist st, env_Command = c, env_Config = config,
     env_droplet = st_dropletId st\<rparr>"

text \<open>
  \<open>ExecuteCommand\<close> on a stream of \<open>Recv\<close> results: the first is the command; the listener has
  handled \<open>heard\<close> of the others when \<open>RunInstructions\<close> comes back, and the schedule may close the
  halt channel only if the listener did. The result is the returned error, the messages sent and
  the persister; \<open>None\<close> means that the schedule is not possible or not complete.
\<close>

definition ExecuteCommand ::
  "(f64 \<Rightarrow> string) \<Rightarrow> (StatusMessage \<Rightarrow> errorv) \<Rightarrow> ('w, 'p) GRPCExecutorStarter \<Rightarrow>
   CommandMessage result \<Rightarrow> CommandMessage result list \<Rightarrow> 'w label list \<Rightarrow> 'w \<Rightarrow>
   (errorv \<times> StatusMessage list \<times> 'p) go option" where
  "ExecuteCommand show_f64 send s first heard sched w = (case first of
     Inl err \<Rightarrow> Some nil_deref
   | Inr cmd \<Rightarrow>
       if Command cmd \<noteq> ''Run'' then
         let m = \<lparr>Status = ''Invalid''\<rparr> in Some (Ret (send m, [m], st_persister s))
       else (case verifyCommand show_f64 (ScriptParamsPtr cmd) of
         Panic e \<Rightarrow> Some (Panic e)
       | Ret (Some err) \<Rightarrow>
           Some (Ret (Some err, [\<lparr>Status = ''Invalid: '' @ Error err\<rparr>], st_persister s))
       | Ret None \<Rightarrow> (case ScriptParamsPtr cmd of
           None \<Rightarrow> Some nil_deref
         | Some c \<Rightarrow>
             let l = listenForHalt heard listen_start; serverErr = (None :: errorv) in
             if LHalt \<in> set sched \<and> \<not> ls_returned l then None
             else (case RunInstructions (controller_env s c (ScriptConfig cmd)) sched (st_persister s) w of
               None \<Rightarrow> None
             | Some (Panic e) \<Rightarrow> Some (Panic e)
             | Some (Ret (err, p')) \<Rightarrow> Some (Ret (
                 case err of
                   Some e \<Rightarrow> (Some e, ls_replies l @ [\<lparr>Status = ''Invalid: '' @ Error e\<rparr>], p')
                 | None \<Rightarrow>
                     (case serverErr of
                        Some e \<Rightarrow> (Some e, ls_replies l, p')
                      | None \<Rightarrow>
                          let m = \<lparr>Status = (if ls_halted l then ''Halted'' else ''OK'')\<rparr> in
                          (send m, ls_replies l @ [m], p'))))))))"


section \<open>Registering with the scheduler\<close>

text \<open>\<open>dial\<close> opens the connection, \<open>call\<close> is the registration over it.\<close>

definition registerDroplet ::
  "(string \<Rightarrow> unit result) \<Rightarrow> (RegisterExecutorReq \<Rightarrow> RegisterExecutorResp result) \<Rightarrow>
   (string \<Rightarrow> string \<Rightarrow> string \<Rightarrow> string \<Rightarrow> bool \<Rightarrow> 'p \<Rightarrow> errorv \<times> 'p) \<Rightarrow>
   int \<Rightarrow> 'p \<Rightarrow> string \<Rightarrow> int \<Rightarrow> errorv \<times> 'p" where
  "registerDroplet dial call setup dropletId p schedulerAddr port =
    (case dial schedulerAddr of
       Inl err \<Rightarrow> (Some err, p)
     | Inr _ \<Rightarrow>
         (case call \<lparr>DropletId = word_of_int dropletId, Port = word_of_int port\<rparr> of
            Inl err \<Rightarrow> (Some err, p)
          | Inr msg \<Rightarrow> setup (InfluxAddr msg) (InfluxUsername msg) (InfluxPassword msg) (InfluxDb msg)
              (InfluxSsl msg) p))"

definition NewGRPCExecutorStarter ::
  "(string \<Rightarrow> unit result) \<Rightarrow> (RegisterExecutorReq \<Rightarrow> RegisterExecutorResp result) \<Rightarrow>
   (string \<Rightarrow> string \<Rightarrow> string \<Rightarrow> string \<Rightarrow> bool \<Rightarrow> 'p \<Rightarrow> errorv \<times> 'p) \<Rightarrow>
   ('p \<Rightarrow> int \<Rightarrow> ('w, 'p) GRPCExecutorStarter) \<Rightarrow>
   'p \<Rightarrow> string \<Rightarrow> int \<Rightarrow> int \<Rightarrow> ('w, 'p) GRPCExecutorStarter result" where
  "NewGRPCExecutorStarter dial call setup mk p schedulerAddr port dropletId =
    (case registerDroplet dial call setup dropletId p schedulerAddr port of
       (Some err, p') \<Rightarrow> Inl err
     | (None, p') \<Rightarrow> Inr (mk p' dropletId))"

definition CreateListenPort :: "(string \<Rightarrow> 'l result) \<Rightarrow> int \<Rightarrow> 'l result" where
  "CreateListenPort listen port = (case listen ('':'' @ show_int port) of
     Inl err \<Rightarrow> Inl err
   | Inr lis \<Rightarrow> Inr lis)"



section \<open>Properties\<close>

definition command_ok :: "ScriptParams \<Rightarrow> bool" where
  "command_ok c = (1 \<le> sint (MaxWorkers c) \<and> 1 < sint (RunTime c) \<and>
     10 < sint (StartingRequestsPerSecond c) \<and>
     sint (StartingRequestsPerSecond c) \<le> sint (MaxRequestsPerSecond c) \<and>
     \<not> f64_less (GrowthFactor c) (Fin 1) \<and> \<not> f64_less (TimeBetweenGrowth c) (Fin tenth))"

lemma verifyCommand_None:
  "verifyCommand show_f64 (Some c) = Ret None \<longleftrightarrow> command_ok c"
  by (auto simp: verifyCommand_def command_ok_def)

text \<open>
  \<open>verifyCommand\<close> never panics on a command that is there, and accepts it exactly when there
  is at least one worker, more than one second to run, a starting rate above ten and not above
  the maximum, and neither the growth factor is below one nor the growth interval below a tenth.
\<close>

theorem verifyCommand_accepts:
  "\<exists>r. verifyCommand show_f64 (Some c) = Ret r \<and> (r = None \<longleftrightarrow>
     1 \<le> sint (MaxWorkers c) \<and> 1 < sint (RunTime c) \<and> 10 < sint (StartingRequestsPerSecond c) \<and>
     sint (StartingRequestsPerSecond c) \<le> sint (MaxRequestsPerSecond c) \<and>
     \<not> f64_less (GrowthFactor c) (Fin 1) \<and> \<not> f64_less (TimeBetweenGrowth c) (Fin tenth))"
  by (auto simp: verifyCommand_def)

lemma start_run_ticker:
  assumes "0 \<le> sint (MaxRequestsPerSecond (env_Command env))"
  shows "start_run env p = Panic ''non-positive interval for NewTicker'' \<longleftrightarrow>
      growth_interval (env_Command env) \<le> 0"
    and "0 < growth_interval (env_Command env) \<Longrightarrow> \<exists>s. start_run env p = Ret (Inr s)"
proof -
  let ?c = "env_Command env"
  obtain ws ms where "make_workers (ScriptId ?c) (env_droplet env) 0 (nat (sint (MaxWorkers ?c))) = Inr (ws, ms)"
    using make_workers_ok by blast
  moreover have "NewTicker tickTimer = Ret ()"
    by (simp add: NewTicker_def tickTimer_def millisecond_ns_def)
  ultimately show "start_run env p = Panic ''non-positive interval for NewTicker'' \<longleftrightarrow> growth_interval ?c \<le> 0"
    "0 < growth_interval ?c \<Longrightarrow> \<exists>s. start_run env p = Ret (Inr s)"
    using assms by (simp_all add: start_run_def Let_def NewTicker_def)
qed

lemma growth_interval_Fin:
  assumes "TimeBetweenGrowth c = Fin t" and "0 \<le> t" and "t < 2 ^ 33"
  shows "growth_interval c = second_ns * \<lfloor>t\<rfloor>"
proof -
  have i: "int_of_f64 (Fin t) = \<lfloor>t\<rfloor>" using assms(2,3) by (intro int_of_f64_Fin) auto
  define n where "n = \<lfloor>t\<rfloor>"
  have "0 \<le> n" "n < 8589934592" using assms(2,3) by (simp_all add: n_def floor_less_iff)
  then have "wrap64 (1000000000 * n) = 1000000000 * n" by (intro wrap64_id) simp_all
  with i assms(1) show ?thesis by (simp add: growth_interval_def second_ns_def n_def)
qed

text \<open>
  A command that passed \<open>verifyCommand\<close> with a growth interval of at least one second (and
  less than \<open>2 ^ 33\<close>) starts its run: \<open>runScript\<close> reaches its loop with one worker and one
  gatherer per requested worker and the requested rate.
\<close>

theorem verified_command_starts:
  assumes "verifyCommand show_f64 (Some (env_Command env)) = Ret None"
    and "TimeBetweenGrowth (env_Command env) = Fin t" and "1 \<le> t" and "t < 2 ^ 33"
  shows "\<exists>s. start_run env p = Ret (Inr s) \<and> main s = MSelect \<and>
    int (length (workers s)) = sint (MaxWorkers (env_Command env)) \<and>
    length (metricsList s) = length (workers s) \<and>
    requestsPerSecond s = sint (StartingRequestsPerSecond (env_Command env)) \<and>
    iterations s = requestsPerSecond s div 10"
proof -
  let ?c = "env_Command env"
  from assms(1) have ok: "command_ok ?c" by (simp add: verifyCommand_None)
  have "1 \<le> \<lfloor>t\<rfloor>" using assms(3) by (simp add: le_floor_iff)
  with assms(2-4) have "0 < growth_interval ?c"
    by (simp add: growth_interval_Fin [of ?c t] second_ns_def)
  with ok obtain s where s: "start_run env p = Ret (Inr s)"
    using start_run_ticker(2) [of env p] by (auto simp: command_ok_def)
  from s have "main s = MSelect" "requestsPerSecond s = sint (StartingRequestsPerSecond ?c)"
    "iterations s = getNumberOfIterations tickTimer (requestsPerSecond s)"
    by (auto simp: start_run_def Let_def split: if_splits sum.splits)
  moreover have "int (length (workers s)) = sint (MaxWorkers ?c)"
    using start_run_inv(7) [OF s] ok by (simp add: command_ok_def)
  moreover have "length (metricsList s) = length (workers s)"
    using start_run_inv(1) [OF s] by (simp add: wg_ok_def)
  moreover have "getNumberOfIterations tickTimer (sint (StartingRequestsPerSecond ?c)) =
      sint (StartingRequestsPerSecond ?c) div 10"
    using ok sint32_bounds(2) [of "StartingRequestsPerSecond ?c"]
    by (intro iterations_tenth) (auto simp: command_ok_def)
  ultimately show ?thesis using s by auto
qed

text \<open>
  C33. A growth interval between a tenth of a second and one second passes \<open>verifyCommand\<close>, whose
  message promises that it is allowed, but is truncated to zero seconds, and creating the growth
  ticker panics: one such command takes the executor down.
\<close>

theorem subsecond_growth_panics:
  assumes "verifyCommand show_f64 (Some (env_Command env)) = Ret None"
    and "TimeBetweenGrowth (env_Command env) = Fin t" and "t < 1"
  shows "start_run env p = Panic ''non-positive interval for NewTicker''"
proof -
  let ?c = "env_Command env"
  from assms(1,2) have "command_ok ?c" "0 \<le> t"
    by (auto simp: verifyCommand_None command_ok_def tenth_def)
  moreover from this assms(2,3) have "growth_interval ?c \<le> 0"
    by (simp add: growth_interval_Fin [of ?c t] second_ns_def)
  ultimately show ?thesis using start_run_ticker(1) [of env p] by (simp add: command_ok_def)
qed




lemma listenForHalt_state:
  "ls_halted (listenForHalt heard st) \<longleftrightarrow> ls_halted st \<or>
     (\<exists>pre mes suf. heard = pre @ Inr mes # suf \<and> Command mes = ''Halt'' \<and>
        (\<forall>x \<in> set pre. \<exists>m. x = Inr m \<and> Command m \<noteq> ''Halt''))"
proof (induction heard st rule: listenForHalt.induct)
  case (3 mes rest st)
  show ?case
  proof (cases "Command mes = ''Halt''")
    case True
    then show ?thesis by (auto intro: exI [of _ "[]"])
  next
    case False
    have "(\<exists>pre m suf. Inr mes # rest = pre @ Inr m # suf \<and> Command m = ''Halt'' \<and>
        (\<forall>x \<in> set pre. \<exists>m. x = Inr m \<and> Command m \<noteq> ''Halt'')) \<longleftrightarrow>
      (\<exists>pre m suf. rest = pre @ Inr m # suf \<and> Command m = ''Halt'' \<and>
        (\<forall>x \<in> set pre. \<exists>m. x = Inr m \<and> Command m \<noteq> ''Halt''))" (is "?L = ?R")
    proof
      assume ?L
      then obtain pre m suf where *: "Inr mes # rest = pre @ Inr m # suf" "Command m = ''Halt''"
        "\<forall>x \<in> set pre. \<exists>m. x = Inr m \<and> Command m \<noteq> ''Halt''" by blast
      with False obtain pre' where "pre = Inr mes # pre'" by (cases pre) auto
      with * show ?R by auto
    next
      assume ?R
      then obtain pre m suf where "rest = pre @ Inr m # suf" "Command m = ''Halt''"
        "\<forall>x \<in> set pre. \<exists>m. x = Inr m \<and> Command m \<noteq> ''Halt''" by blast
      with False show ?L by (intro exI [of _ "Inr mes # pre"] exI [of _ m] exI [of _ suf]) auto
    qed
    with 3 False show ?thesis by simp
  qed
qed (auto simp: append_eq_Cons_conv Cons_eq_append_conv)

text \<open>
  C31. A run that ends without error is answered with \<open>Halted\<close> exactly when the scheduler's next
  messages, all received without error, reached a \<open>Halt\<close>, and with \<open>OK\<close> otherwise. In
  particular a connection that breaks first, which also stops the run, is answered with \<open>OK\<close>
  and never returned as an error: the branch for \<open>serverErr\<close> is dead.
\<close>

theorem ExecuteCommand_final_status:
  assumes "Command cmd = ''Run''" and "ScriptParamsPtr cmd = Some c"
    and "verifyCommand show_f64 (Some c) = Ret None"
    and "LHalt \<in> set sched \<longrightarrow> ls_returned (listenForHalt heard listen_start)"
    and "RunInstructions (controller_env s c (ScriptConfig cmd)) sched (st_persister s) w = Some (Ret (None, p'))"
  shows "\<exists>replies m. ExecuteCommand show_f64 send s (Inr cmd) heard sched w =
      Some (Ret (send m, replies @ [m], p')) \<and>
    Status m = (if \<exists>pre mes suf. heard = pre @ Inr mes # suf \<and> Command mes = ''Halt'' \<and>
        (\<forall>x \<in> set pre. \<exists>m. x = Inr m \<and> Command m \<noteq> ''Halt'') then ''Halted'' else ''OK'')"
  using assms listenForHalt_state [of heard listen_start]
  by (auto simp: ExecuteCommand_def Let_def listen_start_def)

text \<open>
  A first message that is not a \<open>Run\<close>, or a \<open>Run\<close> whose parameters do not verify, starts
  nothing: the persister is untouched and exactly one message, beginning with \<open>Invalid\<close>, is sent.
\<close>

theorem ExecuteCommand_rejects:
  assumes "Command cmd \<noteq> ''Run'' \<or> verifyCommand show_f64 (ScriptParamsPtr cmd) = Ret (Some err)"
  shows "\<exists>e m. ExecuteCommand show_f64 send s (Inr cmd) heard sched w = Some (Ret (e, [m], st_persister s)) \<and>
    HasPrefix (Status m) ''Invalid''"
  using assms by (auto simp: ExecuteCommand_def Let_def)

text \<open>
  An executor that registered successfully with the InfluxDB persister is ready to persist:
  it has a client and writes to the database the scheduler named.
\<close>

theorem registered_executor_ready:
  assumes "registerDroplet dial call (SetupPersister url_Parse) dropletId f addr port = (None, f')"
  shows "ip_client f' \<noteq> None \<and>
    (\<exists>msg. call \<lparr>DropletId = word_of_int dropletId, Port = word_of_int port\<rparr> = Inr msg \<and>
       ip_database f' = InfluxDb msg)"
  using assms
  by (auto simp: registerDroplet_def SetupPersister_def Let_def split: sum.splits)



section \<open>Witnesses\<close>

theorem verified_command_starts_witness:
  "verifyCommand (\<lambda>_. '''') (Some demo_command) = Ret None \<and>
   (\<exists>s. start_run demo_env demo_persister = Ret (Inr s) \<and> main s = MSelect \<and> length (workers s) = 1 \<and>
      iterations s = 2)"
proof -
  have v: "verifyCommand (\<lambda>_. '''') (Some demo_command) = Ret None"
    by (simp add: verifyCommand_None command_ok_def demo_command_def tenth_def)
  then show ?thesis using verified_command_starts [of "\<lambda>_. ''''" demo_env 1 demo_persister] by auto
qed

definition fast_env :: "(int, InfluxPersister \<times> nat) ctl_env" where
  "fast_env = demo_env\<lparr>env_Command := demo_command\<lparr>TimeBetweenGrowth := Fin (1 / 2)\<rparr>\<rparr>"

theorem subsecond_growth_panics_witness:
  "verifyCommand (\<lambda>_. '''') (Some (env_Command fast_env)) = Ret None \<and>
   start_run fast_env demo_persister = Panic ''non-positive interval for NewTicker''"
proof -
  have v: "verifyCommand (\<lambda>_. '''') (Some (env_Command fast_env)) = Ret None"
    by (simp add: verifyCommand_None command_ok_def fast_env_def demo_command_def tenth_def)
  then show ?thesis using subsecond_growth_panics [of "\<lambda>_. ''''" fast_env "1 / 2" demo_persister]
    by (simp add: fast_env_def)
qed

definition wild_env :: "(int, InfluxPersister \<times> nat) ctl_env" where
  "wild_env = demo_env\<lparr>env_Command := demo_command\<lparr>GrowthFactor := PInf\<rparr>\<rparr>"


definition demo_starter :: "(int, InfluxPersister \<times> nat) GRPCExecutorStarter" where
  "demo_starter = \<lparr>st_persister = demo_persister, st_dropletId = 7, st_ops = demo_ops,
     st_unmarshal = (\<lambda>_. Inr []), st_show = (\<lambda>_. ''v''), st_persist = Persist demo_line demo_http\<rparr>"

definition demo_run_message :: CommandMessage where
  "demo_run_message = \<lparr>Command = ''Run'', ScriptParamsPtr = Some demo_command, ScriptConfig = ''''\<rparr>"

lemma demo_instructions:
  "\<exists>p'. RunInstructions demo_env demo_schedule demo_persister 0 = Some (Ret (None, p'))"
proof -
  obtain s b where s: "exec demo_env demo_schedule demo_start = Some s" "main s = MReturn (Inr b)"
    "crashed s = None" "pers s = demo_persister" using demo_run by (elim exE conjE)
  have st: "start_run demo_env demo_persister = Ret (Inr demo_start)"
    using demo_start_eq by (elim exE conjE)
  have c: "check_instructions demo_env 0 = Ret None"
    by (simp add: check_instructions_def Lua_eq fresh_program_def set_step_def registerStep_def
        CheckString_def NewState_def)
  have "\<exists>b' p'. sendBatchPoints (Persist demo_line demo_http) demo_persister (Some b) = Ret (None, b', p')"
    by (simp add: sendBatchPoints_def sendBatch_loop.simps Persist_def demo_persister_def Write_def
        demo_http_def Let_def)
  with s st c show ?thesis by (auto simp: RunInstructions_def)
qed

theorem ExecuteCommand_final_status_witness:
  "\<exists>replies m p'. ExecuteCommand (\<lambda>_. '''') (\<lambda>_. None) demo_starter (Inr demo_run_message)
      [Inl (Errorf ''transport is closing'')] demo_schedule 0 = Some (Ret (None, replies @ [m], p')) \<and>
    Status m = ''OK''"
proof -
  obtain p' where r: "RunInstructions demo_env demo_schedule demo_persister 0 = Some (Ret (None, p'))"
    using demo_instructions by blast
  have e: "controller_env demo_starter demo_command '''' = demo_env"
    by (simp add: controller_env_def demo_starter_def demo_env_def)
  have v: "verifyCommand (\<lambda>_. '''') (Some demo_command) = Ret None"
    by (simp add: verifyCommand_None command_ok_def demo_command_def tenth_def)
  have p: "st_persister demo_starter = demo_persister" by (simp add: demo_starter_def)
  show ?thesis
    using ExecuteCommand_final_status [of demo_run_message demo_command "\<lambda>_. ''''" demo_schedule
      "[Inl (Errorf ''transport is closing'')]" demo_starter 0 p' "\<lambda>_. None"] r e v p
    by (auto simp: demo_run_message_def Cons_eq_append_conv)
qed

theorem ExecuteCommand_rejects_witness:
  "\<exists>e m. ExecuteCommand (\<lambda>_. '''') (\<lambda>_. None) demo_starter
      (Inr (demo_run_message\<lparr>Command := ''Halt''\<rparr>)) [] [] 0 = Some (Ret (e, [m], demo_persister)) \<and>
    HasPrefix (Status m) ''Invalid''"
  using ExecuteCommand_rejects [of "demo_run_message\<lparr>Command := ''Halt''\<rparr>" "\<lambda>_. ''''" "Errorf ''''"
      "\<lambda>_. None" demo_starter "[]" "[]" 0]
  by (simp add: demo_starter_def)

theorem registered_executor_ready_witness:
  "\<exists>f'. registerDroplet (\<lambda>_. Inr ()) (\<lambda>_. Inr \<lparr>InfluxAddr = ''db:8086'', InfluxUsername = ''u'',
       InfluxPassword = ''p'', InfluxDb = ''metrics'', InfluxSsl = False\<rparr>) (SetupPersister Inr) 7
       \<lparr>ip_client = None, ip_database = ''''\<rparr> ''localhost:50045'' 50053 = (None, f') \<and>
     ip_client f' \<noteq> None \<and> ip_database f' = ''metrics''"
proof -
  let ?call = "\<lambda>_ :: RegisterExecutorReq. Inr \<lparr>InfluxAddr = ''db:8086'', InfluxUsername = ''u'',
       InfluxPassword = ''p'', InfluxDb = ''metrics'', InfluxSsl = False\<rparr> :: RegisterExecutorResp result"
  obtain f' where f: "registerDroplet (\<lambda>_. Inr ()) ?call (SetupPersister Inr) 7
       \<lparr>ip_client = None, ip_database = ''''\<rparr> ''localhost:50045'' 50053 = (None, f')"
    by (simp add: registerDroplet_def SetupPersister_def Let_def)
  from registered_executor_ready [OF f] f show ?thesis by auto
qed

end
