(* ===== verification/SchedulerServer.thy ===== *)
theory SchedulerServer
  imports Executors LaunchProps Listener
begin

text \<open>
  The scheduler's service, \<open>scheduler/server.go\<close>: registration of executors and the load test
  handler, which composes the launch machine of \<open>SchedulerDB\<close> with the operations of
  \<open>Executors\<close>. What the goroutines and the \<open>select\<close> statements do is given by a schedule; a
  schedule that is not possible, or does not run the handler to its end, gives \<open>None\<close>.
\<close>

section \<open>Registration\<close>

definition RegisterExecutor ::
  "'c cloud_ops \<Rightarrow> Config \<Rightarrow> RegisterExecutorReq \<Rightarrow> 'c launch \<Rightarrow>
   RegisterExecutorResp \<times> register_outcome \<times> 'c launch" where
  "RegisterExecutor cloud cfg req s =
    (let resp = \<lparr>InfluxAddr = cfg_InfluxAddr cfg, InfluxUsername = cfg_InfluxUsername cfg,
           InfluxPassword = cfg_InfluxPassword cfg, InfluxDb = cfg_InfluxDBName cfg,
           InfluxSsl = cfg_InfluxSSL cfg\<rparr> in
     (resp, RegisterExecutorUp cloud (sint (DropletId req)) (sint (Port req)) s))"


section \<open>Checking a request\<close>

definition verifyScript ::
  "'w engine_ops \<Rightarrow> (string \<Rightarrow> (string \<times> gval) list result) \<Rightarrow> (gval \<Rightarrow> string) \<Rightarrow> LoadTestReq \<Rightarrow> 'w \<Rightarrow> errorv go" where
  "verifyScript ops unmarshal sh req w =
    (case Lua ops nullMetric_report () (req_Script req) w of
       Panic m \<Rightarrow> Panic m
     | Ret (_, Some err) \<Rightarrow> Ret (Some err)
     | Ret (_, None) \<Rightarrow>
         if req_ScriptConfig req \<noteq> '''' then
           (case unmarshal (req_ScriptConfig req) of
              Inl err \<Rightarrow> Ret (Some err)
            | Inr cfg \<Rightarrow> Ret (VerifyConfig sh cfg))
         else Ret None)"

definition needExecutors :: "Config \<Rightarrow> LoadTestReq \<Rightarrow> int" where
  "needExecutors cfg req = int_of_f64 (f64_ceil (f64_div
     (f64_of_int (sint (req_MaxRequestsPerSecond req))) (f64_of_int (MaxExecPSPerExecutor cfg))))"

definition too_slow :: "int \<Rightarrow> LoadTestReq \<Rightarrow> gerror" where
  "too_slow need req = Errorf (''You need more than '' @ show_int (wrap64 (need * 11)) @
     '' starting requests per second to deal with '' @ show_int (sint (req_MaxRequestsPerSecond req)) @
     '' max request per second'')"


section \<open>Answers\<close>

definition answerPreparing :: "'x net_ops \<Rightarrow> int \<Rightarrow> 'x \<Rightarrow> errorv \<times> LoadTestResp list \<times> 'x" where
  "answerPreparing net n x = (let m = \<lparr>Phase = Some (Preparing (word_of_int n))\<rparr> in
     case n_reply net m x of (err, x') \<Rightarrow> (err, [m], x'))"

definition answerStarted :: "'x net_ops \<Rightarrow> 'x \<Rightarrow> LoadTestResp list \<times> 'x" where
  "answerStarted net x = (let m = \<lparr>Phase = Some Started\<rparr> in ([m], snd (n_reply net m x)))"

definition answerFinished :: "'x net_ops \<Rightarrow> 'x \<Rightarrow> LoadTestResp list \<times> 'x" where
  "answerFinished net x = (let m = \<lparr>Phase = Some Finished\<rparr> in ([m], snd (n_reply net m x)))"

definition answerErrored :: "'x net_ops \<Rightarrow> gerror \<Rightarrow> 'x \<Rightarrow> LoadTestResp list \<times> 'x" where
  "answerErrored net e x = (let m = \<lparr>Phase = Some (Errored (Error e))\<rparr> in ([m], snd (n_reply net m x)))"


section \<open>The load test handler\<close>

text \<open>
  The schedule: the interleaving of the launch, order and case for the command, for the waiting
  and for the killing, and whether the last \<open>select\<close> takes the end of the context.
\<close>

record load_sched =
  sc_launch :: "launch_label list"
  sc_suffix :: string
  sc_run :: "nat list \<times> pick"
  sc_wait :: "nat list \<times> pick"
  sc_ctx :: bool
  sc_kill :: "nat list \<times> pick"

record ('c, 'x) served =
  sv_err :: errorv
  sv_sent :: "LoadTestResp list"
  sv_cloud :: 'c
  sv_net :: 'x

text \<open>From the launched executors on; the deferred \<open>killall\<close> is the last step of every path.\<close>

definition run_executors ::
  "'c cloud_ops \<Rightarrow> 'x net_ops \<Rightarrow> Config \<Rightarrow> LoadTestReq \<Rightarrow> load_sched \<Rightarrow> executor list \<Rightarrow> 'c \<Rightarrow> 'x \<Rightarrow>
   ('c, 'x) served go option" where
  "run_executors cloud net cfg req sc es c x =
    (case executeCommand net (req_Url req) (req_Script req) (req_ScriptName req) (req_RunTime req)
        (word_of_int (MaxWorkerPerExecutor cfg)) (req_GrowthFactor req) (req_TimeBetweenGrowth req)
        (req_StartingRequestsPerSecond req) (req_MaxRequestsPerSecond req) (req_ScriptConfig req)
        (fst (sc_run sc)) (snd (sc_run sc)) es x of
       None \<Rightarrow> None
     | Some (Panic m) \<Rightarrow> Some (Panic m)
     | Some (Ret (err, es1, x1)) \<Rightarrow>
         let finish = (\<lambda>msgs x'. case killall cloud (fst (sc_kill sc)) (snd (sc_kill sc)) es1 c of
               None \<Rightarrow> None
             | Some (Panic m) \<Rightarrow> Some (Panic m)
             | Some (Ret (kerr, _, c')) \<Rightarrow>
                 Some (Ret \<lparr>sv_err = None, sv_sent = msgs, sv_cloud = c', sv_net = x'\<rparr>)) in
         (case err of
            Some e \<Rightarrow> (case answerErrored net e x1 of (msgs, x2) \<Rightarrow> finish msgs x2)
          | None \<Rightarrow>
              (case answerStarted net x1 of (m1, x2) \<Rightarrow>
                 if sc_ctx sc then
                   (if n_done net x2 = None then None
                    else case answerErrored net (Errorf ''forcing destruction of executors'') x2 of
                      (m2, x3) \<Rightarrow> finish (m1 @ m2) x3)
                 else (case waitCompletion net (fst (sc_wait sc)) (snd (sc_wait sc)) es1 x2 of
                     None \<Rightarrow> None
                   | Some (Panic m) \<Rightarrow> Some (Panic m)
                   | Some (Ret (Some e, _, x3)) \<Rightarrow>
                       (case answerErrored net e x3 of (m2, x4) \<Rightarrow> finish (m1 @ m2) x4)
                   | Some (Ret (None, _, x3)) \<Rightarrow>
                       (case answerFinished net x3 of (m2, x4) \<Rightarrow> finish (m1 @ m2) x4)))))"

definition LoadTest ::
  "'w engine_ops \<Rightarrow> (string \<Rightarrow> (string \<times> gval) list result) \<Rightarrow> (gval \<Rightarrow> string) \<Rightarrow>
   'c cloud_ops \<Rightarrow> 'x net_ops \<Rightarrow> Config \<Rightarrow> LoadTestReq \<Rightarrow> load_sched \<Rightarrow> (int \<rightharpoonup> int list) \<Rightarrow>
   'w \<Rightarrow> 'c \<Rightarrow> 'x \<Rightarrow> ('c, 'x) served go option" where
  "LoadTest ops unmarshal sh cloud net cfg req sc wait w c x =
    (let failed = (\<lambda>e msgs c' x'. Some (Ret \<lparr>sv_err = Some e, sv_sent = msgs, sv_cloud = c', sv_net = x'\<rparr>)) in
     case verifyScript ops unmarshal sh req w of
       Panic m \<Rightarrow> Some (Panic m)
     | Ret (Some err) \<Rightarrow> failed err [] c x
     | Ret None \<Rightarrow>
         let need = needExecutors cfg req in
         (case quot32 (req_StartingRequestsPerSecond req) (word_of_int need) of
            Panic m \<Rightarrow> Some (Panic m)
          | Ret q \<Rightarrow>
              if sint q \<le> 10 then failed (too_slow need req) [] c x
              else (case answerPreparing net need x of
                (Some err, msgs, x1) \<Rightarrow> failed err msgs c x1
              | (None, msgs, x1) \<Rightarrow>
                  if need < 0 then Some (Panic ''makechan: size out of range'')
                  else (case launch_exec cloud cfg (sc_suffix sc) (sc_launch sc)
                        (LaunchExecutors_start (nat need) wait c) of
                      None \<Rightarrow> None
                    | Some s \<Rightarrow>
                        if la_crash s then Some (Panic ''runtime error: invalid memory address or nil pointer dereference'')
                        else (case la_main s of
                            MLoop _ \<Rightarrow> None
                          | MRet (Inl err) \<Rightarrow> failed err msgs (la_cloud s) x1
                          | MRet (Inr es) \<Rightarrow>
                              (case run_executors cloud net cfg req sc es (la_cloud s) x1 of
                                 None \<Rightarrow> None
                               | Some (Panic m) \<Rightarrow> Some (Panic m)
                               | Some (Ret sv) \<Rightarrow> Some (Ret (sv\<lparr>sv_sent := msgs @ sv_sent sv\<rparr>))))))))"

end
