(* ===== verification/ServerProps.thy ===== *)
theory ServerProps
  imports SchedulerServer
begin

text \<open>
  What the load test handler promises: how many executors it asks for and that the commands it
  dispatches are within the limits the executors check, the order of the phases it streams, that
  it destroys every executor it launched, and when it panics.
\<close>

section \<open>The number of executors\<close>

abbreviation max_rate :: "LoadTestReq \<Rightarrow> int" where
  "max_rate req \<equiv> sint (req_MaxRequestsPerSecond req)"

lemma needExecutors_ceil:
  assumes "0 < max_rate req" and "0 < MaxExecPSPerExecutor cfg" and "MaxExecPSPerExecutor cfg < 2 ^ 31"
  shows "needExecutors cfg req = (max_rate req + MaxExecPSPerExecutor cfg - 1) div MaxExecPSPerExecutor cfg"
  unfolding needExecutors_def
  by (rule ceil_div_f64 [OF assms(1) sint32_bounds(2) assms(2,3)])

lemma ceil_div_bounds:
  assumes "0 < m" and "0 < (p :: int)"
  shows "0 < (m + p - 1) div p" and "(m + p - 1) div p \<le> m" and "m \<le> (m + p - 1) div p * p"
    and "(m + p - 1) div p * p \<le> m + p - 1"
proof -
  let ?n = "(m + p - 1) div p"
  have "(m + p - 1) mod p < p" "0 \<le> (m + p - 1) mod p" using assms by simp_all
  moreover have "?n * p + (m + p - 1) mod p = m + p - 1" by simp
  ultimately show "m \<le> ?n * p" "?n * p \<le> m + p - 1" by linarith+
  have "1 \<le> ?n" using assms zdiv_mono1 [of p "m + p - 1" p] by simp
  then show "0 < ?n" by simp
  have "m + p - 1 \<le> m * p"
  proof -
    have "0 \<le> (m - 1) * (p - 1)" using assms by (intro mult_nonneg_nonneg) simp_all
    then show ?thesis by (simp add: algebra_simps)
  qed
  then show "?n \<le> m" using assms zdiv_mono1 [of "m + p - 1" "m * p" p] by simp
qed

lemma sint_word_of_nat:
  assumes "0 < n" and "n < 2 ^ 31"
  shows "sint (word_of_nat (nat n) :: int32) = n"
proof -
  have "(word_of_nat (nat n) :: int32) = int32_of n"
    using assms by (simp add: int32_of_def of_nat_nat)
  with sint_int32_of [of n] assms show ?thesis by simp
qed

lemma quot32_Ret:
  assumes "quot32 a b = Ret q" and "0 < sint b" and "10 < sint q"
  shows "0 < sint a \<and> sint q = sint a div sint b"
proof (cases "0 \<le> sint a")
  case True
  with quot32_nonneg [OF True assms(2)] assms(1) have "sint q = sint a div sint b" by auto
  moreover from this assms(3) have "sint a \<noteq> 0" by auto
  ultimately show ?thesis using True by linarith
next
  case False
  have "sint a sdiv sint b = - (- sint a div sint b)"
    using False assms(2) by (simp add: signed_divide_int_def sgn_if)
  moreover have "0 \<le> - sint a div sint b" using False assms(2) by (simp add: pos_imp_zdiv_nonneg_iff)
  moreover have "- sint a div sint b \<le> - sint a"
    using False assms(2) zdiv_mono2 [of "- sint a" 1 "sint b"] by simp
  ultimately have "sint (int32_of (sint a sdiv sint b)) = sint a sdiv sint b" "sint a sdiv sint b \<le> 0"
    using sint32_bounds(1) [of a] by (auto intro: sint_int32_of)
  moreover have "q = int32_of (sint a sdiv sint b)"
    using assms(1) by (simp add: quot32_def int32_of_def split: if_splits)
  ultimately show ?thesis using assms(3) by simp
qed

lemma dispatched_ok:
  assumes limits: "0 < MaxExecPSPerExecutor cfg" "MaxExecPSPerExecutor cfg < 2 ^ 31"
      "1 \<le> MaxWorkerPerExecutor cfg" "MaxWorkerPerExecutor cfg < 2 ^ 31"
    and request: "0 < max_rate req" "sint (req_StartingRequestsPerSecond req) \<le> max_rate req"
      "1 < sint (req_RunTime req)" "\<not> f64_less (req_GrowthFactor req) (Fin 1)"
      "\<not> f64_less (req_TimeBetweenGrowth req) (Fin tenth)"
    and passes: "quot32 (req_StartingRequestsPerSecond req) (word_of_int (needExecutors cfg req)) = Ret q" "10 < sint q"
  shows "\<exists>m c. run_message (nat (needExecutors cfg req)) (req_Url req) (req_Script req) (req_ScriptName req)
        (req_RunTime req) (word_of_int (MaxWorkerPerExecutor cfg)) (req_GrowthFactor req)
        (req_TimeBetweenGrowth req) (req_StartingRequestsPerSecond req) (req_MaxRequestsPerSecond req)
        (req_ScriptConfig req) = Ret m \<and>
      ScriptParamsPtr m = Some c \<and> verifyCommand sh (Some c) = Ret None \<and>
      sint (MaxRequestsPerSecond c) \<le> MaxExecPSPerExecutor cfg \<and>
      needExecutors cfg req * sint (MaxRequestsPerSecond c) \<le> max_rate req \<and>
      max_rate req \<le> needExecutors cfg req * MaxExecPSPerExecutor cfg \<and>
      (needExecutors cfg req - 1) * MaxExecPSPerExecutor cfg < max_rate req"
proof -
  define n where "n = needExecutors cfg req"
  define p where "p = MaxExecPSPerExecutor cfg"
  have n: "n = (max_rate req + p - 1) div p"
    unfolding n_def p_def using limits request by (intro needExecutors_ceil) simp_all
  have nb: "0 < n" "n \<le> max_rate req" "max_rate req \<le> n * p"
    using ceil_div_bounds [of "max_rate req" p] request limits by (simp_all add: n p_def)
  have n31: "n < 2 ^ 31" using nb(2) sint32_bounds(2) [of "req_MaxRequestsPerSecond req"] by linarith
  have wn: "sint (word_of_nat (nat n) :: int32) = n" using nb n31 by (intro sint_word_of_nat) simp_all
  have weq: "(word_of_int n :: int32) = word_of_nat (nat n)"
    using nb(1) by (simp add: of_nat_nat)
  have st: "0 < sint (req_StartingRequestsPerSecond req) \<and> sint q = sint (req_StartingRequestsPerSecond req) div n"
    using quot32_Ret [of "req_StartingRequestsPerSecond req" "word_of_nat (nat n)" q] passes wn nb weq
    by (simp add: n_def)
  obtain mq where mq: "quot32 (req_MaxRequestsPerSecond req) (word_of_nat (nat n)) = Ret mq" "sint mq = max_rate req div n"
    using quot32_nonneg [of "req_MaxRequestsPerSecond req" "word_of_nat (nat n)"] wn nb request by auto
  have le: "sint q \<le> sint mq" using st mq(2) request(2) nb(1) by (simp add: zdiv_mono1)
  have workers: "sint (word_of_int (MaxWorkerPerExecutor cfg) :: int32) = MaxWorkerPerExecutor cfg"
    using sint_int32_of [of "MaxWorkerPerExecutor cfg"] limits by (simp add: int32_of_def)
  have "max_rate req div n \<le> n * p div n" using nb by (intro zdiv_mono1) simp_all
  then have cap: "sint mq \<le> p" using nb(1) mq(2) by simp
  have total: "n * sint mq \<le> max_rate req" 
    unfolding mq(2)
    using nb(1) minus_mod_eq_mult_div [of "max_rate req" n] pos_mod_sign [of n "max_rate req"] by linarith
  have "n * p \<le> max_rate req + p - 1"
    using ceil_div_bounds(4) [of "max_rate req" p] request limits by (simp add: n p_def)
  then have least: "(n - 1) * p < max_rate req" by (simp add: algebra_simps)
  from st mq le passes workers request limits cap total nb(3) least show ?thesis
    by (fold n_def p_def) (simp add: run_message_def weq [symmetric] n_def [symmetric] verifyCommand_None command_ok_def)
qed



section \<open>The stream of phases\<close>

definition phase_stream :: "int \<Rightarrow> errorv \<Rightarrow> LoadTestResp list \<Rightarrow> bool" where
  "phase_stream need err msgs = (let ps = map Phase msgs; prep = Some (Preparing (word_of_int need)) in
     case err of
       Some _ \<Rightarrow> ps = [] \<or> ps = [prep]
     | None \<Rightarrow> (\<exists>e. ps = [prep, Some (Errored e)]) \<or> ps = [prep, Some Started, Some Finished] \<or>
         (\<exists>e. ps = [prep, Some Started, Some (Errored e)]))"

lemma run_executors_phases:
  assumes "run_executors cloud net cfg req sc es c x = Some (Ret sv)"
  shows "sv_err sv = None \<and>
    ((\<exists>e. map Phase (sv_sent sv) = [Some (Errored e)]) \<or> map Phase (sv_sent sv) = [Some Started, Some Finished] \<or>
     (\<exists>e. map Phase (sv_sent sv) = [Some Started, Some (Errored e)]))"
  using assms
  by (auto simp: run_executors_def answerErrored_def answerStarted_def answerFinished_def Let_def
      split: option.splits go.splits if_splits prod.splits)

lemma LoadTest_cases:
  assumes "LoadTest ops unmarshal sh cloud net cfg req sc wait w c x = Some (Ret sv)"
  shows "(sv_err sv \<noteq> None \<and> (sv_sent sv = [] \<or> sv_sent sv = [\<lparr>Phase = Some (Preparing (word_of_int (needExecutors cfg req)))\<rparr>])) \<or>
    (\<exists>s es sv' x1. launch_exec cloud cfg (sc_suffix sc) (sc_launch sc)
         (LaunchExecutors_start (nat (needExecutors cfg req)) wait c) = Some s \<and>
       la_main s = MRet (Inr es) \<and> run_executors cloud net cfg req sc es (la_cloud s) x1 = Some (Ret sv') \<and>
       sv = sv'\<lparr>sv_sent := \<lparr>Phase = Some (Preparing (word_of_int (needExecutors cfg req)))\<rparr> # sv_sent sv'\<rparr>)"
  using assms
  by (simp add: LoadTest_def answerPreparing_def Let_def
      split: option.splits go.splits if_splits prod.splits launch_main.splits sum.splits) auto

text \<open>
  C13. The client sees a well-formed stream: a request that fails before or while the droplets are
  launched ends with an error after at most one \<open>Preparing\<close> message; every other one gets
  \<open>Preparing\<close> with the number of executors, then either an error, or \<open>Started\<close> followed by
  \<open>Finished\<close> or by an error, and nothing after that.
\<close>

theorem LoadTest_phase_protocol:
  assumes "LoadTest ops unmarshal sh cloud net cfg req sc wait w c x = Some (Ret sv)"
  shows "phase_stream (needExecutors cfg req) (sv_err sv) (sv_sent sv)"
proof -
  let ?prep = "\<lparr>Phase = Some (Preparing (word_of_int (needExecutors cfg req)))\<rparr> :: LoadTestResp"
  from LoadTest_cases [OF assms] consider
    (early) "sv_err sv \<noteq> None" "sv_sent sv = [] \<or> sv_sent sv = [?prep]"
  | (ran) es sv' c1 x1 where "run_executors cloud net cfg req sc es c1 x1 = Some (Ret sv')"
      "sv = sv'\<lparr>sv_sent := ?prep # sv_sent sv'\<rparr>" by blast
  then show ?thesis
  proof cases
    case early
    then show ?thesis by (auto simp: phase_stream_def)
  next
    case ran
    from run_executors_phases [OF ran(1)] ran(2) show ?thesis by (auto simp: phase_stream_def)
  qed
qed


section \<open>Destroying the executors\<close>

lemma dial_loop_keeps:
  assumes "dial_loop net url e x = Some r"
  shows "ex_droplet (fst (snd r)) = ex_droplet e"
proof (rule dial_loop.raw_induct [of "\<lambda>net url e x r. ex_droplet (fst (snd r)) = ex_droplet e"
      "(((net, url), e), x)" r, unfolded prod.case, OF _ assms])
  fix dl :: "'a net_ops \<Rightarrow> string \<Rightarrow> executor \<Rightarrow> 'a \<Rightarrow> (errorv \<times> executor \<times> 'a) option"
    and net url e x r
  assume IH: "\<And>net url e x r. dl net url e x = Some r \<Longrightarrow> ex_droplet (fst (snd r)) = ex_droplet e"
    and "(if ex_client e then Some (None, e, x)
     else case n_done net x of
       Some err \<Rightarrow> Some (Some err, e, x)
     | None \<Rightarrow> (case n_dial net url x of
         (Some err, x') \<Rightarrow>
           if err = ErrClientConnTimeout then dl net url e x' else Some (Some err, e, x')
       | (None, x') \<Rightarrow> dl net url (e\<lparr>ex_client := True\<rparr>) x')) = Some r"
  then show "ex_droplet (fst (snd r)) = ex_droplet e"
    by (auto split: if_splits option.splits prod.splits dest: IH)
qed

lemma run_task_keeps:
  "run_task net msg e x = Some (Ret (err, e', x')) \<Longrightarrow> ex_droplet e' = ex_droplet e"
  by (auto simp: run_task_def waitTilAlive_def Let_def dest!: dial_loop_keeps
      split: option.splits prod.splits if_splits go.splits)

lemma run_tasks_keep:
  assumes "\<And>e x err e' x'. fn e x = Some (Ret (err, e', x')) \<Longrightarrow> keep e' = keep e"
    and "run_tasks fn ord es x = Some (Ret (outs, es', x'))" and "\<forall>i \<in> set ord. i < length es"
  shows "map keep es' = map keep es"
  using assms(2,3)
proof (induction ord arbitrary: es x outs)
  case (Cons i ord)
  then obtain err e' x1 outs1 where t: "fn (es ! i) x = Some (Ret (err, e', x1))"
    "run_tasks fn ord (es[i := e']) x1 = Some (Ret (outs1, es', x'))"
    by (auto split: option.splits go.splits)
  from Cons.IH [OF t(2)] Cons.prems(2) assms(1) [OF t(1)] show ?case
    by (simp add: map_update list_update_same_conv)
qed auto

lemma each_keep:
  assumes "\<And>e x err e' x'. fn e x = Some (Ret (err, e', x')) \<Longrightarrow> keep e' = keep e"
    and "each ctx fn ord pk es x = Some (Ret (r, es', x'))"
  shows "map keep es' = map keep es"
proof -
  from assms(2) have "is_order ord (length es)" by (simp add: each_def split: if_splits)
  with each_cases [OF assms(2)] is_order_props(1) run_tasks_keep [of fn keep, OF assms(1)] show ?thesis
    by fastforce
qed

lemma kill_tasks_ask:
  assumes "\<And>i c. i \<in> asked (snd (c_Delete cloud i c)) \<and> asked c \<subseteq> asked (snd (c_Delete cloud i c))"
    and "run_tasks (kill_task cloud) ord es c = Some (Ret (outs, es', c'))"
  shows "(\<forall>i \<in> set ord. dr_ID (ex_droplet (es ! i)) \<in> asked c') \<and> asked c \<subseteq> asked c'"
  using assms(2)
proof (induction ord arbitrary: es c outs)
  case (Cons i ord)
  obtain err c1 where d: "c_Delete cloud (dr_ID (ex_droplet (es ! i))) c = (err, c1)" by fastforce
  then have "kill_task cloud (es ! i) c = Some (Ret (err, es ! i, c1))" by (simp add: kill_task_def)
  with Cons.prems d obtain outs1 where t: "c_Delete cloud (dr_ID (ex_droplet (es ! i))) c = (err, c1)"
    "run_tasks (kill_task cloud) ord es c1 = Some (Ret (outs1, es', c'))"
    by (auto split: option.splits go.splits)
  from Cons.IH [OF t(2)] assms(1) [of "dr_ID (ex_droplet (es ! i))" c] t(1) show ?case by auto
qed auto

lemma killall_asks:
  assumes "\<And>i c. i \<in> asked (snd (c_Delete cloud i c)) \<and> asked c \<subseteq> asked (snd (c_Delete cloud i c))"
    and "killall cloud ord pk es c = Some (Ret (r, es', c'))" and "e \<in> set es"
  shows "dr_ID (ex_droplet e) \<in> asked c'"
proof -
  obtain outs where run: "run_tasks (kill_task cloud) ord es c = Some (Ret (outs, es', c'))"
    using each_cases [OF assms(2) [unfolded killall_def]] by blast
  from assms(2) have "is_order ord (length es)" by (simp add: killall_def each_def split: if_splits)
  with kill_tasks_ask [of asked, OF assms(1) run] is_order_props(1) assms(3) show ?thesis
    by (auto simp: in_set_conv_nth)
qed

lemma run_executors_kills:
  assumes "run_executors cloud net cfg req sc es c x = Some (Ret sv)"
  shows "\<exists>es1 r es2. map ex_droplet es1 = map ex_droplet es \<and>
    killall cloud (fst (sc_kill sc)) (snd (sc_kill sc)) es1 c = Some (Ret (r, es2, sv_cloud sv))"
proof -
  from assms obtain err es1 x1 where cmd: "executeCommand net (req_Url req) (req_Script req) (req_ScriptName req)
      (req_RunTime req) (word_of_int (MaxWorkerPerExecutor cfg)) (req_GrowthFactor req) (req_TimeBetweenGrowth req)
      (req_StartingRequestsPerSecond req) (req_MaxRequestsPerSecond req) (req_ScriptConfig req)
      (fst (sc_run sc)) (snd (sc_run sc)) es x = Some (Ret (err, es1, x1))"
    by (auto simp: run_executors_def split: option.splits go.splits)
  then have "map ex_droplet es1 = map ex_droplet es"
    unfolding executeCommand_def by (intro each_keep [OF run_task_keeps])
  moreover have "\<exists>r es2. killall cloud (fst (sc_kill sc)) (snd (sc_kill sc)) es1 c = Some (Ret (r, es2, sv_cloud sv))"
    using assms cmd
    by (auto simp: run_executors_def Let_def split: option.splits go.splits if_splits prod.splits)
  ultimately show ?thesis by blast
qed



section \<open>When the handler panics\<close>

lemma need_zero:
  assumes "MaxExecPSPerExecutor cfg = 0 \<or> max_rate req = 0 \<and> 0 < MaxExecPSPerExecutor cfg \<and>
    MaxExecPSPerExecutor cfg < 2 ^ 31"
  shows "(word_of_int (needExecutors cfg req) :: int32) = 0"
proof -
  have z: "f64_of_int 0 = Fin 0" by (simp add: f64_of_int_exact)
  show ?thesis
  proof (cases "MaxExecPSPerExecutor cfg = 0")
    case True
    have "int_of_f64 (f64_ceil (f64_div v (Fin 0))) = indefinite_int" for v by (cases v) simp_all
    with True z show ?thesis by (simp add: needExecutors_def indefinite_int_def)
  next
    case False
    with assms have "f64_of_int (MaxExecPSPerExecutor cfg) = Fin (of_int (MaxExecPSPerExecutor cfg))"
      by (intro f64_of_int_exact) simp_all
    with False assms z show ?thesis
      by (simp add: needExecutors_def round_f64_def round53_def int_of_f64.simps(1) trunc_rat_def)
  qed
qed

lemma zero_need_panics:
  assumes "verifyScript ops unmarshal sh req w = Ret None"
    and "MaxExecPSPerExecutor cfg = 0 \<or> sint (req_MaxRequestsPerSecond req) = 0 \<and>
      0 < MaxExecPSPerExecutor cfg \<and> MaxExecPSPerExecutor cfg < 2 ^ 31"
  shows "LoadTest ops unmarshal sh cloud net cfg req sc wait w c x =
    Some (Panic ''runtime error: integer divide by zero'')"
  using assms(1) need_zero [OF assms(2)]
  by (simp add: LoadTest_def Let_def quot32_def div_by_zero_def)

text \<open>
  A valid script with a maximum rate of zero, or any valid script when the scheduler is
  configured with no rate per executor, makes the handler divide by zero: the number of executors
  is zero, or the conversion of an infinite or undefined quotient, whose low 32 bits are zero.
\<close>

theorem LoadTest_zero_rate_panics:
  assumes "verifyScript ops unmarshal sh req w = Ret None"
    and "MaxExecPSPerExecutor cfg = 0 \<or> sint (req_MaxRequestsPerSecond req) = 0 \<and>
      0 < MaxExecPSPerExecutor cfg \<and> MaxExecPSPerExecutor cfg < 2 ^ 31"
  shows "LoadTest ops unmarshal sh cloud net cfg req sc wait w c x =
    Some (Panic ''runtime error: integer divide by zero'')"
  using assms by (rule zero_need_panics)


section \<open>A load test on one executor\<close>

definition demo_req :: LoadTestReq where
  "demo_req = \<lparr>req_Url = ''u'', req_Script = ''two'', req_ScriptName = ''n'', req_RunTime = 10,
     req_GrowthFactor = Fin 1, req_TimeBetweenGrowth = Fin 1, req_StartingRequestsPerSecond = 60,
     req_MaxRequestsPerSecond = 100, req_ScriptConfig = ''''\<rparr>"

definition demo_sched :: load_sched where
  "demo_sched = \<lparr>sc_launch = [GCreate 0, Register 1 50053, GRecv 0, GGet 0, NRecv, GRemove 0, GClose, NClosed],
     sc_suffix = ''x'', sc_run = ([0], PickChan 1), sc_wait = ([0], PickChan 1), sc_ctx = False,
     sc_kill = ([0], PickChan 1)\<rparr>"

lemma demo_simps [simp]:
  "req_Url demo_req = ''u''" "req_Script demo_req = ''two''" "req_ScriptName demo_req = ''n''"
  "req_RunTime demo_req = 10" "req_GrowthFactor demo_req = Fin 1" "req_TimeBetweenGrowth demo_req = Fin 1"
  "req_StartingRequestsPerSecond demo_req = 60" "req_MaxRequestsPerSecond demo_req = 100"
  "req_ScriptConfig demo_req = ''''" "MaxExecPSPerExecutor demo_cfg = 100" "MaxWorkerPerExecutor demo_cfg = 500"
  "n_done demo_net x = (if 10 \<le> x then Some (ContextErr ''context deadline exceeded'') else None)"
  "n_dial demo_net url x = (if x < 2 then Some ErrClientConnTimeout else None, x + 1)"
  "n_open demo_net e x = (None, x)" "n_send demo_net e m x = (None, x)"
  "n_recv demo_net e x = (Inr \<lparr>Status = ''OK''\<rparr>, x)" "n_reply demo_net r x = (None, x)"
  "c_Delete demo_cloud i c = (None, (filter (\<lambda>d. dr_ID d \<noteq> i) (fst c), snd c @ [i]))"
  by (simp_all add: demo_req_def demo_cfg_def demo_net_def demo_cloud_def)

lemma demo_script_verifies:
  assumes "req_Script req = ''two''" and "req_ScriptConfig req = ''''"
  shows "verifyScript demo_ops (\<lambda>_. Inr []) (\<lambda>_. '''') req 0 = Ret None"
  using assms by (simp add: verifyScript_def Lua_eq fresh_program_def set_step_def registerStep_def
      CheckString_def NewState_def)

lemma demo_need: "needExecutors demo_cfg demo_req = 1"
  by (subst needExecutors_ceil) simp_all

lemma demo_alive: "\<not> ex_client e \<Longrightarrow> waitTilAlive demo_net e 0 = Some (None, e\<lparr>ex_client := True\<rparr>, 3)"
  by (simp add: waitTilAlive_def dial_loop.simps [of demo_net _ e] dial_loop.simps [of demo_net _ "e\<lparr>ex_client := True\<rparr>"])


lemma demo_served:
  "\<exists>sv. LoadTest demo_ops (\<lambda>_. Inr []) (\<lambda>_. '''') demo_cloud demo_net demo_cfg demo_req demo_sched Map.empty 0 ([], []) 0 =
     Some (Ret sv) \<and> sv_err sv = None"
proof -
  have q: "quot32 60 1 = Ret 60" "quot32 100 1 = Ret 100" by (simp_all add: quot32_def signed_divide_int_def)
  then show ?thesis
    by (simp add: LoadTest_def demo_script_verifies demo_need demo_sched_def answerPreparing_def launch_eval
        run_executors_def executeCommand_def waitCompletion_def killall_def each_def is_order_def
        run_task_def demo_alive run_message_def wait_task_def kill_task_def select_each_def
        answerStarted_def answerFinished_def Let_def)
qed

theorem LoadTest_phase_protocol_witness:
  "\<exists>sv. LoadTest demo_ops (\<lambda>_. Inr []) (\<lambda>_. '''') demo_cloud demo_net demo_cfg demo_req demo_sched Map.empty 0 ([], []) 0 =
     Some (Ret sv) \<and> phase_stream 1 None (sv_sent sv)"
  using demo_served LoadTest_phase_protocol [of demo_ops "\<lambda>_. Inr []" "\<lambda>_. ''''" demo_cloud demo_net demo_cfg
      demo_req demo_sched Map.empty 0 "([], [])" 0] demo_need by fastforce


theorem LoadTest_zero_rate_panics_witness:
  "LoadTest demo_ops (\<lambda>_. Inr []) (\<lambda>_. '''') demo_cloud demo_net demo_cfg (demo_req\<lparr>req_MaxRequestsPerSecond := 0\<rparr>)
     demo_sched Map.empty 0 ([], []) 0 = Some (Panic ''runtime error: integer divide by zero'')"
  by (rule LoadTest_zero_rate_panics) (simp_all add: demo_script_verifies)

end
