(* ===== verification/Commands.thy ===== *)
theory Commands
  imports Flags ServerProps
begin

text \<open>
  The programs: \<open>cmd/schedulerd\<close>, \<open>cmd/schedulerctl\<close>, \<open>executor/cmd/executord\<close> and the two
  test clients, with the client of the DigitalOcean metadata service that the daemons ask who
  they are. Each program is the composition its \<open>main\<close> makes of the components; \<open>Inl\<close> is an exit
  with a fatal message.
\<close>

section \<open>The metadata client\<close>

record http_reply =
  hr_StatusCode :: int
  hr_Status :: string
  hr_Body :: string

definition maxErrMsgLen :: nat where
  "maxErrMsgLen = 128"

definition defaultPath :: string where
  "defaultPath = ''/metadata/v1/''"

text \<open>\<open>path.Join\<close>: the non-empty elements joined with slashes and cleaned of empty and dotted parts.\<close>

fun clean_parts :: "bool \<Rightarrow> string list \<Rightarrow> string list \<Rightarrow> string list" where
  "clean_parts rooted acc [] = rev acc"
| "clean_parts rooted acc (p # ps) =
    (if p = '''' \<or> p = ''.'' then clean_parts rooted acc ps
     else if p = ''..'' then
       (case acc of
          [] \<Rightarrow> clean_parts rooted (if rooted then [] else [p]) ps
        | q # qs \<Rightarrow> if q = ''..'' then clean_parts rooted (p # acc) ps else clean_parts rooted qs ps)
     else clean_parts rooted (p # acc) ps)"

fun join_slash :: "string list \<Rightarrow> string" where
  "join_slash [] = ''''"
| "join_slash [p] = p"
| "join_slash (p # ps) = p @ ''/'' @ join_slash ps"

definition path_Join :: "string list \<Rightarrow> string" where
  "path_Join elems = (let s = join_slash (filter (\<lambda>e. e \<noteq> '''') elems) in
     if s = '''' then ''''
     else let rooted = (hd s = CHR ''/''); parts = clean_parts rooted [] (split_on (CHR ''/'') s) in
       if rooted then ''/'' @ join_slash parts
       else if parts = [] then ''.'' else join_slash parts)"

definition md_resolve :: "string \<Rightarrow> string \<Rightarrow> string list \<Rightarrow> string" where
  "md_resolve baseURL basePath resource = baseURL @ path_Join (basePath # resource)"

definition md_makeError :: "http_reply \<Rightarrow> gerror" where
  "md_makeError resp =
    (let body = take maxErrMsgLen (hr_Body resp);
         text = (if maxErrMsgLen \<le> length body then take maxErrMsgLen body @ ''... (elided)''
           else if body = '''' then hr_Status resp else body) in
     Errorf (''unexpected response from metadata API, status '' @ show_int (hr_StatusCode resp) @ '': '' @ text))"

definition md_doGetURL :: "(string \<Rightarrow> http_reply result) \<Rightarrow> string \<Rightarrow> (string \<Rightarrow> 'a result) \<Rightarrow> 'a result" where
  "md_doGetURL get url decoder = (case get url of
     Inl err \<Rightarrow> Inl err
   | Inr resp \<Rightarrow> if hr_StatusCode resp \<noteq> 200 then Inl (md_makeError resp) else decoder (hr_Body resp))"

definition md_doGet :: "(string \<Rightarrow> http_reply result) \<Rightarrow> string \<Rightarrow> string \<Rightarrow> (string \<Rightarrow> 'a result) \<Rightarrow> 'a result" where
  "md_doGet get baseURL resource decoder = md_doGetURL get (md_resolve baseURL defaultPath [resource]) decoder"

definition DropletID :: "(string \<Rightarrow> int result) \<Rightarrow> (string \<Rightarrow> http_reply result) \<Rightarrow> string \<Rightarrow> int result" where
  "DropletID scan_d get baseURL = md_doGet get baseURL ''id'' scan_d"

definition md_Metadata :: "(string \<Rightarrow> 'm result) \<Rightarrow> (string \<Rightarrow> http_reply result) \<Rightarrow> string \<Rightarrow> 'm result" where
  "md_Metadata decode get baseURL = md_doGetURL get (md_resolve baseURL ''/metadata/v1.json'' []) decode"

definition Hostname :: "(string \<Rightarrow> http_reply result) \<Rightarrow> string \<Rightarrow> string result" where
  "Hostname get baseURL = md_doGet get baseURL ''hostname'' Inr"

definition UserData :: "(string \<Rightarrow> http_reply result) \<Rightarrow> string \<Rightarrow> string result" where
  "UserData get baseURL = md_doGet get baseURL ''user-data'' Inr"

definition VendorData :: "(string \<Rightarrow> http_reply result) \<Rightarrow> string \<Rightarrow> string result" where
  "VendorData get baseURL = md_doGet get baseURL ''vendor-data'' Inr"

definition Region :: "(string \<Rightarrow> http_reply result) \<Rightarrow> string \<Rightarrow> string result" where
  "Region get baseURL = md_doGet get baseURL ''region'' Inr"


section \<open>The scheduler daemon\<close>

text \<open>
  The variables of \<open>main\<close> are the cells 0 to 13 in the order they are declared. Every one is first
  defined as a command line flag with its documented default and then as an environment flag.
\<close>

definition schedulerd_flags :: "(string \<times> fval) list" where
  "schedulerd_flags =
    [(''executor.binary.filepath'', FvString ''''), (''port'', FvInt 0), (''do.token'', FvString ''''),
     (''droplet.region'', FvString ''nyc3''), (''droplet.size'', FvString ''512mb''),
     (''droplet.image'', FvString ''coreos-stable''),
     (''max.wait.executor.online'', FvDuration (120 * second_ns)), (''max.worker.per.executor'', FvInt 100),
     (''max.rps.per.executor'', FvInt 500), (''influx.addr'', FvString ''''), (''influx.username'', FvString ''''),
     (''influx.password'', FvString ''''), (''influx.db.name'', FvString ''''), (''influx.use.ssl'', FvBool False)]"

fun define_flags :: "(string \<times> fval) list \<Rightarrow> FlagSet \<times> heap \<Rightarrow> (FlagSet \<times> heap) go" where
  "define_flags [] s = Ret s"
| "define_flags ((n, v) # fs) s = go_bind (fs_New n v s) (define_flags fs)"

definition schedulerd_envflags :: "FlagSet \<times> heap \<Rightarrow> (FlagSet \<times> heap) go" where
  "schedulerd_envflags s0 =
    go_bind (envflag_StringVar 0 ''EXECUTOR_BINARY_FILEPATH'' '''' s0) (\<lambda>s.
    go_bind (envflag_IntVar 1 ''PORT'' 0 s) (\<lambda>s.
    go_bind (envflag_StringVar 2 ''DO_TOKEN'' '''' s) (\<lambda>s.
    go_bind (envflag_StringVar 3 ''DROPLET_REGION'' '''' s) (\<lambda>s.
    go_bind (envflag_StringVar 4 ''DROPLET_SIZE'' '''' s) (\<lambda>s.
    go_bind (envflag_StringVar 5 ''DROPLET_IMAGE'' '''' s) (\<lambda>s.
    go_bind (envflag_DurationVar 6 ''MAX_WAIT_EXECUTOR_ONLINE'' 0 s) (\<lambda>s.
    go_bind (envflag_IntVar 7 ''MAX_WORKER_PER_EXECUTOR'' 0 s) (\<lambda>s.
    go_bind (envflag_IntVar 8 ''MAX_RPS_PER_EXECUTOR'' 0 s) (\<lambda>s.
    go_bind (envflag_StringVar 9 ''INFLUX_ADDR'' '''' s) (\<lambda>s.
    go_bind (envflag_StringVar 10 ''INFLUX_USERNAME'' '''' s) (\<lambda>s.
    go_bind (envflag_StringVar 11 ''INFLUX_PASSWORD'' '''' s) (\<lambda>s.
    go_bind (envflag_StringVar 12 ''INFLUX_DB_NAME'' '''' s) (\<lambda>s.
    envflag_BoolVar 13 ''INFLUX_USE_SSL'' False s)))))))))))))"

definition schedulerd_options :: "text_ops \<Rightarrow> string list \<Rightarrow> string list \<Rightarrow> heap result go" where
  "schedulerd_options t env args =
    go_bind (define_flags schedulerd_flags (NewFlagSet, [])) (\<lambda>cl.
    go_bind (schedulerd_envflags (NewFlagSet, snd cl)) (\<lambda>ef.
    go_bind (envflag_Parse t env ef) (\<lambda>(err, ef', h).
      case err of
        Some e \<Rightarrow> Ret (Inl e)
      | None \<Rightarrow> (case parse_flags t args (fst cl, h) of
          (Some e, _) \<Rightarrow> Ret (Inl e)
        | (None, _, h') \<Rightarrow> Ret (Inr h')))))"

fun str_of :: "fval \<Rightarrow> string" where
  "str_of (FvString s) = s"
| "str_of _ = ''''"

fun int_of :: "fval \<Rightarrow> int" where
  "int_of (FvInt i) = i"
| "int_of (FvDuration d) = d"
| "int_of _ = 0"

definition schedulerd_config :: "heap \<Rightarrow> string \<Rightarrow> string \<Rightarrow> DropletCreateSSHKey list \<Rightarrow> Config" where
  "schedulerd_config h addr listen_addr keys = \<lparr>PullExecutorBinaryURL = ''http://'' @ addr,
     AdvertiseListenAddr = listen_addr, SSHKeyIDs = keys,
     DropletRegion = str_of (h ! 3), DropletSize = str_of (h ! 4), DropletImageSlug = str_of (h ! 5),
     MaxWaitExecutorOnline = int_of (h ! 6), MaxWorkerPerExecutor = int_of (h ! 7),
     MaxExecPSPerExecutor = int_of (h ! 8), cfg_InfluxAddr = str_of (h ! 9),
     cfg_InfluxUsername = str_of (h ! 10), cfg_InfluxPassword = str_of (h ! 11),
     cfg_InfluxDBName = str_of (h ! 12), cfg_InfluxSSL = (h ! 13 = FvBool True)\<rparr>"

text \<open>
  What the daemon asks of its host: the metadata (the IPv4 address, if any, of each interface by
  kind), the file system, listening sockets (which tell their address) and the account's keys.
\<close>

record host_ops =
  h_metadata :: "(string \<rightharpoonup> string option list) result"
  h_stat :: "string \<Rightarrow> errorv"
  h_listen :: "string \<Rightarrow> string result"
  h_keys :: "string \<Rightarrow> int list result"

definition startExecutorBinaryFileserver :: "host_ops \<Rightarrow> string \<Rightarrow> string \<Rightarrow> string result" where
  "startExecutorBinaryFileserver hst iface filepath = (case h_stat hst filepath of
     Some err \<Rightarrow> Inl err
   | None \<Rightarrow> h_listen hst (iface @ '':0''))"

definition connectToDO :: "host_ops \<Rightarrow> string \<Rightarrow> DropletCreateSSHKey list result" where
  "connectToDO hst token = (case h_keys hst token of
     Inl err \<Rightarrow> Inl err
   | Inr keys \<Rightarrow> if keys = [] then Inl (Errorf ''need at least 1 ssh key on your DO account'')
       else Inr (map (\<lambda>i. \<lparr>sk_ID = i, sk_Fingerprint = ''''\<rparr>) keys))"

definition public_interface :: "(string \<rightharpoonup> string option list) \<Rightarrow> string go" where
  "public_interface ifs = (case ifs ''public'' of
     Some (Some ip # _) \<Rightarrow> Ret ip
   | Some (None # _) \<Rightarrow> nil_deref
   | _ \<Rightarrow> Panic ''runtime error: index acc of range'')"

definition schedulerd_main ::
  "text_ops \<Rightarrow> host_ops \<Rightarrow> 'c cloud_ops \<Rightarrow> string list \<Rightarrow> string list \<Rightarrow> 'c \<Rightarrow> (Config \<times> 'c) result go" where
  "schedulerd_main t hst cloud env args c =
    go_bind (schedulerd_options t env args) (\<lambda>opts. case opts of
      Inl e \<Rightarrow> Ret (Inl e)
    | Inr h \<Rightarrow> (case h_metadata hst of
        Inl err \<Rightarrow> Ret (Inl err)
      | Inr ifs \<Rightarrow> go_bind (public_interface ifs) (\<lambda>iface.
          case startExecutorBinaryFileserver hst iface (str_of (h ! 0)) of
            Inl err \<Rightarrow> Ret (Inl err)
          | Inr addr \<Rightarrow> (case connectToDO hst (str_of (h ! 2)) of
              Inl err \<Rightarrow> Ret (Inl err)
            | Inr keys \<Rightarrow> (case h_listen hst (iface @ '':'' @ show_int (int_of (h ! 1))) of
                Inl err \<Rightarrow> Ret (Inl err)
              | Inr svcl \<Rightarrow>
                  let cfg = schedulerd_config h addr svcl keys in
                  (case NewDB cloud c of
                     (Inl err, c') \<Rightarrow> Ret (Inl err)
                   | (Inr _, c') \<Rightarrow> Ret (Inr (cfg, c'))))))))"


section \<open>The scheduler's client\<close>

definition schedulerctl_flags :: "cli_flag list" where
  "schedulerctl_flags =
    [StringFlag ''addr'' '''' '''', StringFlag ''tgt'' '''' '''', StringFlag ''script.name'' '''' '''',
     StringFlag ''script.file'' '''' '''', StringFlag ''script.config'' '''' '''',
     DurationFlag ''duration'' (60 * second_ns) '''', IntFlag ''max.exec.ps'' 100 '''',
     Float64Flag ''extra.growth.factor'' (Fin (3 / 2)) '''',
     DurationFlag ''extra.time.between.growth'' second_ns '''', IntFlag ''extra.starting.requests.ps'' 50 '''']"

definition int32_of_f64 :: "f64 \<Rightarrow> int32" where
  "int32_of_f64 x = (let i = int_of_f64 x in
     if - (2 ^ 31) \<le> i \<and> i < 2 ^ 31 then int32_of i else int32_of (- (2 ^ 31)))"

definition readFileOrStdin ::
  "text_ops \<Rightarrow> (string \<Rightarrow> string result) \<Rightarrow> string result \<Rightarrow> Context \<Rightarrow> string \<Rightarrow> string result" where
  "readFileOrStdin t readFile stdin c flagName = (let filename = GlobalString t c flagName in
     if filename = '''' \<or> filename = ''-'' then stdin else readFile filename)"

definition readFileIfExists :: "text_ops \<Rightarrow> (string \<Rightarrow> string result) \<Rightarrow> Context \<Rightarrow> string \<Rightarrow> string result" where
  "readFileIfExists t readFile c flagName = (let filename = GlobalString t c flagName in
     if filename \<noteq> '''' then readFile filename else Inr '''')"

definition schedulerctl_request :: "text_ops \<Rightarrow> Context \<Rightarrow> string \<Rightarrow> string \<Rightarrow> LoadTestReq" where
  "schedulerctl_request t c script config =
    (let rq = \<lparr>req_Url = GlobalString t c ''tgt'', req_Script = script,
          req_ScriptName = GlobalString t c ''script.name'',
          req_RunTime = int32_of_f64 (Seconds (GlobalDuration t c ''duration'')),
          req_GrowthFactor = ctx_Float64 t c ''extra.growth.factor'',
          req_TimeBetweenGrowth = Seconds (ctx_Duration t c ''extra.time.between.growth''),
          req_StartingRequestsPerSecond = int32_of (GlobalInt t c ''max.exec.ps''),
          req_MaxRequestsPerSecond = int32_of (GlobalInt t c ''max.exec.ps''),
          req_ScriptConfig = config\<rparr>;
         rq = (if req_StartingRequestsPerSecond rq = 0
           then rq\<lparr>req_StartingRequestsPerSecond := req_MaxRequestsPerSecond rq\<rparr> else rq);
         rq = (if f64_eq (req_GrowthFactor rq) (Fin 0) then rq\<lparr>req_GrowthFactor := Fin 1\<rparr> else rq)
     in if f64_eq (req_TimeBetweenGrowth rq) (Fin 0) then rq\<lparr>req_TimeBetweenGrowth := Fin 1\<rparr> else rq)"

text \<open>
  The loop over the answers; an event is what \<open>Recv\<close> returned and the time shown. A stream that has
  not ended is \<open>None\<close>.
\<close>

definition phase_line :: "LoadTestResp \<Rightarrow> string" where
  "phase_line res = (case GetPreparing (Some res) of
     Some n \<Rightarrow> ''load test is preparing '' @ show_int (sint n) @ '' workers...''
   | None \<Rightarrow> if GetStart (Some res) \<noteq> None then ''load test started!''
     else if GetFinish (Some res) \<noteq> None then ''load test finished!''
     else case GetError (Some res) of Some e \<Rightarrow> ''load test had an error: '' @ e | None \<Rightarrow> ''unexpected message'')"

fun watch :: "(string \<times> LoadTestResp result) list \<Rightarrow> (string list \<times> errorv) option" where
  "watch [] = None"
| "watch ((since, Inl err) # es) =
    (if err = IoEOF then Some ([''done''], None)
     else Some ([], Some (Errorf (''waiting for response: '' @ Error err))))"
| "watch ((since, Inr res) # es) =
    map_option (\<lambda>(ls, r). ((since @ '': '' @ phase_line res) # ls, r)) (watch es)"

definition schedulerctl_action ::
  "text_ops \<Rightarrow> (string \<Rightarrow> string result) \<Rightarrow> string result \<Rightarrow>
   (LoadTestReq \<Rightarrow> (string \<times> LoadTestResp result) list result) \<Rightarrow> Context \<Rightarrow> (string list \<times> errorv) option" where
  "schedulerctl_action t readFile stdin client c =
    (if GlobalString t c ''script.name'' = '''' then
       Some ([], Some (Errorf (''param '' @ go_quote ''script.name'' @ '' required to run script'')))
     else case readFileOrStdin t readFile stdin c ''script.file'' of
       Inl err \<Rightarrow> Some ([], Some err)
     | Inr script \<Rightarrow> (case readFileIfExists t readFile c ''script.config'' of
         Inl err \<Rightarrow> Some ([], Some err)
       | Inr config \<Rightarrow> (case client (schedulerctl_request t c script config) of
           Inl err \<Rightarrow> Some ([], Some (Errorf (''issuing load test request: '' @ Error err)))
         | Inr events \<Rightarrow> watch events)))"


section \<open>The executor daemon and the test clients\<close>

definition executord_start ::
  "int result \<Rightarrow> (string \<Rightarrow> int \<Rightarrow> int \<Rightarrow> 's result) \<Rightarrow> (string \<Rightarrow> 'l result) \<Rightarrow>
   string \<Rightarrow> int \<Rightarrow> int \<Rightarrow> ('s \<times> 'l) result" where
  "executord_start getDropletId newStarter listen schedulerAddr port dropletId =
    (case (if dropletId = - 1 then getDropletId else Inr dropletId) of
       Inl err \<Rightarrow> Inl (Errorf (''error getting droplet id '' @ Error err))
     | Inr did \<Rightarrow> (case newStarter schedulerAddr port did of
         Inl err \<Rightarrow> Inl (Errorf (''err starting grpc server '' @ Error err))
       | Inr s \<Rightarrow> (case CreateListenPort listen port of
           Inl err \<Rightarrow> Inl (Errorf (''err creating listening port '' @ Error err))
         | Inr lis \<Rightarrow> Inr (s, lis))))"

definition testServer_message :: CommandMessage where
  "testServer_message = \<lparr>Command = ''Run'', ScriptParamsPtr = Some \<lparr>Url = ''45.55.176.206'',
     Script = concat (map (\<lambda>l. l @ nl) [''step.first_step = function()'', ''    info('' @ go_quote ''hello world'' @ '')'',
        ''    get('' @ go_quote ''http://45.55.176.206'' @ '')'', ''end'']),
     ScriptId = ''1234'', RunTime = 10, MaxWorkers = 100, GrowthFactor = Fin (3 / 2), TimeBetweenGrowth = Fin 1,
     StartingRequestsPerSecond = 15, MaxRequestsPerSecond = 1000\<rparr>, ScriptConfig = ''''\<rparr>"

definition sendTestMesage ::
  "'x net_ops \<Rightarrow> executor \<Rightarrow> CommandMessage \<Rightarrow> string \<Rightarrow> 'x \<Rightarrow> StatusMessage result \<times> 'x" where
  "sendTestMesage net e message ip x0 = (case n_dial net ip x0 of
     (Some err, x1) \<Rightarrow> (Inl err, x1)
   | (None, x1) \<Rightarrow> (case n_open net e x1 of
       (Some err, x2) \<Rightarrow> (Inl err, x2)
     | (None, x2) \<Rightarrow> (case n_send net e message x2 of
         (Some err, x3) \<Rightarrow> (Inl err, x3)
       | (None, x3) \<Rightarrow> n_recv net e x3)))"


section \<open>What the programs promise\<close>

lemma fs_VarP_fresh:
  "fs_formal fs name = None \<Longrightarrow>
   fs_VarP a name v (fs, h) = Ret (fs\<lparr>fs_formal := (fs_formal fs)(name \<mapsto> a)\<rparr>, h[a := v])"
  by (simp add: fs_VarP_def fs_Var_def)

definition schedulerd_env_names :: "string list" where
  "schedulerd_env_names = [''EXECUTOR_BINARY_FILEPATH'', ''PORT'', ''DO_TOKEN'', ''DROPLET_REGION'', ''DROPLET_SIZE'',
     ''DROPLET_IMAGE'', ''MAX_WAIT_EXECUTOR_ONLINE'', ''MAX_WORKER_PER_EXECUTOR'', ''MAX_RPS_PER_EXECUTOR'',
     ''INFLUX_ADDR'', ''INFLUX_USERNAME'', ''INFLUX_PASSWORD'', ''INFLUX_DB_NAME'', ''INFLUX_USE_SSL'']"

definition schedulerd_zeros :: heap where
  "schedulerd_zeros = [FvString '''', FvInt 0, FvString '''', FvString '''', FvString '''', FvString '''',
     FvDuration 0, FvInt 0, FvInt 0, FvString '''', FvString '''', FvString '''', FvString '''', FvBool False]"

lemma schedulerd_define: "\<exists>cl. define_flags schedulerd_flags (NewFlagSet, []) = Ret (cl, map snd schedulerd_flags)"
  by (simp add: schedulerd_flags_def fs_New_def fs_Var_def NewFlagSet_def)

lemma schedulerd_envs:
  "\<exists>ef. schedulerd_envflags (NewFlagSet, map snd schedulerd_flags) = Ret (ef, schedulerd_zeros) \<and>
     fs_formal ef = map_of (zip schedulerd_env_names [0..<14])"
  by (simp add: schedulerd_envflags_def envflag_StringVar_def envflag_IntVar_def envflag_DurationVar_def
      envflag_BoolVar_def fs_VarP_fresh NewFlagSet_def schedulerd_flags_def schedulerd_zeros_def
      schedulerd_env_names_def upt_rec fun_eq_iff)

lemma env_args_other:
  "\<forall>e \<in> set env. CHR ''='' \<in> set e \<and> fs_formal (fst s) (takeWhile (\<lambda>c. c \<noteq> CHR ''='') e) = None \<Longrightarrow>
   env_args s env = Ret []"
  by (induction env) (auto simp: envflag_Lookup_def fs_Lookup_def)

lemma schedulerd_options_unset:
  assumes "\<forall>e \<in> set env. CHR ''='' \<in> set e \<and> takeWhile (\<lambda>c. c \<noteq> CHR ''='') e \<notin> set schedulerd_env_names"
  shows "schedulerd_options t env [] = Ret (Inr schedulerd_zeros)"
proof -
  obtain cl where cl: "define_flags schedulerd_flags (NewFlagSet, []) = Ret (cl, map snd schedulerd_flags)"
    using schedulerd_define by blast
  obtain ef where ef: "schedulerd_envflags (NewFlagSet, map snd schedulerd_flags) = Ret (ef, schedulerd_zeros)"
    "fs_formal ef = map_of (zip schedulerd_env_names [0..<14])" using schedulerd_envs by blast
  have "fs_formal ef n = None" if "n \<notin> set schedulerd_env_names" for n
    unfolding ef(2) using that by (auto simp: map_of_eq_None_iff dest: set_zip_leftD)
  with assms have "env_args (ef, schedulerd_zeros) env = Ret []" by (intro env_args_other) simp
  with cl ef show ?thesis by (simp add: schedulerd_options_def envflag_Parse_def)
qed


definition demo_text :: text_ops where
  "demo_text = \<lparr>ParseFloat = (\<lambda>s. if s = ''1.5'' then Some (Fin (3 / 2)) else None),
     show_duration = (\<lambda>d. if d = second_ns then ''1s'' else ''60s''), show_float = (\<lambda>_. ''1.5'')\<rparr>"


lemma quotient_above_ten:
  assumes "10 < m" and "22 \<le> (p :: int)" and "(n - 1) * p < m" and "0 < n"
  shows "10 < m div n"
proof -
  have "11 * n \<le> m"
  proof (cases "n = 1")
    case False
    with assms(4) have "2 \<le> n" by simp
    have "(n - 1) * 22 \<le> (n - 1) * p" using assms(2) \<open>2 \<le> n\<close> by (intro mult_left_mono) simp_all
    with assms(3) have "(n - 1) * 22 < m" by linarith
    with \<open>2 \<le> n\<close> show ?thesis by presburger
  qed (use assms in simp)
  then have "11 * n div n \<le> m div n" using assms(4) by (intro zdiv_mono1) simp_all
  with assms(4) show ?thesis by simp
qed

text \<open>
  A load test asked for with \<open>schedulerctl\<close> goes through: if the maximum rate is above ten, the
  duration at least two seconds, and growth factor and interval are left at zero or are at least one
  and a tenth of a second, then the request the client builds passes the scheduler's check for every
  configuration with at least 22 requests per second per executor, and the command each of the
  requested executors is sent passes the executor's verification. The starting rate is always the
  maximum rate: the flag for it is never read.
\<close>

theorem schedulerctl_request_accepted:
  assumes limits: "22 \<le> MaxExecPSPerExecutor cfg" "MaxExecPSPerExecutor cfg < 2 ^ 31"
      "1 \<le> MaxWorkerPerExecutor cfg" "MaxWorkerPerExecutor cfg < 2 ^ 31"
    and rate: "10 < GlobalInt t ctx ''max.exec.ps''" "GlobalInt t ctx ''max.exec.ps'' < 2 ^ 31"
    and time: "1 < sint (int32_of_f64 (Seconds (GlobalDuration t ctx ''duration'')))"
    and growth: "ctx_Float64 t ctx ''extra.growth.factor'' = Fin g" "g = 0 \<or> 1 \<le> g"
      "Seconds (ctx_Duration t ctx ''extra.time.between.growth'') = Fin b" "b = 0 \<or> tenth \<le> b"
    and rq: "rq = schedulerctl_request t ctx script config"
  shows "sint (req_StartingRequestsPerSecond rq) = GlobalInt t ctx ''max.exec.ps'' \<and>
    (\<exists>q m c. quot32 (req_StartingRequestsPerSecond rq) (word_of_int (needExecutors cfg rq)) = Ret q \<and> 10 < sint q \<and>
       run_message (nat (needExecutors cfg rq)) (req_Url rq) (req_Script rq) (req_ScriptName rq)
        (req_RunTime rq) (word_of_int (MaxWorkerPerExecutor cfg)) (req_GrowthFactor rq)
        (req_TimeBetweenGrowth rq) (req_StartingRequestsPerSecond rq) (req_MaxRequestsPerSecond rq)
        (req_ScriptConfig rq) = Ret m \<and>
       ScriptParamsPtr m = Some c \<and> verifyCommand sh (Some c) = Ret None)"
proof -
  let ?m = "GlobalInt t ctx ''max.exec.ps''"
  have sm: "sint (int32_of ?m) = ?m" using rate by (intro sint_int32_of) simp_all
  have nz: "int32_of ?m \<noteq> 0" using sm rate(1) by auto
  have fields: "req_StartingRequestsPerSecond rq = int32_of ?m" "req_MaxRequestsPerSecond rq = int32_of ?m"
    "req_RunTime rq = int32_of_f64 (Seconds (GlobalDuration t ctx ''duration''))"
    "\<not> f64_less (req_GrowthFactor rq) (Fin 1)" "\<not> f64_less (req_TimeBetweenGrowth rq) (Fin tenth)"
    using growth nz by (auto simp: rq schedulerctl_request_def Let_def tenth_def)
  define n where "n = needExecutors cfg rq"
  have n: "n = (?m + MaxExecPSPerExecutor cfg - 1) div MaxExecPSPerExecutor cfg"
    unfolding n_def using limits rate fields sm by (subst needExecutors_ceil) simp_all
  have nb: "0 < n" "n \<le> ?m" "n * MaxExecPSPerExecutor cfg \<le> ?m + MaxExecPSPerExecutor cfg - 1"
    using ceil_div_bounds [of ?m "MaxExecPSPerExecutor cfg"] rate limits unfolding n by simp_all
  have "10 < ?m div n"
    using rate limits nb by (intro quotient_above_ten [of _ "MaxExecPSPerExecutor cfg"]) (simp_all add: left_diff_distrib)
  moreover have wn: "sint (word_of_int n :: int32) = n"
    using sint_int32_of [of n] nb rate by (simp add: int32_of_def)
  ultimately obtain q where q: "quot32 (int32_of ?m) (word_of_int n) = Ret q" "10 < sint q"
    using quot32_nonneg [of "int32_of ?m" "word_of_int n"] sm rate nb by auto
  from q fields have "\<exists>m c. run_message (nat (needExecutors cfg rq)) (req_Url rq) (req_Script rq) (req_ScriptName rq)
        (req_RunTime rq) (word_of_int (MaxWorkerPerExecutor cfg)) (req_GrowthFactor rq)
        (req_TimeBetweenGrowth rq) (req_StartingRequestsPerSecond rq) (req_MaxRequestsPerSecond rq)
        (req_ScriptConfig rq) = Ret m \<and>
       ScriptParamsPtr m = Some c \<and> verifyCommand sh (Some c) = Ret None"
    using dispatched_ok [of cfg rq q sh] limits rate(1) time sm by (fastforce simp: n_def)
  with q fields sm show ?thesis by (auto simp: n_def)
qed

definition demo_args :: "string list" where
  "demo_args = [''--script.name=test'', ''-max.exec.ps'', ''250'']"

lemma demo_invocation:
  "case App_Run demo_text (\<lambda>_. '''') schedulerctl_flags (\<lambda>_. None) demo_args of
     Ret (AppAction c) \<Rightarrow> GlobalInt demo_text c ''max.exec.ps'' = 250 \<and>
       GlobalDuration demo_text c ''duration'' = 60000000000 \<and>
       ctx_Float64 demo_text c ''extra.growth.factor'' = Fin (3 / 2) \<and>
       ctx_Duration demo_text c ''extra.time.between.growth'' = 1000000000
   | _ \<Rightarrow> False"
  by code_simp

lemma Seconds_whole:
  assumes "0 \<le> k" and "k \<le> 2 ^ 53"
  shows "Seconds (k * second_ns) = Fin (of_int k)"
proof -
  have "k * second_ns sdiv second_ns = k" "k * second_ns smod second_ns = 0"
    using assms(1) by (simp_all add: second_ns_def sdiv_nonneg signed_modulo_int_def)
  moreover have "f64_of_int 0 = Fin 0" "f64_of_int 1000000000 = Fin 1000000000" "round_f64 0 = Fin 0"
    by (simp_all add: f64_of_int_exact round_f64_def round53_def)
  moreover have "round_f64 (of_int k) = Fin (of_int k)"
    using f64_of_int_exact [OF assms] by (simp add: f64_of_int_def)
  ultimately show ?thesis using f64_of_int_exact [OF assms] by (simp add: Seconds_def)
qed

theorem schedulerctl_request_accepted_witness:
  "\<exists>ctx rq q m c. App_Run demo_text (\<lambda>_. '''') schedulerctl_flags (\<lambda>_. None) demo_args = Ret (AppAction ctx) \<and>
     rq = schedulerctl_request demo_text ctx ''two'' '''' \<and>
     quot32 (req_StartingRequestsPerSecond rq) (word_of_int (needExecutors demo_cfg rq)) = Ret q \<and> 10 < sint q \<and>
     run_message (nat (needExecutors demo_cfg rq)) (req_Url rq) (req_Script rq) (req_ScriptName rq)
        (req_RunTime rq) 500 (req_GrowthFactor rq) (req_TimeBetweenGrowth rq) (req_StartingRequestsPerSecond rq)
        (req_MaxRequestsPerSecond rq) (req_ScriptConfig rq) = Ret m \<and>
     ScriptParamsPtr m = Some c \<and> verifyCommand (\<lambda>_. '''') (Some c) = Ret None"
proof -
  from demo_invocation obtain ctx where c:
    "App_Run demo_text (\<lambda>_. '''') schedulerctl_flags (\<lambda>_. None) demo_args = Ret (AppAction ctx)"
    "GlobalInt demo_text ctx ''max.exec.ps'' = 250" "GlobalDuration demo_text ctx ''duration'' = 60 * second_ns"
    "ctx_Float64 demo_text ctx ''extra.growth.factor'' = Fin (3 / 2)"
    "ctx_Duration demo_text ctx ''extra.time.between.growth'' = 1 * second_ns"
    by (auto simp: second_ns_def split: go.splits app_end.splits)
  have s: "Seconds (60 * second_ns) = Fin 60" "Seconds (1 * second_ns) = Fin 1"
    using Seconds_whole [of 60] Seconds_whole [of 1] by simp_all
  have "sint (int32_of_f64 (Fin 60)) = 60"
    by (simp add: int32_of_f64_def int_of_f64.simps(1) trunc_rat_def int32_of_def)
  with schedulerctl_request_accepted [of demo_cfg demo_text ctx "3 / 2" 1 "schedulerctl_request demo_text ctx ''two'' ''''"
      "''two''" "''''" "\<lambda>_. ''''"] c s show ?thesis
    by (fastforce simp: tenth_def)
qed

lemma testServer_message_verifies: "verifyCommand sh (ScriptParamsPtr testServer_message) = Ret None"
  by (simp add: testServer_message_def verifyCommand_None command_ok_def tenth_def)

end
