(* ===== verification/Bytes.thy ===== *)
theory Bytes
  imports Prelude
begin

text \<open>
  Bytes and words: the vocabulary of the codecs (bytes as 8-bit words, byte strings as lists of
  them) and the lemmas on masking, splitting and joining words that they share.
\<close>

unbundle bit_operations_syntax

type_synonym byte = "8 word"
type_synonym bytes = "8 word list"

lemma and_0xff: "(w :: 'a :: len word) AND 0xff = take_bit 8 w"
  by (simp add: take_bit_eq_mask mask_eq_exp_minus_1)

lemma bit_byte_ge: "bit (b :: byte) n \<Longrightarrow> n < 8"
  using bit_imp_le_length [of b n] by simp

lemma bit_byte_conj [simp]: "bit (b :: byte) n \<and> n < 8 \<longleftrightarrow> bit b n" "n < 8 \<and> bit (b :: byte) n \<longleftrightarrow> bit b n"
  using bit_byte_ge [of b n] by auto

lemmas byte_simps = and_0xff bit_simps

lemma add_disjoint_or:
  "(\<And>n. bit (a :: 'a :: len word) n \<Longrightarrow> \<not> bit b n) \<Longrightarrow> a + b = a OR b"
  by (rule disjunctive_add_eq_or) (auto simp: bit_eq_iff bit_simps)

end
