(* ===== verification/Skip32.thy ===== *)
theory Skip32
  imports Bytes
begin

text \<open>
  The block cipher \<open>go-skip32\<close>, an integer obfuscator on 32 and 64 bits. The command line client
  seeds it when it starts. The cipher is a Feistel network, and decrypting undoes encrypting.
\<close>

definition ftable :: "8 word list" where
  "ftable =
    [0xa3, 0xd7, 0x09, 0x83, 0xf8, 0x48, 0xf6, 0xf4, 0xb3, 0x21, 0x15, 0x78, 0x99, 0xb1, 0xaf, 0xf9,
     0xe7, 0x2d, 0x4d, 0x8a, 0xce, 0x4c, 0xca, 0x2e, 0x52, 0x95, 0xd9, 0x1e, 0x4e, 0x38, 0x44, 0x28,
     0x0a, 0xdf, 0x02, 0xa0, 0x17, 0xf1, 0x60, 0x68, 0x12, 0xb7, 0x7a, 0xc3, 0xe9, 0xfa, 0x3d, 0x53,
     0x96, 0x84, 0x6b, 0xba, 0xf2, 0x63, 0x9a, 0x19, 0x7c, 0xae, 0xe5, 0xf5, 0xf7, 0x16, 0x6a, 0xa2,
     0x39, 0xb6, 0x7b, 0x0f, 0xc1, 0x93, 0x81, 0x1b, 0xee, 0xb4, 0x1a, 0xea, 0xd0, 0x91, 0x2f, 0xb8,
     0x55, 0xb9, 0xda, 0x85, 0x3f, 0x41, 0xbf, 0xe0, 0x5a, 0x58, 0x80, 0x5f, 0x66, 0x0b, 0xd8, 0x90,
     0x35, 0xd5, 0xc0, 0xa7, 0x33, 0x06, 0x65, 0x69, 0x45, 0x00, 0x94, 0x56, 0x6d, 0x98, 0x9b, 0x76,
     0x97, 0xfc, 0xb2, 0xc2, 0xb0, 0xfe, 0xdb, 0x20, 0xe1, 0xeb, 0xd6, 0xe4, 0xdd, 0x47, 0x4a, 0x1d,
     0x42, 0xed, 0x9e, 0x6e, 0x49, 0x3c, 0xcd, 0x43, 0x27, 0xd2, 0x07, 0xd4, 0xde, 0xc7, 0x67, 0x18,
     0x89, 0xcb, 0x30, 0x1f, 0x8d, 0xc6, 0x8f, 0xaa, 0xc8, 0x74, 0xdc, 0xc9, 0x5d, 0x5c, 0x31, 0xa4,
     0x70, 0x88, 0x61, 0x2c, 0x9f, 0x0d, 0x2b, 0x87, 0x50, 0x82, 0x54, 0x64, 0x26, 0x7d, 0x03, 0x40,
     0x34, 0x4b, 0x1c, 0x73, 0xd1, 0xc4, 0xfd, 0x3b, 0xcc, 0xfb, 0x7f, 0xab, 0xe6, 0x3e, 0x5b, 0xa5,
     0xad, 0x04, 0x23, 0x9c, 0x14, 0x51, 0x22, 0xf0, 0x29, 0x79, 0x71, 0x7e, 0xff, 0x8c, 0x0e, 0xe2,
     0x0c, 0xef, 0xbc, 0x72, 0x75, 0x6f, 0x37, 0xa1, 0xec, 0xd3, 0x8e, 0x62, 0x8b, 0x86, 0x10, 0xe8,
     0x08, 0x77, 0x11, 0xbe, 0x92, 0x4f, 0x24, 0xc5, 0x32, 0x36, 0x9d, 0xcf, 0xf3, 0xa6, 0xbb, 0xac,
     0x5e, 0x6c, 0xa9, 0x13, 0x57, 0x25, 0xb5, 0xe3, 0xbd, 0xa8, 0x3a, 0x01, 0x05, 0x59, 0x2a, 0x46]"

definition g :: "8 word list \<Rightarrow> int \<Rightarrow> 16 word \<Rightarrow> 16 word" where
  "g key k w =
    (let g1 = ucast (drop_bit 8 w AND 0xff) :: 8 word;
         g2 = ucast (w AND 0xff) :: 8 word;
         g3 = ftable ! unat (g2 XOR key ! nat ((4 * k + 0) mod 10)) XOR g1;
         g4 = ftable ! unat (g3 XOR key ! nat ((4 * k + 1) mod 10)) XOR g2;
         g5 = ftable ! unat (g4 XOR key ! nat ((4 * k + 2) mod 10)) XOR g3;
         g6 = ftable ! unat (g5 XOR key ! nat ((4 * k + 3) mod 10)) XOR g4 in
     push_bit 8 (ucast g5) + ucast g6)"

fun rounds :: "nat \<Rightarrow> 8 word list \<Rightarrow> int \<Rightarrow> int \<Rightarrow> 16 word \<times> 16 word \<Rightarrow> 16 word \<times> 16 word" where
  "rounds 0 key kstep k (wl, wr) = (wl, wr)"
| "rounds (Suc n) key kstep k (wl, wr) =
    (let wr' = wr XOR (g key k wl XOR word_of_int k);
         k' = k + kstep;
         wl' = wl XOR (g key k' wr' XOR word_of_int k') in
     rounds n key kstep (k' + kstep) (wl', wr'))"

definition pack16 :: "8 word \<Rightarrow> 8 word \<Rightarrow> 16 word" where
  "pack16 hi lo = push_bit 8 (ucast hi) + ucast lo"

type_synonym buf4 = "8 word \<times> 8 word \<times> 8 word \<times> 8 word"

fun crypt32 :: "8 word list \<Rightarrow> buf4 \<Rightarrow> bool \<Rightarrow> buf4" where
  "crypt32 key (b0, b1, b2, b3) encrypt =
    (case rounds 12 key (if encrypt then 1 else - 1) (if encrypt then 0 else 23) (pack16 b0 b1, pack16 b2 b3) of
       (wl, wr) \<Rightarrow> (ucast (drop_bit 8 wr), ucast (wr AND 0xff), ucast (drop_bit 8 wl), ucast (wl AND 0xff)))"

definition skip32_New :: "8 word list \<Rightarrow> 8 word list result" where
  "skip32_New key = (if length key \<noteq> 10 then Inl (Errorf (''Invalid key size: '' @ show_nat (length key)))
     else Inr key)"

definition split32 :: "32 word \<Rightarrow> buf4" where
  "split32 i = (ucast (drop_bit 24 i AND 0xff), ucast (drop_bit 16 i AND 0xff), ucast (drop_bit 8 i AND 0xff),
     ucast (drop_bit 0 i AND 0xff))"

fun join32 :: "buf4 \<Rightarrow> 32 word" where
  "join32 (b0, b1, b2, b3) = push_bit 24 (ucast b0) OR push_bit 16 (ucast b1) OR push_bit 8 (ucast b2) OR ucast b3"

definition Obfus :: "8 word list \<Rightarrow> 32 word \<Rightarrow> 32 word" where
  "Obfus key i = join32 (crypt32 key (split32 i) True)"

definition Unobfus :: "8 word list \<Rightarrow> 32 word \<Rightarrow> 32 word" where
  "Unobfus key i = join32 (crypt32 key (split32 i) False)"

definition Obfus64 :: "8 word list \<Rightarrow> 64 word \<Rightarrow> 64 word" where
  "Obfus64 key i =
    (let ida = ucast (drop_bit 32 i); idb = ucast (i AND 0x00000000fffffffff);
         ca = Obfus key ida; cb = Obfus key (idb XOR ca) in
     push_bit 32 (ucast ca) OR ucast cb)"

definition UnObfus64 :: "8 word list \<Rightarrow> 64 word \<Rightarrow> 64 word" where
  "UnObfus64 key i =
    (let ca = ucast (drop_bit 32 i); cb = ucast (i AND 0x00000000ffffffff);
         ida = Unobfus key ca; idb = Unobfus key cb XOR ca in
     push_bit 32 (ucast ida) OR ucast idb)"


section \<open>Decrypting undoes encrypting\<close>

lemma pack16_or: "pack16 hi lo = push_bit 8 (ucast hi) OR ucast lo"
  unfolding pack16_def by (rule add_disjoint_or) (auto simp: bit_simps dest: bit_byte_ge)

lemma pack_bytes:
  "pack16 (ucast (drop_bit 8 w)) (ucast (w AND 0xff)) = w"
  unfolding pack16_or by (rule bit_word_eqI) (auto simp: byte_simps)

lemma join_split32: "join32 (split32 i) = i"
proof (rule bit_word_eqI)
  fix n assume "n < LENGTH(32)"
  then consider "n < 8" | "8 \<le> n" "n < 16" | "16 \<le> n" "n < 24" | "24 \<le> n" "n < 32" by fastforce
  then show "bit (join32 (split32 i)) n \<longleftrightarrow> bit i n" by cases (auto simp: split32_def byte_simps)
qed

lemma split_join32: "split32 (join32 b) = b"
proof (cases b)
  case (fields b0 b1 b2 b3)
  have "ucast (drop_bit 24 (join32 b) AND 0xff) = b0" "ucast (drop_bit 16 (join32 b) AND 0xff) = b1"
    "ucast (drop_bit 8 (join32 b) AND 0xff) = b2" "ucast (drop_bit 0 (join32 b) AND 0xff) = b3"
    unfolding fields by (rule bit_word_eqI, auto simp: byte_simps dest: bit_byte_ge)+
  with fields show ?thesis by (simp add: split32_def)
qed


text \<open>A double round, and its inverse on the swapped halves with the round keys in the other order.\<close>

definition two_rounds :: "8 word list \<Rightarrow> int \<Rightarrow> int \<Rightarrow> 16 word \<times> 16 word \<Rightarrow> 16 word \<times> 16 word" where
  "two_rounds key kstep k s = rounds 1 key kstep k s"

lemma rounds_first: "rounds (Suc n) key st k s = rounds n key st (k + 2 * st) (two_rounds key st k s)"
  by (cases s) (simp add: two_rounds_def Let_def algebra_simps)

lemma rounds_last: "rounds (Suc n) key st k s = two_rounds key st (k + 2 * int n * st) (rounds n key st k s)"
proof (induction n arbitrary: k s)
  case 0
  show ?case by (cases s) (simp add: two_rounds_def)
next
  case (Suc n)
  have "rounds (Suc (Suc n)) key st k s = rounds (Suc n) key st (k + 2 * st) (two_rounds key st k s)"
    by (rule rounds_first)
  also have "\<dots> = two_rounds key st (k + 2 * st + 2 * int n * st) (rounds n key st (k + 2 * st) (two_rounds key st k s))"
    by (rule Suc.IH)
  also have "rounds n key st (k + 2 * st) (two_rounds key st k s) = rounds (Suc n) key st k s"
    by (rule rounds_first [symmetric])
  finally show ?case by (simp add: algebra_simps)
qed

lemma xor_twice: "(b XOR w) XOR w = (b :: 'a :: len word)"
  by (simp add: xor.assoc)

lemma two_rounds_undo:
  "two_rounds key (- 1) (k + 1) (prod.swap (two_rounds key 1 k s)) = prod.swap s"
  by (cases s) (simp add: two_rounds_def Let_def xor_twice)

lemma rounds_undo:
  "rounds n key (- 1) (2 * int n - 1 + k) (prod.swap (rounds n key 1 k s)) = prod.swap s"
proof (induction n)
  case 0
  show ?case by (cases s) simp
next
  case (Suc n)
  have "two_rounds key (- 1) (2 * int (Suc n) - 1 + k) (prod.swap (rounds (Suc n) key 1 k s)) =
      prod.swap (rounds n key 1 k s)"
    unfolding rounds_last [of n key 1] using two_rounds_undo [of key "k + 2 * int n"] by (simp add: algebra_simps)
  then have "rounds (Suc n) key (- 1) (2 * int (Suc n) - 1 + k) (prod.swap (rounds (Suc n) key 1 k s)) =
      rounds n key (- 1) (2 * int n - 1 + k) (prod.swap (rounds n key 1 k s))"
    unfolding rounds_first [of n key "- 1"] by (simp add: algebra_simps)
  with Suc.IH show ?case by simp
qed

lemma crypt32_undo: "crypt32 key (crypt32 key b True) False = b"
proof (cases b)
  case (fields b0 b1 b2 b3)
  obtain wl wr where enc: "rounds 12 key 1 0 (pack16 b0 b1, pack16 b2 b3) = (wl, wr)" by fastforce
  from rounds_undo [of 12 key 0 "(pack16 b0 b1, pack16 b2 b3)"] enc
  have dec: "rounds 12 key (- 1) 23 (wr, wl) = (pack16 b2 b3, pack16 b0 b1)" by simp
  have "ucast (drop_bit 8 (pack16 hi lo)) = hi" "ucast (pack16 hi lo AND 0xff) = lo" for hi lo
    unfolding pack16_or by (rule bit_word_eqI, auto simp: byte_simps dest: bit_byte_ge)+
  with fields enc dec show ?thesis by (simp add: pack_bytes)
qed

lemma Unobfus_Obfus: "Unobfus key (Obfus key i) = i"
  by (simp add: Unobfus_def Obfus_def split_join32 crypt32_undo join_split32)

lemma Obfus_inj: "inj (Obfus key)"
  by (metis Unobfus_Obfus injI)

lemma halves64:
  "ucast (drop_bit 32 (push_bit 32 (ucast a) OR ucast b :: 64 word)) = (a :: 32 word)"
  "ucast ((push_bit 32 (ucast a) OR ucast b :: 64 word) AND 0x00000000ffffffff) = (b :: 32 word)"
  "ucast ((i :: 64 word) AND 0x00000000fffffffff) = (ucast i :: 32 word)"
proof -
  have m: "(0x00000000ffffffff :: 64 word) = mask 32" "(0x00000000fffffffff :: 64 word) = mask 36"
    by (simp_all add: mask_eq_exp_minus_1)
  show "ucast (drop_bit 32 (push_bit 32 (ucast a) OR ucast b :: 64 word)) = a"
    by (rule bit_word_eqI) (auto simp: bit_simps dest: bit_imp_le_length)
  show "ucast ((push_bit 32 (ucast a) OR ucast b :: 64 word) AND 0x00000000ffffffff) = b"
    unfolding m by (rule bit_word_eqI) (auto simp: bit_simps)
  show "ucast (i AND 0x00000000fffffffff) = (ucast i :: 32 word)"
    unfolding m by (rule bit_word_eqI) (auto simp: bit_simps)
qed

lemma join64: "push_bit 32 (ucast (ucast (drop_bit 32 i) :: 32 word)) OR ucast (ucast i :: 32 word) = (i :: 64 word)"
proof (rule bit_word_eqI)
  fix n assume "n < LENGTH(64)"
  then consider "n < 32" | "32 \<le> n" "n < 64" by fastforce
  then show "bit (push_bit 32 (ucast (ucast (drop_bit 32 i) :: 32 word)) OR ucast (ucast i :: 32 word) :: 64 word) n \<longleftrightarrow> bit i n"
    by cases (auto simp: bit_simps)
qed

text \<open>
  Unobfuscating gives back the number that was obfuscated, for every key, on 32 bits and, with
  the halves chained, on 64 bits.
\<close>

theorem Unobfus_undoes_Obfus:
  "Unobfus key (Obfus key i) = i \<and> UnObfus64 key (Obfus64 key j) = j"
  unfolding Obfus64_def UnObfus64_def Let_def halves64 Unobfus_Obfus xor_twice join64 by simp

end
