(* ===== verification/Names.thy ===== *)
theory Names
  imports Skip32
begin

text \<open>
  The name generator of \<open>flynn/controller/name\<close>: numbers are scrambled with the cipher of
  \<open>Skip32\<close>, walked into the range of the word lists and printed as three words.
\<close>

definition animals :: "string list" where
  "animals =
    [''aardvarks'', ''albatrosses'', ''alligators'', ''alpacas'', ''anteaters'', ''antelope'', ''ants'',
     ''apes'', ''armadillos'', ''baboons'', ''badgers'', ''barracudas'', ''bats'', ''bears'',
     ''beavers'', ''bees'', ''bison'', ''boar'', ''buffalo'', ''bunnies'', ''butterflies'', ''camels'',
     ''capybaras'', ''caribou'', ''caterpillars'', ''cats'', ''cattle'', ''cheetahs'', ''chickens'',
     ''chimpanzees'', ''chinchillas'', ''choughs'', ''clams'', ''cobras'', ''cod'', ''cormorants'',
     ''coyotes'', ''crabs'', ''cranes'', ''crocodiles'', ''crows'', ''curlews'', ''deer'',
     ''dinosaurs'', ''doces'', ''dogfish'', ''dogs'', ''dolphins'', ''donkeys'', ''dragonflies'',
     ''dragons'', ''ducks'', ''eagles'', ''eels'', ''elephants'', ''elk'', ''emus'', ''falcons'',
     ''ferrets'', ''finches'', ''fish'', ''flamingos'', ''flies'', ''fowl'', ''foxes'', ''frogs'',
     ''gazelles'', ''geese'', ''gerbils'', ''giraffes'', ''gnats'', ''gnus'', ''goats'',
     ''goldfinches'', ''goldfish'', ''gorillas'', ''grasshoppers'', ''grouse'', ''gulls'', ''hamsters'',
     ''hares'', ''hawks'', ''hedgehogs'', ''heron'', ''herring'', ''hippos'', ''hornets'', ''horses'',
     ''humans'', ''hummingbirds'', ''hyenas'', ''ibexes'', ''ibis'', ''jackals'', ''jaguars'', ''jays'',
     ''jellyfish'', ''kangaroos'', ''kingfishers'', ''koalas'', ''kookaburas'', ''kudus'', ''lapwings'',
     ''larks'', ''lemurs'', ''leopards'', ''lions'', ''llamas'', ''lobsters'', ''locusts'', ''magpies'',
     ''mallards'', ''manatees'', ''mandrills'', ''mantises'', ''meerkats'', ''minks'', ''moles'',
     ''mongooses'', ''monkeys'', ''moose'', ''mosquitos'', ''mice'', ''mules'', ''narwhals'', ''newts'',
     ''nightingales'', ''octopi'', ''okapis'', ''oryxes'', ''ostriches'', ''otters'', ''owls'',
     ''oxen'', ''oysters'', ''pandas'', ''panterhs'', ''parrots'', ''partridges'', ''peacocks'',
     ''pelicans'', ''penguins'', ''pheasants'', ''pigeons'', ''pigs'', ''ponies'', ''porcupines'',
     ''porpoises'', ''possums'', ''quail'', ''queleas'', ''quetzals'', ''rabbits'', ''raccoons'',
     ''rails'', ''rams'', ''rats'', ''ravens'', ''reindeer'', ''rhinos'', ''rooks'', ''salamanders'',
     ''salmon'', ''sandpipers'', ''sardines'', ''scorpions'', ''seahorses'', ''seals'', ''sharks'',
     ''sheep'', ''shrews'', ''skunks'', ''snails'', ''snakes'', ''sparrows'', ''spiders'',
     ''spoonbills'', ''squid'', ''squirrels'', ''starlings'', ''stingrays'', ''stinkbugs'', ''storks'',
     ''swallows'', ''swans'', ''tapirs'', ''termites'', ''tigers'', ''toads'', ''trout'', ''turkeys'',
     ''turtles'', ''vipers'', ''vultures'', ''wallabies'', ''walruses'', ''wasps'', ''weasels'',
     ''whales'', ''wolverines'', ''wolves'', ''wombats'', ''woodpeckers'', ''worms'', ''wrens'',
     ''yaks'', ''zebras'']"

definition verbs :: "string list" where
  "verbs =
    [''accuse'', ''admire'', ''admonish'', ''adore'', ''advise'', ''affirm'', ''aggravate'',
     ''agitate'', ''aid'', ''alarm'', ''alert'', ''alienate'', ''allure'', ''amaze'', ''amuse'',
     ''analyse'', ''anger'', ''animate'', ''annoy'', ''antagonize'', ''appall'', ''appease'',
     ''applaud'', ''arouse'', ''assist'', ''assure'', ''astonish'', ''astound'', ''attack'',
     ''attract'', ''avoid'', ''awaken'', ''badger'', ''baffle'', ''bait'', ''banish'', ''befriend'',
     ''beg'', ''beguile'', ''belittle'', ''berate'', ''beseech'', ''bewilder'', ''bewitch'', ''blame'',
     ''bless'', ''block'', ''bolster'', ''boost'', ''boss'', ''bribe'', ''bully'', ''cajole'', ''calm'',
     ''captivate'', ''capture'', ''caress'', ''castigate'', ''catch'', ''caution'', ''challenge'',
     ''charm'', ''chastise'', ''cheer'', ''cherish'', ''chide'', ''chill'', ''coax'', ''coerce'',
     ''comfort'', ''command'', ''compel'', ''compliment'', ''condemn'', ''confront'', ''confuse'',
     ''congratulate'', ''conquer'', ''console'', ''contradict'', ''control'', ''convince'', ''correct'',
     ''corrupt'', ''counsel'', ''counter'', ''criticize'', ''crucify'', ''crush'', ''cuddle'',
     ''curse'', ''damn'', ''dampen'', ''dare'', ''dazzle'', ''debase'', ''deceive'', ''defend'',
     ''deflate'', ''defy'', ''degrade'', ''deify'', ''delay'', ''delight'', ''demean'', ''demolish'',
     ''denigrate'', ''denounce'', ''deny'', ''depress'', ''deride'', ''destroy'', ''deter'',
     ''devastate'', ''dignify'', ''diminish'', ''direct'', ''disappoint'', ''disarm'', ''discard'',
     ''discipline'', ''disconcert'', ''discourage'', ''disdain'', ''disgust'', ''dishearten'',
     ''dismiss'', ''disparage'', ''dispatch'', ''dissuade'', ''distance'', ''distract'', ''distress'',
     ''disturb'', ''divert'', ''dodge'', ''dominate'', ''doubt'', ''drag'', ''dumbfound'', ''dupe'',
     ''educate'', ''electrify'', ''elevate'', ''embarrass'', ''embrace'', ''empower'', ''enchant'',
     ''encourage'', ''energize'', ''engage'', ''enlighten'', ''enlist'', ''enliven'', ''ennoble'',
     ''enrage'', ''ensnare'', ''entertain'', ''enthrall'', ''enthuse'', ''entice'', ''entrap'',
     ''entreat'', ''entrust'', ''evade'', ''exalt'', ''examine'', ''exasperate'', ''excite'',
     ''exclude'', ''exhort'', ''expel'', ''expose'', ''fascinate'', ''find'', ''fire'', ''flatten'',
     ''fluster'', ''fondle'', ''fool'', ''force'', ''forgive'', ''fortify'', ''freak'', ''frighten'',
     ''frustrate'', ''glorify'', ''goad'', ''grab'', ''gratify'', ''greet'', ''grip'', ''grope'',
     ''guard'', ''guide'', ''halt'', ''hammer'', ''harangue'', ''harass'', ''harm'', ''hassle'',
     ''hasten'', ''heckle'', ''help'', ''hide'', ''hit'', ''hold'', ''hoodwink'', ''horrify'',
     ''hound'', ''hug'', ''humble'', ''humiliate'', ''humour'', ''hurry'', ''hurt'', ''hypnotize'',
     ''ignore'', ''imitate'', ''implore'', ''impress'', ''incite'', ''indoctrinate'', ''infuriate'',
     ''inspect'', ''inspire'', ''instruct'', ''insult'', ''interest'', ''interrogate'', ''intimidate'',
     ''intrigue'', ''invigorate'', ''invite'', ''involve'', ''irritate'', ''jeer'', ''join'', ''jolly'',
     ''jolt'', ''josh'', ''kill'', ''kiss'', ''lead'', ''lecture'', ''lighten'', ''lure'',
     ''manipulate'', ''massage'', ''menace'', ''mesmerize'', ''mock'', ''molest'', ''mollify'',
     ''mollycoddle'', ''mortify'', ''mother'', ''mystify'', ''nag'', ''nail'', ''nauseate'', ''needle'',
     ''nurse'', ''nuzzle'', ''obey'', ''oblige'', ''obstruct'', ''offend'', ''offer'', ''ogle'',
     ''oppose'', ''oppress'', ''order'', ''organize'', ''ostracize'', ''outrage'', ''outsmart'',
     ''outwit'', ''overpower'', ''override'', ''overrule'', ''overwhelm'', ''pacify'', ''pamper'',
     ''panic'', ''patronize'', ''perplex'', ''persecute'', ''persuade'', ''pester'', ''petition'',
     ''petrify'', ''placate'', ''please'', ''poke'', ''praise'', ''prepare'', ''press'', ''pressurize'',
     ''probe'', ''procure'', ''prod'', ''prompt'', ''protect'', ''provoke'', ''pulverize'', ''punch'',
     ''punish'', ''pursue'', ''quash'', ''question'', ''quieten'', ''quiz'', ''rally'', ''rattle'',
     ''ravage'', ''ravish'', ''reassure'', ''rebuff'', ''rebuke'', ''recruit'', ''refuse'', ''reject'',
     ''rejuvenate'', ''renounce'', ''repel'', ''reprimand'', ''reproach'', ''repulse'', ''rescue'',
     ''resist'', ''restore'', ''restrain'', ''revive'', ''revolt'', ''reward'', ''ridicule'', ''rile'',
     ''rouse'', ''sadden'', ''savage'', ''scandalize'', ''scare'', ''scold'', ''scorn'', ''scratch'',
     ''seduce'', ''seize'', ''settle'', ''shake'', ''shame'', ''shield'', ''shock'', ''sicken'',
     ''silence'', ''slander'', ''slap'', ''smash'', ''smother'', ''snub'', ''soften'', ''solicit'',
     ''soothe'', ''spurn'', ''squash'', ''stab'', ''stalk'', ''stall'', ''startle'', ''stimulate'',
     ''sting'', ''stir'', ''stop'', ''strike'', ''stroke'', ''study'', ''stun'', ''stupefy'',
     ''subdue'', ''summon'', ''support'', ''suppress'', ''surprise'', ''survey'', ''suspect'', ''tame'',
     ''tantalize'', ''taunt'', ''teach'', ''teases'', ''tempt'', ''terrify'', ''terrorize'', ''test'',
     ''threaten'', ''thrill'', ''tickle'', ''titillate'', ''torment'', ''torture'', ''touch'', ''trap'',
     ''trick'', ''trouble'', ''undermine'', ''undress'', ''unsettle'', ''upset'', ''urge'', ''usher'',
     ''victimize'', ''vilify'', ''warm'', ''warn'', ''weaken'', ''welcome'', ''wheedle'', ''woo'',
     ''worry'', ''worship'']"

definition towns :: "string list" where
  "towns =
    [''aberdeen'', ''addington'', ''adelaide'', ''adjala'', ''admaston'', ''ajax'', ''alberton'',
     ''alfred'', ''algona'', ''algonquin'', ''alnwick'', ''alvinston'', ''amaranth'', ''amherstburg'',
     ''archipelago'', ''armour'', ''armstrong'', ''arnprior'', ''arran'', ''ashfield'', ''asphodel'',
     ''assiginack'', ''athens'', ''atikokan'', ''augusta'', ''aurora'', ''aylmer'', ''baldwin'',
     ''bancroft'', ''barrie'', ''bayham'', ''beckwith'', ''belleville'', ''belmont'', ''biddulph'',
     ''billings'', ''blandford'', ''blenheim'', ''bluewater'', ''bonfield'', ''bonnechere'',
     ''bracebridge'', ''bradford'', ''braeside'', ''brampton'', ''brant'', ''brantford'', ''brethour'',
     ''brighton'', ''brock'', ''brockton'', ''brockville'', ''bromley'', ''brooke'', ''bruce'',
     ''brudenell'', ''bruton'', ''burlington'', ''burpee'', ''caledon'', ''callander'', ''calvin'',
     ''cambridge'', ''cameron'', ''caradoc'', ''cardinal'', ''carleton'', ''carling'', ''carlow'',
     ''casey'', ''cashel'', ''casselman'', ''catharines'', ''cavan'', ''chamberlain'', ''champlain'',
     ''chapleau'', ''chapple'', ''charles'', ''charlton'', ''chatham'', ''chatsworth'', ''chisholm'',
     ''clair'', ''clara'', ''clarence'', ''clarington'', ''clearview'', ''clyde'', ''cobalt'',
     ''cobourg'', ''cochrane'', ''colborne'', ''coleman'', ''collingwood'', ''conmee'', ''cornwall'',
     ''cramahe'', ''dack'', ''dawn'', ''dawson'', ''deseronto'', ''dorion'', ''douro'', ''drummond'',
     ''dryden'', ''dubreuilville'', ''dudley'', ''dufferin'', ''dumfries'', ''dummer'', ''dundas'',
     ''dunwich'', ''durham'', ''dutton'', ''dysart'', ''edward'', ''edwardsburgh'', ''elderslie'',
     ''elgin'', ''elizabethtown'', ''elmsley'', ''emo'', ''englehart'', ''enniskillen'', ''eramosa'',
     ''erie'', ''erin'', ''espanola'', ''essa'', ''essex'', ''euphemia'', ''evanturel'', ''eyre'',
     ''faraday'', ''fauquier'', ''ferris'', ''frances'', ''frontenac'', ''gananoque'', ''garafraxa'',
     ''gauthier'', ''georgina'', ''gillies'', ''glengarry'', ''goderich'', ''gordon'', ''gore'',
     ''gravenhurst'', ''greenstone'', ''grenville'', ''grey'', ''grimsby'', ''guelph'', ''guilford'',
     ''gwillimbury'', ''hagarty'', ''haldimand'', ''haliburton'', ''halton'', ''hamilton'', ''hanover'',
     ''harburn'', ''harcourt'', ''harley'', ''harris'', ''harty'', ''hastings'', ''havelock'',
     ''hawkesbury'', ''head'', ''hearst'', ''highlands'', ''hilliard'', ''hilton'', ''hope'',
     ''hornepayne'', ''horton'', ''howick'', ''hudson'', ''huntsville'', ''huron'', ''hyman'',
     ''ignace'', ''ingersoll'', ''innisfil'', ''iroquois'', ''james'', ''jocelyn'', ''johnson'',
     ''joly'', ''joseph'', ''kapuskasing'', ''kawartha'', ''kearney'', ''kenora'', ''kent'', ''kerns'',
     ''killaloe'', ''killarney'', ''kincardine'', ''king'', ''kingston'', ''kingsville'', ''kinloss'',
     ''kirkland'', ''kitchener'', ''kitley'', ''laird'', ''lakeshore'', ''lambton'', ''lanark'',
     ''larder'', ''lasalle'', ''latchford'', ''laurentian'', ''leamington'', ''leeds'', ''lennox'',
     ''limerick'', ''lincoln'', ''london'', ''loyalist'', ''lucan'', ''lyndoch'', ''macdonald'',
     ''machar'', ''machin'', ''madawaska'', ''madoc'', ''magnetawan'', ''malahide'', ''manitoulin'',
     ''manitouwadge'', ''mapleton'', ''marathon'', ''maria'', ''markham'', ''markstay'', ''marmora'',
     ''marys'', ''matachewan'', ''matheson'', ''mattawa'', ''mattawan'', ''mattice'', ''mayo'',
     ''mcdougall'', ''mcgarry'', ''mckellar'', ''mcmurrich'', ''mcnab'', ''meaford'', ''melancthon'',
     ''meredith'', ''merrickville'', ''metcalfe'', ''methuen'', ''middlesex'', ''midland'', ''mills'',
     ''milton'', ''minden'', ''minto'', ''mississauga'', ''mississippi'', ''monaghan'', ''mono'',
     ''montague'', ''monteith'', ''moonbeam'', ''moosonee'', ''morley'', ''morris'', ''mulmur'',
     ''muskoka'', ''nairn'', ''napanee'', ''neebing'', ''newbury'', ''newmarket'', ''niagara'',
     ''nipigon'', ''nipissing'', ''norfolk'', ''northumberland'', ''norwich'', ''norwood'',
     ''oakville'', ''oliver'', ''opasatika'', ''orangeville'', ''orillia'', ''oshawa'', ''otonabee'',
     ''ottawa'', ''oxford'', ''paipoonge'', ''papineau'', ''parry'', ''peel'', ''pelee'', ''pelham'',
     ''pembroke'', ''penetanguishene'', ''perry'', ''perth'', ''petawawa'', ''peterborough'',
     ''petrolia'', ''pickering'', ''plantagenet'', ''plummer'', ''plympton'', ''powassan'',
     ''prescott'', ''prince'', ''puslinch'', ''quinte'', ''raglan'', ''ramara'', ''rawdon'',
     ''renfrew'', ''richards'', ''richmond'', ''rideau'', ''rita'', ''rockland'', ''russell'',
     ''ryerson'', ''sables'', ''sarnia'', ''saugeen'', ''schreiber'', ''scugog'', ''seguin'',
     ''selwyn'', ''severn'', ''shelburne'', ''shuniah'', ''simcoe'', ''sioux'', ''southgate'',
     ''southwold'', ''spanish'', ''springwater'', ''stirling'', ''stormont'', ''stouffville'',
     ''stratford'', ''strathroy'', ''strickland'', ''strong'', ''sudbury'', ''sundridge'', ''tarbutt'',
     ''tavistock'', ''tay'', ''tecumseh'', ''tecumseth'', ''tehkummah'', ''temagami'', ''temiskaming'',
     ''terrace'', ''thames'', ''thessalon'', ''thomas'', ''thornloe'', ''thorold'', ''thunder'',
     ''tillsonburg'', ''timmins'', ''tiny'', ''toronto'', ''tosorontio'', ''trent'', ''tudor'',
     ''turnberry'', ''tweed'', ''tyendinaga'', ''uxbridge'', ''vaughan'', ''wainfleet'', ''warren'',
     ''warwick'', ''wasaga'', ''waterloo'', ''wawa'', ''wawanosh'', ''welland'', ''wellesley'',
     ''wellington'', ''westport'', ''whitby'', ''whitchurch'', ''white'', ''whitestone'',
     ''whitewater'', ''wilberforce'', ''wilmot'', ''windsor'', ''wolford'', ''wollaston'',
     ''woodstock'', ''woolwich'', ''wyoming'', ''yonge'', ''york'', ''zorra'']"


lemma word_counts [simp]: "length animals = 207" "length verbs = 420" "length towns = 409"
  by (simp_all add: animals_def verbs_def towns_def)

definition name_max :: "32 word" where
  "name_max = of_nat (length animals * length verbs * length towns)"

text \<open>\<open>SetSeed\<close> replaces the cipher, and panics when the seed is not ten bytes long.\<close>

definition SetSeed :: "8 word list \<Rightarrow> 8 word list go" where
  "SetSeed s = (case skip32_New s of Inl err \<Rightarrow> Panic (Error err) | Inr key \<Rightarrow> Ret key)"

partial_function (option) walk :: "8 word list \<Rightarrow> 32 word \<Rightarrow> 32 word option" where
  "walk key n = (let n' = Obfus key n in if n' < name_max then Some n' else walk key n')"

definition name_indices :: "32 word \<Rightarrow> nat \<times> nat \<times> nat" where
  "name_indices n = (unat n mod length animals, unat n div length animals mod length verbs,
     unat n div length animals div length verbs mod length towns)"

definition name_Get :: "8 word list \<Rightarrow> 32 word \<Rightarrow> string option" where
  "name_Get key n = (case walk key n of
     None \<Rightarrow> None
   | Some m \<Rightarrow> (case name_indices m of
       (a, v, t) \<Rightarrow> Some (animals ! a @ ''-'' @ verbs ! v @ ''-'' @ towns ! t)))"


section \<open>Cycle walking\<close>

text \<open>The result of a walk is the first number of the orbit that is in range.\<close>

lemma walk_orbit:
  assumes "(Obfus key ^^ Suc k) n < name_max" and "\<forall>i < k. \<not> (Obfus key ^^ Suc i) n < name_max"
  shows "walk key n = Some ((Obfus key ^^ Suc k) n)"
  using assms
proof (induction k arbitrary: n)
  case 0
  then show ?case by (subst walk.simps) (simp add: Let_def)
next
  case (Suc k)
  have "(Obfus key ^^ Suc i) (Obfus key n) = (Obfus key ^^ Suc (Suc i)) n" for i
    by (simp add: funpow_swap1)
  with Suc.prems have "walk key (Obfus key n) = Some ((Obfus key ^^ Suc k) (Obfus key n))"
    by (intro Suc.IH) (simp_all del: funpow.simps)
  moreover have "\<not> Obfus key n < name_max" using Suc.prems(2) by force
  ultimately show ?case by (subst walk.simps) (simp add: Let_def funpow_swap1)
qed

lemma walk_first:
  assumes "n < name_max"
  obtains k where "walk key n = Some ((Obfus key ^^ Suc k) n)" and "(Obfus key ^^ Suc k) n < name_max"
    and "\<forall>i < k. \<not> (Obfus key ^^ Suc i) n < name_max"
proof -
  have "finite {y. \<exists>j. y = (Obfus key ^^ j) n}" by simp
  then obtain j where "0 < j" "(Obfus key ^^ j) n = n" by (rule funpow_inj_finite [OF Obfus_inj])
  then have "\<exists>k. (Obfus key ^^ Suc k) n < name_max" using assms by (metis Suc_pred)
  then have "(Obfus key ^^ Suc (LEAST k. (Obfus key ^^ Suc k) n < name_max)) n < name_max" by (rule LeastI_ex)
  moreover have "\<forall>i < (LEAST k. (Obfus key ^^ Suc k) n < name_max). \<not> (Obfus key ^^ Suc i) n < name_max"
    using not_less_Least by blast
  ultimately show ?thesis using that walk_orbit by blast
qed

lemma orbit_shift:
  assumes "(Obfus key ^^ Suc i) m = (Obfus key ^^ Suc j) n" and "i \<le> j"
  shows "m = (Obfus key ^^ (j - i)) n"
proof -
  have "(Obfus key ^^ (Suc i + (j - i))) n = (Obfus key ^^ Suc i) ((Obfus key ^^ (j - i)) n)"
    by (simp only: funpow_add comp_apply)
  with assms have "(Obfus key ^^ Suc i) m = (Obfus key ^^ Suc i) ((Obfus key ^^ (j - i)) n)" by simp
  then show ?thesis by (rule injD [OF inj_fn [OF Obfus_inj]])
qed

lemma walk_inj_le:
  assumes "m < name_max" and "n < name_max" and "(Obfus key ^^ Suc i) m = (Obfus key ^^ Suc j) n"
    and "\<forall>l < j. \<not> (Obfus key ^^ Suc l) n < name_max" and "i \<le> j"
  shows "m = n"
proof (cases "i = j")
  case True
  with orbit_shift [OF assms(3,5)] show ?thesis by simp
next
  case False
  then obtain l where "j - i = Suc l" "l < j" using assms(5) by (cases "j - i") auto
  with orbit_shift [OF assms(3,5)] assms(1,4) show ?thesis by metis
qed

lemma walk_inj:
  assumes "m < name_max" and "n < name_max" and "walk key m = walk key n"
  shows "m = n"
proof -
  obtain i where i: "walk key m = Some ((Obfus key ^^ Suc i) m)" "\<forall>l < i. \<not> (Obfus key ^^ Suc l) m < name_max"
    using walk_first [OF assms(1)] by metis
  obtain j where j: "walk key n = Some ((Obfus key ^^ Suc j) n)" "\<forall>l < j. \<not> (Obfus key ^^ Suc l) n < name_max"
    using walk_first [OF assms(2)] by metis
  from assms(3) i(1) j(1) have eq: "(Obfus key ^^ Suc i) m = (Obfus key ^^ Suc j) n" by simp
  show ?thesis
  proof (cases "i \<le> j")
    case True
    then show ?thesis by (rule walk_inj_le [OF assms(1,2) eq j(2)])
  next
    case False
    then show ?thesis by (intro walk_inj_le [OF assms(2,1) eq [symmetric] i(2), symmetric]) simp
  qed
qed

lemma unat_name_max: "unat name_max = 207 * 420 * 409"
  by (simp add: name_max_def unat_of_nat)

lemma name_indices_inj:
  assumes "m < name_max" and "n < name_max" and "name_indices m = name_indices n"
  shows "m = n"
proof -
  have digits: "k = k mod 207 + 207 * (k div 207 mod 420 + 420 * (k div 207 div 420 mod 409))"
    if "k < 207 * 420 * 409" for k :: nat
  proof -
    have "k div 207 div 420 < 409" using that by (simp add: div_mult2_eq [symmetric] less_mult_imp_div_less)
    then have "k div 207 div 420 mod 409 = k div 207 div 420" by simp
    then show ?thesis by (metis add.commute div_mult_mod_eq mult.commute)
  qed
  have "unat m < 207 * 420 * 409" "unat n < 207 * 420 * 409"
    using assms(1,2) by (simp_all add: word_less_nat_alt unat_name_max)
  moreover have "unat m mod 207 = unat n mod 207" "unat m div 207 mod 420 = unat n div 207 mod 420"
    "unat m div 207 div 420 mod 409 = unat n div 207 div 420 mod 409"
    using assms(3) by (simp_all add: name_indices_def)
  ultimately have "unat m = unat n" using digits by metis
  then show ?thesis by (simp add: word_unat_eq_iff)
qed

text \<open>
  The walk of the name generator ends for every number below the number of names, whatever the
  seed, because a cipher is a permutation and the orbit of such a number comes back to it; the
  result is in range, a name is returned, and different numbers are given different triples of words.
\<close>

theorem name_Get_walks_into_range:
  assumes "m < name_max" and "n < name_max"
  shows "\<exists>m' n'. walk key m = Some m' \<and> walk key n = Some n' \<and> m' < name_max \<and>
    (\<exists>s. name_Get key m = Some s) \<and> (name_indices m' = name_indices n' \<longrightarrow> m = n)"
proof -
  obtain m' where m': "walk key m = Some m'" "m' < name_max" using walk_first [OF assms(1)] by metis
  obtain n' where n': "walk key n = Some n'" "n' < name_max" using walk_first [OF assms(2)] by metis
  have "m = n" if "name_indices m' = name_indices n'"
    using name_indices_inj [OF m'(2) n'(2) that] walk_inj [OF assms] m' n' by metis
  moreover have "\<exists>s. name_Get key m = Some s" using m' by (simp add: name_Get_def split: prod.split)
  ultimately show ?thesis using m' n' by blast
qed

theorem name_Get_walks_into_range_witness:
  "\<exists>m' n'. walk (replicate 10 0) 0 = Some m' \<and> walk (replicate 10 0) 1 = Some n' \<and> name_indices m' \<noteq> name_indices n'"
proof -
  have "(0 :: 32 word) < name_max" "(1 :: 32 word) < name_max" by (simp_all add: word_less_nat_alt unat_name_max)
  from name_Get_walks_into_range [OF this, of "replicate 10 0"] show ?thesis by fastforce
qed

end
