(* ===== verification/Wire.thy ===== *)
theory Wire
  imports Bytes
begin

text \<open>
  The wire format of protocol buffers, \<open>golang/protobuf/proto\<close>: the value encoders of
  \<open>encode.go\<close> and decoders of \<open>decode.go\<close>, the field encoders the program's messages use, and the
  loops over the fields of a struct. A buffer being written is the bytes written so far, a buffer
  being read is the bytes that are left.
\<close>

section \<open>Value encoders\<close>

function EncodeVarint :: "64 word \<Rightarrow> bytes" where
  "EncodeVarint x = (if 0x80 \<le> x then ucast (x AND 0x7f OR 0x80) # EncodeVarint (drop_bit 7 x) else [ucast x])"
  by pat_completeness auto

lemma unat_drop_7: "unat (drop_bit 7 (x :: 64 word)) = unat x div 128"
  by (simp only: unat_drop_bit_eq) (simp add: drop_bit_eq_div)

lemma drop_7_zero: "drop_bit 7 (x :: 64 word) = 0 \<longleftrightarrow> unat x < 128"
proof -
  have "drop_bit 7 x = 0 \<longleftrightarrow> unat (drop_bit 7 x) = 0" by (rule unat_eq_0 [symmetric])
  then show ?thesis by (simp only: unat_drop_7) (simp add: div_eq_0_iff)
qed

lemma drop_7_smaller: "drop_bit 7 (x :: 64 word) \<noteq> 0 \<Longrightarrow> unat (drop_bit 7 x) < unat x"
  by (simp only: unat_drop_7 drop_7_zero)

lemma ge_80_iff: "0x80 \<le> (x :: 64 word) \<longleftrightarrow> drop_bit 7 x \<noteq> 0"
  by (simp add: drop_7_zero word_le_nat_alt not_less)

termination EncodeVarint
  by (relation "measure unat") (auto simp: ge_80_iff intro: drop_7_smaller)

declare EncodeVarint.simps [simp del]

function sizeVarint :: "64 word \<Rightarrow> nat" where
  "sizeVarint x = (if drop_bit 7 x = 0 then 1 else Suc (sizeVarint (drop_bit 7 x)))"
  by pat_completeness auto
termination sizeVarint
  by (relation "measure unat") (auto intro: drop_7_smaller)

declare sizeVarint.simps [simp del]

definition EncodeFixed64 :: "64 word \<Rightarrow> bytes" where
  "EncodeFixed64 x = [ucast x, ucast (drop_bit 8 x), ucast (drop_bit 16 x), ucast (drop_bit 24 x),
     ucast (drop_bit 32 x), ucast (drop_bit 40 x), ucast (drop_bit 48 x), ucast (drop_bit 56 x)]"

definition EncodeFixed32 :: "64 word \<Rightarrow> bytes" where
  "EncodeFixed32 x = [ucast x, ucast (drop_bit 8 x), ucast (drop_bit 16 x), ucast (drop_bit 24 x)]"

definition EncodeZigzag64 :: "64 word \<Rightarrow> bytes" where
  "EncodeZigzag64 x = EncodeVarint (push_bit 1 x XOR signed_drop_bit 63 x)"

definition EncodeZigzag32 :: "64 word \<Rightarrow> bytes" where
  "EncodeZigzag32 x = (let y = (ucast x :: 32 word) in
     EncodeVarint (ucast (push_bit 1 y XOR signed_drop_bit 31 y)))"

definition EncodeRawBytes :: "bytes \<Rightarrow> bytes" where
  "EncodeRawBytes b = EncodeVarint (word_of_nat (length b)) @ b"

text \<open>Strings are their bytes.\<close>

definition byte_of :: "char \<Rightarrow> byte" where
  "byte_of c = word_of_nat (of_char c)"

definition char_of_byte :: "byte \<Rightarrow> char" where
  "char_of_byte b = char_of (unat b)"

definition EncodeStringBytes :: "string \<Rightarrow> bytes" where
  "EncodeStringBytes s = EncodeVarint (word_of_nat (length s)) @ map byte_of s"


section \<open>Value decoders\<close>

type_synonym 'a decoded = "('a \<times> bytes) result"

definition ErrUnexpectedEOF :: gerror where
  "ErrUnexpectedEOF = Errorf ''unexpected EOF''"

fun varint_loop :: "nat \<Rightarrow> 64 word \<Rightarrow> bytes \<Rightarrow> 64 word decoded" where
  "varint_loop sh x [] = (if sh < 64 then Inl ErrUnexpectedEOF else Inl (Errorf ''proto: integer overflow''))"
| "varint_loop sh x (b # bs) =
    (if sh < 64 then
       let x' = x OR push_bit sh (ucast b AND 0x7f) in
       if b < 0x80 then Inr (x', bs) else varint_loop (sh + 7) x' bs
     else Inl (Errorf ''proto: integer overflow''))"

definition DecodeVarint :: "bytes \<Rightarrow> 64 word decoded" where
  "DecodeVarint bs = varint_loop 0 0 bs"

definition DecodeFixed64 :: "bytes \<Rightarrow> 64 word decoded" where
  "DecodeFixed64 bs = (case bs of
     b0 # b1 # b2 # b3 # b4 # b5 # b6 # b7 # rest \<Rightarrow>
       Inr (ucast b0 OR push_bit 8 (ucast b1) OR push_bit 16 (ucast b2) OR push_bit 24 (ucast b3) OR
            push_bit 32 (ucast b4) OR push_bit 40 (ucast b5) OR push_bit 48 (ucast b6) OR push_bit 56 (ucast b7), rest)
   | _ \<Rightarrow> Inl ErrUnexpectedEOF)"

definition DecodeFixed32 :: "bytes \<Rightarrow> 64 word decoded" where
  "DecodeFixed32 bs = (case bs of
     b0 # b1 # b2 # b3 # rest \<Rightarrow>
       Inr (ucast b0 OR push_bit 8 (ucast b1) OR push_bit 16 (ucast b2) OR push_bit 24 (ucast b3), rest)
   | _ \<Rightarrow> Inl ErrUnexpectedEOF)"

fun bind_dec :: "'a decoded \<Rightarrow> ('a \<Rightarrow> bytes \<Rightarrow> 'b decoded) \<Rightarrow> 'b decoded" where
  "bind_dec (Inl e) f = Inl e"
| "bind_dec (Inr (x, bs)) f = f x bs"

definition DecodeZigzag64 :: "bytes \<Rightarrow> 64 word decoded" where
  "DecodeZigzag64 bs = bind_dec (DecodeVarint bs) (\<lambda>x rest.
     Inr (drop_bit 1 x XOR signed_drop_bit 63 (push_bit 63 (x AND 1)), rest))"

definition DecodeZigzag32 :: "bytes \<Rightarrow> 64 word decoded" where
  "DecodeZigzag32 bs = bind_dec (DecodeVarint bs) (\<lambda>x rest.
     Inr (ucast (drop_bit 1 (ucast x :: 32 word) XOR
       signed_drop_bit 31 (push_bit 31 (ucast (x AND 1) :: 32 word))), rest))"

definition DecodeRawBytes :: "bytes \<Rightarrow> bytes decoded" where
  "DecodeRawBytes bs = bind_dec (DecodeVarint bs) (\<lambda>n rest.
     let nb = sint n in
     if nb < 0 then Inl (Errorf (''proto: bad byte length '' @ show_int nb))
     else if int (length rest) < nb then Inl ErrUnexpectedEOF
     else Inr (take (nat nb) rest, drop (nat nb) rest))"

definition DecodeStringBytes :: "bytes \<Rightarrow> string decoded" where
  "DecodeStringBytes bs = bind_dec (DecodeRawBytes bs) (\<lambda>b rest. Inr (map char_of_byte b, rest))"


section \<open>Decoding what was encoded\<close>

lemma and_0x7f: "(w :: 'a :: len word) AND 0x7f = take_bit 7 w"
  by (simp add: take_bit_eq_mask mask_eq_exp_minus_1)

lemma or_0x80: "(w :: 'a :: len word) OR 0x80 = set_bit 7 w"
  by (simp add: set_bit_eq_or push_bit_eq_mult)

lemma bit_unat_iff: "bit (unat (w :: 'a :: len word)) n \<longleftrightarrow> bit w n"
  by (metis bit_unsigned_iff possible_bit_nat)

lemma byte_less_80: "(b :: byte) < 0x80 \<longleftrightarrow> \<not> bit b 7"
proof -
  have less: "b < 0x80 \<longleftrightarrow> unat b < 128" by (simp add: word_less_nat_alt)
  have "unat b < 256" using unsigned_less [of b] by simp
  then have two: "unat b div 128 = 0 \<or> unat b div 128 = 1" by linarith
  have "bit b 7 \<longleftrightarrow> odd (unat b div 128)" unfolding bit_unat_iff [symmetric] by (simp add: bit_iff_odd)
  with two show ?thesis unfolding less by (auto simp: div_eq_0_iff)
qed

lemma high_bits_zero: "unat (w :: 'a :: len word) < 2 ^ k \<Longrightarrow> k \<le> n \<Longrightarrow> \<not> bit w n"
proof -
  assume "unat w < 2 ^ k" "k \<le> n"
  then have "unat w < 2 ^ n" by (meson less_le_trans one_le_numeral power_increasing)
  then have "\<not> bit (unat w) n" by (simp add: bit_iff_odd)
  then show ?thesis by (simp add: bit_unat_iff)
qed

lemma varint_loop_step:
  assumes "sh < 64" and "unat y < 2 ^ (64 - sh)"
  shows "varint_loop sh x (EncodeVarint y @ rest) = Inr (x OR push_bit sh y, rest)"
  using assms
proof (induction y arbitrary: sh x rule: EncodeVarint.induct)
  case (1 y)
  show ?case
  proof (cases "0x80 \<le> y")
    case False
    then have small: "unat y < 2 ^ 7" by (simp add: word_le_nat_alt)
    have "(ucast y :: byte) < 0x80" unfolding byte_less_80 using high_bits_zero [OF small, of 7] by (simp add: bit_simps)
    moreover have "ucast (ucast y :: byte) AND 0x7f = y"
      unfolding and_0x7f using high_bits_zero [OF small] by (intro bit_word_eqI) (auto simp: bit_simps not_le [symmetric])
    ultimately show ?thesis
      using False 1(2) by (simp add: EncodeVarint.simps [of y])
  next
    case True
    then have big: "128 \<le> unat y" by (simp add: word_le_nat_alt)
    have sh: "sh + 7 < 64"
    proof (rule ccontr)
      assume "\<not> sh + 7 < 64"
      then have "(2 :: nat) ^ (64 - sh) \<le> 2 ^ 7" by (intro power_increasing) simp_all
      with big 1(3) show False by simp
    qed
    have "unat (drop_bit 7 y) < 2 ^ (64 - (sh + 7))"
    proof -
      have "(2 :: nat) ^ (64 - sh) = 2 ^ (64 - (sh + 7)) * 128"
        using sh by (simp add: power_add [symmetric, of "2 :: nat" _ 7, simplified] Suc_diff_le)
      with 1(3) show ?thesis unfolding unat_drop_7 by (simp add: less_mult_imp_div_less)
    qed
    from 1(1) [OF True sh this]
    have IH: "varint_loop (sh + 7) x' (EncodeVarint (drop_bit 7 y) @ rest) =
        Inr (x' OR push_bit (sh + 7) (drop_bit 7 y), rest)" for x' .
    have byte: "\<not> (ucast (y AND 0x7f OR 0x80) :: byte) < 0x80"
      unfolding byte_less_80 or_0x80 by (simp add: bit_simps)
    have low: "ucast (ucast (y AND 0x7f OR 0x80) :: byte) AND 0x7f = take_bit 7 y"
      unfolding and_0x7f or_0x80 by (rule bit_word_eqI) (auto simp: bit_simps)
    have "push_bit sh (take_bit 7 y) OR push_bit (sh + 7) (drop_bit 7 y) = push_bit sh y"
    proof (rule bit_word_eqI)
      fix n
      show "bit (push_bit sh (take_bit 7 y) OR push_bit (sh + 7) (drop_bit 7 y)) n \<longleftrightarrow> bit (push_bit sh y) n"
        by (cases "n < sh + 7") (auto simp: bit_simps)
    qed
    with IH byte low True 1(2) show ?thesis
      by (simp add: EncodeVarint.simps [of y] Let_def or.assoc)
  qed
qed

lemma DecodeVarint_Encode [simp]: "DecodeVarint (EncodeVarint x @ rest) = Inr (x, rest)"
  using varint_loop_step [of 0 x 0 rest] unsigned_less [of x] by (simp add: DecodeVarint_def)


lemma varint_loop_rest: "varint_loop sh x bs = Inr (v, rest) \<Longrightarrow> length rest < length bs"
  by (induction sh x bs rule: varint_loop.induct) (auto simp: Let_def split: if_splits)

lemma DecodeVarint_rest: "DecodeVarint bs = Inr (v, rest) \<Longrightarrow> length rest < length bs"
  by (simp add: DecodeVarint_def varint_loop_rest)

lemma length_EncodeVarint: "length (EncodeVarint x) = sizeVarint x"
  by (induction x rule: sizeVarint.induct)
    (simp add: EncodeVarint.simps [of x for x] sizeVarint.simps [of x for x] ge_80_iff)

lemma DecodeFixed64_Encode [simp]: "DecodeFixed64 (EncodeFixed64 x @ rest) = Inr (x, rest)"
proof -
  have "ucast (ucast x :: byte) OR push_bit 8 (ucast (ucast (drop_bit 8 x) :: byte)) OR
      push_bit 16 (ucast (ucast (drop_bit 16 x) :: byte)) OR push_bit 24 (ucast (ucast (drop_bit 24 x) :: byte)) OR
      push_bit 32 (ucast (ucast (drop_bit 32 x) :: byte)) OR push_bit 40 (ucast (ucast (drop_bit 40 x) :: byte)) OR
      push_bit 48 (ucast (ucast (drop_bit 48 x) :: byte)) OR push_bit 56 (ucast (ucast (drop_bit 56 x) :: byte)) = x"
    (is "?l = x")
  proof (rule bit_word_eqI)
    fix n assume "n < LENGTH(64)"
    then consider "n < 8" | "8 \<le> n" "n < 16" | "16 \<le> n" "n < 24" | "24 \<le> n" "n < 32" |
      "32 \<le> n" "n < 40" | "40 \<le> n" "n < 48" | "48 \<le> n" "n < 56" | "56 \<le> n" "n < 64" by fastforce
    then show "bit ?l n \<longleftrightarrow> bit x n" by cases (auto simp: bit_simps)
  qed
  then show ?thesis by (simp add: DecodeFixed64_def EncodeFixed64_def)
qed

lemma DecodeFixed32_Encode [simp]: "DecodeFixed32 (EncodeFixed32 x @ rest) = Inr (take_bit 32 x, rest)"
proof -
  have "ucast (ucast x :: byte) OR push_bit 8 (ucast (ucast (drop_bit 8 x) :: byte)) OR
      push_bit 16 (ucast (ucast (drop_bit 16 x) :: byte)) OR push_bit 24 (ucast (ucast (drop_bit 24 x) :: byte)) =
      take_bit 32 x" (is "?l = _")
  proof (rule bit_word_eqI)
    fix n assume "n < LENGTH(64)"
    then consider "n < 8" | "8 \<le> n" "n < 16" | "16 \<le> n" "n < 24" | "24 \<le> n" "n < 32" | "32 \<le> n" by fastforce
    then show "bit ?l n \<longleftrightarrow> bit (take_bit 32 x) n" by cases (auto simp: bit_simps)
  qed
  then show ?thesis by (simp add: DecodeFixed32_def EncodeFixed32_def)
qed

lemma bit_push_1: "bit (push_bit 1 (x :: 'a :: len word)) n \<longleftrightarrow> n < LENGTH('a) \<and> n \<noteq> 0 \<and> bit x (n - 1)"
  by (auto simp only: bit_push_bit_iff) auto

lemma bit_and_1: "bit ((x :: 'a :: len word) AND 1) n \<longleftrightarrow> n = 0 \<and> bit x 0"
  by (auto simp: bit_and_iff bit_1_iff)

lemma sign_fill: "signed_drop_bit (LENGTH('a) - 1) (w :: 'a :: len word) = (if bit w (LENGTH('a) - 1) then - 1 else 0)"
  by (rule bit_word_eqI) (auto simp: bit_signed_drop_bit_iff bit_minus_1_iff not_less_eq_eq split: if_splits
      dest: bit_imp_le_length)

lemma unzigzag:
  fixes x :: "'a :: len word"
  assumes "m = LENGTH('a) - 1"
  shows "drop_bit 1 (push_bit 1 x XOR signed_drop_bit m x) XOR
    signed_drop_bit m (push_bit m ((push_bit 1 x XOR signed_drop_bit m x) AND 1)) = x"
proof -
  let ?s = "if bit x m then - 1 else (0 :: 'a word)"
  have s: "signed_drop_bit m x = ?s" unfolding assms by (rule sign_fill)
  have "bit (push_bit m ((push_bit 1 x XOR ?s) AND 1)) m \<longleftrightarrow> bit x m"
    by (auto simp only: bit_push_bit_iff bit_and_1 bit_xor_iff bit_push_1 split: if_splits)
      (auto simp: assms)
  then have "signed_drop_bit m (push_bit m ((push_bit 1 x XOR ?s) AND 1)) = ?s"
    unfolding assms by (simp only: sign_fill)
  moreover have "drop_bit 1 (push_bit 1 x XOR ?s) XOR ?s = x"
  proof (rule bit_word_eqI)
    fix n assume n: "n < LENGTH('a)"
    show "bit (drop_bit 1 (push_bit 1 x XOR ?s) XOR ?s) n \<longleftrightarrow> bit x n"
    proof (cases "n = m")
      case True
      then have "\<not> bit (push_bit 1 x XOR ?s) (1 + n)" using assms n bit_imp_le_length by fastforce
      with True n show ?thesis by (auto simp: bit_xor_iff bit_drop_bit_eq)
    next
      case False
      with n assms have "1 + n < LENGTH('a)" by simp
      then show ?thesis by (auto simp only: bit_xor_iff bit_drop_bit_eq comp_apply bit_push_1 split: if_splits) auto
    qed
  qed
  ultimately show ?thesis by (simp only: s)
qed

lemma DecodeZigzag64_Encode: "DecodeZigzag64 (EncodeZigzag64 x @ rest) = Inr (x, rest)"
  using unzigzag [of 63 x] by (simp add: DecodeZigzag64_def EncodeZigzag64_def)

lemma DecodeZigzag32_Encode: "DecodeZigzag32 (EncodeZigzag32 x @ rest) = Inr (take_bit 32 x, rest)"
proof -
  let ?y = "ucast x :: 32 word"
  let ?z = "push_bit 1 ?y XOR signed_drop_bit 31 ?y"
  have "ucast (ucast ?z :: 64 word) = ?z" "(ucast ((ucast ?z :: 64 word) AND 1) :: 32 word) = ?z AND 1"
    by (rule bit_word_eqI, auto simp: bit_simps)+
  moreover have "(ucast ?y :: 64 word) = take_bit 32 x"
    by (rule bit_word_eqI) (auto simp: bit_simps)
  ultimately show ?thesis
    using unzigzag [of 31 ?y] by (simp add: DecodeZigzag32_def EncodeZigzag32_def Let_def)
qed

lemma sint_length: "n < 2 ^ 63 \<Longrightarrow> sint (word_of_nat n :: 64 word) = int n"
  using wrap64_id [of "int n"] by (simp add: wrap64_def)

lemma DecodeRawBytes_Encode:
  "length b < 2 ^ 63 \<Longrightarrow> DecodeRawBytes (EncodeRawBytes b @ rest) = Inr (b, rest)"
  by (simp add: DecodeRawBytes_def EncodeRawBytes_def sint_length)

lemma char_of_byte_of [simp]: "char_of_byte (byte_of c) = c"
proof -
  have "unat (word_of_nat (of_char c) :: byte) = of_char c" by (simp add: unat_of_nat)
  then show ?thesis by (simp add: char_of_byte_def byte_of_def)
qed

lemma DecodeStringBytes_Encode:
  "length s < 2 ^ 63 \<Longrightarrow> DecodeStringBytes (EncodeStringBytes s @ rest) = Inr (s, rest)"
  by (simp add: DecodeStringBytes_def DecodeRawBytes_def EncodeStringBytes_def sint_length comp_def)

text \<open>
  Every value encoding of the wire format is undone by its decoder, which leaves what follows:
  varints, 64-bit values and zigzag numbers completely, 32-bit ones up to their 32 bits, byte
  strings and strings that fit a Go slice; a varint takes as many bytes as \<open>sizeVarint\<close> says.
\<close>

theorem decoders_undo_encoders:
  "DecodeVarint (EncodeVarint x @ rest) = Inr (x, rest) \<and>
   length (EncodeVarint x) = sizeVarint x \<and>
   DecodeFixed64 (EncodeFixed64 x @ rest) = Inr (x, rest) \<and>
   DecodeFixed32 (EncodeFixed32 x @ rest) = Inr (take_bit 32 x, rest) \<and>
   DecodeZigzag64 (EncodeZigzag64 x @ rest) = Inr (x, rest) \<and>
   DecodeZigzag32 (EncodeZigzag32 x @ rest) = Inr (take_bit 32 x, rest) \<and>
   (length b < 2 ^ 63 \<longrightarrow> DecodeRawBytes (EncodeRawBytes b @ rest) = Inr (b, rest)) \<and>
   (length s < 2 ^ 63 \<longrightarrow> DecodeStringBytes (EncodeStringBytes s @ rest) = Inr (s, rest))"
  by (simp add: length_EncodeVarint DecodeZigzag64_Encode DecodeZigzag32_Encode DecodeRawBytes_Encode
      DecodeStringBytes_Encode)

theorem decoders_undo_encoders_witness:
  "DecodeRawBytes (EncodeRawBytes [1, 2] @ [3]) = Inr ([1, 2], [3]) \<and>
   DecodeStringBytes (EncodeStringBytes ''ab'' @ [3]) = Inr (''ab'', [3])"
  using decoders_undo_encoders [of 0 "[3]" "[1, 2]" "''ab''"] by simp

end
