(* ===== verification/ByteIO.thy ===== *)
theory ByteIO
  imports Wire
begin

text \<open>
  Bytes on a stream: integers in network byte order (\<open>encoding/binary.BigEndian\<close>), \<open>io.ReadFull\<close> on the
  bytes a reader will deliver, and the contract that the framings share: what one write puts on the
  stream, one read takes off again, whatever follows it.
\<close>

unbundle bit_operations_syntax

definition be32 :: "32 word \<Rightarrow> bytes" where
  "be32 n = [ucast (drop_bit 24 n), ucast (drop_bit 16 n), ucast (drop_bit 8 n), ucast n]"

definition be16 :: "16 word \<Rightarrow> bytes" where
  "be16 n = [ucast (drop_bit 8 n), ucast n]"

definition join_be32 :: "byte \<Rightarrow> byte \<Rightarrow> byte \<Rightarrow> byte \<Rightarrow> 32 word" where
  "join_be32 b0 b1 b2 b3 = push_bit 24 (ucast b0) OR push_bit 16 (ucast b1) OR push_bit 8 (ucast b2) OR ucast b3"

definition join_be16 :: "byte \<Rightarrow> byte \<Rightarrow> 16 word" where
  "join_be16 b0 b1 = push_bit 8 (ucast b0) OR ucast b1"

lemma be32_back: "push_bit 24 (ucast (ucast (drop_bit 24 n) :: byte)) OR push_bit 16 (ucast (ucast (drop_bit 16 n) :: byte)) OR
    push_bit 8 (ucast (ucast (drop_bit 8 n) :: byte)) OR ucast (ucast n :: byte) = (n :: 32 word)" (is "?l = n")
proof (rule bit_word_eqI)
  fix k assume "k < LENGTH(32)"
  then consider "k < 8" | "8 \<le> k" "k < 16" | "16 \<le> k" "k < 24" | "24 \<le> k" "k < 32" by fastforce
  then show "bit ?l k \<longleftrightarrow> bit n k" by cases (auto simp: bit_simps)
qed

lemma be16_back: "push_bit 8 (ucast (ucast (drop_bit 8 n) :: byte)) OR ucast (ucast n :: byte) = (n :: 16 word)" (is "?l = n")
proof (rule bit_word_eqI)
  fix k assume "k < LENGTH(16)"
  then consider "k < 8" | "8 \<le> k" "k < 16" by fastforce
  then show "bit ?l k \<longleftrightarrow> bit n k" by cases (auto simp: bit_simps)
qed

lemma join_be32_back [simp]:
  "join_be32 (ucast (drop_bit 24 n)) (ucast (drop_bit 16 n)) (ucast (drop_bit 8 n)) (ucast n) = n"
  by (simp add: join_be32_def be32_back)

lemma join_be16_back [simp]: "join_be16 (ucast (drop_bit 8 n)) (ucast n) = n"
  by (simp add: join_be16_def be16_back)

lemma length_be32 [simp]: "length (be32 n) = 4"
  by (simp add: be32_def)

lemma length_be16 [simp]: "length (be16 n) = 2"
  by (simp add: be16_def)


section \<open>Reading a fixed number of bytes\<close>

text \<open>
  \<open>io.ReadFull\<close> fails with \<open>EOF\<close> when there is nothing, and with an unexpected \<open>EOF\<close> when there is too
  little.
\<close>

definition ReadFull :: "nat \<Rightarrow> bytes \<Rightarrow> bytes decoded" where
  "ReadFull n s = (if n \<le> length s then Inr (take n s, drop n s)
     else if s = [] then Inl IoEOF else Inl ErrUnexpectedEOF)"

lemma ReadFull_append [simp]: "ReadFull (length a) (a @ s) = Inr (a, s)"
  by (simp add: ReadFull_def)

lemma ReadFull_appendI: "n = length a \<Longrightarrow> ReadFull n (a @ s) = Inr (a, s)"
  by simp

lemma ReadFull_InrD:
  assumes "ReadFull n s = Inr (a, s')"
  shows "s = a @ s'" and "length a = n"
  using assms by (auto simp: ReadFull_def split: if_splits)


section \<open>Framed messages\<close>

primrec get_n :: "(bytes \<Rightarrow> 'e + 'b \<times> bytes) \<Rightarrow> nat \<Rightarrow> bytes \<Rightarrow> 'e + 'b list \<times> bytes" where
  "get_n get 0 s = Inr ([], s)"
| "get_n get (Suc n) s = (case get s of
     Inl e \<Rightarrow> Inl e
   | Inr (x, s1) \<Rightarrow> (case get_n get n s1 of Inl e \<Rightarrow> Inl e | Inr (xs, s2) \<Rightarrow> Inr (x # xs, s2)))"

locale framing =
  fixes put :: "'a \<Rightarrow> bytes" and get :: "bytes \<Rightarrow> 'e + 'b \<times> bytes"
    and ok :: "'a \<Rightarrow> bool" and seen :: "'a \<Rightarrow> 'b"
  assumes get_put: "ok x \<Longrightarrow> get (put x @ s) = Inr (seen x, s)"
begin

lemma get_n_puts:
  assumes "list_all ok xs"
  shows "get_n get (length xs) (concat (map put xs) @ s) = Inr (map seen xs, s)"
  using assms by (induction xs) (auto simp: get_put)

lemma puts_inj_seen:
  assumes "ok x" and "ok y" and "put x @ s = put y @ t"
  shows "seen x = seen y" and "s = t"
  using get_put [OF assms(1), of s] get_put [OF assms(2), of t] assms(3) by auto

end

end
