(* ===== verification/Proto.thy ===== *)
theory Proto
  imports ByteIO Messages
begin

text \<open>
  Messages on the wire: the field encoders and decoders of \<open>golang/protobuf/proto\<close> that the
  generated code of the two services uses, the loops \<open>enc_struct\<close> and \<open>unmarshalType\<close> over the
  fields of a struct, the \<open>oneof\<close> functions of \<open>scheduler.pb.go\<close>, and the five-byte frame gRPC puts
  around a message. An encoder takes the buffer written so far and returns it extended, or \<open>None\<close> for
  \<open>ErrNil\<close>, a field that is not written. The loops that read have fuel; \<open>None\<close> is fuel that ran out.
\<close>

section \<open>Field encoders\<close>

definition tagcode :: "nat \<Rightarrow> nat \<Rightarrow> bytes" where
  "tagcode tag wire = EncodeVarint (word_of_nat (8 * tag + wire))"

definition enc_proto3_bool :: "bytes \<Rightarrow> bool \<Rightarrow> bytes \<Rightarrow> bytes option" where
  "enc_proto3_bool code v buf = (if \<not> v then None else Some (buf @ code @ EncodeVarint 1))"

definition enc_proto3_int32 :: "bytes \<Rightarrow> int32 \<Rightarrow> bytes \<Rightarrow> bytes option" where
  "enc_proto3_int32 code x buf = (if x = 0 then None else Some (buf @ code @ EncodeVarint (scast x)))"

definition enc_proto3_int64 :: "(64 word \<Rightarrow> bytes) \<Rightarrow> bytes \<Rightarrow> 64 word \<Rightarrow> bytes \<Rightarrow> bytes option" where
  "enc_proto3_int64 valEnc code x buf = (if x = 0 then None else Some (buf @ code @ valEnc x))"

definition enc_proto3_string :: "bytes \<Rightarrow> string \<Rightarrow> bytes \<Rightarrow> bytes option" where
  "enc_proto3_string code v buf = (if v = '''' then None else Some (buf @ code @ EncodeStringBytes v))"

text \<open>
  A nested message is written behind four reserved bytes; then it is moved to where its length, as a
  varint, ends, and the length is written over the reserved space. \<open>copy_at\<close> is Go's \<open>copy\<close> into a
  slice of the buffer.
\<close>

definition copy_at :: "nat \<Rightarrow> bytes \<Rightarrow> bytes \<Rightarrow> bytes" where
  "copy_at i src buf = take i buf @ take (length buf - i) src @ drop (i + length src) buf"

definition enc_len_thing :: "(bytes \<Rightarrow> bytes) \<Rightarrow> bytes \<Rightarrow> bytes" where
  "enc_len_thing enc buf =
    (let iLen = length buf;
         b1 = buf @ [0, 0, 0, 0];
         iMsg = length b1;
         b2 = enc b1;
         lMsg = length b2 - iMsg;
         lLen = sizeVarint (word_of_nat lMsg);
         msg = take lMsg (drop iMsg b2);
         b3 = (if 4 < lLen then copy_at (iMsg + (lLen - 4)) msg (b2 @ replicate (lLen - 4) 0)
               else if lLen < 4 then take (length b2 - (4 - lLen)) (copy_at (iMsg - (4 - lLen)) msg b2)
               else b2);
         v = EncodeVarint (word_of_nat lMsg) in
     take (iLen + length v + lMsg) (copy_at iLen v b3))"

record 'm Properties =
  p_Name :: string
  p_Tag :: nat
  p_WireType :: nat
  p_enc :: "'m \<Rightarrow> bytes \<Rightarrow> bytes option"
  p_dec :: "bytes \<Rightarrow> 'm \<Rightarrow> 'm decoded option"

record 'm StructProperties =
  sp_stype :: string
  sp_Prop :: "'m Properties list"
  sp_oneofMarshaler :: "'m \<Rightarrow> bytes \<Rightarrow> bytes"
  sp_oneofUnmarshaler :: "nat \<Rightarrow> nat \<Rightarrow> bytes \<Rightarrow> 'm \<Rightarrow> 'm decoded option option"

fun enc_fields :: "'m Properties list \<Rightarrow> 'm \<Rightarrow> bytes \<Rightarrow> bytes" where
  "enc_fields [] m buf = buf"
| "enc_fields (p # ps) m buf = enc_fields ps m (case p_enc p m buf of None \<Rightarrow> buf | Some buf' \<Rightarrow> buf')"

definition enc_struct :: "'m StructProperties \<Rightarrow> 'm \<Rightarrow> bytes \<Rightarrow> bytes" where
  "enc_struct prop m buf = sp_oneofMarshaler prop m (enc_fields (sp_Prop prop) m buf)"

definition enc_len_struct :: "'m StructProperties \<Rightarrow> 'm \<Rightarrow> bytes \<Rightarrow> bytes" where
  "enc_len_struct prop m buf = enc_len_thing (enc_struct prop m) buf"

definition enc_struct_message :: "bytes \<Rightarrow> 's StructProperties \<Rightarrow> 's option \<Rightarrow> bytes \<Rightarrow> bytes option" where
  "enc_struct_message code sprop v buf = (case v of
     None \<Rightarrow> None
   | Some s \<Rightarrow> Some (enc_len_struct sprop s (buf @ code)))"

definition Marshal :: "'m StructProperties \<Rightarrow> 'm \<Rightarrow> bytes" where
  "Marshal prop m = enc_struct prop m []"


section \<open>Field decoders\<close>

definition lift_dec :: "('v \<Rightarrow> 'm \<Rightarrow> 'm) \<Rightarrow> 'm \<Rightarrow> 'v decoded \<Rightarrow> 'm decoded option" where
  "lift_dec upd m r = Some (bind_dec r (\<lambda>v rest. Inr (upd v m, rest)))"

definition dec_proto3_bool :: "(bool \<Rightarrow> 'm \<Rightarrow> 'm) \<Rightarrow> bytes \<Rightarrow> 'm \<Rightarrow> 'm decoded option" where
  "dec_proto3_bool upd bs m = lift_dec (\<lambda>u. upd (u \<noteq> 0)) m (DecodeVarint bs)"

definition dec_proto3_int32 :: "(int32 \<Rightarrow> 'm \<Rightarrow> 'm) \<Rightarrow> bytes \<Rightarrow> 'm \<Rightarrow> 'm decoded option" where
  "dec_proto3_int32 upd bs m = lift_dec (\<lambda>u. upd (ucast u)) m (DecodeVarint bs)"

definition dec_proto3_int64 ::
  "(bytes \<Rightarrow> 64 word decoded) \<Rightarrow> (64 word \<Rightarrow> 'm \<Rightarrow> 'm) \<Rightarrow> bytes \<Rightarrow> 'm \<Rightarrow> 'm decoded option" where
  "dec_proto3_int64 valDec upd bs m = lift_dec upd m (valDec bs)"

definition dec_proto3_string :: "(string \<Rightarrow> 'm \<Rightarrow> 'm) \<Rightarrow> bytes \<Rightarrow> 'm \<Rightarrow> 'm decoded option" where
  "dec_proto3_string upd bs m = lift_dec upd m (DecodeStringBytes bs)"

text \<open>Skipping a field of unknown number; a group is skipped field by field up to its end.\<close>

definition drop_value :: "'a decoded \<Rightarrow> bytes result option" where
  "drop_value r = Some (case r of Inl e \<Rightarrow> Inl e | Inr (_, rest) \<Rightarrow> Inr rest)"

fun skip :: "string \<Rightarrow> nat \<Rightarrow> nat \<Rightarrow> bytes \<Rightarrow> bytes result option"
and skip_group :: "string \<Rightarrow> nat \<Rightarrow> bytes \<Rightarrow> bytes result option" where
  "skip st 0 wire bs = None"
| "skip st (Suc n) wire bs =
    (if wire = 0 then drop_value (DecodeVarint bs)
     else if wire = 1 then drop_value (DecodeFixed64 bs)
     else if wire = 2 then drop_value (DecodeRawBytes bs)
     else if wire = 5 then drop_value (DecodeFixed32 bs)
     else if wire = 3 then skip_group st n bs
     else Some (Inl (Errorf (''proto: can't skip unknown wire type '' @ show_nat wire @ '' for '' @ st))))"
| "skip_group st 0 bs = None"
| "skip_group st (Suc n) bs = (case DecodeVarint bs of
     Inl e \<Rightarrow> Some (Inl e)
   | Inr (u, rest) \<Rightarrow>
       if u AND 7 = 4 then Some (Inr rest)
       else (case skip st n (unat (u AND 7)) rest of
         None \<Rightarrow> None
       | Some (Inl e) \<Rightarrow> Some (Inl e)
       | Some (Inr rest') \<Rightarrow> skip_group st n rest'))"

definition skip_fuel :: "bytes \<Rightarrow> nat" where
  "skip_fuel bs = 2 * length bs + 2"

text \<open>One turn of the loop of \<open>unmarshalType\<close>, and the loop.\<close>

definition unmarshal_field :: "'m StructProperties \<Rightarrow> bytes \<Rightarrow> 'm \<Rightarrow> 'm decoded option" where
  "unmarshal_field prop bs m = (case DecodeVarint bs of
     Inl e \<Rightarrow> Some (Inl e)
   | Inr (u, rest) \<Rightarrow>
       let wire = unat (u AND 7); tag = unat (drop_bit 3 u) in
       if wire = 4 then Some (Inl (Errorf (''proto: '' @ sp_stype prop @ '': wiretype end group for non-group'')))
       else if tag = 0 then Some (Inl (Errorf (''proto: '' @ sp_stype prop @ '': illegal tag 0 (wire type '' @ show_nat wire @ '')'')))
       else (case find (\<lambda>p. p_Tag p = tag) (sp_Prop prop) of
         None \<Rightarrow> (case sp_oneofUnmarshaler prop tag wire rest m of
             Some r \<Rightarrow> r
           | None \<Rightarrow> (case skip (sp_stype prop) (skip_fuel rest) wire rest of
               None \<Rightarrow> None
             | Some (Inl e) \<Rightarrow> Some (Inl e)
             | Some (Inr rest') \<Rightarrow> Some (Inr (m, rest'))))
       | Some p \<Rightarrow>
           if wire \<noteq> 3 \<and> wire \<noteq> p_WireType p then Some (Inl (Errorf (''proto: bad wiretype for field '' @
             sp_stype prop @ ''.'' @ p_Name p @ '': got wiretype '' @ show_nat wire @ '', want '' @ show_nat (p_WireType p))))
           else p_dec p rest m))"

fun unmarshalType :: "nat \<Rightarrow> 'm StructProperties \<Rightarrow> bytes \<Rightarrow> 'm \<Rightarrow> 'm result option" where
  "unmarshalType 0 prop bs m = None"
| "unmarshalType (Suc n) prop bs m =
    (if bs = [] then Some (Inr m)
     else case unmarshal_field prop bs m of
       None \<Rightarrow> None
     | Some (Inl e) \<Rightarrow> Some (Inl e)
     | Some (Inr (m', rest)) \<Rightarrow> unmarshalType n prop rest m')"

definition Unmarshal :: "'m StructProperties \<Rightarrow> bytes \<Rightarrow> 'm \<Rightarrow> 'm result option" where
  "Unmarshal prop bs m = unmarshalType (Suc (length bs)) prop bs m"

definition DecodeMessage :: "'s StructProperties \<Rightarrow> bytes \<Rightarrow> 's \<Rightarrow> 's decoded option" where
  "DecodeMessage sprop bs s = (case DecodeRawBytes bs of
     Inl e \<Rightarrow> Some (Inl e)
   | Inr (enc, rest) \<Rightarrow> (case Unmarshal sprop enc s of
       None \<Rightarrow> None
     | Some (Inl e) \<Rightarrow> Some (Inl e)
     | Some (Inr s') \<Rightarrow> Some (Inr (s', rest))))"

definition dec_struct_message ::
  "'s StructProperties \<Rightarrow> 's \<Rightarrow> ('m \<Rightarrow> 's option) \<Rightarrow> ('s option \<Rightarrow> 'm \<Rightarrow> 'm) \<Rightarrow> bytes \<Rightarrow> 'm \<Rightarrow> 'm decoded option" where
  "dec_struct_message sprop zero get upd bs m =
    (case DecodeMessage sprop bs (case get m of None \<Rightarrow> zero | Some s \<Rightarrow> s) of
       None \<Rightarrow> None
     | Some (Inl e) \<Rightarrow> Some (Inl e)
     | Some (Inr (s, rest)) \<Rightarrow> Some (Inr (upd (Some s) m, rest)))"


section \<open>Properties of the field types\<close>

definition bool_field :: "string \<Rightarrow> nat \<Rightarrow> ('m \<Rightarrow> bool) \<Rightarrow> (bool \<Rightarrow> 'm \<Rightarrow> 'm) \<Rightarrow> 'm Properties" where
  "bool_field nm tag get upd = \<lparr>p_Name = nm, p_Tag = tag, p_WireType = 0,
     p_enc = (\<lambda>m. enc_proto3_bool (tagcode tag 0) (get m)), p_dec = dec_proto3_bool upd\<rparr>"

definition int32_field :: "string \<Rightarrow> nat \<Rightarrow> ('m \<Rightarrow> int32) \<Rightarrow> (int32 \<Rightarrow> 'm \<Rightarrow> 'm) \<Rightarrow> 'm Properties" where
  "int32_field nm tag get upd = \<lparr>p_Name = nm, p_Tag = tag, p_WireType = 0,
     p_enc = (\<lambda>m. enc_proto3_int32 (tagcode tag 0) (get m)), p_dec = dec_proto3_int32 upd\<rparr>"

definition int64_field :: "string \<Rightarrow> nat \<Rightarrow> ('m \<Rightarrow> 64 word) \<Rightarrow> (64 word \<Rightarrow> 'm \<Rightarrow> 'm) \<Rightarrow> 'm Properties" where
  "int64_field nm tag get upd = \<lparr>p_Name = nm, p_Tag = tag, p_WireType = 0,
     p_enc = (\<lambda>m. enc_proto3_int64 EncodeVarint (tagcode tag 0) (get m)), p_dec = dec_proto3_int64 DecodeVarint upd\<rparr>"

definition double_field :: "string \<Rightarrow> nat \<Rightarrow> ('m \<Rightarrow> 64 word) \<Rightarrow> (64 word \<Rightarrow> 'm \<Rightarrow> 'm) \<Rightarrow> 'm Properties" where
  "double_field nm tag get upd = \<lparr>p_Name = nm, p_Tag = tag, p_WireType = 1,
     p_enc = (\<lambda>m. enc_proto3_int64 EncodeFixed64 (tagcode tag 1) (get m)), p_dec = dec_proto3_int64 DecodeFixed64 upd\<rparr>"

definition string_field :: "string \<Rightarrow> nat \<Rightarrow> ('m \<Rightarrow> string) \<Rightarrow> (string \<Rightarrow> 'm \<Rightarrow> 'm) \<Rightarrow> 'm Properties" where
  "string_field nm tag get upd = \<lparr>p_Name = nm, p_Tag = tag, p_WireType = 2,
     p_enc = (\<lambda>m. enc_proto3_string (tagcode tag 2) (get m)), p_dec = dec_proto3_string upd\<rparr>"

definition message_field ::
  "string \<Rightarrow> nat \<Rightarrow> 's StructProperties \<Rightarrow> 's \<Rightarrow> ('m \<Rightarrow> 's option) \<Rightarrow> ('s option \<Rightarrow> 'm \<Rightarrow> 'm) \<Rightarrow> 'm Properties" where
  "message_field nm tag sprop zero get upd = \<lparr>p_Name = nm, p_Tag = tag, p_WireType = 2,
     p_enc = (\<lambda>m. enc_struct_message (tagcode tag 2) sprop (get m)), p_dec = dec_struct_message sprop zero get upd\<rparr>"

definition plain :: "string \<Rightarrow> 'm Properties list \<Rightarrow> 'm StructProperties" where
  "plain st ps = \<lparr>sp_stype = st, sp_Prop = ps, sp_oneofMarshaler = (\<lambda>m buf. buf), sp_oneofUnmarshaler = (\<lambda>tag wire bs m. None)\<rparr>"


section \<open>The program's messages\<close>

text \<open>
  The fields with the numbers and types of the struct tags; \<open>bits\<close> and \<open>of_bits\<close> are the memory
  representation of a \<open>float64\<close>.
\<close>

definition StatusMessage_props :: "StatusMessage StructProperties" where
  "StatusMessage_props = plain ''pb.StatusMessage'' [string_field ''Status'' 1 Status (\<lambda>v m. m\<lparr>Status := v\<rparr>)]"

definition ScriptParams_props :: "(f64 \<Rightarrow> 64 word) \<Rightarrow> (64 word \<Rightarrow> f64) \<Rightarrow> ScriptParams StructProperties" where
  "ScriptParams_props bits of_bits = plain ''pb.ScriptParams''
    [string_field ''Url'' 1 Url (\<lambda>v m. m\<lparr>Url := v\<rparr>),
     string_field ''Script'' 2 Script (\<lambda>v m. m\<lparr>Script := v\<rparr>),
     string_field ''ScriptId'' 3 ScriptId (\<lambda>v m. m\<lparr>ScriptId := v\<rparr>),
     int32_field ''RunTime'' 4 RunTime (\<lambda>v m. m\<lparr>RunTime := v\<rparr>),
     int32_field ''MaxWorkers'' 6 MaxWorkers (\<lambda>v m. m\<lparr>MaxWorkers := v\<rparr>),
     double_field ''GrowthFactor'' 8 (\<lambda>m. bits (GrowthFactor m)) (\<lambda>v m. m\<lparr>GrowthFactor := of_bits v\<rparr>),
     double_field ''TimeBetweenGrowth'' 9 (\<lambda>m. bits (TimeBetweenGrowth m)) (\<lambda>v m. m\<lparr>TimeBetweenGrowth := of_bits v\<rparr>),
     int32_field ''StartingRequestsPerSecond'' 10 StartingRequestsPerSecond (\<lambda>v m. m\<lparr>StartingRequestsPerSecond := v\<rparr>),
     int32_field ''MaxRequestsPerSecond'' 11 MaxRequestsPerSecond (\<lambda>v m. m\<lparr>MaxRequestsPerSecond := v\<rparr>)]"

definition zero_ScriptParams :: ScriptParams where
  "zero_ScriptParams = \<lparr>Url = '''', Script = '''', ScriptId = '''', RunTime = 0, MaxWorkers = 0, GrowthFactor = Fin 0,
     TimeBetweenGrowth = Fin 0, StartingRequestsPerSecond = 0, MaxRequestsPerSecond = 0\<rparr>"

definition CommandMessage_props :: "(f64 \<Rightarrow> 64 word) \<Rightarrow> (64 word \<Rightarrow> f64) \<Rightarrow> CommandMessage StructProperties" where
  "CommandMessage_props bits of_bits = plain ''pb.CommandMessage''
    [string_field ''Command'' 1 Command (\<lambda>v m. m\<lparr>Command := v\<rparr>),
     message_field ''ScriptParams'' 2 (ScriptParams_props bits of_bits) zero_ScriptParams ScriptParamsPtr (\<lambda>v m. m\<lparr>ScriptParamsPtr := v\<rparr>),
     string_field ''ScriptConfig'' 3 ScriptConfig (\<lambda>v m. m\<lparr>ScriptConfig := v\<rparr>)]"

definition zero_CommandMessage :: CommandMessage where
  "zero_CommandMessage = \<lparr>Command = '''', ScriptParamsPtr = None, ScriptConfig = ''''\<rparr>"

definition LoadTestReq_props :: "(f64 \<Rightarrow> 64 word) \<Rightarrow> (64 word \<Rightarrow> f64) \<Rightarrow> LoadTestReq StructProperties" where
  "LoadTestReq_props bits of_bits = plain ''pb.LoadTestReq''
    [string_field ''Url'' 1 req_Url (\<lambda>v m. m\<lparr>req_Url := v\<rparr>),
     string_field ''Script'' 2 req_Script (\<lambda>v m. m\<lparr>req_Script := v\<rparr>),
     string_field ''ScriptName'' 3 req_ScriptName (\<lambda>v m. m\<lparr>req_ScriptName := v\<rparr>),
     int32_field ''RunTime'' 4 req_RunTime (\<lambda>v m. m\<lparr>req_RunTime := v\<rparr>),
     double_field ''GrowthFactor'' 8 (\<lambda>m. bits (req_GrowthFactor m)) (\<lambda>v m. m\<lparr>req_GrowthFactor := of_bits v\<rparr>),
     double_field ''TimeBetweenGrowth'' 9 (\<lambda>m. bits (req_TimeBetweenGrowth m)) (\<lambda>v m. m\<lparr>req_TimeBetweenGrowth := of_bits v\<rparr>),
     int32_field ''StartingRequestsPerSecond'' 10 req_StartingRequestsPerSecond (\<lambda>v m. m\<lparr>req_StartingRequestsPerSecond := v\<rparr>),
     int32_field ''MaxRequestsPerSecond'' 11 req_MaxRequestsPerSecond (\<lambda>v m. m\<lparr>req_MaxRequestsPerSecond := v\<rparr>),
     string_field ''ScriptConfig'' 12 req_ScriptConfig (\<lambda>v m. m\<lparr>req_ScriptConfig := v\<rparr>)]"

definition zero_LoadTestReq :: LoadTestReq where
  "zero_LoadTestReq = \<lparr>req_Url = '''', req_Script = '''', req_ScriptName = '''', req_RunTime = 0, req_GrowthFactor = Fin 0,
     req_TimeBetweenGrowth = Fin 0, req_StartingRequestsPerSecond = 0, req_MaxRequestsPerSecond = 0,
     req_ScriptConfig = ''''\<rparr>"

text \<open>The \<open>oneof\<close> of \<open>LoadTestResp\<close>; the messages of its cases are a count, nothing, nothing and a text.\<close>

definition Preparing_props :: "int32 StructProperties" where
  "Preparing_props = plain ''pb.LoadTestResp_Preparing'' [int32_field ''Count'' 1 id (\<lambda>v m. v)]"

definition Started_props :: "unit StructProperties" where
  "Started_props = plain ''pb.LoadTestResp_Started'' []"

definition Finished_props :: "unit StructProperties" where
  "Finished_props = plain ''pb.LoadTestResp_Finished'' []"

definition Errored_props :: "string StructProperties" where
  "Errored_props = plain ''pb.LoadTestResp_Errored'' [string_field ''Error'' 1 id (\<lambda>v m. v)]"

definition LoadTestResp_OneofMarshaler :: "LoadTestResp \<Rightarrow> bytes \<Rightarrow> bytes" where
  "LoadTestResp_OneofMarshaler m b = (case Phase m of
     Some (Preparing n) \<Rightarrow> enc_len_struct Preparing_props n (b @ tagcode 1 2)
   | Some Started \<Rightarrow> enc_len_struct Started_props () (b @ tagcode 2 2)
   | Some Finished \<Rightarrow> enc_len_struct Finished_props () (b @ tagcode 3 2)
   | Some (Errored e) \<Rightarrow> enc_len_struct Errored_props e (b @ tagcode 4 2)
   | None \<Rightarrow> b)"

definition oneof_case ::
  "'s StructProperties \<Rightarrow> 's \<Rightarrow> ('s \<Rightarrow> LoadTestResp_Phase) \<Rightarrow> nat \<Rightarrow> bytes \<Rightarrow> LoadTestResp \<Rightarrow> LoadTestResp decoded option option" where
  "oneof_case sprop zero mk wire bs m =
    (if wire \<noteq> 2 then Some (Some (Inl (Errorf ''bad wiretype for oneof field in *pb.LoadTestResp'')))
     else Some (case DecodeMessage sprop bs zero of
       None \<Rightarrow> None
     | Some (Inl e) \<Rightarrow> Some (Inl e)
     | Some (Inr (s, rest)) \<Rightarrow> Some (Inr (m\<lparr>Phase := Some (mk s)\<rparr>, rest))))"

definition LoadTestResp_OneofUnmarshaler ::
  "nat \<Rightarrow> nat \<Rightarrow> bytes \<Rightarrow> LoadTestResp \<Rightarrow> LoadTestResp decoded option option" where
  "LoadTestResp_OneofUnmarshaler tag wire bs m =
    (if tag = 1 then oneof_case Preparing_props 0 Preparing wire bs m
     else if tag = 2 then oneof_case Started_props () (\<lambda>_. Started) wire bs m
     else if tag = 3 then oneof_case Finished_props () (\<lambda>_. Finished) wire bs m
     else if tag = 4 then oneof_case Errored_props '''' Errored wire bs m
     else None)"

definition LoadTestResp_props :: "LoadTestResp StructProperties" where
  "LoadTestResp_props = \<lparr>sp_stype = ''pb.LoadTestResp'', sp_Prop = [], sp_oneofMarshaler = LoadTestResp_OneofMarshaler,
     sp_oneofUnmarshaler = LoadTestResp_OneofUnmarshaler\<rparr>"

definition RegisterExecutorReq_props :: "RegisterExecutorReq StructProperties" where
  "RegisterExecutorReq_props = plain ''pb.RegisterExecutorReq''
    [int64_field ''DropletId'' 1 DropletId (\<lambda>v m. m\<lparr>DropletId := v\<rparr>), int64_field ''Port'' 2 Port (\<lambda>v m. m\<lparr>Port := v\<rparr>)]"

definition RegisterExecutorResp_props :: "RegisterExecutorResp StructProperties" where
  "RegisterExecutorResp_props = plain ''pb.RegisterExecutorResp''
    [string_field ''InfluxAddr'' 1 InfluxAddr (\<lambda>v m. m\<lparr>InfluxAddr := v\<rparr>),
     string_field ''InfluxUsername'' 2 InfluxUsername (\<lambda>v m. m\<lparr>InfluxUsername := v\<rparr>),
     string_field ''InfluxPassword'' 3 InfluxPassword (\<lambda>v m. m\<lparr>InfluxPassword := v\<rparr>),
     string_field ''InfluxDb'' 4 InfluxDb (\<lambda>v m. m\<lparr>InfluxDb := v\<rparr>),
     bool_field ''InfluxSsl'' 5 InfluxSsl (\<lambda>v m. m\<lparr>InfluxSsl := v\<rparr>)]"


section \<open>The gRPC frame\<close>

text \<open>
  The errors of an RPC: a status with its code, the errors of the transport, and the plain errors of
  the layers below.
\<close>

datatype Code = OK | Canceled | Unknown | InvalidArgument | DeadlineExceeded | NotFound | AlreadyExists
  | PermissionDenied | ResourceExhausted | FailedPrecondition | Aborted | OutOfRange | Unimplemented
  | Internal | Unavailable | DataLoss | Unauthenticated

datatype rpc_error = rpcError Code string | StreamError Code string | ConnectionError string | GoError gerror

definition Code_of :: "rpc_error option \<Rightarrow> Code" where
  "Code_of err = (case err of None \<Rightarrow> OK | Some (rpcError c _) \<Rightarrow> c | _ \<Rightarrow> Unknown)"

definition rpc_Errorf :: "Code \<Rightarrow> string \<Rightarrow> rpc_error option" where
  "rpc_Errorf c desc = (if c = OK then None else Some (rpcError c desc))"

definition toRPCErr :: "rpc_error \<Rightarrow> rpc_error option" where
  "toRPCErr err = (case err of
     rpcError _ _ \<Rightarrow> Some err
   | StreamError c d \<Rightarrow> Some (rpcError c d)
   | ConnectionError d \<Rightarrow> Some (rpcError Internal d)
   | GoError e \<Rightarrow> rpc_Errorf Unknown (Error e))"

definition grpc_encode :: "bytes \<Rightarrow> rpc_error + bytes" where
  "grpc_encode b =
    (if 2 ^ 32 - 1 < length b then Inl (rpcError InvalidArgument (''grpc: message too large ('' @ show_nat (length b) @ '' bytes)''))
     else Inr (0 # be32 (word_of_nat (length b)) @ b))"

text \<open>\<open>recvMsg\<close> on the bytes the stream will deliver.\<close>

definition recvMsg :: "bytes \<Rightarrow> (byte \<times> bytes) decoded" where
  "recvMsg s = bind_dec (ReadFull 5 s) (\<lambda>hd5 s1.
     let pf = hd5 ! 0;
         len = push_bit 24 (ucast (hd5 ! 1)) OR push_bit 16 (ucast (hd5 ! 2)) OR push_bit 8 (ucast (hd5 ! 3)) OR
           (ucast (hd5 ! 4) :: 32 word) in
     if len = 0 then Inr ((pf, []), s1)
     else case ReadFull (unat len) s1 of
       Inl e \<Rightarrow> Inl (if e = IoEOF then ErrUnexpectedEOF else e)
     | Inr (msg, s2) \<Rightarrow> Inr ((pf, msg), s2))"

definition grpc_recv :: "'m StructProperties \<Rightarrow> 'm \<Rightarrow> bytes \<Rightarrow> (rpc_error + 'm \<times> bytes) option" where
  "grpc_recv prop zero s = (case recvMsg s of
     Inl e \<Rightarrow> Some (Inl (GoError e))
   | Inr ((pf, d), rest) \<Rightarrow>
       if pf \<noteq> 0 then Some (Inl (rpcError Internal ''gprc: compression is not supported yet.''))
       else (case Unmarshal prop d zero of
         None \<Rightarrow> None
       | Some (Inl e) \<Rightarrow> Some (Inl (rpcError Internal (''grpc: '' @ Error e)))
       | Some (Inr m) \<Rightarrow> Some (Inr (m, rest))))"

end
