(* ===== verification/ProtoProps.thy ===== *)
theory ProtoProps
  imports Proto
begin

text \<open>
  What the codec promises: writing a nested message in place is the same as writing its length and
  then its bytes, reading always ends, on every input, and reading back what was written gives the
  message, also through the frame of gRPC.
\<close>

section \<open>Nested messages in place\<close>

lemma copy_at_header:
  assumes "length pre = length buf + length v" and "take (length buf) pre = buf"
  shows "take (length buf + length v + length msg) (copy_at (length buf) v (pre @ msg)) = buf @ v @ msg"
  using assms by (simp add: copy_at_def)

lemma enc_len_thing_appends:
  assumes "enc (buf @ [0, 0, 0, 0]) = (buf @ [0, 0, 0, 0]) @ msg"
  shows "enc_len_thing enc buf = buf @ EncodeRawBytes msg"
proof -
  define v where "v = EncodeVarint (word_of_nat (length msg))"
  define b1 where "b1 = buf @ [0, 0, 0, 0 :: byte]"
  have "length b1 = length buf + 4" by (simp add: b1_def)
  have lv: "sizeVarint (word_of_nat (length msg)) = length v" by (simp add: v_def length_EncodeVarint)
  define b3 where "b3 = (if 4 < length v then copy_at (length b1 + (length v - 4)) msg ((b1 @ msg) @ replicate (length v - 4) 0)
       else if length v < 4 then take (length (b1 @ msg) - (4 - length v)) (copy_at (length b1 - (4 - length v)) msg (b1 @ msg))
       else b1 @ msg)"
  have "\<exists>pre. b3 = pre @ msg \<and> length pre = length buf + length v \<and> take (length buf) pre = buf"
  proof -
    consider "4 < length v" | "length v < 4" | "length v = 4" by linarith
    then show ?thesis
    proof cases
      case 1
      then have "b3 = take (length b1 + (length v - 4)) ((b1 @ msg) @ replicate (length v - 4) 0) @ msg"
        by (simp add: b3_def copy_at_def)
      with 1 show ?thesis by (intro exI conjI) (auto simp: b1_def)
    next
      case 2
      then have "b3 = take (length b1 - (4 - length v)) b1 @ msg"
        using \<open>length b1 = length buf + 4\<close> by (simp add: b3_def copy_at_def)
      with 2 show ?thesis by (intro exI conjI) (auto simp: b1_def)
    next
      case 3
      then show ?thesis by (intro exI [of _ b1]) (auto simp: b3_def b1_def)
    qed
  qed
  then have "take (length buf + length v + length msg) (copy_at (length buf) v b3) = buf @ v @ msg"
    using copy_at_header by blast
  moreover have e: "enc b1 = b1 @ msg" using assms by (simp add: b1_def)
  have "length (b1 @ msg) - length b1 = length msg" "take (length msg) (drop (length b1) (b1 @ msg)) = msg"
    by simp_all
  then have "enc_len_thing enc buf = take (length buf + length v + length msg) (copy_at (length buf) v b3)"
    unfolding enc_len_thing_def Let_def b1_def [symmetric] e by (simp only: lv v_def [symmetric] b3_def)
  ultimately show ?thesis by (simp add: EncodeRawBytes_def v_def)
qed

text \<open>
  The encoder of nested messages, which reserves four bytes, encodes, moves the message by the
  difference to the length of its size and writes the size over the gap, produces the same buffer as
  writing the size and then the message, whatever the size.
\<close>

theorem enc_len_thing_is_length_prefix:
  "enc_len_thing (\<lambda>b. b @ msg) buf = buf @ EncodeRawBytes msg"
  by (rule enc_len_thing_appends) simp


section \<open>Reading ends\<close>

definition reads :: "bytes \<Rightarrow> 'm decoded option \<Rightarrow> bool" where
  "reads bs r = (case r of None \<Rightarrow> False | Some (Inl _) \<Rightarrow> True | Some (Inr (_, rest)) \<Rightarrow> length rest \<le> length bs)"

lemma reads_Some: "reads bs r \<Longrightarrow> \<exists>x. r = Some x"
  by (auto simp: reads_def split: option.splits)

lemma DecodeFixed64_rest: "DecodeFixed64 bs = Inr (v, rest) \<Longrightarrow> length rest < length bs"
  by (auto simp: DecodeFixed64_def split: list.splits)

lemma DecodeFixed32_rest: "DecodeFixed32 bs = Inr (v, rest) \<Longrightarrow> length rest < length bs"
  by (auto simp: DecodeFixed32_def split: list.splits)

lemma bind_dec_Inr: "bind_dec d f = Inr y \<longleftrightarrow> (\<exists>x rest. d = Inr (x, rest) \<and> f x rest = Inr y)"
  by (cases "(d, f)" rule: bind_dec.cases) auto

lemma DecodeRawBytes_rest: "DecodeRawBytes bs = Inr (v, rest) \<Longrightarrow> length rest < length bs"
  by (auto simp: DecodeRawBytes_def bind_dec_Inr Let_def dest!: DecodeVarint_rest split: if_splits)

lemma DecodeStringBytes_rest: "DecodeStringBytes bs = Inr (v, rest) \<Longrightarrow> length rest < length bs"
  by (auto simp: DecodeStringBytes_def bind_dec_Inr dest!: DecodeRawBytes_rest)

lemmas decode_rest = DecodeVarint_rest DecodeFixed64_rest DecodeFixed32_rest DecodeRawBytes_rest DecodeStringBytes_rest

lemma reads_lift_dec:
  assumes "\<And>v rest. r = Inr (v, rest) \<Longrightarrow> length rest < length bs"
  shows "reads bs (lift_dec upd m r)"
  using assms by (cases r) (fastforce simp: reads_def lift_dec_def)+

text \<open>The fuel of \<open>skip\<close> is enough, whatever the bytes.\<close>

lemma skip_ends:
  "2 * length bs + 2 \<le> n \<Longrightarrow> (\<exists>r. skip st n wire bs = Some r \<and> (\<forall>rest. r = Inr rest \<longrightarrow> length rest \<le> length bs))"
  "2 * length bs + 1 \<le> n \<Longrightarrow> (\<exists>r. skip_group st n bs = Some r \<and> (\<forall>rest. r = Inr rest \<longrightarrow> length rest \<le> length bs))"
proof (induction st n wire bs and st n bs rule: skip_skip_group.induct)
  case (2 st n wire bs)
  then show ?case
    by (auto simp: drop_value_def split: sum.splits dest!: decode_rest)
next
  case (4 st n bs)
  show ?case
  proof (cases "DecodeVarint bs")
    case (Inr ur)
    obtain u rest where ur: "ur = (u, rest)" by fastforce
    have less: "length rest < length bs" using Inr ur DecodeVarint_rest by blast
    show ?thesis
    proof (cases "u AND 7 = 4")
      case False
      have "2 * length rest + 2 \<le> n" using less 4(3) by linarith
      from 4(1) [OF Inr ur [symmetric] False this] obtain r where
        r: "skip st n (unat (u AND 7)) rest = Some r" "\<forall>rest'. r = Inr rest' \<longrightarrow> length rest' \<le> length rest" by blast
      show ?thesis
      proof (cases r)
        case (Inr rest')
        have "2 * length rest' + 1 \<le> n" using r(2) Inr less 4(3) by fastforce
        from 4(2) [OF \<open>DecodeVarint bs = Inr ur\<close> ur [symmetric] False r(1) Inr this] r Inr less \<open>DecodeVarint bs = Inr ur\<close> ur False
        show ?thesis by fastforce
      qed (use r \<open>DecodeVarint bs = Inr ur\<close> ur False in auto)
    qed (use Inr ur less in auto)
  qed auto
qed auto

locale struct_codec =
  fixes sp :: "'m StructProperties"
  assumes field_reads: "p \<in> set (sp_Prop sp) \<Longrightarrow> reads bs (p_dec p bs m)"
    and oneof_reads: "sp_oneofUnmarshaler sp tag wire bs m = Some r \<Longrightarrow> reads bs r"
begin

lemma unmarshal_field_reads:
  "\<exists>r. unmarshal_field sp bs m = Some r \<and> (\<forall>m' rest. r = Inr (m', rest) \<longrightarrow> length rest < length bs)"
proof (cases "DecodeVarint bs")
  case (Inr ur)
  obtain u rest where ur: "ur = (u, rest)" by fastforce
  have less: "length rest < length bs" using Inr ur DecodeVarint_rest by blast
  have ok: "\<exists>x. r = Some x \<and> (\<forall>m' rest'. x = Inr (m', rest') \<longrightarrow> length rest' < length bs)" if "reads rest r" for r
    using that less by (fastforce simp: reads_def split: option.splits sum.splits)
  have sk: "\<exists>r. skip (sp_stype sp) (skip_fuel rest) w rest = Some r \<and> (\<forall>rest'. r = Inr rest' \<longrightarrow> length rest' \<le> length rest)" for w
    by (rule skip_ends(1)) (simp add: skip_fuel_def)
  show ?thesis
  proof (cases "find (\<lambda>p. p_Tag p = unat (drop_bit 3 u)) (sp_Prop sp)")
    case None
    then show ?thesis
      using Inr ur less sk [of "unat (u AND 7)"] ok [OF oneof_reads [of "unat (drop_bit 3 u)" "unat (u AND 7)" rest m]]
      by (fastforce simp: unmarshal_field_def Let_def split: option.splits sum.splits)
  next
    case (Some p)
    then have "p \<in> set (sp_Prop sp)" by (metis find_Some_iff nth_mem)
    from ok [OF field_reads [OF this, of rest m]] Some Inr ur show ?thesis
      by (auto simp: unmarshal_field_def Let_def)
  qed
qed (simp add: unmarshal_field_def)

lemma unmarshalType_ends: "length bs < n \<Longrightarrow> \<exists>r. unmarshalType n sp bs m = Some r"
proof (induction n arbitrary: bs m)
  case (Suc n)
  obtain r where r: "unmarshal_field sp bs m = Some r" "\<forall>m' rest. r = Inr (m', rest) \<longrightarrow> length rest < length bs"
    using unmarshal_field_reads by blast
  show ?case
  proof (cases r)
    case (Inr mr)
    obtain m' rest where "mr = (m', rest)" by fastforce
    with r Inr Suc.prems Suc.IH [of rest m'] show ?thesis by auto
  qed (use r in auto)
qed simp

lemma Unmarshal_ends: "\<exists>r. Unmarshal sp bs m = Some r"
  unfolding Unmarshal_def by (rule unmarshalType_ends) simp

lemma DecodeMessage_reads: "reads bs (DecodeMessage sp bs m)"
proof (cases "DecodeRawBytes bs")
  case (Inr er)
  obtain e rest where "er = (e, rest)" by fastforce
  moreover obtain r where "Unmarshal sp e m = Some r" using Unmarshal_ends by blast
  ultimately show ?thesis using Inr DecodeRawBytes_rest [of bs e rest]
    by (auto simp: DecodeMessage_def reads_def split: sum.splits)
qed (simp add: DecodeMessage_def reads_def)

end

text \<open>The readers of the field types, and the contract for the program's messages.\<close>

lemma field_reads:
  "reads bs (p_dec (bool_field nm t b1 b2) bs m)" "reads bs (p_dec (int32_field nm t i1 i2) bs m)"
  "reads bs (p_dec (int64_field nm t l1 l2) bs m)" "reads bs (p_dec (double_field nm t d1 d2) bs m)"
  "reads bs (p_dec (string_field nm t s1 s2) bs m)"
  by (auto simp: bool_field_def int32_field_def int64_field_def double_field_def string_field_def
      dec_proto3_bool_def dec_proto3_int32_def dec_proto3_int64_def dec_proto3_string_def
      intro!: reads_lift_dec dest: decode_rest)

lemma message_field_reads:
  assumes "struct_codec sub"
  shows "reads bs (p_dec (message_field nm t sub zero get upd) bs m)"
proof -
  have "reads bs (DecodeMessage sub bs (case get m of None \<Rightarrow> zero | Some s \<Rightarrow> s))"
    by (rule struct_codec.DecodeMessage_reads [OF assms])
  then show ?thesis
    by (auto simp: message_field_def dec_struct_message_def reads_def split: option.splits sum.splits)
qed

lemma plain_codec: "(\<And>p bs m. p \<in> set ps \<Longrightarrow> reads bs (p_dec p bs m)) \<Longrightarrow> struct_codec (plain st ps)"
  by unfold_locales (auto simp: plain_def)

interpretation status: struct_codec StatusMessage_props
  unfolding StatusMessage_props_def by (rule plain_codec) (auto simp: field_reads)

interpretation params: struct_codec "ScriptParams_props bits of_bits" for bits of_bits
  unfolding ScriptParams_props_def by (rule plain_codec) (auto simp: field_reads)

interpretation command: struct_codec "CommandMessage_props bits of_bits" for bits of_bits
  unfolding CommandMessage_props_def
  by (rule plain_codec) (auto simp: field_reads intro: message_field_reads params.struct_codec_axioms)

interpretation request: struct_codec "LoadTestReq_props bits of_bits" for bits of_bits
  unfolding LoadTestReq_props_def by (rule plain_codec) (auto simp: field_reads)

interpretation preparing: struct_codec Preparing_props
  unfolding Preparing_props_def by (rule plain_codec) (auto simp: field_reads)

interpretation started: struct_codec Started_props
  unfolding Started_props_def by (rule plain_codec) auto

interpretation finished: struct_codec Finished_props
  unfolding Finished_props_def by (rule plain_codec) auto

interpretation errored: struct_codec Errored_props
  unfolding Errored_props_def by (rule plain_codec) (auto simp: field_reads)

interpretation register: struct_codec RegisterExecutorReq_props
  unfolding RegisterExecutorReq_props_def by (rule plain_codec) (auto simp: field_reads)

interpretation registered: struct_codec RegisterExecutorResp_props
  unfolding RegisterExecutorResp_props_def by (rule plain_codec) (auto simp: field_reads)

lemma oneof_case_reads:
  assumes "struct_codec sub" and "oneof_case sub zero mk wire bs m = Some r"
  shows "reads bs r"
  using assms(2) struct_codec.DecodeMessage_reads [OF assms(1), of bs zero]
  by (auto simp: oneof_case_def reads_def split: if_splits option.splits sum.splits)

interpretation response: struct_codec LoadTestResp_props
proof unfold_locales
  show "reads bs r" if "sp_oneofUnmarshaler LoadTestResp_props tag wire bs m = Some r" for tag wire bs m r
    using that preparing.struct_codec_axioms started.struct_codec_axioms finished.struct_codec_axioms errored.struct_codec_axioms
    by (auto simp: LoadTestResp_props_def LoadTestResp_OneofUnmarshaler_def intro: oneof_case_reads split: if_splits)
qed (simp add: LoadTestResp_props_def)

text \<open>
  C27. Decoding a message of the program ends on every input: whatever bytes arrive, for a command,
  a status, a load test request, a phase or a registration, and whatever the message already holds,
  unmarshalling returns a message or an error.
\<close>

theorem Unmarshal_always_returns:
  "(\<exists>r. Unmarshal (CommandMessage_props bits of_bits) bs c = Some r) \<and>
   (\<exists>r. Unmarshal StatusMessage_props bs s = Some r) \<and>
   (\<exists>r. Unmarshal (LoadTestReq_props bits of_bits) bs q = Some r) \<and>
   (\<exists>r. Unmarshal LoadTestResp_props bs p = Some r) \<and>
   (\<exists>r. Unmarshal RegisterExecutorReq_props bs g = Some r) \<and>
   (\<exists>r. Unmarshal RegisterExecutorResp_props bs h = Some r)"
  using command.Unmarshal_ends status.Unmarshal_ends request.Unmarshal_ends response.Unmarshal_ends
    register.Unmarshal_ends registered.Unmarshal_ends by blast


section \<open>Reading back\<close>

definition runs :: "'m StructProperties \<Rightarrow> bytes \<Rightarrow> 'm \<Rightarrow> 'm \<Rightarrow> bool" where
  "runs sp bs m m' = (length bs < 2 ^ 63 \<longrightarrow> (\<exists>n. unmarshalType n sp bs m = Some (Inr m')))"

lemma runs_Nil: "runs sp [] m m"
  by (auto simp: runs_def intro!: exI [of _ 1])

lemma unmarshalType_more: "unmarshalType n sp bs m = Some r \<Longrightarrow> n \<le> k \<Longrightarrow> unmarshalType k sp bs m = Some r"
proof (induction n arbitrary: k bs m)
  case (Suc n)
  then obtain k' where k: "k = Suc k'" "n \<le> k'" by (cases k) auto
  have IH: "unmarshalType k' sp rest m' = Some r" if "unmarshalType n sp rest m' = Some r" for rest m'
    using Suc.IH [OF that k(2)] .
  from Suc.prems(1) k(1) show ?case by (simp add: IH split: if_splits option.splits sum.splits prod.splits)
qed simp

lemma runs_Unmarshal:
  assumes "struct_codec sp" and "runs sp bs m m'" and "length bs < 2 ^ 63"
  shows "Unmarshal sp bs m = Some (Inr m')"
proof -
  from assms(2,3) obtain n where n: "unmarshalType n sp bs m = Some (Inr m')" by (auto simp: runs_def)
  obtain r where r: "unmarshalType (Suc (length bs)) sp bs m = Some r"
    using struct_codec.Unmarshal_ends [OF assms(1)] by (auto simp: Unmarshal_def)
  have "unmarshalType (n + Suc (length bs)) sp bs m = Some (Inr m')" by (rule unmarshalType_more [OF n]) simp
  moreover have "unmarshalType (n + Suc (length bs)) sp bs m = Some r" by (rule unmarshalType_more [OF r]) simp
  ultimately show ?thesis using r by (simp add: Unmarshal_def)
qed

definition out_bytes :: "'m Properties \<Rightarrow> 'm \<Rightarrow> bytes" where
  "out_bytes p m = (case p_enc p m [] of None \<Rightarrow> [] | Some b \<Rightarrow> b)"

definition appends :: "'m Properties \<Rightarrow> bool" where
  "appends p = (\<forall>m buf. p_enc p m buf = map_option (\<lambda>b. buf @ b) (p_enc p m []))"

lemma enc_fields_appends:
  "\<forall>p \<in> set ps. appends p \<Longrightarrow> enc_fields ps m buf = buf @ concat (map (\<lambda>p. out_bytes p m) ps)"
proof (induction ps arbitrary: buf)
  case (Cons p ps)
  from Cons.prems have "appends p" by simp
  then have "p_enc p m buf = map_option (\<lambda>b. buf @ b) (p_enc p m [])" unfolding appends_def by blast
  with Cons show ?case by (cases "p_enc p m []") (simp_all add: out_bytes_def)
qed simp

lemma plain_enc:
  "\<forall>p \<in> set ps. appends p \<Longrightarrow> enc_struct (plain st ps) m buf = buf @ concat (map (\<lambda>p. out_bytes p m) ps)"
  by (simp add: enc_struct_def plain_def enc_fields_appends)

lemma scalar_appends:
  "appends (bool_field nm t b1 b2)" "appends (int32_field nm t i1 i2)" "appends (int64_field nm t l1 l2)"
  "appends (double_field nm t d1 d2)" "appends (string_field nm t s1 s2)"
  by (auto simp: appends_def bool_field_def int32_field_def int64_field_def double_field_def string_field_def
      enc_proto3_bool_def enc_proto3_int32_def enc_proto3_int64_def enc_proto3_string_def)

text \<open>A nested message is the bytes of \<open>Marshal\<close> behind their length.\<close>

definition struct_appends :: "'m StructProperties \<Rightarrow> bool" where
  "struct_appends sp = (\<forall>m buf. enc_struct sp m buf = buf @ Marshal sp m)"

lemma plain_struct_appends: "\<forall>p \<in> set ps. appends p \<Longrightarrow> struct_appends (plain st ps)"
  by (simp add: struct_appends_def Marshal_def plain_enc)

lemma enc_len_struct_raw: "struct_appends sp \<Longrightarrow> enc_len_struct sp m buf = buf @ EncodeRawBytes (Marshal sp m)"
  unfolding enc_len_struct_def by (rule enc_len_thing_appends) (simp add: struct_appends_def)

lemma message_appends: "struct_appends sub \<Longrightarrow> appends (message_field nm t sub zero get upd)"
  by (auto simp: appends_def message_field_def enc_struct_message_def enc_len_struct_raw split: option.split)


text \<open>The key of a field, taken apart again.\<close>

lemma and_7: "(w :: 64 word) AND 7 = take_bit 3 w"
  by (simp add: take_bit_eq_mask mask_eq_exp_minus_1)

lemma key_parts:
  assumes "wire < 8" and "tag < 2 ^ 60"
  shows "unat ((word_of_nat (8 * tag + wire) :: 64 word) AND 7) = wire"
    and "unat (drop_bit 3 (word_of_nat (8 * tag + wire) :: 64 word)) = tag"
proof -
  have u: "unat (word_of_nat (8 * tag + wire) :: 64 word) = 8 * tag + wire"
    unfolding unat_of_nat using assms by simp
  show "unat ((word_of_nat (8 * tag + wire) :: 64 word) AND 7) = wire"
    unfolding and_7 unsigned_take_bit_eq u using assms(1) by (simp add: take_bit_eq_mod)
  show "unat (drop_bit 3 (word_of_nat (8 * tag + wire) :: 64 word)) = tag"
    unfolding unat_drop_bit_eq u using assms(1) by (simp add: drop_bit_eq_div)
qed

lemma EncodeVarint_nonempty: "EncodeVarint x \<noteq> []"
  by (subst EncodeVarint.simps) simp

lemma runs_field:
  assumes "find (\<lambda>p. p_Tag p = tag) (sp_Prop sp) = Some p" and "p_WireType p = wire" and "wire < 3"
    and "0 < tag" and "tag < 2 ^ 60"
    and "length (body @ rest) < 2 ^ 63 \<Longrightarrow> p_dec p (body @ rest) m = Some (Inr (m1, rest))"
    and "runs sp rest m1 m'"
  shows "runs sp (tagcode tag wire @ body @ rest) m m'"
  unfolding runs_def
proof
  assume len: "length (tagcode tag wire @ body @ rest) < 2 ^ 63"
  then obtain n where n: "unmarshalType n sp rest m1 = Some (Inr m')" using assms(7) by (auto simp: runs_def)
  have "unmarshal_field sp (tagcode tag wire @ body @ rest) m = Some (Inr (m1, rest))"
    using assms(1-6) key_parts [of wire tag] len by (simp add: unmarshal_field_def tagcode_def Let_def)
  moreover have "tagcode tag wire \<noteq> []" by (simp add: tagcode_def EncodeVarint_nonempty)
  ultimately have "unmarshalType (Suc n) sp (tagcode tag wire @ body @ rest) m = Some (Inr m')" using n by simp
  then show "\<exists>n. unmarshalType n sp (tagcode tag wire @ body @ rest) m = Some (Inr m')" by blast
qed

lemma ucast_scast: "(ucast (scast (x :: int32) :: 64 word) :: int32) = x"
  by (rule bit_word_eqI) (auto simp: bit_simps)

lemma runs_int32:
  assumes "find (\<lambda>p. p_Tag p = tag) (sp_Prop sp) = Some (int32_field nm tag get upd)" and "0 < tag" and "tag < 2 ^ 60"
    and "get m = 0 \<Longrightarrow> upd 0 m0 = m0" and "runs sp rest (upd (get m) m0) m'"
  shows "runs sp (out_bytes (int32_field nm tag get upd) m @ rest) m0 m'"
proof (cases "get m = 0")
  case False
  have "runs sp (tagcode tag 0 @ EncodeVarint (scast (get m)) @ rest) m0 m'"
    by (rule runs_field [OF assms(1) _ _ assms(2,3) _ assms(5)])
      (simp_all add: int32_field_def dec_proto3_int32_def lift_dec_def ucast_scast)
  with False show ?thesis by (simp add: out_bytes_def int32_field_def enc_proto3_int32_def)
qed (use assms in \<open>simp add: out_bytes_def int32_field_def enc_proto3_int32_def\<close>)

lemma runs_int64:
  assumes "find (\<lambda>p. p_Tag p = tag) (sp_Prop sp) = Some (int64_field nm tag get upd)" and "0 < tag" and "tag < 2 ^ 60"
    and "get m = 0 \<Longrightarrow> upd 0 m0 = m0" and "runs sp rest (upd (get m) m0) m'"
  shows "runs sp (out_bytes (int64_field nm tag get upd) m @ rest) m0 m'"
proof (cases "get m = 0")
  case False
  have "runs sp (tagcode tag 0 @ EncodeVarint (get m) @ rest) m0 m'"
    by (rule runs_field [OF assms(1) _ _ assms(2,3) _ assms(5)])
      (simp_all add: int64_field_def dec_proto3_int64_def lift_dec_def)
  with False show ?thesis by (simp add: out_bytes_def int64_field_def enc_proto3_int64_def)
qed (use assms in \<open>simp add: out_bytes_def int64_field_def enc_proto3_int64_def\<close>)

lemma runs_double:
  assumes "find (\<lambda>p. p_Tag p = tag) (sp_Prop sp) = Some (double_field nm tag get upd)" and "0 < tag" and "tag < 2 ^ 60"
    and "get m = 0 \<Longrightarrow> upd 0 m0 = m0" and "runs sp rest (upd (get m) m0) m'"
  shows "runs sp (out_bytes (double_field nm tag get upd) m @ rest) m0 m'"
proof (cases "get m = 0")
  case False
  have "runs sp (tagcode tag 1 @ EncodeFixed64 (get m) @ rest) m0 m'"
    by (rule runs_field [OF assms(1) _ _ assms(2,3) _ assms(5)])
      (simp_all add: double_field_def dec_proto3_int64_def lift_dec_def)
  with False show ?thesis by (simp add: out_bytes_def double_field_def enc_proto3_int64_def)
qed (use assms in \<open>simp add: out_bytes_def double_field_def enc_proto3_int64_def\<close>)

lemma runs_bool:
  assumes "find (\<lambda>p. p_Tag p = tag) (sp_Prop sp) = Some (bool_field nm tag get upd)" and "0 < tag" and "tag < 2 ^ 60"
    and "\<not> get m \<Longrightarrow> upd False m0 = m0" and "runs sp rest (upd (get m) m0) m'"
  shows "runs sp (out_bytes (bool_field nm tag get upd) m @ rest) m0 m'"
proof (cases "get m")
  case True
  have "runs sp (tagcode tag 0 @ EncodeVarint 1 @ rest) m0 m'"
    by (rule runs_field [OF assms(1) _ _ assms(2,3) _ assms(5)])
      (simp_all add: bool_field_def dec_proto3_bool_def lift_dec_def True)
  with True show ?thesis by (simp add: out_bytes_def bool_field_def enc_proto3_bool_def)
qed (use assms in \<open>simp add: out_bytes_def bool_field_def enc_proto3_bool_def\<close>)

lemma length_EncodeStringBytes: "length (EncodeStringBytes s) = length (EncodeVarint (word_of_nat (length s))) + length s"
  by (simp add: EncodeStringBytes_def)

lemma runs_string:
  assumes "find (\<lambda>p. p_Tag p = tag) (sp_Prop sp) = Some (string_field nm tag get upd)" and "0 < tag" and "tag < 2 ^ 60"
    and "get m = '''' \<Longrightarrow> upd '''' m0 = m0" and "runs sp rest (upd (get m) m0) m'"
  shows "runs sp (out_bytes (string_field nm tag get upd) m @ rest) m0 m'"
proof (cases "get m = ''''")
  case False
  have "runs sp (tagcode tag 2 @ EncodeStringBytes (get m) @ rest) m0 m'"
    by (rule runs_field [OF assms(1) _ _ assms(2,3) _ assms(5)])
      (simp_all add: string_field_def dec_proto3_string_def lift_dec_def DecodeStringBytes_Encode length_EncodeStringBytes)
  with False show ?thesis by (simp add: out_bytes_def string_field_def enc_proto3_string_def)
qed (use assms in \<open>simp add: out_bytes_def string_field_def enc_proto3_string_def\<close>)

lemma runs_message:
  assumes "find (\<lambda>p. p_Tag p = tag) (sp_Prop sp) = Some (message_field nm tag sub zero get upd)" and "0 < tag" and "tag < 2 ^ 60"
    and "struct_appends sub" and "get m0 = None" and "get m = None \<Longrightarrow> upd None m0 = m0"
    and "\<And>s. get m = Some s \<Longrightarrow> length (Marshal sub s) < 2 ^ 63 \<Longrightarrow> Unmarshal sub (Marshal sub s) zero = Some (Inr s)"
    and "runs sp rest (upd (get m) m0) m'"
  shows "runs sp (out_bytes (message_field nm tag sub zero get upd) m @ rest) m0 m'"
proof (cases "get m")
  case (Some s)
  have "runs sp (tagcode tag 2 @ EncodeRawBytes (Marshal sub s) @ rest) m0 m'"
  proof (rule runs_field [OF assms(1) _ _ assms(2,3) _ assms(8)])
    assume "length (EncodeRawBytes (Marshal sub s) @ rest) < 2 ^ 63"
    then have "length (Marshal sub s) < 2 ^ 63" by (simp add: EncodeRawBytes_def)
    with assms(5,7) Some show "p_dec (message_field nm tag sub zero get upd) (EncodeRawBytes (Marshal sub s) @ rest) m0 =
        Some (Inr (upd (get m) m0, rest))"
      by (simp add: message_field_def dec_struct_message_def DecodeMessage_def DecodeRawBytes_Encode)
  qed (simp_all add: message_field_def)
  with Some assms(4) show ?thesis
    by (simp add: out_bytes_def message_field_def enc_struct_message_def enc_len_struct_raw)
qed (use assms in \<open>simp add: out_bytes_def message_field_def enc_struct_message_def\<close>)

lemma runs_end: "m = m' \<Longrightarrow> runs sp [] m m'"
  by (simp add: runs_Nil)

lemmas runs_rules = runs_int32 runs_int64 runs_double runs_bool runs_string runs_message runs_end

text \<open>The fields of a struct one after the other.\<close>

lemma plain_Marshal: "\<forall>p \<in> set ps. appends p \<Longrightarrow> Marshal (plain st ps) m = concat (map (\<lambda>p. out_bytes p m) ps)"
  by (simp add: Marshal_def plain_enc)

lemmas scalar_tags = bool_field_def int32_field_def int64_field_def double_field_def string_field_def

lemma field_tag [simp]:
  "p_Tag (bool_field nm t b1 b2) = t" "p_Tag (int32_field nm t i1 i2) = t" "p_Tag (int64_field nm t l1 l2) = t"
  "p_Tag (double_field nm t d1 d2) = t" "p_Tag (string_field nm t s1 s2) = t" "p_Tag (message_field nm t sub zero g u) = t"
  by (simp_all add: scalar_tags message_field_def)

lemma plain_Prop [simp]: "sp_Prop (plain st ps) = ps"
  by (simp add: plain_def)

lemma props_Marshal:
  "\<forall>p \<in> set ps. appends p \<Longrightarrow> runs (plain st ps) (concat (map (\<lambda>p. out_bytes p m) ps) @ []) zero m \<Longrightarrow>
   runs (plain st ps) (Marshal (plain st ps) m) zero m"
  by (simp add: plain_Marshal)

lemma ScriptParams_appends: "struct_appends (ScriptParams_props bits of_bits)"
  unfolding ScriptParams_props_def by (rule plain_struct_appends) (simp add: scalar_appends)

lemma ScriptParams_read_back:
  assumes "of_bits 0 = Fin 0" and "of_bits (bits (GrowthFactor c)) = GrowthFactor c"
    and "of_bits (bits (TimeBetweenGrowth c)) = TimeBetweenGrowth c"
  shows "runs (ScriptParams_props bits of_bits) (Marshal (ScriptParams_props bits of_bits) c) zero_ScriptParams c"
  unfolding ScriptParams_props_def
proof (rule props_Marshal, goal_cases)
  case 2
  show ?case
    unfolding list.map concat.simps append_assoc append_Nil
    by (intro runs_rules) (simp_all add: zero_ScriptParams_def assms)
qed (simp add: scalar_appends)

lemma CommandMessage_read_back:
  assumes "of_bits 0 = Fin 0" and "\<And>c. ScriptParamsPtr m = Some c \<Longrightarrow> of_bits (bits (GrowthFactor c)) = GrowthFactor c \<and>
    of_bits (bits (TimeBetweenGrowth c)) = TimeBetweenGrowth c"
  shows "runs (CommandMessage_props bits of_bits) (Marshal (CommandMessage_props bits of_bits) m) zero_CommandMessage m"
proof -
  have sub: "Unmarshal (ScriptParams_props bits of_bits) (Marshal (ScriptParams_props bits of_bits) c) zero_ScriptParams = Some (Inr c)"
    if "ScriptParamsPtr m = Some c" "length (Marshal (ScriptParams_props bits of_bits) c) < 2 ^ 63" for c
    using that assms params.struct_codec_axioms by (intro runs_Unmarshal ScriptParams_read_back) auto
  show ?thesis
    unfolding CommandMessage_props_def
  proof (rule props_Marshal, goal_cases)
    case 2
    show ?case
      unfolding list.map concat.simps append_assoc append_Nil
      by (intro runs_rules) (simp_all add: zero_CommandMessage_def sub ScriptParams_appends)
  qed (simp add: scalar_appends message_appends ScriptParams_appends)
qed

lemma LoadTestReq_read_back:
  assumes "of_bits 0 = Fin 0" and "of_bits (bits (req_GrowthFactor m)) = req_GrowthFactor m"
    and "of_bits (bits (req_TimeBetweenGrowth m)) = req_TimeBetweenGrowth m"
  shows "runs (LoadTestReq_props bits of_bits) (Marshal (LoadTestReq_props bits of_bits) m) zero_LoadTestReq m"
  unfolding LoadTestReq_props_def
proof (rule props_Marshal, goal_cases)
  case 2
  show ?case
    unfolding list.map concat.simps append_assoc append_Nil
    by (intro runs_rules) (simp_all add: zero_LoadTestReq_def assms)
qed (simp add: scalar_appends)

lemma StatusMessage_read_back: "runs StatusMessage_props (Marshal StatusMessage_props m) \<lparr>Status = ''''\<rparr> m"
  unfolding StatusMessage_props_def
proof (rule props_Marshal, goal_cases)
  case 2
  show ?case unfolding list.map concat.simps append_assoc append_Nil by (intro runs_rules) simp_all
qed (simp add: scalar_appends)

definition zero_RegisterExecutorReq :: RegisterExecutorReq where
  "zero_RegisterExecutorReq = \<lparr>DropletId = 0, Port = 0\<rparr>"

definition zero_RegisterExecutorResp :: RegisterExecutorResp where
  "zero_RegisterExecutorResp = \<lparr>InfluxAddr = '''', InfluxUsername = '''', InfluxPassword = '''', InfluxDb = '''',
     InfluxSsl = False\<rparr>"

lemma RegisterExecutorReq_read_back:
  "runs RegisterExecutorReq_props (Marshal RegisterExecutorReq_props m) zero_RegisterExecutorReq m"
  unfolding RegisterExecutorReq_props_def
proof (rule props_Marshal, goal_cases)
  case 2
  show ?case unfolding list.map concat.simps append_assoc append_Nil
    by (intro runs_rules) (simp_all add: zero_RegisterExecutorReq_def)
qed (simp add: scalar_appends)

lemma RegisterExecutorResp_read_back:
  "runs RegisterExecutorResp_props (Marshal RegisterExecutorResp_props m) zero_RegisterExecutorResp m"
  unfolding RegisterExecutorResp_props_def
proof (rule props_Marshal, goal_cases)
  case 2
  show ?case unfolding list.map concat.simps append_assoc append_Nil
    by (intro runs_rules) (simp_all add: zero_RegisterExecutorResp_def)
qed (simp add: scalar_appends)

text \<open>The cases of the \<open>oneof\<close>.\<close>

lemma Preparing_read_back: "runs Preparing_props (Marshal Preparing_props n) 0 n"
  unfolding Preparing_props_def
proof (rule props_Marshal, goal_cases)
  case 2
  show ?case unfolding list.map concat.simps append_assoc append_Nil by (intro runs_rules) simp_all
qed (simp add: scalar_appends)

lemma Errored_read_back: "runs Errored_props (Marshal Errored_props e) '''' e"
  unfolding Errored_props_def
proof (rule props_Marshal, goal_cases)
  case 2
  show ?case unfolding list.map concat.simps append_assoc append_Nil by (intro runs_rules) simp_all
qed (simp add: scalar_appends)

lemma Started_read_back: "runs Started_props (Marshal Started_props ()) () ()"
  unfolding Started_props_def by (rule props_Marshal) (simp_all add: runs_Nil)

lemma Finished_read_back: "runs Finished_props (Marshal Finished_props ()) () ()"
  unfolding Finished_props_def by (rule props_Marshal) (simp_all add: runs_Nil)

lemma oneof_appends: "struct_appends Preparing_props" "struct_appends Started_props" "struct_appends Finished_props"
  "struct_appends Errored_props"
  unfolding Preparing_props_def Started_props_def Finished_props_def Errored_props_def
  by (rule plain_struct_appends, simp add: scalar_appends)+

lemma runs_oneof:
  assumes "tag \<in> {1, 2, 3, 4}"
    and "\<And>bs m. LoadTestResp_OneofUnmarshaler tag 2 bs m = oneof_case sub zero mk 2 bs m"
    and "struct_codec sub" and "runs sub (Marshal sub v) zero v"
  shows "runs LoadTestResp_props (tagcode tag 2 @ EncodeRawBytes (Marshal sub v)) m (m\<lparr>Phase := Some (mk v)\<rparr>)"
  unfolding runs_def
proof
  assume len: "length (tagcode tag 2 @ EncodeRawBytes (Marshal sub v)) < 2 ^ 63"
  then have "length (Marshal sub v) < 2 ^ 63" by (simp add: EncodeRawBytes_def)
  with runs_Unmarshal [OF assms(3,4)] have "DecodeMessage sub (EncodeRawBytes (Marshal sub v)) zero = Some (Inr (v, []))"
    using DecodeRawBytes_Encode [of "Marshal sub v" "[]"] by (simp add: DecodeMessage_def)
  then have "oneof_case sub zero mk 2 (EncodeRawBytes (Marshal sub v)) m = Some (Some (Inr (m\<lparr>Phase := Some (mk v)\<rparr>, [])))"
    by (simp add: oneof_case_def)
  moreover have "sp_Prop LoadTestResp_props = []" "sp_oneofUnmarshaler LoadTestResp_props = LoadTestResp_OneofUnmarshaler"
    by (simp_all add: LoadTestResp_props_def)
  ultimately have "unmarshal_field LoadTestResp_props (tagcode tag 2 @ EncodeRawBytes (Marshal sub v)) m =
      Some (Inr (m\<lparr>Phase := Some (mk v)\<rparr>, []))"
    using key_parts [of 2 tag] assms(1) assms(2) by (auto simp: unmarshal_field_def tagcode_def Let_def)
  moreover have "tagcode tag 2 \<noteq> []" by (simp add: tagcode_def EncodeVarint_nonempty)
  ultimately have "unmarshalType 2 LoadTestResp_props (tagcode tag 2 @ EncodeRawBytes (Marshal sub v)) m =
      Some (Inr (m\<lparr>Phase := Some (mk v)\<rparr>))" by (simp add: numeral_2_eq_2)
  then show "\<exists>n. unmarshalType n LoadTestResp_props (tagcode tag 2 @ EncodeRawBytes (Marshal sub v)) m =
      Some (Inr (m\<lparr>Phase := Some (mk v)\<rparr>))" by blast
qed

lemma LoadTestResp_read_back: "runs LoadTestResp_props (Marshal LoadTestResp_props m) \<lparr>Phase = None\<rparr> m"
proof -
  have mar: "Marshal LoadTestResp_props m = LoadTestResp_OneofMarshaler m []"
    by (simp add: Marshal_def enc_struct_def LoadTestResp_props_def)
  have un: "LoadTestResp_OneofUnmarshaler 1 2 bs m = oneof_case Preparing_props 0 Preparing 2 bs m"
    "LoadTestResp_OneofUnmarshaler 2 2 bs m = oneof_case Started_props () (\<lambda>_. Started) 2 bs m"
    "LoadTestResp_OneofUnmarshaler 3 2 bs m = oneof_case Finished_props () (\<lambda>_. Finished) 2 bs m"
    "LoadTestResp_OneofUnmarshaler 4 2 bs m = oneof_case Errored_props '''' Errored 2 bs m" for bs m
    by (simp_all add: LoadTestResp_OneofUnmarshaler_def)
  note run = runs_oneof [OF _ un(1) preparing.struct_codec_axioms Preparing_read_back, of _ "\<lparr>Phase = None\<rparr>"]
    runs_oneof [OF _ un(2) started.struct_codec_axioms Started_read_back, of "\<lparr>Phase = None\<rparr>"]
    runs_oneof [OF _ un(3) finished.struct_codec_axioms Finished_read_back, of "\<lparr>Phase = None\<rparr>"]
    runs_oneof [OF _ un(4) errored.struct_codec_axioms Errored_read_back, of _ "\<lparr>Phase = None\<rparr>"]
  show ?thesis
  proof (cases m)
    case (fields ph)
    with run mar show ?thesis
      by (cases ph rule: option.exhaust)
        (auto simp: LoadTestResp_OneofMarshaler_def enc_len_struct_raw oneof_appends runs_Nil split: LoadTestResp_Phase.split)
  qed
qed


section \<open>Through the frame\<close>

lemma recvMsg_frame:
  assumes "grpc_encode b = Inr frame"
  shows "recvMsg (frame @ rest) = Inr ((0, b), rest)" and "length b < 2 ^ 32"
proof -
  from assms have len: "length b < 2 ^ 32" and fr: "frame = 0 # be32 (word_of_nat (length b)) @ b"
    by (auto simp: grpc_encode_def split: if_splits)
  then show "length b < 2 ^ 32" by simp
  have u: "unat (word_of_nat (length b) :: 32 word) = length b" unfolding unat_of_nat using len by simp
  then have z: "(word_of_nat (length b) :: 32 word) = 0 \<longleftrightarrow> b = []" by (metis length_0_conv unat_eq_0)
  have "ReadFull 5 (frame @ rest) = Inr (0 # be32 (word_of_nat (length b)), b @ rest)"
    by (simp add: ReadFull_def fr be32_def numeral_eq_Suc)
  then show "recvMsg (frame @ rest) = Inr ((0, b), rest)"
    using u z by (simp add: recvMsg_def be32_def be32_back Let_def ReadFull_def)
qed

text \<open>A stream of messages is a stream of frames that read back one by one.\<close>

definition grpc_frame :: "bytes \<Rightarrow> bytes" where
  "grpc_frame b = 0 # be32 (word_of_nat (length b)) @ b"

interpretation grpc: framing grpc_frame recvMsg "\<lambda>b. length b < 2 ^ 32" "Pair 0"
proof
  fix b s assume "length (b :: bytes) < 2 ^ 32"
  then have "grpc_encode b = Inr (grpc_frame b)" by (simp add: grpc_encode_def grpc_frame_def)
  then show "recvMsg (grpc_frame b @ s) = Inr ((0, b), s)" by (rule recvMsg_frame)
qed

lemma messages_read_back:
  assumes "list_all (\<lambda>b. length b < 2 ^ 32) bs"
  shows "get_n recvMsg (length bs) (concat (map grpc_frame bs) @ s) = Inr (map (Pair 0) bs, s)"
  using grpc.get_n_puts [OF assms] .

lemma grpc_recv_back:
  assumes "struct_codec sp" and "runs sp (Marshal sp m) zero m" and "grpc_encode (Marshal sp m) = Inr frame"
  shows "grpc_recv sp zero (frame @ rest) = Some (Inr (m, rest))"
proof -
  have "length (Marshal sp m) < 2 ^ 63" using recvMsg_frame(2) [OF assms(3)] by simp
  with runs_Unmarshal [OF assms(1,2)] recvMsg_frame(1) [OF assms(3)] show ?thesis by (simp add: grpc_recv_def)
qed

text \<open>
  C5. A command reaches the executor as the scheduler sent it: if the doubles of its parameters
  survive the passage through their bits, then the message framed by gRPC is read back unchanged,
  and the stream stands at the next message. The same holds for a request on its way to the scheduler.
\<close>

theorem command_crosses_the_wire:
  assumes "of_bits 0 = Fin 0"
    and "\<And>c. ScriptParamsPtr m = Some c \<Longrightarrow> of_bits (bits (GrowthFactor c)) = GrowthFactor c \<and>
      of_bits (bits (TimeBetweenGrowth c)) = TimeBetweenGrowth c"
    and "of_bits (bits (req_GrowthFactor q)) = req_GrowthFactor q"
    and "of_bits (bits (req_TimeBetweenGrowth q)) = req_TimeBetweenGrowth q"
    and "grpc_encode (Marshal (CommandMessage_props bits of_bits) m) = Inr frame"
    and "grpc_encode (Marshal (LoadTestReq_props bits of_bits) q) = Inr frame'"
  shows "grpc_recv (CommandMessage_props bits of_bits) zero_CommandMessage (frame @ rest) = Some (Inr (m, rest)) \<and>
    grpc_recv (LoadTestReq_props bits of_bits) zero_LoadTestReq (frame' @ rest) = Some (Inr (q, rest))"
  using grpc_recv_back [OF command.struct_codec_axioms CommandMessage_read_back assms(5)]
    grpc_recv_back [OF request.struct_codec_axioms LoadTestReq_read_back assms(6)] assms(1-4) by blast

text \<open>
  The answers cross the wire unchanged: a phase of a load test, whichever case of the \<open>oneof\<close>
  it is, the status of an executor, a registration and its response are read back from their frames.
\<close>

theorem answers_cross_the_wire:
  assumes "grpc_encode (Marshal LoadTestResp_props p) = Inr f1" and "grpc_encode (Marshal StatusMessage_props s) = Inr f2"
    and "grpc_encode (Marshal RegisterExecutorReq_props g) = Inr f3"
    and "grpc_encode (Marshal RegisterExecutorResp_props h) = Inr f4"
  shows "grpc_recv LoadTestResp_props \<lparr>Phase = None\<rparr> (f1 @ rest) = Some (Inr (p, rest)) \<and>
    grpc_recv StatusMessage_props \<lparr>Status = ''''\<rparr> (f2 @ rest) = Some (Inr (s, rest)) \<and>
    grpc_recv RegisterExecutorReq_props zero_RegisterExecutorReq (f3 @ rest) = Some (Inr (g, rest)) \<and>
    grpc_recv RegisterExecutorResp_props zero_RegisterExecutorResp (f4 @ rest) = Some (Inr (h, rest))"
  using grpc_recv_back [OF response.struct_codec_axioms LoadTestResp_read_back assms(1)]
    grpc_recv_back [OF status.struct_codec_axioms StatusMessage_read_back assms(2)]
    grpc_recv_back [OF register.struct_codec_axioms RegisterExecutorReq_read_back assms(3)]
    grpc_recv_back [OF registered.struct_codec_axioms RegisterExecutorResp_read_back assms(4)] by blast


section \<open>A command and its answer as bytes\<close>

definition demo_bits :: "f64 \<Rightarrow> 64 word" where
  "demo_bits x = (if x = Fin 1 then 0x3ff0000000000000 else if x = Fin (3 / 2) then 0x3ff8000000000000 else 0)"

definition demo_of_bits :: "64 word \<Rightarrow> f64" where
  "demo_of_bits w = (if w = 0x3ff0000000000000 then Fin 1 else if w = 0x3ff8000000000000 then Fin (3 / 2) else Fin 0)"

definition wire_command :: CommandMessage where
  "wire_command = \<lparr>Command = ''Run'', ScriptParamsPtr = Some \<lparr>Url = ''u'', Script = ''s'', ScriptId = ''i'', RunTime = 10,
     MaxWorkers = 300, GrowthFactor = Fin (3 / 2), TimeBetweenGrowth = Fin 1, StartingRequestsPerSecond = 60,
     MaxRequestsPerSecond = 100\<rparr>, ScriptConfig = ''''\<rparr>"

definition wire_bytes :: bytes where
  "wire_bytes = [10, 3, 82, 117, 110, 18, 36, 10, 1, 117, 18, 1, 115, 26, 1, 105, 32, 10, 48, 172, 2, 65, 0, 0, 0, 0,
     0, 0, 248, 63, 73, 0, 0, 0, 0, 0, 0, 240, 63, 80, 60, 88, 100]"

lemma wire_command_bytes: "Marshal (CommandMessage_props demo_bits demo_of_bits) wire_command = wire_bytes"
  by code_simp

lemma wire_empty_bytes:
  "Marshal (LoadTestReq_props demo_bits demo_of_bits) zero_LoadTestReq = []" "Marshal StatusMessage_props \<lparr>Status = ''OK''\<rparr> = [10, 2, 79, 75]"
  "Marshal LoadTestResp_props \<lparr>Phase = Some (Preparing 3)\<rparr> = [10, 2, 8, 3]"
  "Marshal RegisterExecutorReq_props zero_RegisterExecutorReq = []" "Marshal RegisterExecutorResp_props zero_RegisterExecutorResp = []"
  by code_simp+

theorem command_crosses_the_wire_witness:
  "\<exists>frame. grpc_encode wire_bytes = Inr frame \<and>
     grpc_recv (CommandMessage_props demo_bits demo_of_bits) zero_CommandMessage (frame @ [1, 2]) =
       Some (Inr (wire_command, [1, 2]))"
proof -
  obtain frame frame' where f: "grpc_encode wire_bytes = Inr frame" "grpc_encode [] = Inr frame'"
    by (simp add: grpc_encode_def wire_bytes_def)
  have z: "demo_of_bits 0 = Fin 0" by (simp add: demo_of_bits_def)
  have c: "demo_of_bits (demo_bits (GrowthFactor c)) = GrowthFactor c \<and>
      demo_of_bits (demo_bits (TimeBetweenGrowth c)) = TimeBetweenGrowth c" if "ScriptParamsPtr wire_command = Some c" for c
    using that by (auto simp: wire_command_def demo_bits_def demo_of_bits_def)
  have q: "demo_of_bits (demo_bits (req_GrowthFactor zero_LoadTestReq)) = req_GrowthFactor zero_LoadTestReq"
    "demo_of_bits (demo_bits (req_TimeBetweenGrowth zero_LoadTestReq)) = req_TimeBetweenGrowth zero_LoadTestReq"
    by (simp_all add: zero_LoadTestReq_def demo_bits_def demo_of_bits_def)
  have m: "grpc_encode (Marshal (CommandMessage_props demo_bits demo_of_bits) wire_command) = Inr frame"
    "grpc_encode (Marshal (LoadTestReq_props demo_bits demo_of_bits) zero_LoadTestReq) = Inr frame'"
    using f by (simp_all add: wire_command_bytes wire_empty_bytes)
  show ?thesis using command_crosses_the_wire [where rest = "[1, 2]", OF z c q m] f(1) by blast
qed

theorem answers_cross_the_wire_witness:
  "\<exists>frame. grpc_encode [10, 2, 8, 3] = Inr frame \<and>
     grpc_recv LoadTestResp_props \<lparr>Phase = None\<rparr> (frame @ [7]) = Some (Inr (\<lparr>Phase = Some (Preparing 3)\<rparr>, [7]))"
proof -
  obtain f1 f2 f3 where f: "grpc_encode [10, 2, 8, 3] = Inr f1" "grpc_encode [10, 2, 79, 75] = Inr f2"
    "grpc_encode [] = Inr f3" by (simp add: grpc_encode_def)
  with answers_cross_the_wire [of "\<lparr>Phase = Some (Preparing 3)\<rparr>" f1 "\<lparr>Status = ''OK''\<rparr>" f2 zero_RegisterExecutorReq f3
      zero_RegisterExecutorResp f3 "[7]"] show ?thesis by (simp add: wire_empty_bytes)
qed

end
