(* ===== verification/LineProtocol.thy ===== *)
theory LineProtocol
  imports Flags "HOL-Library.AList" "HOL-Library.Char_ord" "HOL-Library.List_Lexorder"
begin

text \<open>
  The line protocol of InfluxDB, \<open>influxdb/models/points.go\<close> and \<open>influxdb/pkg/escape\<close>: how the
  client writes a point as a line of text, and the parser of the same package, which the database
  runs on what it receives. Byte slices are strings. A position in a buffer is the text from it
  on, together with the bytes before it, last first, where the code looks back; a scan that steps
  over the end of its buffer panics when the result is sliced, buffers having no spare capacity.
  Maps a function ranges over are association lists, in the order of the iteration.
\<close>

section \<open>Escaping\<close>

abbreviation "bslash \<equiv> CHR 0x5C"
abbreviation "dquote \<equiv> CHR 0x22"
abbreviation "newline \<equiv> CHR 0x0A"

text \<open>\<open>bytes.Replace\<close> of one byte by its escape and of the escape by the byte.\<close>

definition escape_byte :: "char \<Rightarrow> string \<Rightarrow> string" where
  "escape_byte b s = concat (map (\<lambda>c. if c = b then [bslash, b] else [c]) s)"

fun unescape_byte :: "char \<Rightarrow> string \<Rightarrow> string" where
  "unescape_byte b (c # d # s) =
    (if c = bslash \<and> d = b then b # unescape_byte b s else c # unescape_byte b (d # s))"
| "unescape_byte b s = s"

definition Codes :: string where
  "Codes = [CHR '','', dquote, CHR '' '', CHR ''='']"

definition measurementEscapeCodes :: string where
  "measurementEscapeCodes = [CHR '','', CHR '' '']"

definition tagEscapeCodes :: string where
  "tagEscapeCodes = [CHR '','', CHR '' '', CHR ''='']"

definition escape_String :: "string \<Rightarrow> string" where
  "escape_String s = fold escape_byte Codes s"

definition escape_UnescapeString :: "string \<Rightarrow> string" where
  "escape_UnescapeString s = fold unescape_byte Codes s"

fun Unescape :: "string \<Rightarrow> string" where
  "Unescape (c # d # s) = (if c = bslash \<and> d \<in> set Codes then d # Unescape s else c # Unescape (d # s))"
| "Unescape s = s"

definition escapeMeasurement :: "string \<Rightarrow> string" where
  "escapeMeasurement s = fold escape_byte measurementEscapeCodes s"

definition unescapeMeasurement :: "string \<Rightarrow> string" where
  "unescapeMeasurement s = fold unescape_byte measurementEscapeCodes s"

definition escapeTag :: "string \<Rightarrow> string" where
  "escapeTag s = fold escape_byte tagEscapeCodes s"

definition unescapeTag :: "string \<Rightarrow> string" where
  "unescapeTag s = fold unescape_byte tagEscapeCodes s"

fun escapeStringField :: "string \<Rightarrow> string" where
  "escapeStringField [] = []"
| "escapeStringField (c # s) =
    (if c = bslash then bslash # bslash # escapeStringField s
     else if c = dquote then bslash # dquote # escapeStringField s
     else c # escapeStringField s)"

fun unescapeStringField :: "string \<Rightarrow> string" where
  "unescapeStringField (c # d # s) =
    (if c = bslash \<and> d = bslash then bslash # unescapeStringField s
     else if c = bslash \<and> d = dquote then dquote # unescapeStringField s
     else c # unescapeStringField (d # s))"
| "unescapeStringField s = s"


section \<open>Writing points\<close>

text \<open>
  Printing and reading floats, and the default format of the values that have no format of their
  own, belong to the standard library.
\<close>

record line_ops =
  FormatFloat :: "f64 \<Rightarrow> string"
  ParseFloat :: "string \<Rightarrow> f64 result"
  Sprintv :: "gval \<Rightarrow> string"

type_synonym Tags = "(string \<times> string) list"
type_synonym Fields = "(string \<times> gval) list"

definition escaped_tags :: "Tags \<Rightarrow> Tags" where
  "escaped_tags t = fold (\<lambda>(k, v) e. if escapeTag v \<noteq> [] then AList.update (escapeTag k) (escapeTag v) e else e) t []"

definition HashKey :: "Tags \<Rightarrow> string" where
  "HashKey t = (let escaped = escaped_tags t in
     concat (map (\<lambda>k. CHR '','' # k @ CHR ''='' # the (map_of escaped k)) (sort (map fst escaped))))"

definition MakeKey :: "string \<Rightarrow> Tags \<Rightarrow> string" where
  "MakeKey name tags = escapeMeasurement (unescapeMeasurement name) @ HashKey tags"

fun field_text :: "line_ops \<Rightarrow> gval \<Rightarrow> string" where
  "field_text ops (GInt i) = show_int i @ ''i''"
| "field_text ops (GInt32 w) = show_int (sint w) @ ''i''"
| "field_text ops (GInt64 i) = show_int i @ ''i''"
| "field_text ops (GFloat x) = FormatFloat ops x"
| "field_text ops (GBool b) = (if b then ''true'' else ''false'')"
| "field_text ops (GStr s) = dquote # escapeStringField s @ [dquote]"
| "field_text ops GNil = []"
| "field_text ops v = dquote # escapeStringField (Sprintv ops v) @ [dquote]"

definition MarshalBinary :: "line_ops \<Rightarrow> Fields \<Rightarrow> string" where
  "MarshalBinary ops p =
    (let b = concat (map (\<lambda>k. escape_String k @ CHR ''='' # field_text ops (the (map_of p k)) @ [CHR '','']) (sort (map fst p))) in
     if 0 < length b then butlast b else b)"

record point =
  p_time :: int
  p_key :: string
  p_fields :: string
  p_ts :: string

definition models_NewPoint :: "line_ops \<Rightarrow> string \<Rightarrow> Tags \<Rightarrow> Fields \<Rightarrow> int \<Rightarrow> point" where
  "models_NewPoint ops name tags flds t =
    \<lparr>p_time = t, p_key = MakeKey name tags, p_fields = MarshalBinary ops flds, p_ts = []\<rparr>"

definition GetPrecisionMultiplier :: "string \<Rightarrow> int" where
  "GetPrecisionMultiplier precision =
    (if precision = ''u'' then 1000 else if precision = ''ms'' then 1000000 else if precision = ''s'' then 1000000000
     else if precision = ''m'' then 60000000000 else if precision = ''h'' then 3600000000000 else 1)"

definition UnixNano :: "point \<Rightarrow> int" where
  "UnixNano p = wrap64 (p_time p)"

definition point_String :: "point \<Rightarrow> string" where
  "point_String p =
    (if p_time p = zero_time then p_key p @ '' '' @ p_fields p
     else p_key p @ '' '' @ p_fields p @ '' '' @ show_int (UnixNano p))"

definition PrecisionString :: "point \<Rightarrow> string \<Rightarrow> string" where
  "PrecisionString p precision =
    (if p_time p = zero_time then p_key p @ '' '' @ p_fields p
     else p_key p @ '' '' @ p_fields p @ '' '' @ show_int (UnixNano p sdiv GetPrecisionMultiplier precision))"

text \<open>\<open>Time.Truncate\<close> counts from the zero time.\<close>

definition Truncate :: "int \<Rightarrow> int \<Rightarrow> int" where
  "Truncate t d = t - (t - zero_time) mod d"

definition point_SetPrecision :: "string \<Rightarrow> point \<Rightarrow> point" where
  "point_SetPrecision precision p =
    (if precision \<in> {''u'', ''ms'', ''s'', ''m'', ''h''}
     then p\<lparr>p_time := Truncate (p_time p) (GetPrecisionMultiplier precision)\<rparr> else p)"

text \<open>
  The client keeps the tags and fields of a point as Go maps; the line is written from an iteration
  over them.
\<close>

definition alist_of :: "(string \<rightharpoonup> 'v) \<Rightarrow> (string \<times> 'v) list" where
  "alist_of m = map (\<lambda>k. (k, the (m k))) (sorted_list_of_set (dom m))"

definition client_PrecisionString :: "line_ops \<Rightarrow> Point \<Rightarrow> string \<Rightarrow> string" where
  "client_PrecisionString ops p precision =
     PrecisionString (models_NewPoint ops (pt_name p) (alist_of (pt_tags p)) (alist_of (pt_fields p)) (pt_time p)) precision"


section \<open>Scanning\<close>

definition out_of_range :: "'a go" where
  "out_of_range = Panic ''runtime error: slice bounds out of range''"

fun scan_block :: "(char \<Rightarrow> bool) \<Rightarrow> string \<Rightarrow> (string \<times> string) go" where
  "scan_block stop [] = Ret ([], [])"
| "scan_block stop (c # s) =
    (if c = bslash then
       (case s of
          [] \<Rightarrow> out_of_range
        | d # s' \<Rightarrow> go_bind (scan_block stop s') (\<lambda>(b, r). Ret (c # d # b, r)))
     else if stop c then Ret ([], c # s)
     else go_bind (scan_block stop s) (\<lambda>(b, r). Ret (c # b, r)))"

definition scanTo :: "char \<Rightarrow> string \<Rightarrow> (string \<times> string) go" where
  "scanTo stop = scan_block (\<lambda>c. c = stop)"

definition scanToSpaceOr :: "char \<Rightarrow> string \<Rightarrow> (string \<times> string) go" where
  "scanToSpaceOr stop = scan_block (\<lambda>c. c = stop \<or> c = CHR '' '')"

definition scanTagValue :: "string \<Rightarrow> (string \<times> string) go" where
  "scanTagValue = scan_block (\<lambda>c. c = CHR '','')"

fun scanFieldValue :: "bool \<Rightarrow> string \<Rightarrow> string \<times> string" where
  "scanFieldValue quoted (c # d # s) =
    (if c = bslash \<and> d = dquote then (case scanFieldValue quoted s of (b, r) \<Rightarrow> (c # d # b, r))
     else if c = dquote then (case scanFieldValue (\<not> quoted) (d # s) of (b, r) \<Rightarrow> (c # b, r))
     else if c = CHR '','' \<and> \<not> quoted then ([], c # d # s)
     else (case scanFieldValue quoted (d # s) of (b, r) \<Rightarrow> (c # b, r)))"
| "scanFieldValue quoted [c] = (if c = CHR '','' \<and> \<not> quoted then ([], [c]) else ([c], []))"
| "scanFieldValue quoted [] = ([], [])"

definition skipWhitespace :: "string \<Rightarrow> string" where
  "skipWhitespace s = dropWhile (\<lambda>c. c = CHR '' '' \<or> c = CHR 0x09) s"

fun scanLine :: "string \<Rightarrow> bool \<Rightarrow> bool \<Rightarrow> string \<Rightarrow> string \<times> string" where
  "scanLine seen quoted infields [] = ([], [])"
| "scanLine seen quoted infields (c # s) =
    (let infields' = (infields \<or> c = CHR '' '') in
     if infields' \<and> c = dquote \<and> 1 < length seen \<and> hd seen \<noteq> bslash
     then (case scanLine (c # seen) (\<not> quoted) infields' s of (b, r) \<Rightarrow> (c # b, r))
     else if c = newline \<and> \<not> quoted then ([], c # s)
     else (case scanLine (c # seen) quoted infields' s of (b, r) \<Rightarrow> (c # b, r)))"


section \<open>Numbers, booleans and times\<close>

definition isNumeric :: "char \<Rightarrow> bool" where
  "isNumeric c = (is_digit c \<or> c = CHR ''.'')"

abbreviation invalid_number :: "'a result" where
  "invalid_number \<equiv> Inl (Errorf ''invalid number'')"

record number_scan =
  ns_isInt :: bool
  ns_decimals :: nat
  ns_scientific :: bool
  ns_seen :: string
  ns_rest :: string

text \<open>
  One turn of the loop of \<open>scanNumber\<close> on the byte \<open>c\<close>: the new flags and how many bytes it steps
  over beside \<open>c\<close>. \<open>seen\<close> is the number so far, last byte first; before its first byte stands the
  \<open>=\<close> of the field.
\<close>

definition number_byte :: "bool \<Rightarrow> nat \<Rightarrow> bool \<Rightarrow> string \<Rightarrow> char \<Rightarrow> string \<Rightarrow> (bool \<times> nat \<times> bool \<times> nat) result" where
  "number_byte isInt decimals sci seen c s =
    (if c = CHR ''i'' \<and> seen \<noteq> [] \<and> \<not> isInt then Inr (True, decimals, sci, 0)
     else let decimals' = (if c = CHR ''.'' then decimals + 1 else decimals) in
       if 1 < decimals' then invalid_number
       else if seen \<noteq> [] \<and> (c = CHR ''e'' \<or> c = CHR ''E'') then Inr (isInt, decimals', True, 0)
       else if (c = CHR ''+'' \<or> c = CHR ''-'') \<and> seen \<noteq> [] \<and> (hd seen = CHR ''e'' \<or> hd seen = CHR ''E'')
       then Inr (isInt, decimals', sci, 0)
       else if 2 \<le> length s \<and> (c = CHR ''N'' \<or> c = CHR ''n'') then
         (if (s ! 0 = CHR ''a'' \<or> s ! 0 = CHR ''A'') \<and> (s ! 1 = CHR ''N'' \<or> s ! 1 = CHR ''n'')
          then Inr (isInt, decimals', sci, 2) else invalid_number)
       else if \<not> isNumeric c then invalid_number
       else Inr (isInt, decimals', sci, 0))"

function number_loop :: "bool \<Rightarrow> nat \<Rightarrow> bool \<Rightarrow> string \<Rightarrow> string \<Rightarrow> number_scan result" where
  "number_loop isInt decimals sci seen [] =
     Inr \<lparr>ns_isInt = isInt, ns_decimals = decimals, ns_scientific = sci, ns_seen = seen, ns_rest = []\<rparr>"
| "number_loop isInt decimals sci seen (c # s) =
    (if c = CHR '','' \<or> c = CHR '' ''
     then Inr \<lparr>ns_isInt = isInt, ns_decimals = decimals, ns_scientific = sci, ns_seen = seen, ns_rest = c # s\<rparr>
     else (case number_byte isInt decimals sci seen c s of
         Inl err \<Rightarrow> Inl err
       | Inr (isInt', decimals', sci', k) \<Rightarrow> number_loop isInt' decimals' sci' (rev (take k s) @ c # seen) (drop k s)))"
  by pat_completeness auto
termination
  by (relation "measure (\<lambda>(i, d, sc, seen, s). length s)") auto

definition maxInt64Digits :: nat where "maxInt64Digits = 19"
definition minInt64Digits :: nat where "minInt64Digits = 20"
definition maxFloat64Digits :: nat where "maxFloat64Digits = 25"
definition minFloat64Digits :: nat where "minFloat64Digits = 27"

definition number_checks :: "line_ops \<Rightarrow> number_scan \<Rightarrow> (string \<times> string) result" where
  "number_checks ops n =
    (let text = rev (ns_seen n) in
     if ns_isInt n \<and> (0 < ns_decimals n \<or> ns_scientific n) then invalid_number
     else if ns_isInt n then
       (if hd (ns_seen n) \<noteq> CHR ''i'' then invalid_number
        else if length (butlast text) \<ge> maxInt64Digits \<or> length (butlast text) \<ge> minInt64Digits then
          (case ParseInt10 (butlast text) of
             Inl err \<Rightarrow> Inl (Errorf (''unable to parse integer '' @ butlast text @ '': '' @ Error err))
           | Inr _ \<Rightarrow> Inr (text, ns_rest n))
        else Inr (text, ns_rest n))
     else if ns_scientific n \<or> length text \<ge> maxFloat64Digits \<or> length text \<ge> minFloat64Digits then
       (case ParseFloat ops text of
          Inl err \<Rightarrow> Inl (Errorf ''invalid float'')
        | Inr _ \<Rightarrow> Inr (text, ns_rest n))
     else Inr (text, ns_rest n))"

definition scanNumber :: "line_ops \<Rightarrow> string \<Rightarrow> (string \<times> string) result" where
  "scanNumber ops s =
    (case (case s of
        c # s' \<Rightarrow>
          if c = CHR ''-'' then (if s' = [] then invalid_number else number_loop False 0 False [c] s')
          else number_loop False 0 False [] s
      | [] \<Rightarrow> number_loop False 0 False [] []) of
       Inl err \<Rightarrow> Inl err
     | Inr n \<Rightarrow> number_checks ops n)"

definition scanBoolean :: "string \<Rightarrow> (string \<times> string) result go" where
  "scanBoolean s = (case s of
     [] \<Rightarrow> out_of_range
   | c # s' \<Rightarrow>
       let invalid = Ret (Inl (Errorf ''invalid boolean''));
           stop = (\<lambda>d. d = CHR '','' \<or> d = CHR '' '');
           b = c # takeWhile (\<lambda>d. \<not> stop d) s';
           r = dropWhile (\<lambda>d. \<not> stop d) s' in
       if c \<notin> {CHR ''t'', CHR ''f'', CHR ''T'', CHR ''F''} then invalid
       else if length b = 1 then Ret (Inr (b, r))
       else if (c = CHR ''t'' \<or> c = CHR ''T'') \<and> length b \<noteq> 4 then invalid
       else if (c = CHR ''f'' \<or> c = CHR ''F'') \<and> length b \<noteq> 5 then invalid
       else if (c = CHR ''t'' \<and> b = ''true'') \<or> (c = CHR ''f'' \<and> b = ''false'') \<or>
           (c = CHR ''T'' \<and> (b = ''TRUE'' \<or> b = ''True'')) \<or> (c = CHR ''F'' \<and> (b = ''FALSE'' \<or> b = ''False''))
         then Ret (Inr (b, r)) else invalid)"

fun time_loop :: "bool \<Rightarrow> string \<Rightarrow> (string \<times> string) result" where
  "time_loop first [] = Inr ([], [])"
| "time_loop first (c # s) =
    (if \<not> is_digit c then
       (if first \<and> c = CHR ''-'' then map_sum id (\<lambda>(b, r). (c # b, r)) (time_loop False s)
        else Inl (Errorf ''bad timestamp''))
     else if c = newline then Inr ([], c # s)
     else map_sum id (\<lambda>(b, r). (c # b, r)) (time_loop False s))"

definition scanTime :: "string \<Rightarrow> (string \<times> string) result" where
  "scanTime s = time_loop True (skipWhitespace s)"


section \<open>Fields\<close>

definition isFieldEscapeChar :: "char \<Rightarrow> bool" where
  "isFieldEscapeChar c = (c \<in> set Codes)"

text \<open>\<open>buf[i-1] == c && buf[i-2] != '\'\<close>, with the index panics.\<close>

fun bare_before :: "char \<Rightarrow> string \<Rightarrow> bool go" where
  "bare_before c [] = Panic ''runtime error: index out of range''"
| "bare_before c (p # ps) =
    (if p \<noteq> c then Ret False
     else case ps of [] \<Rightarrow> Panic ''runtime error: index out of range'' | q # _ \<Rightarrow> Ret (q \<noteq> bslash))"

abbreviation field_error :: "string \<Rightarrow> 'a result go" where
  "field_error m \<equiv> Ret (Inl (Errorf m))"

lemma number_loop_length: "number_loop i d sc seen s = Inr n \<Longrightarrow> length (ns_rest n) \<le> length s"
  by (induction i d sc seen s rule: number_loop.induct) (fastforce split: if_splits sum.splits prod.splits)+

lemma number_checks_rest: "number_checks ops n = Inr (b, r) \<Longrightarrow> r = ns_rest n"
  by (auto simp: number_checks_def Let_def split: if_splits sum.splits)

lemma scanNumber_length: "scanNumber ops s = Inr (b, r) \<Longrightarrow> length r \<le> length s"
  by (fastforce simp: scanNumber_def split: list.splits if_splits sum.splits
      dest: number_loop_length number_checks_rest)

lemma scanBoolean_length: "scanBoolean s = Ret (Inr (b, r)) \<Longrightarrow> length r \<le> length s"
  by (auto simp: scanBoolean_def Let_def out_of_range_def split: list.splits if_splits
      intro: le_SucI length_dropWhile_le)

text \<open>
  The loop of \<open>scanFields\<close>: the bytes before the position, whether it is in a quoted value, and the
  numbers of \<open>=\<close> and of commas so far.
\<close>

function fields_scan ::
  "line_ops \<Rightarrow> string \<Rightarrow> bool \<Rightarrow> nat \<Rightarrow> nat \<Rightarrow> string \<Rightarrow> (string \<times> string \<times> bool \<times> nat \<times> nat) result go" where
  "fields_scan ops seen quoted equals commas [] = Ret (Inr (seen, [], quoted, equals, commas))"
| "fields_scan ops seen quoted equals commas (c # s) =
    (if c = bslash \<and> s \<noteq> [] \<and> (if quoted then hd s = dquote \<or> hd s = bslash else isFieldEscapeChar (hd s))
     then fields_scan ops (hd s # c # seen) quoted equals commas (tl s)
     else if c = dquote then fields_scan ops (c # seen) (\<not> quoted) equals commas s
     else if c = CHR ''='' \<and> \<not> quoted then
       go_bind (bare_before (CHR '' '') seen) (\<lambda>b1. if b1 then field_error ''missing field key'' else
       go_bind (bare_before (CHR '','') seen) (\<lambda>b2. if b2 then field_error ''missing field key'' else
         (case s of
            [] \<Rightarrow> field_error ''missing field value''
          | d # s' \<Rightarrow>
              if d = CHR '','' \<or> d = CHR '' '' then field_error ''missing field value''
              else if isNumeric d \<or> d = CHR ''-'' \<or> d = CHR ''N'' \<or> d = CHR ''n'' then
                (case scanNumber ops s of
                   Inl err \<Rightarrow> Ret (Inl err)
                 | Inr (b, r) \<Rightarrow> fields_scan ops (rev b @ c # seen) quoted (equals + 1) commas r)
              else if d \<noteq> dquote then
                (case scanBoolean s of
                   Panic m \<Rightarrow> Panic m
                 | Ret (Inl err) \<Rightarrow> Ret (Inl err)
                 | Ret (Inr (b, r)) \<Rightarrow> fields_scan ops (rev b @ c # seen) quoted (equals + 1) commas r)
              else fields_scan ops (c # seen) quoted (equals + 1) commas s)))
     else if c = CHR '' '' \<and> \<not> quoted then Ret (Inr (seen, c # s, quoted, equals, commas))
     else fields_scan ops (c # seen) quoted equals (if c = CHR '','' \<and> \<not> quoted then commas + 1 else commas) s)"
  by pat_completeness auto
termination
  by (relation "measure (\<lambda>(ops, seen, q, e, c, s). length s)")
    (auto dest: scanNumber_length scanBoolean_length simp: neq_Nil_conv)

definition scanFields :: "line_ops \<Rightarrow> string \<Rightarrow> string \<Rightarrow> (string \<times> string \<times> string) result go" where
  "scanFields ops seen s =
    (let r0 = skipWhitespace s; seen0 = rev (take (length s - length r0) s) @ seen in
     go_bind (fields_scan ops seen0 False 0 0 r0) (\<lambda>res. case res of
       Inl err \<Rightarrow> Ret (Inl err)
     | Inr (seen1, r, quoted, equals, commas) \<Rightarrow>
         if quoted then field_error ''unbalanced quotes''
         else if equals = 0 \<or> commas \<noteq> equals - 1 then field_error ''invalid field format''
         else Ret (Inr (rev (take (length seen1 - length seen0) seen1), seen1, r))))"


section \<open>The measurement and its tags\<close>

datatype key_scan = KeyError string | KeyEnd string "nat list" nat nat string

text \<open>
  The loop of \<open>scanKey\<close>: the bytes before the position, the places where tags start, and the numbers
  of commas and of \<open>=\<close> so far. It ends with an error or at the space before the fields, or at the
  end of the buffer.
\<close>

fun key_loop :: "string \<Rightarrow> nat list \<Rightarrow> nat \<Rightarrow> nat \<Rightarrow> string \<Rightarrow> key_scan go" where
  "key_loop seen indices commas equals [] =
    (if equals = 0 \<and> 0 < commas then Ret (KeyError ''missing tag value'')
     else Ret (KeyEnd seen indices commas equals []))"
| "key_loop seen indices commas equals (c # s) =
    (if c = CHR ''='' \<and> 0 < commas then
       (if length seen < 2 then Ret (KeyError ''missing tag key'')
        else if seen ! 0 = CHR '','' \<and> seen ! 1 \<noteq> bslash then Ret (KeyError ''missing tag key'')
        else if seen ! 0 = CHR '' '' \<and> seen ! 1 \<noteq> bslash then Ret (KeyError ''missing tag key'')
        else if s \<noteq> [] \<and> (hd s = CHR '' '' \<or> hd s = CHR '','') then Ret (KeyError ''missing tag value'')
        else key_loop (c # seen) indices commas (equals + 1) s)
     else if c = bslash then
       (case s of [] \<Rightarrow> out_of_range | d # s' \<Rightarrow> key_loop (d # c # seen) indices commas equals s')
     else if c = CHR '','' then
       (if equals = 0 \<and> 0 < commas then Ret (KeyError ''missing tag value'')
        else if s \<noteq> [] \<and> hd s = CHR '' '' then Ret (KeyError ''missing tag key'')
        else key_loop (c # seen) (indices @ [length seen + 1]) (commas + 1) equals s)
     else if c = CHR '' '' then
       (if equals = 0 \<and> 0 < commas then Ret (KeyError ''missing tag value'')
        else if 0 < equals \<and> commas \<noteq> equals then Ret (KeyError ''missing tag value'')
        else Ret (KeyEnd seen (indices @ [length seen + 1]) commas equals (c # s)))
     else key_loop (c # seen) indices commas equals s)"

text \<open>The name of the tag that starts at an index, up to the end of the buffer or of a slice.\<close>

definition tag_name :: "string \<Rightarrow> nat \<Rightarrow> nat \<Rightarrow> string go" where
  "tag_name buf a b = go_bind (scanTo (CHR ''='') (take (b - a) (drop a buf))) (\<lambda>(n, _). Ret n)"

text \<open>Outermost tags first, towards the middle: equal names are duplicates, a descent is unsorted.\<close>

fun tags_sorted :: "string \<Rightarrow> nat list \<Rightarrow> nat \<Rightarrow> nat list \<Rightarrow> bool \<Rightarrow> bool option go" where
  "tags_sorted buf indices commas [] acc = Ret (Some acc)"
| "tags_sorted buf indices commas (j # js) acc =
    go_bind (tag_name buf (indices ! j) (indices ! (j + 1) - 1)) (\<lambda>left.
    go_bind (tag_name buf (indices ! (commas - j - 1)) (indices ! (commas - j) - 1)) (\<lambda>right.
      if left = right then Ret None
      else tags_sorted buf indices commas js (acc \<and> \<not> right < left)))"

definition tag_less :: "string \<Rightarrow> nat \<Rightarrow> nat \<Rightarrow> bool go" where
  "tag_less buf i j =
    go_bind (tag_name buf i (length buf)) (\<lambda>a. go_bind (tag_name buf j (length buf)) (\<lambda>b. Ret (a < b)))"

text \<open>Insertion sort of the indices: one index is moved left past the greater ones.\<close>

fun sink :: "string \<Rightarrow> nat \<Rightarrow> nat list \<Rightarrow> nat list go" where
  "sink buf x [] = Ret [x]"
| "sink buf x (y # ys) =
    go_bind (tag_less buf x y) (\<lambda>l. if l then go_bind (sink buf x ys) (\<lambda>zs. Ret (y # zs)) else Ret (x # y # ys))"

fun insertion_loop :: "string \<Rightarrow> nat list \<Rightarrow> nat list \<Rightarrow> nat list go" where
  "insertion_loop buf done_rev [] = Ret (rev done_rev)"
| "insertion_loop buf done_rev (x # xs) = go_bind (sink buf x done_rev) (\<lambda>d. insertion_loop buf d xs)"

definition insertionSort :: "string \<Rightarrow> nat list \<Rightarrow> nat list go" where
  "insertionSort buf indices = insertion_loop buf [] indices"

text \<open>The new key: the tags in their order, copied into a buffer of the length of the old key.\<close>

fun rebuild_key :: "string \<Rightarrow> nat \<Rightarrow> string \<Rightarrow> nat list \<Rightarrow> string go" where
  "rebuild_key buf n b [] = Ret (b @ replicate (n - length b) (CHR 0x00))"
| "rebuild_key buf n b (i # is) =
    (if n \<le> length b then Panic ''runtime error: index out of range''
     else go_bind (scanToSpaceOr (CHR '','') (drop i buf)) (\<lambda>(v, _).
       rebuild_key buf n (b @ CHR '','' # take (n - length b - 1) v) is))"

definition scanKey :: "string \<Rightarrow> (string \<times> string \<times> string) result go" where
  "scanKey buf =
    (let r0 = skipWhitespace buf; start = length buf - length r0 in
     go_bind (key_loop (rev (take start buf)) [] 0 0 r0) (\<lambda>res. case res of
       KeyError m \<Rightarrow> field_error m
     | KeyEnd seen indices commas equals r \<Rightarrow>
         if 0 < equals \<and> commas \<noteq> equals then field_error ''invalid tag format''
         else if r = [] then field_error ''missing fields''
         else go_bind (tags_sorted buf indices commas [0..<commas div 2] True) (\<lambda>srt. case srt of
           None \<Rightarrow> field_error ''duplicate tags''
         | Some ok \<Rightarrow>
             if \<not> ok \<and> 0 < commas then
               go_bind (insertionSort buf (take commas indices)) (\<lambda>is.
               go_bind (rebuild_key buf (length seen - start) (take (indices ! 0 - 1 - start) (drop start buf)) is) (\<lambda>b.
                 Ret (Inr (b, seen, r))))
             else Ret (Inr (drop start (rev seen), seen, r)))))"


section \<open>Parsing points\<close>

definition parsePoint :: "line_ops \<Rightarrow> string \<Rightarrow> int \<Rightarrow> string \<Rightarrow> point result go" where
  "parsePoint ops buf defaultTime precision =
    go_bind (scanKey buf) (\<lambda>k. case k of
      Inl err \<Rightarrow> Ret (Inl err)
    | Inr (key, seen, r) \<Rightarrow>
        if key = [] then field_error ''missing measurement''
        else go_bind (scanFields ops seen r) (\<lambda>f. case f of
          Inl err \<Rightarrow> Ret (Inl err)
        | Inr (flds, _, r1) \<Rightarrow>
            if flds = [] then field_error ''missing fields''
            else case scanTime r1 of
              Inl err \<Rightarrow> Ret (Inl err)
            | Inr (ts, _) \<Rightarrow>
                let pt = \<lparr>p_time = zero_time, p_key = key, p_fields = flds, p_ts = ts\<rparr> in
                if ts = [] then Ret (Inr (point_SetPrecision precision (pt\<lparr>p_time := defaultTime\<rparr>)))
                else (case ParseInt10 ts of
                    Inl err \<Rightarrow> Ret (Inl err)
                  | Inr n \<Rightarrow> Ret (Inr (pt\<lparr>p_time := wrap64 (n * GetPrecisionMultiplier precision)\<rparr>)))))"

lemma scanLine_split: "scanLine seen q f s = (b, r) \<Longrightarrow> b @ r = s"
  by (induction seen q f s arbitrary: b r rule: scanLine.induct) (auto simp: Let_def split: if_splits prod.splits)

function parse_loop ::
  "line_ops \<Rightarrow> int \<Rightarrow> string \<Rightarrow> string \<Rightarrow> string \<Rightarrow> point list \<Rightarrow> point list result go" where
  "parse_loop ops defaultTime precision seen s points =
    (case scanLine seen False False s of (block, r) \<Rightarrow>
       if block = [] then Ret (Inr points)
       else let line = skipWhitespace block in
         if line = [] \<or> hd line = CHR ''#'' then
           (case r of
              [] \<Rightarrow> out_of_range
            | c # r' \<Rightarrow> parse_loop ops defaultTime precision (c # rev block @ seen) r' points)
         else let text = (if last block = newline then butlast line else line) in
           go_bind (parsePoint ops text defaultTime precision) (\<lambda>p. case p of
             Inl err \<Rightarrow> field_error (''unable to parse '' @ [CHR 0x27] @ text @ [CHR 0x27] @ '': '' @ Error err)
           | Inr pt \<Rightarrow> (case r of
                 [] \<Rightarrow> Ret (Inr (points @ [pt]))
               | c # r' \<Rightarrow>
                   if r' = [] then Ret (Inr (points @ [pt]))
                   else parse_loop ops defaultTime precision (c # rev block @ seen) r' (points @ [pt]))))"
  by pat_completeness auto
termination
  by (relation "measure (\<lambda>(ops, t, p, seen, s, ps). length s)") (auto dest!: scanLine_split [OF sym])

declare parse_loop.simps [simp del]

definition ParsePointsWithPrecision :: "line_ops \<Rightarrow> string \<Rightarrow> int \<Rightarrow> string \<Rightarrow> point list result go" where
  "ParsePointsWithPrecision ops buf defaultTime precision = parse_loop ops defaultTime precision [] buf []"

definition ParsePoints :: "line_ops \<Rightarrow> string \<Rightarrow> int \<Rightarrow> point list result go" where
  "ParsePoints ops buf now = ParsePointsWithPrecision ops buf now ''n''"


section \<open>Reading a point\<close>

definition point_Name :: "point \<Rightarrow> string go" where
  "point_Name p = go_bind (scanTo (CHR '','') (p_key p)) (\<lambda>(name, _). Ret (Unescape name))"

partial_function (option) tags_loop :: "string \<Rightarrow> (string \<rightharpoonup> string) \<Rightarrow> (string \<rightharpoonup> string) go option" where
  "tags_loop s tags =
    (if s = [] then Some (Ret tags)
     else case scanTo (CHR ''='') s of
       Panic m \<Rightarrow> Some (Panic m)
     | Ret (key, r) \<Rightarrow> (case r of
         [] \<Rightarrow> Some out_of_range
       | _ # r1 \<Rightarrow> (case scanTagValue r1 of
           Panic m \<Rightarrow> Some (Panic m)
         | Ret (value, r2) \<Rightarrow>
             if value = [] then tags_loop r2 tags
             else tags_loop (tl r2) (tags(unescapeTag key \<mapsto> unescapeTag value)))))"

definition point_Tags :: "point \<Rightarrow> (string \<rightharpoonup> string) go option" where
  "point_Tags p =
    (if p_key p = [] then Some (Ret Map.empty)
     else case scanTo (CHR '','') (p_key p) of
       Panic m \<Rightarrow> Some (Panic m)
     | Ret (name, r) \<Rightarrow> if name = [] then Some (Ret Map.empty) else tags_loop (tl r) Map.empty)"

text \<open>The loop of \<open>parseNumber\<close> over the bytes of a number without the suffix \<open>i\<close>.\<close>

fun parseNumber_loop :: "line_ops \<Rightarrow> string \<Rightarrow> string \<Rightarrow> gval result" where
  "parseNumber_loop ops val [] = map_sum id GFloat (ParseFloat ops val)"
| "parseNumber_loop ops val (c # s) =
    (if c \<in> {CHR ''.'', CHR ''N'', CHR ''n'', CHR ''I'', CHR ''i'', CHR ''e''}
     then map_sum id GFloat (ParseFloat ops val)
     else if c < CHR ''0'' \<and> CHR ''9'' < c then Inr (GStr val)
     else parseNumber_loop ops val s)"

definition parseNumber :: "line_ops \<Rightarrow> string \<Rightarrow> gval result" where
  "parseNumber ops val =
    (if last val = CHR ''i'' then map_sum id GInt64 (ParseInt10 (butlast val)) else parseNumber_loop ops val val)"

definition field_value :: "line_ops \<Rightarrow> string \<Rightarrow> gval go" where
  "field_value ops v =
    (if hd v = dquote then
       (if length v < 2 then out_of_range else Ret (GStr (unescapeStringField (butlast (tl v)))))
     else if is_digit (hd v) \<or> hd v \<in> {CHR ''-'', CHR ''+'', CHR ''.'', CHR ''N'', CHR ''n'', CHR ''I'', CHR ''i''} then
       (case parseNumber ops v of
          Inl err \<Rightarrow> Panic (''unable to parse number value '' @ [CHR 0x27] @ v @ [CHR 0x27] @ '': '' @ Error err)
        | Inr x \<Rightarrow> Ret x)
     else (case ParseBool v of
          None \<Rightarrow> Panic (''unable to parse bool value '' @ [CHR 0x27] @ v @ [CHR 0x27] @ '': invalid syntax'')
        | Some b \<Rightarrow> Ret (GBool b)))"

partial_function (option) fields_loop ::
  "line_ops \<Rightarrow> string \<Rightarrow> (string \<rightharpoonup> gval) \<Rightarrow> (string \<rightharpoonup> gval) go option" where
  "fields_loop ops s flds =
    (if s = [] then Some (Ret flds)
     else case scanTo (CHR ''='') s of
       Panic m \<Rightarrow> Some (Panic m)
     | Ret (name, r) \<Rightarrow>
         if name = [] then fields_loop ops r flds
         else (case r of
             [] \<Rightarrow> Some out_of_range
           | _ # r1 \<Rightarrow> (case scanFieldValue False r1 of (v, r2) \<Rightarrow>
               if v = [] then fields_loop ops r2 (flds(Unescape name \<mapsto> GNil))
               else (case field_value ops v of
                   Panic m \<Rightarrow> Some (Panic m)
                 | Ret x \<Rightarrow> fields_loop ops (tl r2) (flds(Unescape name \<mapsto> x))))))"

definition newFieldsFromBinary :: "line_ops \<Rightarrow> string \<Rightarrow> (string \<rightharpoonup> gval) go option" where
  "newFieldsFromBinary ops buf = fields_loop ops buf Map.empty"

definition point_Fields :: "line_ops \<Rightarrow> point \<Rightarrow> (string \<rightharpoonup> gval) go option" where
  "point_Fields ops p = newFieldsFromBinary ops (p_fields p)"

text \<open>
  The setters, on a point whose cached name and fields are those of its key and field text. They
  unmarshal the old tags or fields first, which may panic or not return.
\<close>

fun with_read :: "'a go option \<Rightarrow> ('a \<Rightarrow> 'b go option) \<Rightarrow> 'b go option" where
  "with_read None f = None"
| "with_read (Some (Panic m)) f = Some (Panic m)"
| "with_read (Some (Ret x)) f = f x"

definition SetName :: "string \<Rightarrow> point \<Rightarrow> point go option" where
  "SetName name p = with_read (point_Tags p) (\<lambda>tags. Some (Ret (p\<lparr>p_key := MakeKey name (alist_of tags)\<rparr>)))"

definition SetTags :: "Tags \<Rightarrow> point \<Rightarrow> point go option" where
  "SetTags tags p = with_read (Some (point_Name p)) (\<lambda>name. Some (Ret (p\<lparr>p_key := MakeKey name tags\<rparr>)))"

definition AddTag :: "string \<Rightarrow> string \<Rightarrow> point \<Rightarrow> point go option" where
  "AddTag key value p = with_read (point_Tags p) (\<lambda>tags. with_read (Some (point_Name p)) (\<lambda>name.
     Some (Ret (p\<lparr>p_key := MakeKey name (alist_of (tags(key \<mapsto> value)))\<rparr>))))"

definition AddField :: "line_ops \<Rightarrow> string \<Rightarrow> gval \<Rightarrow> point \<Rightarrow> point go option" where
  "AddField ops name value p = with_read (point_Fields ops p) (\<lambda>flds.
     Some (Ret (p\<lparr>p_fields := MarshalBinary ops (alist_of (flds(name \<mapsto> value)))\<rparr>)))"

end
