(* ===== verification/Decimal.thy ===== *)
theory Decimal
  imports Persistence
begin

text \<open>Decimal numbers: \<open>strconv.ParseInt\<close> reads back what \<open>strconv.FormatInt\<close> prints.\<close>

definition in64 :: "int \<Rightarrow> bool" where
  "in64 i = (- (2 ^ 63) \<le> i \<and> i < 2 ^ 63)"

lemma is_digit_char: "d < 10 \<Longrightarrow> is_digit (digit_char d)"
  by (simp add: is_digit_def digit_char_def of_char_of)

lemma show_nat_is_digit: "c \<in> set (show_nat n) \<Longrightarrow> is_digit c"
  using show_nat_digits is_digit_char by blast

lemma show_nat_nonempty [simp]: "show_nat n \<noteq> []"
  by (subst show_nat.simps) simp

lemma ParseInt10_show: "in64 i \<Longrightarrow> ParseInt10 (show_int i) = Inr i"
proof (cases "i < 0")
  case True
  assume "in64 i"
  with True show ?thesis
    by (auto simp: ParseInt10_def show_int_def in64_def Let_def list_all_iff show_nat_is_digit)
next
  case False
  assume i: "in64 i"
  obtain c s where s: "show_nat (nat i) = c # s" by (cases "show_nat (nat i)") auto
  then have "is_digit c" using show_nat_is_digit [of c "nat i"] by simp
  then have "c \<noteq> CHR ''-'' \<and> c \<noteq> CHR ''+''" by (auto simp: is_digit_def)
  moreover have "int (read_nat (c # s)) = i" using read_show_nat [of "nat i"] s False by simp
  moreover have "list_all is_digit (c # s)" using show_nat_is_digit [of _ "nat i"] s by (auto simp: list_all_iff)
  ultimately show ?thesis using i False s by (simp add: ParseInt10_def show_int_def in64_def Let_def)
qed

end
