(* ===== verification/LineProps.thy ===== *)
theory LineProps
  imports LineProtocol Decimal
begin

text \<open>
  What the line protocol promises: the points the gatherers report are read back by the database's
  parser, whatever batch they are in, as long as the reported texts do not end with a backslash; and
  which values of a script make the database reject a whole batch.
\<close>

section \<open>Escaping\<close>

text \<open>The order in which Go ranges over the escape codes does not matter.\<close>

lemma escape_byte_id: "b \<notin> set s \<Longrightarrow> escape_byte b s = s"
  by (induction s) (auto simp: escape_byte_def)

lemma escape_byte_append: "escape_byte b (s @ t) = escape_byte b s @ escape_byte b t"
  by (simp add: escape_byte_def)

lemma fold_escape_byte:
  assumes "distinct codes" and "bslash \<notin> set codes"
  shows "fold escape_byte codes s = concat (map (\<lambda>c. if c \<in> set codes then [bslash, c] else [c]) s)"
  using assms
proof (induction codes arbitrary: s rule: rev_induct)
  case (snoc b codes)
  have "escape_byte b (concat (map (\<lambda>c. if c \<in> set codes then [bslash, c] else [c]) s)) =
      concat (map (\<lambda>c. if c \<in> set (codes @ [b]) then [bslash, c] else [c]) s)"
    using snoc.prems by (induction s) (auto simp: escape_byte_append escape_byte_def)
  with snoc show ?case by simp
qed simp

lemma fold_unescape_byte_id: "bslash \<notin> set s \<Longrightarrow> fold unescape_byte codes s = s"
proof (induction codes)
  case (Cons b codes)
  have "unescape_byte b s = s" using Cons.prems by (induction b s rule: unescape_byte.induct) auto
  with Cons show ?case by simp
qed simp

lemma Unescape_id: "bslash \<notin> set s \<Longrightarrow> Unescape s = s"
  by (induction s rule: Unescape.induct) auto

lemma fold_escape_byte_id: "set s \<inter> set codes = {} \<Longrightarrow> fold escape_byte codes s = s"
  by (induction codes) (auto simp: escape_byte_id)

lemma unescapeStringField_escape: "unescapeStringField (escapeStringField s) = s"
proof (induction s rule: escapeStringField.induct)
  case (2 c s)
  then show ?case by (cases "escapeStringField s") auto
qed simp

text \<open>Names of measurements and fields that need no escaping.\<close>

definition plain_char :: "char \<Rightarrow> bool" where
  "plain_char c = (c \<notin> {CHR '','', CHR '' '', CHR ''='', bslash, dquote, newline, CHR 0x09, CHR ''#''})"

definition plain_text :: "string \<Rightarrow> bool" where
  "plain_text s = (s \<noteq> [] \<and> list_all plain_char s)"

lemma plain_text_chars: "plain_text s \<Longrightarrow> c \<in> set s \<Longrightarrow> plain_char c"
  by (auto simp: plain_text_def list_all_iff)

lemma plain_text_escape [simp]:
  assumes "plain_text s"
  shows "escape_String s = s" "escapeMeasurement s = s" "unescapeMeasurement s = s" "Unescape s = s"
proof -
  have b: "bslash \<notin> set s" and c: "set s \<inter> set Codes = {}" "set s \<inter> set measurementEscapeCodes = {}"
    using plain_text_chars [OF assms] by (auto simp: plain_char_def Codes_def measurementEscapeCodes_def)
  show "escape_String s = s" "escapeMeasurement s = s" "unescapeMeasurement s = s" "Unescape s = s"
    unfolding escape_String_def escapeMeasurement_def unescapeMeasurement_def
    using fold_escape_byte_id [OF c(1)] fold_escape_byte_id [OF c(2)] fold_unescape_byte_id [OF b] Unescape_id [OF b] by auto
qed


section \<open>The three scans over a value\<close>

text \<open>
  A text is a value when the scan of a line, the scan of the fields and the scan of one value all step
  over it, and it is read as the given value.
\<close>

definition ends_value :: "string \<Rightarrow> bool" where
  "ends_value rest = (rest = [] \<or> hd rest = CHR '','' \<or> hd rest = CHR '' '')"

definition prepend :: "string \<Rightarrow> string \<times> string \<Rightarrow> string \<times> string" where
  "prepend a p = (a @ fst p, snd p)"

lemma prepend_prepend [simp]: "prepend a (prepend b p) = prepend (a @ b) p" "prepend a (b, r) = (a @ b, r)" "prepend [] p = p"
  by (simp_all add: prepend_def)

locale value_text =
  fixes ops :: line_ops and v :: string and x :: gval
  assumes nonempty: "v \<noteq> []"
    and line: "2 \<le> length seen \<Longrightarrow> hd seen \<noteq> bslash \<Longrightarrow>
      scanLine seen False True (v @ rest) = prepend v (scanLine (rev v @ seen) False True rest)"
    and flds: "seen \<noteq> [] \<Longrightarrow> plain_char (hd seen) \<Longrightarrow> ends_value rest \<Longrightarrow>
      fields_scan ops seen False e c (CHR ''='' # v @ rest) = fields_scan ops (rev v @ CHR ''='' # seen) False (e + 1) c rest"
    and scan: "rest = [] \<or> hd rest = CHR '','' \<Longrightarrow> scanFieldValue False (v @ rest) = (v, rest)"
    and read: "field_value ops v = Ret x"

lemma scanLine_plain:
  assumes "\<And>c. c \<in> set v \<Longrightarrow> c \<noteq> dquote \<and> c \<noteq> newline" and "f \<or> CHR '' '' \<notin> set v"
  shows "scanLine seen False f (v @ rest) = prepend v (scanLine (rev v @ seen) False f rest)"
  using assms
proof (induction v arbitrary: seen)
  case (Cons c v)
  then show ?case by (auto simp: Let_def prepend_def split: prod.splits)
qed (simp add: prepend_def)

lemma scanFieldValue_plain:
  assumes "\<And>c. c \<in> set v \<Longrightarrow> c \<noteq> dquote \<and> c \<noteq> bslash \<and> c \<noteq> CHR '',''" and "rest = [] \<or> hd rest = CHR '',''"
  shows "scanFieldValue False (v @ rest) = (v, rest)"
  using assms
proof (induction v)
  case Nil
  then show ?case by (cases rest; cases "tl rest") auto
next
  case (Cons c v)
  then show ?case by (cases "v @ rest") (auto split: prod.splits)
qed

subsection \<open>Numbers\<close>

lemma digit_char_facts:
  "is_digit c \<Longrightarrow> c \<noteq> CHR '','' \<and> c \<noteq> CHR '' '' \<and> c \<noteq> CHR ''i'' \<and> c \<noteq> CHR ''.'' \<and> c \<noteq> CHR ''e'' \<and> c \<noteq> CHR ''E'' \<and>
     c \<noteq> CHR ''+'' \<and> c \<noteq> CHR ''-'' \<and> c \<noteq> CHR ''N'' \<and> c \<noteq> CHR ''n'' \<and> c \<noteq> dquote \<and> c \<noteq> bslash \<and> c \<noteq> newline \<and> isNumeric c"
  by (auto simp: is_digit_def isNumeric_def)

lemma number_loop_digits:
  assumes "\<And>c. c \<in> set ds \<Longrightarrow> is_digit c" and "d \<le> 1"
  shows "number_loop False d False seen (ds @ rest) = number_loop False d False (rev ds @ seen) rest"
  using assms(1)
proof (induction ds arbitrary: seen)
  case (Cons c ds)
  have "number_byte False d False seen c (ds @ rest) = Inr (False, d, False, 0)"
    using digit_char_facts [of c] Cons.prems assms(2) by (auto simp: number_byte_def Let_def)
  with Cons digit_char_facts [of c] show ?case by simp
qed simp

lemma number_loop_end:
  "ends_value rest \<Longrightarrow> number_loop i d sc seen rest =
     Inr \<lparr>ns_isInt = i, ns_decimals = d, ns_scientific = sc, ns_seen = seen, ns_rest = rest\<rparr>"
  by (cases rest) (auto simp: ends_value_def)

lemma show_int_cases:
  obtains ds where "show_int i = ds" "ds \<noteq> []" "\<And>c. c \<in> set ds \<Longrightarrow> is_digit c"
  | ds where "show_int i = CHR ''-'' # ds" "ds \<noteq> []" "\<And>c. c \<in> set ds \<Longrightarrow> is_digit c"
  by (cases "i < 0") (auto simp: show_int_def show_nat_is_digit)

lemma scanNumber_int:
  assumes "in64 i" and "ends_value rest"
  shows "scanNumber ops (show_int i @ CHR ''i'' # rest) = Inr (show_int i @ ''i'', rest)"
proof -
  have loop: "number_loop False 0 False seen (ds @ CHR ''i'' # rest) =
      Inr \<lparr>ns_isInt = True, ns_decimals = 0, ns_scientific = False, ns_seen = CHR ''i'' # rev ds @ seen, ns_rest = rest\<rparr>"
    if "ds \<noteq> []" "\<And>c. c \<in> set ds \<Longrightarrow> is_digit c" for ds seen
    using that number_loop_digits [of ds 0 seen "CHR ''i'' # rest"] number_loop_end [OF assms(2)]
    by (simp add: number_byte_def)
  show ?thesis
  proof (cases rule: show_int_cases [of i])
    case (1 ds)
    then obtain c s where c: "ds = c # s" "is_digit c" by (cases ds) auto
    with loop [OF 1(2,3), of "[]"] 1(1) ParseInt10_show [OF assms(1)] digit_char_facts [OF c(2)]
    show ?thesis by (simp add: scanNumber_def number_checks_def Let_def)
  next
    case (2 ds)
    with loop [OF 2(2,3), of "[CHR ''-'']"] ParseInt10_show [OF assms(1)]
    show ?thesis by (simp add: scanNumber_def number_checks_def Let_def)
  qed
qed

lemma int_text_chars: "c \<in> set (show_int i @ ''i'') \<Longrightarrow> is_digit c \<or> c = CHR ''-'' \<or> c = CHR ''i''"
  by (auto simp: show_int_def show_nat_is_digit split: if_splits)

lemma bare_before_plain:
  "seen \<noteq> [] \<Longrightarrow> plain_char (hd seen) \<Longrightarrow> bare_before (CHR '' '') seen = Ret False"
  "seen \<noteq> [] \<Longrightarrow> plain_char (hd seen) \<Longrightarrow> bare_before (CHR '','') seen = Ret False"
  by (cases seen; simp add: plain_char_def)+

lemma fields_scan_number:
  assumes "seen \<noteq> []" and "plain_char (hd seen)" and "v \<noteq> []" and "isNumeric (hd v) \<or> hd v = CHR ''-''"
    and "scanNumber ops (v @ rest) = Inr (v, rest)"
  shows "fields_scan ops seen False e c (CHR ''='' # v @ rest) = fields_scan ops (rev v @ CHR ''='' # seen) False (e + 1) c rest"
proof -
  obtain d v' where v: "v = d # v'" using assms(3) by (cases v) auto
  have d: "d \<noteq> CHR '','' \<and> d \<noteq> CHR '' ''" using assms(4) v by (auto simp: isNumeric_def is_digit_def)
  show ?thesis using assms(4,5) v d by (auto simp: bare_before_plain assms(1,2))
qed

lemma value_text_int:
  assumes "in64 i"
  shows "value_text ops (show_int i @ ''i'') (GInt64 i)"
proof
  let ?v = "show_int i @ ''i''"
  have chars: "c \<noteq> dquote \<and> c \<noteq> newline \<and> c \<noteq> bslash \<and> c \<noteq> CHR '',''" if "c \<in> set ?v" for c
    using int_text_chars [OF that] by (elim disjE) (simp_all add: digit_char_facts)
  show "?v \<noteq> []" by simp
  show "scanLine seen False True (?v @ rest) = prepend ?v (scanLine (rev ?v @ seen) False True rest)" for seen rest
    using chars by (intro scanLine_plain) auto
  show "scanFieldValue False (?v @ rest) = (?v, rest)" if "rest = [] \<or> hd rest = CHR '',''" for rest
    using that chars by (intro scanFieldValue_plain) auto
  have hd: "is_digit (hd ?v) \<or> hd ?v = CHR ''-''"
    by (cases rule: show_int_cases [of i]) auto
  show "fields_scan ops seen False e c (CHR ''='' # ?v @ rest) =
      fields_scan ops (rev ?v @ CHR ''='' # seen) False (e + 1) c rest"
    if "seen \<noteq> []" "plain_char (hd seen)" "ends_value rest" for seen e c rest
  proof (rule fields_scan_number)
    show "scanNumber ops (?v @ rest) = Inr (?v, rest)" using scanNumber_int [OF assms that(3)] by simp
    show "isNumeric (hd ?v) \<or> hd ?v = CHR ''-''" using hd by (auto simp: isNumeric_def)
  qed (use that in auto)
  have "hd ?v \<noteq> dquote" using hd by (elim disjE) (simp_all add: digit_char_facts)
  then show "field_value ops ?v = Ret (GInt64 i)"
    using hd ParseInt10_show [OF assms] by (auto simp: field_value_def parseNumber_def)
qed

interpretation int32_text: value_text ops "show_int (sint w) @ ''i''" "GInt64 (sint w)" for ops and w :: int32
  by (rule value_text_int) (use sint32_bounds [of w] in \<open>simp add: in64_def\<close>)


subsection \<open>Quoted texts\<close>

definition ends_clean :: "string \<Rightarrow> bool" where
  "ends_clean s = (s = [] \<or> last s \<noteq> bslash)"

lemma ends_clean_tl: "ends_clean (c # s) \<Longrightarrow> ends_clean s"
  by (auto simp: ends_clean_def split: if_splits)

lemma escapeStringField_last: "ends_clean s \<Longrightarrow> hd (rev (escapeStringField s) @ [dquote]) \<noteq> bslash"
proof (induction s rule: rev_induct)
  case (snoc c s)
  have "escapeStringField (s @ [c]) = escapeStringField s @ escapeStringField [c]"
    by (induction s) auto
  with snoc.prems show ?case by (simp add: ends_clean_def)
qed simp

lemma escapeStringField_hd: "s \<noteq> [] \<Longrightarrow> escapeStringField s \<noteq> [] \<and> hd (escapeStringField s) \<noteq> dquote"
  by (cases s) auto

lemma scanLine_quoted:
  "scanLine seen True True (escapeStringField s @ rest) =
     prepend ((escapeStringField s)) (scanLine (rev (escapeStringField s) @ seen) True True rest)"
  by (induction s arbitrary: seen rule: escapeStringField.induct)
    (auto simp: Let_def prepend_def split: prod.splits)

lemma fields_scan_quoted:
  "fields_scan ops seen True e c (escapeStringField s @ rest) =
     fields_scan ops (rev (escapeStringField s) @ seen) True e c rest"
  by (induction s arbitrary: seen rule: escapeStringField.induct) auto

lemma scanFieldValue_quoted:
  "ends_clean s \<Longrightarrow> scanFieldValue True (escapeStringField s @ dquote # rest) =
     prepend ((escapeStringField s)) (scanFieldValue True (dquote # rest))"
proof (induction s rule: escapeStringField.induct)
  case (2 c s)
  note IH = 2(1) [OF _ ends_clean_tl [OF 2(4)]] 2(2) [OF _ _ ends_clean_tl [OF 2(4)]] 2(3) [OF _ _ ends_clean_tl [OF 2(4)]]
  let ?r = "escapeStringField s @ dquote # rest"
  obtain d r where r: "?r = d # r" by (cases ?r) auto
  have d: "d \<noteq> dquote" if "s \<noteq> []"
    using r escapeStringField_hd [OF that] by (cases "escapeStringField s") auto
  show ?case
  proof (cases "c = bslash")
    case True
    then have "s \<noteq> []" using 2(4) by (auto simp: ends_clean_def)
    with True IH(1) d r show ?thesis by (auto simp: prepend_def split: prod.splits)
  next
    case False
    then show ?thesis using IH(2,3) r by (cases "c = dquote") (auto simp: prepend_def split: prod.splits)
  qed
qed (simp add: prepend_def)

lemma value_text_string:
  assumes "ends_clean s"
  shows "value_text ops (dquote # escapeStringField s @ [dquote]) (GStr s)"
proof
  let ?e = "escapeStringField s"
  show "scanLine seen False True ((dquote # ?e @ [dquote]) @ rest) =
      prepend ((dquote # ?e @ [dquote])) (scanLine (rev (dquote # ?e @ [dquote]) @ seen) False True rest)"
    if "2 \<le> length seen" "hd seen \<noteq> bslash" for seen rest
  proof -
    have l: "hd (rev ?e @ dquote # seen) \<noteq> bslash"
      using escapeStringField_last [OF assms] by (cases "rev ?e") auto
    have "1 < length (rev ?e @ dquote # seen)" "1 < length seen" using that(1) by auto
    with that(2) l show ?thesis by (simp add: scanLine_quoted prepend_def split: prod.splits)
  qed
  show "fields_scan ops seen False e c (CHR ''='' # (dquote # ?e @ [dquote]) @ rest) =
      fields_scan ops (rev (dquote # ?e @ [dquote]) @ CHR ''='' # seen) False (e + 1) c rest"
    if "seen \<noteq> []" "plain_char (hd seen)" "ends_value rest" for seen e c rest
  proof -
    show ?thesis by (simp add: bare_before_plain that isNumeric_def is_digit_def fields_scan_quoted)
  qed
  show "scanFieldValue False ((dquote # ?e @ [dquote]) @ rest) = (dquote # ?e @ [dquote], rest)"
    if "rest = [] \<or> hd rest = CHR '',''" for rest
  proof -
    have "scanFieldValue False rest = ([], rest)" using scanFieldValue_plain [of "[]" rest] that by simp
    then have "scanFieldValue True (dquote # rest) = ([dquote], rest)" by (cases rest) auto
    then have "scanFieldValue True (?e @ dquote # rest) = (?e @ [dquote], rest)"
      by (simp add: scanFieldValue_quoted [OF assms] prepend_def)
    then show ?thesis by (cases "?e @ dquote # rest") auto
  qed
qed (simp_all add: field_value_def unescapeStringField_escape)


subsection \<open>Booleans and floats\<close>

lemma value_text_bool: "value_text ops (if b then ''true'' else ''false'') (GBool b)"
proof
  let ?v = "if b then ''true'' else ''false''"
  have chars: "c \<noteq> dquote \<and> c \<noteq> newline \<and> c \<noteq> bslash \<and> c \<noteq> CHR '',''" if "c \<in> set ?v" for c
    using that by (auto split: if_splits)
  show "scanLine seen False True (?v @ rest) = prepend ?v (scanLine (rev ?v @ seen) False True rest)" for seen rest
    using chars by (intro scanLine_plain) auto
  show "scanFieldValue False (?v @ rest) = (?v, rest)" if "rest = [] \<or> hd rest = CHR '',''" for rest
    using that chars by (intro scanFieldValue_plain) auto
  show "fields_scan ops seen False e c (CHR ''='' # ?v @ rest) =
      fields_scan ops (rev ?v @ CHR ''='' # seen) False (e + 1) c rest"
    if "seen \<noteq> []" "plain_char (hd seen)" "ends_value rest" for seen e c rest
  proof -
    have "takeWhile (\<lambda>d. \<not> (d = CHR '','' \<or> d = CHR '' '')) rest = []"
      "dropWhile (\<lambda>d. \<not> (d = CHR '','' \<or> d = CHR '' '')) rest = rest"
      using that(3) by (cases rest; auto simp: ends_value_def)+
    then show ?thesis by (auto simp: bare_before_plain that isNumeric_def is_digit_def scanBoolean_def Let_def)
  qed
qed (auto simp: field_value_def is_digit_def ParseBool_def)

interpretation bool_text: value_text ops "if b then ''true'' else ''false''" "GBool b" for ops b
  by (rule value_text_bool)

definition decimal_text :: "string \<Rightarrow> bool" where
  "decimal_text t =
    (let u = (if t \<noteq> [] \<and> hd t = CHR ''-'' then tl t else t);
         ds = takeWhile is_digit u; fr = dropWhile is_digit u in
     ds \<noteq> [] \<and> (fr = [] \<or> hd fr = CHR ''.'' \<and> list_all is_digit (tl fr)))"

lemma decimal_text_cases:
  assumes "decimal_text t"
  obtains sgn ds fr where "t = sgn @ ds @ fr" "sgn = [] \<or> sgn = ''-''" "ds \<noteq> []" "\<And>c. c \<in> set ds \<Longrightarrow> is_digit c"
    "fr = [] \<or> (\<exists>fs. fr = CHR ''.'' # fs \<and> (\<forall>c \<in> set fs. is_digit c))"
proof -
  define sgn where "sgn = (if t \<noteq> [] \<and> hd t = CHR ''-'' then ''-'' else [])"
  define u where "u = (if t \<noteq> [] \<and> hd t = CHR ''-'' then tl t else t)"
  have t: "t = sgn @ takeWhile is_digit u @ dropWhile is_digit u"
    by (cases t) (auto simp: sgn_def u_def)
  have d: "takeWhile is_digit u \<noteq> []"
      "dropWhile is_digit u = [] \<or> hd (dropWhile is_digit u) = CHR ''.'' \<and> list_all is_digit (tl (dropWhile is_digit u))"
    using assms by (simp_all add: decimal_text_def Let_def u_def)
  show thesis
  proof (rule that [OF t])
    show "dropWhile is_digit u = [] \<or> (\<exists>fs. dropWhile is_digit u = CHR ''.'' # fs \<and> (\<forall>c \<in> set fs. is_digit c))"
      using d(2) by (cases "dropWhile is_digit u") (auto simp: list_all_iff)
  qed (use d(1) in \<open>auto simp: sgn_def dest: set_takeWhileD\<close>)
qed

lemma parseNumber_loop_float: "parseNumber_loop ops val s = map_sum id GFloat (ParseFloat ops val)"
  by (induction s) (auto simp: less_char_def id_def)

lemma scanNumber_decimal:
  assumes "decimal_text t" and "ParseFloat ops t = Inr x" and "ends_value rest"
  shows "scanNumber ops (t @ rest) = Inr (t, rest)"
proof -
  obtain sgn ds fr where t: "t = sgn @ ds @ fr" "sgn = [] \<or> sgn = ''-''" "ds \<noteq> []" "\<And>c. c \<in> set ds \<Longrightarrow> is_digit c"
    "fr = [] \<or> (\<exists>fs. fr = CHR ''.'' # fs \<and> (\<forall>c \<in> set fs. is_digit c))"
    using decimal_text_cases [OF assms(1)] by blast
  define k :: nat where "k = (if fr = [] then 0 else 1)"
  have fr: "number_loop False 0 False seen (fr @ rest) = Inr \<lparr>ns_isInt = False, ns_decimals = k, ns_scientific = False,
      ns_seen = rev fr @ seen, ns_rest = rest\<rparr>" for seen
    using t(5)
  proof
    assume "\<exists>fs. fr = CHR ''.'' # fs \<and> (\<forall>c \<in> set fs. is_digit c)"
    then obtain fs where fs: "fr = CHR ''.'' # fs" "\<forall>c \<in> set fs. is_digit c" by blast
    with number_loop_digits [of fs 1 "CHR ''.'' # seen" rest] number_loop_end [OF assms(3)]
    show ?thesis by (simp add: number_byte_def isNumeric_def k_def)
  qed (simp add: number_loop_end [OF assms(3)] k_def)
  have loop: "number_loop False 0 False seen ((ds @ fr) @ rest) = Inr \<lparr>ns_isInt = False, ns_decimals = k,
      ns_scientific = False, ns_seen = rev (ds @ fr) @ seen, ns_rest = rest\<rparr>" for seen
    using number_loop_digits [of ds 0 seen "fr @ rest"] t(4) fr [of "rev ds @ seen"] by simp
  obtain d ds' where ds: "ds = d # ds'" using t(3) by (cases ds) auto
  have "d \<noteq> CHR ''-''" using t(4) [of d] ds digit_char_facts [of d] by auto
  with t(1,2) ds assms(2) loop [of "[]"] loop [of "''-''"] show ?thesis
    by (auto simp: scanNumber_def number_checks_def Let_def)
qed

lemma value_text_float:
  assumes "decimal_text t" and "ParseFloat ops t = Inr x"
  shows "value_text ops t (GFloat x)"
proof
  obtain sgn ds fr where t: "t = sgn @ ds @ fr" "sgn = [] \<or> sgn = ''-''" "ds \<noteq> []" "\<And>c. c \<in> set ds \<Longrightarrow> is_digit c"
    "fr = [] \<or> (\<exists>fs. fr = CHR ''.'' # fs \<and> (\<forall>c \<in> set fs. is_digit c))"
    using decimal_text_cases [OF assms(1)] by blast
  have kind: "is_digit c \<or> c = CHR ''-'' \<or> c = CHR ''.''" if "c \<in> set t" for c
    using t that by auto
  have chars: "c \<noteq> dquote \<and> c \<noteq> newline \<and> c \<noteq> bslash \<and> c \<noteq> CHR '','' \<and> c \<noteq> CHR ''i''" if "c \<in> set t" for c
    using kind [OF that] by (elim disjE) (simp_all add: digit_char_facts)
  show ne: "t \<noteq> []" using t(1,3) by simp
  show "scanLine seen False True (t @ rest) = prepend t (scanLine (rev t @ seen) False True rest)" for seen rest
    using chars by (intro scanLine_plain) auto
  show "scanFieldValue False (t @ rest) = (t, rest)" if "rest = [] \<or> hd rest = CHR '',''" for rest
    using that chars by (intro scanFieldValue_plain) auto
  have hd: "is_digit (hd t) \<or> hd t = CHR ''-''" using t by (cases ds) auto
  show "fields_scan ops seen False e c (CHR ''='' # t @ rest) = fields_scan ops (rev t @ CHR ''='' # seen) False (e + 1) c rest"
    if "seen \<noteq> []" "plain_char (hd seen)" "ends_value rest" for seen e c rest
    using fields_scan_number [OF that(1,2) ne _ scanNumber_decimal [OF assms that(3)]] hd by (auto simp: isNumeric_def)
  have "hd t \<noteq> dquote" "last t \<noteq> CHR ''i''" using chars ne by auto
  with hd assms(2) show "field_value ops t = Ret (GFloat x)"
    by (auto simp: field_value_def parseNumber_def parseNumber_loop_float)
qed


subsection \<open>Every clean value\<close>

fun clean_value :: "line_ops \<Rightarrow> gval \<Rightarrow> bool" where
  "clean_value ops (GInt i) = in64 i"
| "clean_value ops (GInt32 w) = True"
| "clean_value ops (GInt64 i) = in64 i"
| "clean_value ops (GFloat x) = (decimal_text (FormatFloat ops x) \<and> ParseFloat ops (FormatFloat ops x) = Inr x)"
| "clean_value ops (GBool b) = True"
| "clean_value ops (GStr s) = ends_clean s"
| "clean_value ops GNil = False"
| "clean_value ops v = ends_clean (Sprintv ops v)"

text \<open>The value the database stores: integers become 64-bit, values without a format become text.\<close>

fun stored_value :: "line_ops \<Rightarrow> gval \<Rightarrow> gval" where
  "stored_value ops (GInt i) = GInt64 i"
| "stored_value ops (GInt32 w) = GInt64 (sint w)"
| "stored_value ops (GList vs) = GStr (Sprintv ops (GList vs))"
| "stored_value ops (GObj vs) = GStr (Sprintv ops (GObj vs))"
| "stored_value ops (GRef n) = GStr (Sprintv ops (GRef n))"
| "stored_value ops v = v"

lemma clean_value_text: "clean_value ops v \<Longrightarrow> value_text ops (field_text ops v) (stored_value ops v)"
proof (cases v)
  case (GBool b)
  then show ?thesis using value_text_bool [of ops b] by simp
qed (simp_all add: value_text_int value_text_string value_text_float int32_text.value_text_axioms)


section \<open>Fields\<close>

text \<open>The fields of a line, each with its name, its text and the value it stands for.\<close>

fun join_fields :: "(string \<times> string \<times> gval) list \<Rightarrow> string" where
  "join_fields [] = []"
| "join_fields [(k, v, x)] = k @ CHR ''='' # v"
| "join_fields ((k, v, x) # f # fs) = k @ CHR ''='' # v @ CHR '','' # join_fields (f # fs)"

definition good_fields :: "line_ops \<Rightarrow> (string \<times> string \<times> gval) list \<Rightarrow> bool" where
  "good_fields ops fs = (\<forall>(k, v, x) \<in> set fs. plain_text k \<and> value_text ops v x)"

lemma good_fields_Cons [simp]:
  "good_fields ops ((k, v, x) # fs) \<longleftrightarrow> plain_text k \<and> value_text ops v x \<and> good_fields ops fs"
  by (simp add: good_fields_def)

lemma join_fields_butlast:
  "fs \<noteq> [] \<Longrightarrow> butlast (concat (map (\<lambda>(k, v, x). k @ CHR ''='' # v @ [CHR '','']) fs)) = join_fields fs"
  by (induction fs rule: join_fields.induct) (auto simp: butlast_append split: prod.splits)

lemma scanLine_byte:
  "c \<noteq> dquote \<Longrightarrow> c \<noteq> newline \<Longrightarrow> scanLine seen q True (c # s) = prepend [c] (scanLine (c # seen) q True s)"
  by (simp add: prepend_def split: prod.splits)

lemma scanLine_plain_text:
  assumes "plain_text k"
  shows "scanLine seen False f (k @ rest) = prepend k (scanLine (rev k @ seen) False f rest)"
  using plain_text_chars [OF assms] by (intro scanLine_plain) (auto simp: plain_char_def)

definition line_text :: "string \<Rightarrow> bool" where
  "line_text v = (\<forall>seen rest. 2 \<le> length seen \<longrightarrow> hd seen \<noteq> bslash \<longrightarrow>
     scanLine seen False True (v @ rest) = prepend v (scanLine (rev v @ seen) False True rest))"

lemma line_texts: "line_text []" "value_text ops v x \<Longrightarrow> line_text v"
  by (simp_all add: line_text_def value_text.line)

lemma scanLine_field:
  assumes "plain_text k" and "line_text v" and "seen \<noteq> []"
  shows "scanLine seen False True (k @ CHR ''='' # v @ rest) =
    prepend (k @ CHR ''='' # v) (scanLine (rev (k @ CHR ''='' # v) @ seen) False True rest)"
proof -
  have "2 \<le> length (CHR ''='' # rev k @ seen)" using assms(1,3) by (cases k; cases seen) (auto simp: plain_text_def)
  then have "scanLine (CHR ''='' # rev k @ seen) False True (v @ rest) =
      prepend v (scanLine (rev v @ CHR ''='' # rev k @ seen) False True rest)"
    using assms(2) unfolding line_text_def by simp
  then show ?thesis by (simp add: scanLine_plain_text assms(1) scanLine_byte del: scanLine.simps)
qed

lemma scanLine_fields:
  assumes "\<forall>(k, v, x) \<in> set fs. plain_text k \<and> line_text v" and "seen \<noteq> []"
  shows "scanLine seen False True (join_fields fs @ rest) =
    prepend (join_fields fs) (scanLine (rev (join_fields fs) @ seen) False True rest)"
  using assms
proof (induction fs arbitrary: seen rule: join_fields.induct)
  case (2 k v x)
  then show ?case using scanLine_field [of k v seen rest] by simp
next
  case (3 k v x f fs)
  then show ?case
    using scanLine_field [of k v seen "CHR '','' # join_fields (f # fs) @ rest"]
    by (simp add: scanLine_byte del: scanLine.simps)
qed simp

lemma fields_scan_plain:
  "list_all plain_char k \<Longrightarrow> fields_scan ops seen False e c (k @ rest) = fields_scan ops (rev k @ seen) False e c rest"
  by (induction k arbitrary: seen) (simp_all add: plain_char_def)

lemma fields_scan_field:
  assumes "plain_text k" and "value_text ops v x" and "ends_value rest"
  shows "fields_scan ops seen False e c (k @ CHR ''='' # v @ rest) =
    fields_scan ops (rev (k @ CHR ''='' # v) @ seen) False (e + 1) c rest"
proof -
  have "rev k @ seen \<noteq> []" "plain_char (hd (rev k @ seen))"
    using assms(1) by (cases k rule: rev_cases; simp add: plain_text_def)+
  with value_text.flds [OF assms(2) this assms(3)] assms(1) show ?thesis
    by (simp add: plain_text_def fields_scan_plain)
qed

lemma fields_scan_join:
  assumes "good_fields ops fs" and "fs \<noteq> []" and "ends_value rest"
  shows "fields_scan ops seen False e c (join_fields fs @ rest) =
    fields_scan ops (rev (join_fields fs) @ seen) False (e + length fs) (c + (length fs - 1)) rest"
  using assms
proof (induction fs arbitrary: seen e c rule: join_fields.induct)
  case (2 k v x)
  then show ?case using fields_scan_field [of k ops v x rest seen e c] by simp
next
  case (3 k v x f fs)
  then show ?case
    using fields_scan_field [of k ops v x "CHR '','' # join_fields (f # fs) @ rest" seen e c] by (simp add: ends_value_def)
qed simp

lemma scanFields_join:
  assumes "good_fields ops fs" and "fs \<noteq> []"
  shows "scanFields ops seen (CHR '' '' # join_fields fs @ CHR '' '' # rest) =
    Ret (Inr (join_fields fs, rev (join_fields fs) @ CHR '' '' # seen, CHR '' '' # rest))"
proof -
  have "\<exists>c s. join_fields fs = c # s \<and> plain_char c"
  proof (cases fs rule: join_fields.cases)
    case (2 k v x)
    then show ?thesis using assms(1) by (cases k) (auto simp: plain_text_def)
  next
    case (3 k v x f fs')
    then show ?thesis using assms(1) by (cases k) (auto simp: plain_text_def)
  qed (use assms(2) in simp)
  then have s: "skipWhitespace (join_fields fs @ CHR '' '' # rest) = join_fields fs @ CHR '' '' # rest"
    by (auto simp: skipWhitespace_def plain_char_def)
  then have w: "skipWhitespace (CHR '' '' # join_fields fs @ CHR '' '' # rest) = join_fields fs @ CHR '' '' # rest"
    by (simp add: skipWhitespace_def)
  show ?thesis
    using fields_scan_join [OF assms, of "CHR '' '' # rest" "CHR '' '' # seen" 0 0] assms(2)
    by (simp add: scanFields_def w ends_value_def)
qed

lemma scan_block_plain:
  assumes "\<And>c. c \<in> set k \<Longrightarrow> c \<noteq> bslash \<and> \<not> stop c" and "rest = [] \<or> stop (hd rest) \<and> hd rest \<noteq> bslash"
  shows "scan_block stop (k @ rest) = Ret (k, rest)"
  using assms
proof (induction k)
  case Nil
  then show ?case by (cases rest) auto
qed auto

definition stored_fields :: "(string \<times> string \<times> gval) list \<Rightarrow> (string \<rightharpoonup> gval) \<Rightarrow> (string \<rightharpoonup> gval)" where
  "stored_fields fs m = foldl (\<lambda>m (k, v, x). m(k \<mapsto> x)) m fs"

lemma fields_loop_field:
  assumes "plain_text k" and "value_text ops v x" and "rest = [] \<or> hd rest = CHR '',''"
  shows "fields_loop ops (k @ CHR ''='' # v @ rest) m = fields_loop ops (tl rest) (m(k \<mapsto> x))"
proof -
  have "scanTo (CHR ''='') (k @ CHR ''='' # v @ rest) = Ret (k, CHR ''='' # v @ rest)"
    unfolding scanTo_def using plain_text_chars [OF assms(1)] by (intro scan_block_plain) (auto simp: plain_char_def)
  moreover have "k \<noteq> []" "v \<noteq> []" using assms(1) value_text.nonempty [OF assms(2)] by (simp_all add: plain_text_def)
  ultimately show ?thesis
    using value_text.scan [OF assms(2,3)] value_text.read [OF assms(2)] assms(1)
    by (subst fields_loop.simps) simp
qed

lemma fields_loop_join: "good_fields ops fs \<Longrightarrow> fields_loop ops (join_fields fs) m = Some (Ret (stored_fields fs m))"
proof (induction fs arbitrary: m rule: join_fields.induct)
  case 1
  then show ?case by (subst fields_loop.simps) (simp add: stored_fields_def)
next
  case (2 k v x)
  then show ?case
    using fields_loop_field [of k ops v x "[]" m] by (simp add: fields_loop.simps [of ops "[]"] stored_fields_def fun_upd_def)
next
  case (3 k v x f fs)
  then show ?case
    using fields_loop_field [of k ops v x "CHR '','' # join_fields (f # fs)" m] by (simp add: stored_fields_def)
qed


section \<open>Lines\<close>

lemma key_loop_plain:
  "list_all plain_char k \<Longrightarrow> key_loop seen [] 0 0 (k @ CHR '' '' # rest) =
     Ret (KeyEnd (rev k @ seen) [length k + length seen + 1] 0 0 (CHR '' '' # rest))"
  by (induction k arbitrary: seen) (simp_all add: plain_char_def)

lemma skipWhitespace_plain:
  assumes "plain_text k"
  shows "skipWhitespace (k @ rest) = k @ rest" "hd (k @ rest) \<noteq> CHR ''#''"
  using assms by (cases k; simp add: skipWhitespace_def plain_text_def plain_char_def)+

lemma scanKey_plain:
  "plain_text k \<Longrightarrow> scanKey (k @ CHR '' '' # rest) = Ret (Inr (k, rev k, CHR '' '' # rest))"
  by (simp add: scanKey_def skipWhitespace_plain key_loop_plain plain_text_def)

lemma time_loop_digits: "(\<And>c. c \<in> set ds \<Longrightarrow> is_digit c) \<Longrightarrow> time_loop f ds = Inr (ds, [])"
  by (induction ds arbitrary: f) (simp_all add: digit_char_facts)

lemma scanTime_show: "scanTime (CHR '' '' # show_int t) = Inr (show_int t, [])"
proof (cases rule: show_int_cases [of t])
  case (1 ds)
  obtain c s where "ds = c # s" "is_digit c" using 1 by (cases ds) auto
  then have "skipWhitespace (CHR '' '' # ds) = ds" by (auto simp: skipWhitespace_def is_digit_def)
  then show ?thesis using time_loop_digits [OF 1(3)] 1(1) by (simp add: scanTime_def)
next
  case (2 ds)
  have "time_loop True (CHR ''-'' # ds) = Inr (CHR ''-'' # ds, [])"
    using time_loop_digits [OF 2(3)] by (simp add: is_digit_def)
  then show ?thesis using 2(1) by (simp add: scanTime_def skipWhitespace_def)
qed

definition line_of :: "string \<Rightarrow> (string \<times> string \<times> gval) list \<Rightarrow> int \<Rightarrow> string" where
  "line_of name fs t = name @ CHR '' '' # join_fields fs @ CHR '' '' # show_int t"

lemma show_int_nonempty [simp]: "show_int t \<noteq> []"
  by (simp add: show_int_def)

lemma join_fields_nonempty: "fs \<noteq> [] \<Longrightarrow> join_fields fs \<noteq> []"
  by (cases fs rule: join_fields.cases) auto

lemma parsePoint_line:
  assumes "plain_text name" and "good_fields ops fs" and "fs \<noteq> []" and "in64 t"
  shows "parsePoint ops (line_of name fs t) now ''n'' =
    Ret (Inr \<lparr>p_time = t, p_key = name, p_fields = join_fields fs, p_ts = show_int t\<rparr>)"
proof -
  have "wrap64 t = t" using assms(4) by (simp add: in64_def wrap64_id)
  moreover have "name \<noteq> []" using assms(1) by (simp add: plain_text_def)
  ultimately show ?thesis
    using scanFields_join [OF assms(2,3), of "rev name" "show_int t"] ParseInt10_show [OF assms(4)] join_fields_nonempty [OF assms(3)]
    by (simp add: parsePoint_def line_of_def scanKey_plain assms(1) scanTime_show GetPrecisionMultiplier_def)
qed

lemma scanLine_space:
  "scanLine seen False f (CHR '' '' # s) = prepend '' '' (scanLine (CHR '' '' # seen) False True s)"
  by (simp add: prepend_def split: prod.splits)

lemma show_int_line: "scanLine seen False True (show_int t @ newline # rest) = (show_int t, newline # rest)"
proof -
  have "c \<noteq> dquote \<and> c \<noteq> newline" if "c \<in> set (show_int t)" for c
  proof -
    have "is_digit c \<or> c = CHR ''-''" using that int_text_chars [of c t] by (auto simp: show_int_def show_nat_is_digit split: if_splits)
    then show ?thesis by (elim disjE) (simp_all add: digit_char_facts)
  qed
  then have "scanLine seen False True (show_int t @ newline # rest) =
      prepend (show_int t) (scanLine (rev (show_int t) @ seen) False True (newline # rest))" by (intro scanLine_plain) auto
  then show ?thesis by simp
qed

lemma scanLine_line:
  assumes "plain_text name" and "\<forall>(k, v, x) \<in> set fs. plain_text k \<and> line_text v"
  shows "scanLine seen False False (line_of name fs t @ newline # rest) = (line_of name fs t, newline # rest)"
  using scanLine_fields [OF assms(2), of "CHR '' '' # rev name @ seen" "CHR '' '' # show_int t @ newline # rest"]
  by (simp add: line_of_def scanLine_plain_text assms(1) scanLine_space show_int_line del: scanLine.simps)

lemma parse_loop_line:
  assumes "plain_text name" and "\<forall>(k, v, x) \<in> set fs. plain_text k \<and> line_text v"
  shows "parse_loop ops now prec seen (line_of name fs t @ newline # rest) acc =
    go_bind (parsePoint ops (line_of name fs t) now prec) (\<lambda>p. case p of
      Inl err \<Rightarrow> field_error (''unable to parse '' @ [CHR 0x27] @ line_of name fs t @ [CHR 0x27] @ '': '' @ Error err)
    | Inr pt \<Rightarrow> if rest = [] then Ret (Inr (acc @ [pt]))
        else parse_loop ops now prec (newline # rev (line_of name fs t) @ seen) rest (acc @ [pt]))"
proof -
  let ?l = "line_of name fs t"
  have "last (show_int t) \<noteq> newline"
    using show_int_line [of seen t "[]"] by (cases rule: show_int_cases [of t]) (auto simp: digit_char_facts)
  then have "last ?l \<noteq> newline" by (simp add: line_of_def)
  moreover have "skipWhitespace ?l = ?l" "?l \<noteq> []" "hd ?l \<noteq> CHR ''#''"
    using skipWhitespace_plain [OF assms(1)] by (simp_all add: line_of_def)
  ultimately show ?thesis
    by (subst parse_loop.simps) (simp add: scanLine_line [OF assms] Let_def cong: sum.case_cong)
qed


section \<open>The points of a batch\<close>

definition point_fields :: "line_ops \<Rightarrow> Point \<Rightarrow> (string \<times> string \<times> gval) list" where
  "point_fields ops p =
     map (\<lambda>k. (k, field_text ops (the (pt_fields p k)), stored_value ops (the (pt_fields p k)))) (sorted_list_of_set (dom (pt_fields p)))"

text \<open>A point the line protocol can carry, but for its values.\<close>

definition plain_point :: "Point \<Rightarrow> bool" where
  "plain_point p \<longleftrightarrow> plain_text (pt_name p) \<and> pt_tags p = Map.empty \<and> finite (dom (pt_fields p)) \<and>
     dom (pt_fields p) \<noteq> {} \<and> (\<forall>k \<in> dom (pt_fields p). plain_text k) \<and> in64 (pt_time p)"

definition clean_point :: "line_ops \<Rightarrow> Point \<Rightarrow> bool" where
  "clean_point ops p \<longleftrightarrow> plain_point p \<and> (\<forall>v \<in> ran (pt_fields p). clean_value ops v)"

lemma alist_of_facts:
  assumes "finite (dom m)"
  shows "map fst (alist_of m) = sorted_list_of_set (dom m)" "k \<in> dom m \<Longrightarrow> map_of (alist_of m) k = m k"
proof -
  show "map fst (alist_of m) = sorted_list_of_set (dom m)" by (simp add: alist_of_def comp_def)
  show "map_of (alist_of m) k = m k" if "k \<in> dom m"
    using that assms by (auto simp: alist_of_def map_of_map_restrict)
qed

lemma client_line:
  assumes "plain_point p"
  shows "client_PrecisionString ops p ''ns'' = line_of (pt_name p) (point_fields ops p) (pt_time p)"
proof -
  let ?m = "pt_fields p" and ?ks = "sorted_list_of_set (dom (pt_fields p))"
  have fin: "finite (dom ?m)" and ne: "?ks \<noteq> []" and ks: "\<And>k. k \<in> set ?ks \<Longrightarrow> plain_text k \<and> k \<in> dom ?m"
    using assms by (auto simp: plain_point_def)
  have t: "in64 (pt_time p)" using assms by (simp add: plain_point_def)
  have "map (\<lambda>k. escape_String k @ CHR ''='' # field_text ops (the (map_of (alist_of ?m) k)) @ '','') ?ks =
      map (\<lambda>(k, v, x). k @ CHR ''='' # v @ '','') (point_fields ops p)"
    using ks by (auto simp: point_fields_def alist_of_facts(2) [OF fin])
  moreover have "point_fields ops p \<noteq> []" using ne by (simp add: point_fields_def)
  moreover have "concat (map (\<lambda>(k, v, x). k @ CHR ''='' # v @ '','') (point_fields ops p)) \<noteq> []"
    using calculation(2) by (cases "point_fields ops p") auto
  ultimately have mb: "MarshalBinary ops (alist_of ?m) = join_fields (point_fields ops p)"
    using join_fields_butlast [of "point_fields ops p"]
    by (simp add: MarshalBinary_def alist_of_facts(1) [OF fin] sorted_sort_id Let_def)
  have "pt_time p \<noteq> zero_time" using t by (auto simp: in64_def zero_time_def)
  then show ?thesis
    using assms mb t by (simp add: client_PrecisionString_def models_NewPoint_def PrecisionString_def plain_point_def MakeKey_def
        HashKey_def escaped_tags_def alist_of_def UnixNano_def GetPrecisionMultiplier_def line_of_def in64_def wrap64_id)
qed

lemma stored_fields_map:
  "stored_fields (map (\<lambda>k. (k, f k, g k)) ks) m = (\<lambda>k. if k \<in> set ks then Some (g k) else m k)"
  by (induction ks arbitrary: m) (auto simp: stored_fields_def fun_eq_iff)

lemma clean_point_fields:
  assumes "clean_point ops p"
  shows "good_fields ops (point_fields ops p)" "point_fields ops p \<noteq> []"
    "stored_fields (point_fields ops p) Map.empty = map_option (stored_value ops) \<circ> pt_fields p"
proof -
  have fin: "finite (dom (pt_fields p))" "dom (pt_fields p) \<noteq> {}" using assms by (simp_all add: clean_point_def plain_point_def)
  show "point_fields ops p \<noteq> []" using fin by (simp add: point_fields_def)
  have "value_text ops (field_text ops v) (stored_value ops v)" if "pt_fields p k = Some v" for k v
    using assms that by (intro clean_value_text) (auto simp: clean_point_def intro: ranI)
  then show "good_fields ops (point_fields ops p)"
    using assms fin by (auto simp: good_fields_def point_fields_def clean_point_def plain_point_def)
  show "stored_fields (point_fields ops p) Map.empty = map_option (stored_value ops) \<circ> pt_fields p"
    using fin by (auto simp: point_fields_def stored_fields_map fun_eq_iff domIff)
qed

definition parsed_point :: "line_ops \<Rightarrow> Point \<Rightarrow> point" where
  "parsed_point ops p = \<lparr>p_time = pt_time p, p_key = pt_name p, p_fields = join_fields (point_fields ops p),
     p_ts = show_int (pt_time p)\<rparr>"

text \<open>How the database reads a point: its name, no tags, the stored values of its fields and its time.\<close>

definition reads_as :: "line_ops \<Rightarrow> Point \<Rightarrow> point \<Rightarrow> bool" where
  "reads_as ops p q \<longleftrightarrow> point_Name q = Ret (pt_name p) \<and> point_Tags q = Some (Ret Map.empty) \<and>
     point_Fields ops q = Some (Ret (map_option (stored_value ops) \<circ> pt_fields p)) \<and> p_time q = pt_time p"

lemma parsed_point_reads:
  assumes "clean_point ops p"
  shows "reads_as ops p (parsed_point ops p)"
proof -
  have k: "plain_text (pt_name p)" using assms by (simp add: clean_point_def plain_point_def)
  have "scanTo (CHR '','') (pt_name p @ []) = Ret (pt_name p, [])"
    unfolding scanTo_def using plain_text_chars [OF k] by (intro scan_block_plain) (auto simp: plain_char_def)
  moreover have "pt_name p \<noteq> []" using k by (simp add: plain_text_def)
  moreover have "tags_loop [] Map.empty = Some (Ret Map.empty)" by (subst tags_loop.simps) simp
  ultimately show ?thesis
    using fields_loop_join [OF clean_point_fields(1) [OF assms], of Map.empty] clean_point_fields(3) [OF assms] k
    by (simp add: reads_as_def parsed_point_def point_Name_def point_Tags_def point_Fields_def newFieldsFromBinary_def)
qed

definition body_lines :: "line_ops \<Rightarrow> Point list \<Rightarrow> string" where
  "body_lines ops ps = concat (map (\<lambda>p. line_of (pt_name p) (point_fields ops p) (pt_time p) @ [newline]) ps)"

lemma plain_point_texts:
  assumes "plain_point p" and "\<forall>v \<in> ran (pt_fields p). clean_value ops v \<or> v = GNil"
  shows "\<forall>(k, v, x) \<in> set (point_fields ops p). plain_text k \<and> line_text v"
proof -
  have "line_text (field_text ops v)" if "pt_fields p k = Some v" for k v
    using assms(2) ranI [of "pt_fields p", OF that] line_texts clean_value_text by fastforce
  then show ?thesis using assms(1) by (auto simp: point_fields_def plain_point_def)
qed

lemma parse_loop_clean:
  assumes "clean_point ops p"
  shows "parse_loop ops now ''n'' seen (body_lines ops [p] @ rest) acc =
    (if rest = [] then Ret (Inr (acc @ [parsed_point ops p]))
     else parse_loop ops now ''n'' (rev (body_lines ops [p]) @ seen) rest (acc @ [parsed_point ops p]))"
proof -
  have pl: "plain_point p" "\<forall>v \<in> ran (pt_fields p). clean_value ops v \<or> v = GNil" "plain_text (pt_name p)" "in64 (pt_time p)"
    using assms by (auto simp: clean_point_def plain_point_def)
  show ?thesis
    using parse_loop_line [OF pl(3) plain_point_texts [OF pl(1,2)]]
      parsePoint_line [OF pl(3) clean_point_fields(1,2) [OF assms] pl(4)]
    by (simp add: body_lines_def parsed_point_def)
qed

lemma body_lines_Cons: "body_lines ops (p # ps) = body_lines ops [p] @ body_lines ops ps"
  by (simp add: body_lines_def)

lemma body_lines_Nil [simp]: "body_lines ops [] = []"
  by (simp add: body_lines_def)

lemma body_lines_nonempty: "ps \<noteq> [] \<Longrightarrow> body_lines ops ps \<noteq> []"
  by (cases ps) (auto simp: body_lines_def)

lemma parse_loop_body:
  assumes "\<forall>p \<in> set ps. clean_point ops p" and "ps \<noteq> []"
  shows "parse_loop ops now ''n'' seen (body_lines ops ps @ rest) acc =
    (if rest = [] then Ret (Inr (acc @ map (parsed_point ops) ps))
     else parse_loop ops now ''n'' (rev (body_lines ops ps) @ seen) rest (acc @ map (parsed_point ops) ps))"
  using assms
proof (induction ps arbitrary: seen acc)
  case (Cons p ps)
  have "parse_loop ops now ''n'' seen (body_lines ops [p] @ body_lines ops ps @ rest) acc =
      (if body_lines ops ps @ rest = [] then Ret (Inr (acc @ [parsed_point ops p]))
       else parse_loop ops now ''n'' (rev (body_lines ops [p]) @ seen) (body_lines ops ps @ rest) (acc @ [parsed_point ops p]))"
    using Cons.prems(1) by (intro parse_loop_clean) simp
  with Cons show ?case
    by (cases "ps = []") (simp_all add: body_lines_Cons [of ops p ps] body_lines_nonempty)
qed simp

lemma write_body:
  assumes "Precision bp = ''ns''" and "\<forall>p \<in> set (Points bp). plain_point p"
  shows "wr_body (write_request_of (client_PrecisionString ops) cl bp) = body_lines ops (Points bp)"
  using assms by (simp add: write_request_of_def body_lines_def client_line cong: map_cong)



section \<open>The points of a gatherer\<close>

fun clean_call :: "line_ops \<Rightarrow> metric_call \<Rightarrow> bool" where
  "clean_call ops CallScriptExecution = True"
| "clean_call ops (CallStepExecution s d) = (ends_clean s \<and> in64 d)"
| "clean_call ops (CallStepError s) = ends_clean s"
| "clean_call ops (CallHTTPGet u c d) = (ends_clean u \<and> in64 c \<and> in64 d)"
| "clean_call ops (CallHTTPPost u c d) = (ends_clean u \<and> in64 c \<and> in64 d)"
| "clean_call ops (CallHTTPError u) = ends_clean u"
| "clean_call ops (CallLogInfo v) = clean_value ops v"
| "clean_call ops (CallLogFatal v) = clean_value ops v"

definition clean_gatherer :: "MetricsGatherer \<Rightarrow> bool" where
  "clean_gatherer m \<longleftrightarrow> ends_clean (mg_ScriptId m) \<and> in64 (mg_DropletId m) \<and> in64 (mg_TestId m)"

lemmas point_checks = metric_op_defs gatherer_points_def AddPoint_def plain_point_def plain_text_def plain_char_def

lemma report_plain_point:
  assumes "in64 now"
  obtains p where "gatherer_points (gatherer_report c now m) = gatherer_points m @ [p]" "plain_point p"
    "clean_gatherer m \<Longrightarrow> clean_call ops c \<Longrightarrow> clean_point ops p"
    "c = CallLogInfo GNil \<or> c = CallLogFatal GNil \<Longrightarrow> clean_gatherer m \<Longrightarrow>
       GNil \<in> ran (pt_fields p) \<and> (\<forall>v \<in> ran (pt_fields p). clean_value ops v \<or> v = GNil)"
  using assms
  by (cases c) (simp_all add: point_checks clean_point_def clean_gatherer_def ends_clean_def)

lemma report_clean_gatherer: "clean_gatherer (gatherer_report c now m) = clean_gatherer m"
  by (cases c) (simp_all add: metric_op_defs clean_gatherer_def)

lemma report_Precision: "Precision (BatchPoints (gatherer_report c now m)) = Precision (BatchPoints m)"
  by (cases c) (simp_all add: metric_op_defs AddPoint_def)

text \<open>
  Every point a gatherer reports is well formed for the line protocol: whatever the reports were,
  the measurement and the names of the fields need no escaping, there are no tags, there is at least
  one field, and each field has a value of a type the protocol can carry, provided the reported texts do
  not end with a backslash and the logged values are not nil.
\<close>

theorem reported_points_well_formed:
  assumes "clean_gatherer m" and "\<forall>p \<in> set (gatherer_points m). clean_point ops p"
    and "\<forall>(c, now) \<in> set cs. clean_call ops c \<and> in64 now"
  shows "\<forall>p \<in> set (gatherer_points (gatherer.report_all cs m)). clean_point ops p"
  using assms
proof (induction cs arbitrary: m)
  case Nil
  then show ?case by (simp add: gatherer.report_all_def)
next
  case (Cons ct cs)
  obtain c t where ct: "ct = (c, t)" "clean_call ops c" "in64 t" using Cons.prems(3) by (cases ct) auto
  obtain p where "gatherer_points (gatherer_report c t m) = gatherer_points m @ [p]" "clean_point ops p"
    using report_plain_point [OF ct(3), of c m ops] ct(2) Cons.prems(1) by blast
  then have "\<forall>p \<in> set (gatherer_points (gatherer.report_all cs (gatherer_report c t m))). clean_point ops p"
    using Cons.prems by (intro Cons.IH) (auto simp: report_clean_gatherer)
  then show ?case by (simp add: gatherer.report_all_def ct)
qed


section \<open>Values that break a batch\<close>

lemma join_fields_append:
  "fs \<noteq> [] \<Longrightarrow> gs \<noteq> [] \<Longrightarrow> join_fields (fs @ gs) = join_fields fs @ CHR '','' # join_fields gs"
proof (induction fs rule: join_fields.induct)
  case (2 k v x)
  then show ?case by (cases gs) auto
qed auto

lemma fields_scan_no_value:
  assumes "plain_text k"
  shows "fields_scan ops seen False e c (join_fields ((k, [], x) # gs) @ CHR '' '' # rest) = field_error ''missing field value''"
proof -
  obtain d s where ds: "join_fields ((k, [], x) # gs) @ CHR '' '' # rest = k @ CHR ''='' # d # s" "d = CHR '','' \<or> d = CHR '' ''"
    by (cases gs) auto
  have b: "rev k @ seen \<noteq> []" "plain_char (hd (rev k @ seen))"
    using assms by (cases k rule: rev_cases; simp add: plain_text_def)+
  have "fields_scan ops (rev k @ seen) False e c (CHR ''='' # d # s) = field_error ''missing field value''"
    using ds(2) by (simp add: bare_before_plain [OF b])
  then show ?thesis using ds(1) assms by (simp add: fields_scan_plain plain_text_def)
qed

lemma fields_scan_missing_value:
  assumes "good_fields ops fs" and "plain_text k"
  shows "fields_scan ops seen False e c (join_fields (fs @ (k, [], x) # gs) @ CHR '' '' # rest) = field_error ''missing field value''"
proof (cases "fs = []")
  case False
  let ?t = "CHR '','' # join_fields ((k, [], x) # gs) @ CHR '' '' # rest"
  have "ends_value ?t" by (simp add: ends_value_def)
  then show ?thesis
    using fields_scan_join [OF assms(1) False, of ?t seen e c] fields_scan_no_value [OF assms(2)]
    by (simp add: join_fields_append False)
qed (simp add: fields_scan_no_value assms)

lemma plain_text_not_space: "plain_text k \<Longrightarrow> skipWhitespace (CHR '' '' # k @ s) = k @ s"
  by (cases k) (auto simp: skipWhitespace_def plain_text_def plain_char_def)

lemma join_fields_start: "\<exists>s. join_fields ((k, v, x) # fs) = k @ s"
  by (cases fs) auto

lemma parsePoint_missing_value:
  assumes "plain_text name" and "good_fields ops fs" and "plain_text k"
  shows "parsePoint ops (line_of name (fs @ (k, [], x) # gs) t) now prec = field_error ''missing field value''"
proof -
  let ?j = "join_fields (fs @ (k, [], x) # gs)"
  have "\<exists>k' v' x' fs'. fs @ (k, [], x) # gs = (k', v', x') # fs' \<and> plain_text k'"
    using assms(2,3) by (cases fs) auto
  then obtain k' s where k': "?j = k' @ s" "plain_text k'" using join_fields_start by metis
  have "skipWhitespace (CHR '' '' # ?j @ CHR '' '' # show_int t) = ?j @ CHR '' '' # show_int t"
    using plain_text_not_space [OF k'(2)] k'(1) by simp
  then have "scanFields ops (rev name) (CHR '' '' # ?j @ CHR '' '' # show_int t) = field_error ''missing field value''"
    by (simp add: scanFields_def fields_scan_missing_value assms(2,3))
  moreover have "name \<noteq> []" using assms(1) by (simp add: plain_text_def)
  ultimately show ?thesis by (simp add: parsePoint_def line_of_def scanKey_plain assms(1))
qed

lemma parse_loop_nil_field:
  assumes "plain_point p" and "GNil \<in> ran (pt_fields p)" and "\<forall>v \<in> ran (pt_fields p). clean_value ops v \<or> v = GNil"
  shows "\<exists>e. parse_loop ops now prec seen (body_lines ops [p] @ rest) acc = Ret (Inl e)"
proof -
  let ?ks = "sorted_list_of_set (dom (pt_fields p))"
  let ?f = "\<lambda>k. (k, field_text ops (the (pt_fields p k)), stored_value ops (the (pt_fields p k)))"
  have ks: "set ?ks = dom (pt_fields p)" and name: "plain_text (pt_name p)" using assms(1) by (simp_all add: plain_point_def)
  have "\<exists>k \<in> set ?ks. pt_fields p k = Some GNil" using assms(2) ks by (auto simp: ran_def)
  then obtain k0 where "k0 \<in> set ?ks" "pt_fields p k0 = Some GNil" by blast
  then obtain as k bs where split: "?ks = as @ k # bs" "pt_fields p k = Some GNil" "\<forall>a \<in> set as. pt_fields p a \<noteq> Some GNil"
    using split_list_first_prop [of ?ks "\<lambda>k. pt_fields p k = Some GNil"] by blast
  have mem: "a \<in> dom (pt_fields p)" "plain_text a" if "a \<in> set (as @ [k])" for a
  proof -
    show "a \<in> dom (pt_fields p)" using that split(1) ks by auto
    then show "plain_text a" using assms(1) by (simp add: plain_point_def)
  qed
  have "value_text ops (field_text ops v) (stored_value ops v)" if "a \<in> set as" "pt_fields p a = Some v" for a v
    using assms(3) ranI [of "pt_fields p" a v] that split(3) clean_value_text by auto
  then have good: "good_fields ops (map ?f as)"
    using mem by (fastforce simp: good_fields_def)
  have pf: "point_fields ops p = map ?f as @ (k, [], stored_value ops GNil) # map ?f bs"
    using split(1,2) by (simp add: point_fields_def)
  have "parsePoint ops (line_of (pt_name p) (point_fields ops p) (pt_time p)) now prec = field_error ''missing field value''"
    unfolding pf using parsePoint_missing_value [OF name good] mem by simp
  then show ?thesis
    using parse_loop_line [OF name plain_point_texts [OF assms(1,3)], of ops now prec seen "pt_time p" rest acc]
    by (simp add: body_lines_def)
qed

lemma plain_reports:
  assumes "\<forall>(c, t) \<in> set cs. in64 t"
  shows "\<exists>qs. gatherer_points (gatherer.report_all cs m) = gatherer_points m @ qs \<and> (\<forall>q \<in> set qs. plain_point q) \<and>
    Precision (BatchPoints (gatherer.report_all cs m)) = Precision (BatchPoints m)"
  using assms
proof (induction cs arbitrary: m)
  case (Cons ct cs)
  obtain c t where ct: "ct = (c, t)" "in64 t" using Cons.prems by (cases ct) auto
  obtain p where "gatherer_points (gatherer_report c t m) = gatherer_points m @ [p]" "plain_point p"
    using report_plain_point [OF ct(2), of c m] by blast
  with Cons.IH [of "gatherer_report c t m"] Cons.prems ct(1) show ?case
    by (fastforce simp: gatherer.report_all_def report_Precision)
qed (simp add: gatherer.report_all_def)

text \<open>
  C30. One nil message loses a whole batch: after a script has logged nil, whatever clean points were
  reported before it and whatever is reported after it, the database's parser rejects the body of the
  write request, so that none of the points of the batch is stored, however often it is sent again.
\<close>

theorem nil_log_rejects_batch:
  assumes "clean_gatherer m" and "Precision (BatchPoints m) = ''ns''" and "\<forall>p \<in> set (gatherer_points m). clean_point ops p"
    and "in64 now" and "\<forall>(c, t) \<in> set cs. in64 t"
  shows "\<exists>e. ParsePoints ops (wr_body (write_request_of (client_PrecisionString ops) cl
      (BatchPoints (gatherer.report_all cs (gatherer_report (CallLogInfo GNil) now m))))) time = Ret (Inl e)"
proof -
  let ?m = "gatherer_report (CallLogInfo GNil) now m"
  obtain p where p: "gatherer_points ?m = gatherer_points m @ [p]" "plain_point p"
      "GNil \<in> ran (pt_fields p)" "\<forall>v \<in> ran (pt_fields p). clean_value ops v \<or> v = GNil"
    using report_plain_point [OF assms(4), of "CallLogInfo GNil" m ops] assms(1) by blast
  obtain qs where qs: "gatherer_points (gatherer.report_all cs ?m) = gatherer_points ?m @ qs"
      "\<forall>q \<in> set qs. plain_point q" "Precision (BatchPoints (gatherer.report_all cs ?m)) = ''ns''"
    using plain_reports [OF assms(5), of ?m] assms(2) by (auto simp: report_Precision simp del: gatherer_report.simps)
  have "wr_body (write_request_of (client_PrecisionString ops) cl (BatchPoints (gatherer.report_all cs ?m))) =
      body_lines ops (gatherer_points m) @ body_lines ops [p] @ body_lines ops qs"
    using write_body [OF qs(3)] qs(1,2) p(1,2) assms(3)
    by (auto simp: gatherer_points_def body_lines_def clean_point_def)
  moreover have "\<exists>e. parse_loop ops time ''n'' seen (body_lines ops [p] @ body_lines ops qs) acc = Ret (Inl e)" for seen acc
    using parse_loop_nil_field [OF p(2-4)] by blast
  moreover have "body_lines ops [p] @ body_lines ops qs \<noteq> []" by (simp add: body_lines_nonempty)
  ultimately show ?thesis
    using parse_loop_body [OF assms(3), of time "[]" "body_lines ops [p] @ body_lines ops qs" "[]"]
    by (cases "gatherer_points m = []") (simp_all add: ParsePoints_def ParsePointsWithPrecision_def)
qed


section \<open>A batch as text\<close>

definition demo_line_ops :: line_ops where
  "demo_line_ops = \<lparr>FormatFloat = (\<lambda>x. ''1''), ParseFloat = (\<lambda>s. Inr (Fin 1)), Sprintv = (\<lambda>v. ''[]'')\<rparr>"

definition demo_gatherer :: MetricsGatherer where
  "demo_gatherer = \<lparr>BatchPoints = \<lparr>Points = [], Database = '''', Precision = ''ns'', RetentionPolicy = '''', WriteConsistency = ''''\<rparr>,
     mg_ScriptId = ''s'', mg_DropletId = 4, mg_WorkerId = - 1, mg_TestId = 2\<rparr>"

definition demo_reports :: "(metric_call \<times> int) list" where
  "demo_reports = [(CallLogInfo (GStr (dquote # newline # '', x='')), 5), (CallHTTPGet ''u'' 200 12, 6)]"

lemma demo_reports_clean:
  "clean_gatherer demo_gatherer" "gatherer_points demo_gatherer = []" "Precision (BatchPoints demo_gatherer) = ''ns''"
  "\<forall>(c, now) \<in> set demo_reports. clean_call demo_line_ops c \<and> in64 now"
  by (simp_all add: demo_gatherer_def demo_reports_def clean_gatherer_def ends_clean_def in64_def gatherer_points_def)

lemma demo_reports_plain: "\<forall>(c, now) \<in> set demo_reports. in64 now"
  by (simp add: demo_reports_def in64_def)

theorem reported_points_well_formed_witness:
  "length (gatherer_points (gatherer.report_all demo_reports demo_gatherer)) = 2 \<and>
   list_all (clean_point demo_line_ops) (gatherer_points (gatherer.report_all demo_reports demo_gatherer))"
  using reported_points_well_formed [of demo_gatherer demo_line_ops demo_reports] demo_reports_clean
  by (simp add: list_all_iff demo_reports_def gatherer.report_all_def metric_op_defs gatherer_points_def AddPoint_def demo_gatherer_def)

definition demo_point :: Point where
  "demo_point = \<lparr>pt_name = ''T'', pt_tags = Map.empty, pt_fields = [''b'' \<mapsto> GInt (- 5), ''a'' \<mapsto> GStr (dquote # newline # '', x='')],
     pt_time = 7\<rparr>"

definition demo_batch :: batchpoints where
  "demo_batch = \<lparr>Points = [demo_point, demo_point], Database = '''', Precision = ''ns'', RetentionPolicy = '''', WriteConsistency = ''''\<rparr>"

definition demo_line_client :: client where
  "demo_line_client = \<lparr>cl_url = ''u'', cl_username = '''', cl_password = '''', cl_useragent = '''', cl_insecureSkipVerify = False\<rparr>"


theorem nil_log_rejects_batch_witness:
  "\<exists>e. ParsePoints demo_line_ops (wr_body (write_request_of (client_PrecisionString demo_line_ops) demo_line_client
      (BatchPoints (gatherer.report_all demo_reports (gatherer_report (CallLogInfo GNil) 3 demo_gatherer))))) 0 = Ret (Inl e)"
  using nil_log_rejects_batch [OF demo_reports_clean(1,3) _ _ demo_reports_plain, of demo_line_ops 3 demo_line_client 0]
  by (simp add: demo_reports_clean(2) in64_def)

text \<open>
  A text that ends with a backslash: the scan of a line takes the closing quote for an escaped one and
  runs into the next line, so that the points of the batch are rejected.
\<close>

definition backslash_fields :: string where
  "backslash_fields = MarshalBinary demo_line_ops [(''msg'', GStr [CHR ''a'', bslash])]"

lemma trailing_backslash_swallows_line:
  "(case ParsePoints demo_line_ops (''T '' @ backslash_fields @ '' 1'' @ [newline] @ ''T '' @ backslash_fields @ '' 2'' @ [newline]) 0 of
      Ret (Inl _) \<Rightarrow> True | _ \<Rightarrow> False) \<and>
   (case ParsePoints demo_line_ops (''T '' @ backslash_fields @ '' 1'' @ [newline]) 0 of Ret (Inr [_]) \<Rightarrow> True | _ \<Rightarrow> False)"
  by code_simp

end
