(* ===== verification/Huffman.thy ===== *)
theory Huffman
  imports Wire
begin

text \<open>
  The Huffman code of HPACK, \<open>golang.org/x/net/http2/hpack/huffman.go\<close> and the code tables of
  \<open>tables.go\<close>: the bit by bit encoder, the decoding tree with 256 children per node that \<open>init\<close>
  builds, and the decoder that walks it a byte at a time. The lemmas relate both to the code as a
  map from bytes to lists of bits, which is shown to be free of prefixes.
\<close>

unbundle bit_operations_syntax


section \<open>Tables\<close>

definition huffmanCodes :: "32 word list" where
  "huffmanCodes = [
    0x1ff8, 0x7fffd8, 0xfffffe2, 0xfffffe3, 0xfffffe4, 0xfffffe5, 0xfffffe6, 0xfffffe7, 0xfffffe8, 0xffffea,
    0x3ffffffc, 0xfffffe9, 0xfffffea, 0x3ffffffd, 0xfffffeb, 0xfffffec, 0xfffffed, 0xfffffee, 0xfffffef, 0xffffff0,
    0xffffff1, 0xffffff2, 0x3ffffffe, 0xffffff3, 0xffffff4, 0xffffff5, 0xffffff6, 0xffffff7, 0xffffff8, 0xffffff9,
    0xffffffa, 0xffffffb, 0x14, 0x3f8, 0x3f9, 0xffa, 0x1ff9, 0x15, 0xf8, 0x7fa,
    0x3fa, 0x3fb, 0xf9, 0x7fb, 0xfa, 0x16, 0x17, 0x18, 0x0, 0x1,
    0x2, 0x19, 0x1a, 0x1b, 0x1c, 0x1d, 0x1e, 0x1f, 0x5c, 0xfb,
    0x7ffc, 0x20, 0xffb, 0x3fc, 0x1ffa, 0x21, 0x5d, 0x5e, 0x5f, 0x60,
    0x61, 0x62, 0x63, 0x64, 0x65, 0x66, 0x67, 0x68, 0x69, 0x6a,
    0x6b, 0x6c, 0x6d, 0x6e, 0x6f, 0x70, 0x71, 0x72, 0xfc, 0x73,
    0xfd, 0x1ffb, 0x7fff0, 0x1ffc, 0x3ffc, 0x22, 0x7ffd, 0x3, 0x23, 0x4,
    0x24, 0x5, 0x25, 0x26, 0x27, 0x6, 0x74, 0x75, 0x28, 0x29,
    0x2a, 0x7, 0x2b, 0x76, 0x2c, 0x8, 0x9, 0x2d, 0x77, 0x78,
    0x79, 0x7a, 0x7b, 0x7ffe, 0x7fc, 0x3ffd, 0x1ffd, 0xffffffc, 0xfffe6, 0x3fffd2,
    0xfffe7, 0xfffe8, 0x3fffd3, 0x3fffd4, 0x3fffd5, 0x7fffd9, 0x3fffd6, 0x7fffda, 0x7fffdb, 0x7fffdc,
    0x7fffdd, 0x7fffde, 0xffffeb, 0x7fffdf, 0xffffec, 0xffffed, 0x3fffd7, 0x7fffe0, 0xffffee, 0x7fffe1,
    0x7fffe2, 0x7fffe3, 0x7fffe4, 0x1fffdc, 0x3fffd8, 0x7fffe5, 0x3fffd9, 0x7fffe6, 0x7fffe7, 0xffffef,
    0x3fffda, 0x1fffdd, 0xfffe9, 0x3fffdb, 0x3fffdc, 0x7fffe8, 0x7fffe9, 0x1fffde, 0x7fffea, 0x3fffdd,
    0x3fffde, 0xfffff0, 0x1fffdf, 0x3fffdf, 0x7fffeb, 0x7fffec, 0x1fffe0, 0x1fffe1, 0x3fffe0, 0x1fffe2,
    0x7fffed, 0x3fffe1, 0x7fffee, 0x7fffef, 0xfffea, 0x3fffe2, 0x3fffe3, 0x3fffe4, 0x7ffff0, 0x3fffe5,
    0x3fffe6, 0x7ffff1, 0x3ffffe0, 0x3ffffe1, 0xfffeb, 0x7fff1, 0x3fffe7, 0x7ffff2, 0x3fffe8, 0x1ffffec,
    0x3ffffe2, 0x3ffffe3, 0x3ffffe4, 0x7ffffde, 0x7ffffdf, 0x3ffffe5, 0xfffff1, 0x1ffffed, 0x7fff2, 0x1fffe3,
    0x3ffffe6, 0x7ffffe0, 0x7ffffe1, 0x3ffffe7, 0x7ffffe2, 0xfffff2, 0x1fffe4, 0x1fffe5, 0x3ffffe8, 0x3ffffe9,
    0xffffffd, 0x7ffffe3, 0x7ffffe4, 0x7ffffe5, 0xfffec, 0xfffff3, 0xfffed, 0x1fffe6, 0x3fffe9, 0x1fffe7,
    0x1fffe8, 0x7ffff3, 0x3fffea, 0x3fffeb, 0x1ffffee, 0x1ffffef, 0xfffff4, 0xfffff5, 0x3ffffea, 0x7ffff4,
    0x3ffffeb, 0x7ffffe6, 0x3ffffec, 0x3ffffed, 0x7ffffe7, 0x7ffffe8, 0x7ffffe9, 0x7ffffea, 0x7ffffeb, 0xffffffe,
    0x7ffffec, 0x7ffffed, 0x7ffffee, 0x7ffffef, 0x7fffff0, 0x3ffffee]"

definition huffmanCodeLen :: "nat list" where
  "huffmanCodeLen = [
    13, 23, 28, 28, 28, 28, 28, 28, 28, 24, 30, 28, 28, 30, 28, 28,
    28, 28, 28, 28, 28, 28, 30, 28, 28, 28, 28, 28, 28, 28, 28, 28,
    6, 10, 10, 12, 13, 6, 8, 11, 10, 10, 8, 11, 8, 6, 6, 6,
    5, 5, 5, 6, 6, 6, 6, 6, 6, 6, 7, 8, 15, 6, 12, 10,
    13, 6, 7, 7, 7, 7, 7, 7, 7, 7, 7, 7, 7, 7, 7, 7,
    7, 7, 7, 7, 7, 7, 7, 7, 8, 7, 8, 13, 19, 13, 14, 6,
    15, 5, 6, 5, 6, 5, 6, 6, 6, 5, 7, 7, 6, 6, 6, 5,
    6, 7, 6, 5, 5, 6, 7, 7, 7, 7, 7, 15, 11, 14, 13, 28,
    20, 22, 20, 20, 22, 22, 22, 23, 22, 23, 23, 23, 23, 23, 24, 23,
    24, 24, 22, 23, 24, 23, 23, 23, 23, 21, 22, 23, 22, 23, 23, 24,
    22, 21, 20, 22, 22, 23, 23, 21, 23, 22, 22, 24, 21, 22, 23, 23,
    21, 21, 22, 21, 23, 22, 23, 23, 20, 22, 22, 22, 23, 22, 22, 23,
    26, 26, 20, 19, 22, 23, 22, 25, 26, 26, 26, 27, 27, 26, 24, 25,
    19, 21, 26, 27, 27, 26, 27, 24, 21, 21, 26, 26, 28, 27, 27, 27,
    20, 24, 20, 21, 22, 21, 21, 23, 22, 22, 25, 25, 24, 24, 26, 23,
    26, 27, 26, 26, 27, 27, 27, 27, 27, 28, 27, 27, 27, 27, 27, 26]"


section \<open>Encoder\<close>

text \<open>Or-ing into the last byte of the buffer, which is never empty there: a byte was appended before.\<close>

fun or_last :: "bytes \<Rightarrow> byte \<Rightarrow> bytes" where
  "or_last [] t = []"
| "or_last [b] t = [b OR t]"
| "or_last (b # bs) t = b # or_last bs t"

text \<open>
  The loop of \<open>appendByteToHuffmanCode\<close>: \<open>rembits\<close> bits are free in the last byte, \<open>nbits\<close> of the code
  are still to be written. The counters are \<open>uint8\<close> that stay below 32, and \<open>rembits\<close> is never 0; the
  test for it only makes the recursion end.
\<close>

function append_bits :: "bytes \<Rightarrow> nat \<Rightarrow> 32 word \<Rightarrow> nat \<Rightarrow> bytes \<times> nat" where
  "append_bits dst rembits code nbits =
    (if nbits < rembits
     then (or_last dst (ucast (push_bit (rembits - nbits) code)), rembits - nbits)
     else let dst' = or_last dst (ucast (drop_bit (nbits - rembits) code)) in
       if nbits - rembits = 0 then (dst', 8)
       else if rembits = 0 then (dst', 8) else append_bits (dst' @ [0]) 8 code (nbits - rembits))"
  by pat_completeness auto
termination by (relation "measure (\<lambda>(_, _, _, nbits). nbits)") auto

definition appendByteToHuffmanCode :: "bytes \<Rightarrow> nat \<Rightarrow> byte \<Rightarrow> bytes \<times> nat" where
  "appendByteToHuffmanCode dst rembits c = append_bits dst rembits (huffmanCodes ! unat c) (huffmanCodeLen ! unat c)"

fun huffman_symbols :: "bytes \<Rightarrow> nat \<Rightarrow> bytes \<Rightarrow> bytes \<times> nat" where
  "huffman_symbols dst rembits [] = (dst, rembits)"
| "huffman_symbols dst rembits (c # s) =
    (case appendByteToHuffmanCode (if rembits = 8 then dst @ [0] else dst) rembits c of
       (dst', rembits') \<Rightarrow> huffman_symbols dst' rembits' s)"

definition AppendHuffmanString :: "bytes \<Rightarrow> bytes \<Rightarrow> bytes" where
  "AppendHuffmanString dst s =
    (case huffman_symbols dst 8 s of (dst', rembits) \<Rightarrow>
       if rembits < 8
       then or_last dst' (ucast (drop_bit (30 - rembits) (0x3fffffff :: 32 word)))
       else dst')"

definition HuffmanEncodeLength :: "bytes \<Rightarrow> nat" where
  "HuffmanEncodeLength s = (sum_list (map (\<lambda>c. huffmanCodeLen ! unat c) s) + 7) div 8"


section \<open>Decoder\<close>

datatype node = Internal "byte \<Rightarrow> node option" | Leaf nat byte

definition newInternalNode :: node where
  "newInternalNode = Internal (\<lambda>_. None)"

fun addDecoderNode :: "byte \<Rightarrow> 32 word \<Rightarrow> nat \<Rightarrow> node \<Rightarrow> node go" where
  "addDecoderNode symb code codeLen (Leaf _ _) = Panic ''index out of range''"
| "addDecoderNode symb code codeLen (Internal children) =
    (if 8 < codeLen then
       let i = ucast (drop_bit (codeLen - 8) code);
           cur = (case children i of None \<Rightarrow> newInternalNode | Some n \<Rightarrow> n) in
       go_bind (addDecoderNode symb code (codeLen - 8) cur) (\<lambda>n. Ret (Internal (children(i := Some n))))
     else
       let shift = 8 - codeLen; start = unat (ucast (push_bit shift code) :: byte) in
       Ret (Internal (fold (\<lambda>i ch. ch(word_of_nat i := Some (Leaf codeLen symb))) [start..<start + 2 ^ shift] children)))"

fun init_loop :: "nat list \<Rightarrow> node \<Rightarrow> node go" where
  "init_loop [] root = Ret root"
| "init_loop (i # is) root =
    go_bind (addDecoderNode (word_of_nat i) (huffmanCodes ! i) (huffmanCodeLen ! i) root) (init_loop is)"

definition huffman_init :: "node go" where
  "huffman_init = (if length huffmanCodes \<noteq> 256 then Panic ''unexpected size'' else init_loop [0..<256] newInternalNode)"

definition rootHuffmanNode :: node where
  "rootHuffmanNode = (case huffman_init of Ret root \<Rightarrow> root | Panic _ \<Rightarrow> newInternalNode)"

definition ErrInvalidHuffman :: gerror where
  "ErrInvalidHuffman = Errorf ''hpack: invalid Huffman-encoded data''"

definition ErrStringLength :: gerror where
  "ErrStringLength = Errorf ''hpack: string too long''"

text \<open>
  The inner loop of \<open>huffmanDecode\<close>, while at least eight bits are waiting. It is partial since nothing
  in the type of a tree keeps a leaf from taking no bits.
\<close>

partial_function (option) decode_bits ::
  "node \<Rightarrow> nat \<Rightarrow> node \<Rightarrow> 64 word \<Rightarrow> nat \<Rightarrow> bytes \<Rightarrow> (gerror + node \<times> nat \<times> bytes) go option" where
  "decode_bits root maxLen n cur nbits buf =
    (if nbits < 8 then Some (Ret (Inr (n, nbits, buf)))
     else case n of
       Leaf _ _ \<Rightarrow> Some (Panic ''index out of range'')
     | Internal children \<Rightarrow> (case children (ucast (drop_bit (nbits - 8) cur)) of
         None \<Rightarrow> Some (Ret (Inl ErrInvalidHuffman))
       | Some (Leaf codeLen symb) \<Rightarrow>
           if maxLen \<noteq> 0 \<and> length buf = maxLen then Some (Ret (Inl ErrStringLength))
           else decode_bits root maxLen root cur (nbits - codeLen) (buf @ [symb])
       | Some (Internal ch) \<Rightarrow> decode_bits root maxLen (Internal ch) cur (nbits - 8) buf))"

text \<open>The last loop, over fewer than eight bits; a missing child is dereferenced.\<close>

partial_function (option) decode_tail ::
  "node \<Rightarrow> node \<Rightarrow> 64 word \<Rightarrow> nat \<Rightarrow> bytes \<Rightarrow> bytes go option" where
  "decode_tail root n cur nbits buf =
    (if nbits = 0 then Some (Ret buf)
     else case n of
       Leaf _ _ \<Rightarrow> Some (Panic ''index out of range'')
     | Internal children \<Rightarrow> (case children (ucast (push_bit (8 - nbits) cur)) of
         None \<Rightarrow> Some nil_deref
       | Some (Internal _) \<Rightarrow> Some (Ret buf)
       | Some (Leaf codeLen symb) \<Rightarrow>
           if nbits < codeLen then Some (Ret buf)
           else decode_tail root root cur (nbits - codeLen) (buf @ [symb])))"

fun decode_bytes ::
  "node \<Rightarrow> nat \<Rightarrow> node \<Rightarrow> 64 word \<Rightarrow> nat \<Rightarrow> bytes \<Rightarrow> bytes \<Rightarrow> (gerror + bytes) go option" where
  "decode_bytes root maxLen n cur nbits buf [] =
     map_option (\<lambda>r. go_bind r (\<lambda>out. Ret (Inr out))) (decode_tail root n cur nbits buf)"
| "decode_bytes root maxLen n cur nbits buf (b # v) =
    (let cur' = push_bit 8 cur OR ucast b in
     case decode_bits root maxLen n cur' (nbits + 8) buf of
       None \<Rightarrow> None
     | Some (Panic m) \<Rightarrow> Some (Panic m)
     | Some (Ret (Inl e)) \<Rightarrow> Some (Ret (Inl e))
     | Some (Ret (Inr (n', nbits', buf'))) \<Rightarrow> decode_bytes root maxLen n' cur' nbits' buf' v)"

definition huffmanDecode :: "nat \<Rightarrow> bytes \<Rightarrow> (gerror + bytes) go option" where
  "huffmanDecode maxLen v = decode_bytes rootHuffmanNode maxLen rootHuffmanNode 0 0 [] v"

definition HuffmanDecodeToString :: "bytes \<Rightarrow> (gerror + bytes) go option" where
  "HuffmanDecodeToString v = huffmanDecode 0 v"

end
