(* ===== verification/Hpack.thy ===== *)
theory Hpack
  imports Huffman
begin

text \<open>
  HPACK, the header compression of HTTP/2 (\<open>golang.org/x/net/http2/hpack\<close>: \<open>encode.go\<close>, \<open>hpack.go\<close> and
  the static table of \<open>tables.go\<close>). The encoder and the decoder keep a dynamic table each, which have to
  stay in step. Names and values are byte strings; what \<open>WriteField\<close> hands to its writer is returned,
  and the fields given to the \<open>emit\<close> callback are returned as a list. A result \<open>None\<close> is a loop that does
  not end.
\<close>

unbundle bit_operations_syntax


section \<open>Header fields and tables\<close>

record HeaderField =
  hf_Name :: bytes
  hf_Value :: bytes
  hf_Sensitive :: bool

definition hf_size :: "HeaderField \<Rightarrow> 32 word" where
  "hf_size f = word_of_nat (length (hf_Name f) + length (hf_Value f) + 32)"

definition pair :: "string \<Rightarrow> string \<Rightarrow> HeaderField" where
  "pair name value = \<lparr>hf_Name = map byte_of name, hf_Value = map byte_of value, hf_Sensitive = False\<rparr>"

definition staticTable :: "HeaderField list" where
  "staticTable = [
    pair '':authority'' '''',
    pair '':method'' ''GET'',
    pair '':method'' ''POST'',
    pair '':path'' ''/'',
    pair '':path'' ''/index.html'',
    pair '':scheme'' ''http'',
    pair '':scheme'' ''https'',
    pair '':status'' ''200'',
    pair '':status'' ''204'',
    pair '':status'' ''206'',
    pair '':status'' ''304'',
    pair '':status'' ''400'',
    pair '':status'' ''404'',
    pair '':status'' ''500'',
    pair ''accept-charset'' '''',
    pair ''accept-encoding'' ''gzip, deflate'',
    pair ''accept-language'' '''',
    pair ''accept-ranges'' '''',
    pair ''accept'' '''',
    pair ''access-control-allow-origin'' '''',
    pair ''age'' '''',
    pair ''allow'' '''',
    pair ''authorization'' '''',
    pair ''cache-control'' '''',
    pair ''content-disposition'' '''',
    pair ''content-encoding'' '''',
    pair ''content-language'' '''',
    pair ''content-length'' '''',
    pair ''content-location'' '''',
    pair ''content-range'' '''',
    pair ''content-type'' '''',
    pair ''cookie'' '''',
    pair ''date'' '''',
    pair ''etag'' '''',
    pair ''expect'' '''',
    pair ''expires'' '''',
    pair ''from'' '''',
    pair ''host'' '''',
    pair ''if-match'' '''',
    pair ''if-modified-since'' '''',
    pair ''if-none-match'' '''',
    pair ''if-range'' '''',
    pair ''if-unmodified-since'' '''',
    pair ''last-modified'' '''',
    pair ''link'' '''',
    pair ''location'' '''',
    pair ''max-forwards'' '''',
    pair ''proxy-authenticate'' '''',
    pair ''proxy-authorization'' '''',
    pair ''range'' '''',
    pair ''referer'' '''',
    pair ''refresh'' '''',
    pair ''retry-after'' '''',
    pair ''server'' '''',
    pair ''set-cookie'' '''',
    pair ''strict-transport-security'' '''',
    pair ''transfer-encoding'' '''',
    pair ''user-agent'' '''',
    pair ''vary'' '''',
    pair ''via'' '''',
    pair ''www-authenticate'' '''']"

record dynamicTable =
  ents :: "HeaderField list"
  dt_size :: "32 word"
  maxSize :: "32 word"
  allowedMaxSize :: "32 word"

fun evict_loop :: "HeaderField list \<Rightarrow> 32 word \<Rightarrow> 32 word \<Rightarrow> (HeaderField list \<times> 32 word) go" where
  "evict_loop [] sz mx = (if mx < sz then Panic ''index out of range'' else Ret ([], sz))"
| "evict_loop (e # es) sz mx = (if mx < sz then evict_loop es (sz - hf_size e) mx else Ret (e # es, sz))"

definition evict :: "dynamicTable \<Rightarrow> dynamicTable go" where
  "evict dt = go_bind (evict_loop (ents dt) (dt_size dt) (maxSize dt))
     (\<lambda>(es, sz). Ret (dt\<lparr>ents := es, dt_size := sz\<rparr>))"

definition setMaxSize :: "32 word \<Rightarrow> dynamicTable \<Rightarrow> dynamicTable go" where
  "setMaxSize v dt = evict (dt\<lparr>maxSize := v\<rparr>)"

definition dt_add :: "HeaderField \<Rightarrow> dynamicTable \<Rightarrow> dynamicTable go" where
  "dt_add f dt = evict (dt\<lparr>ents := ents dt @ [f], dt_size := dt_size dt + hf_size f\<rparr>)"

definition constantTimeStringCompare :: "bytes \<Rightarrow> bytes \<Rightarrow> bool" where
  "constantTimeStringCompare a b =
    (length a = length b \<and> fold (\<lambda>(x, y) c. c OR (x XOR y)) (zip a b) 0 = 0)"

text \<open>
  The loop that \<open>searchTable\<close> and \<open>search\<close> share: \<open>k\<close> is the index of the next entry, counted from 1,
  \<open>i\<close> that of the first entry with the name, or 0.
\<close>

fun search_loop :: "HeaderField list \<Rightarrow> nat \<Rightarrow> nat \<Rightarrow> HeaderField \<Rightarrow> nat \<times> bool" where
  "search_loop [] k i f = (i, False)"
| "search_loop (ent # es) k i f =
    (if \<not> constantTimeStringCompare (hf_Name ent) (hf_Name f) then search_loop es (k + 1) i f
     else let i' = (if i = 0 then k else i) in
       if hf_Sensitive f then search_loop es (k + 1) i' f
       else if \<not> constantTimeStringCompare (hf_Value ent) (hf_Value f) then search_loop es (k + 1) i' f
       else (k, True))"

definition search :: "HeaderField \<Rightarrow> dynamicTable \<Rightarrow> nat \<times> bool" where
  "search f dt = search_loop (rev (ents dt)) 1 0 f"


section \<open>Encoder\<close>

definition uint32Max :: "32 word" where "uint32Max = - 1"

definition initialHeaderTableSize :: "32 word" where "initialHeaderTableSize = 4096"

record Encoder =
  e_dynTab :: dynamicTable
  minSize :: "32 word"
  maxSizeLimit :: "32 word"
  tableSizeUpdate :: bool

definition emptyTable :: dynamicTable where
  "emptyTable = \<lparr>ents = [], dt_size = 0, maxSize = 0, allowedMaxSize = 0\<rparr>"

definition NewEncoder :: "Encoder go" where
  "NewEncoder = go_bind (setMaxSize initialHeaderTableSize emptyTable)
     (\<lambda>dt. Ret \<lparr>e_dynTab = dt, minSize = uint32Max, maxSizeLimit = initialHeaderTableSize, tableSizeUpdate = False\<rparr>)"

function varint_bytes :: "64 word \<Rightarrow> bytes" where
  "varint_bytes i = (if 128 \<le> i then ucast (0x80 OR (i AND 0x7f)) # varint_bytes (drop_bit 7 i) else [ucast i])"
  by pat_completeness auto
termination
  by (relation "measure unat") (use drop_7_smaller ge_80_iff in auto)

definition appendVarInt :: "bytes \<Rightarrow> nat \<Rightarrow> 64 word \<Rightarrow> bytes" where
  "appendVarInt dst n i =
    (let k = 2 ^ n - 1 in
     if i < k then dst @ [ucast i] else dst @ [ucast k] @ varint_bytes (i - k))"

text \<open>\<open>dst[first] |= t\<close>\<close>

definition or_at :: "nat \<Rightarrow> byte \<Rightarrow> bytes \<Rightarrow> bytes" where
  "or_at first t dst = dst[first := dst ! first OR t]"

definition encodeTypeByte :: "bool \<Rightarrow> bool \<Rightarrow> byte" where
  "encodeTypeByte indexing sensitive = (if sensitive then 0x10 else if indexing then 0x40 else 0)"

definition appendHpackString :: "bytes \<Rightarrow> bytes \<Rightarrow> bytes" where
  "appendHpackString dst s =
    (let huffmanLength = HuffmanEncodeLength s in
     if huffmanLength < length s
     then or_at (length dst) 0x80 (AppendHuffmanString (appendVarInt dst 7 (word_of_nat huffmanLength)) s)
     else appendVarInt dst 7 (word_of_nat (length s)) @ s)"

definition appendIndexed :: "bytes \<Rightarrow> nat \<Rightarrow> bytes" where
  "appendIndexed dst i = or_at (length dst) 0x80 (appendVarInt dst 7 (word_of_nat i))"

definition appendNewName :: "bytes \<Rightarrow> HeaderField \<Rightarrow> bool \<Rightarrow> bytes" where
  "appendNewName dst f indexing =
    appendHpackString (appendHpackString (dst @ [encodeTypeByte indexing (hf_Sensitive f)]) (hf_Name f)) (hf_Value f)"

definition appendIndexedName :: "bytes \<Rightarrow> HeaderField \<Rightarrow> nat \<Rightarrow> bool \<Rightarrow> bytes" where
  "appendIndexedName dst f i indexing =
    (let n = (if indexing then 6 else 4) in
     appendHpackString
       (or_at (length dst) (encodeTypeByte indexing (hf_Sensitive f)) (appendVarInt dst n (word_of_nat i))) (hf_Value f))"

definition appendTableSize :: "bytes \<Rightarrow> 32 word \<Rightarrow> bytes" where
  "appendTableSize dst v = or_at (length dst) 0x20 (appendVarInt dst 5 (ucast v))"

definition shouldIndex :: "HeaderField \<Rightarrow> Encoder \<Rightarrow> bool" where
  "shouldIndex f e = (\<not> hf_Sensitive f \<and> hf_size f \<le> maxSize (e_dynTab e))"

definition searchTable :: "HeaderField \<Rightarrow> Encoder \<Rightarrow> nat \<times> bool" where
  "searchTable f e =
    (case search_loop staticTable 1 0 f of
       (i, True) \<Rightarrow> (i, True)
     | (i, False) \<Rightarrow> (case search f (e_dynTab e) of (j, nameValueMatch) \<Rightarrow>
         (if nameValueMatch \<or> i = 0 \<and> j \<noteq> 0 then j + length staticTable else i, nameValueMatch)))"

definition size_updates :: "Encoder \<Rightarrow> bytes \<times> Encoder" where
  "size_updates e =
    (if tableSizeUpdate e then
       (let buf = (if minSize e < maxSize (e_dynTab e) then appendTableSize [] (minSize e) else []) in
        (appendTableSize buf (maxSize (e_dynTab e)), e\<lparr>tableSizeUpdate := False, minSize := uint32Max\<rparr>))
     else ([], e))"

definition WriteField :: "HeaderField \<Rightarrow> Encoder \<Rightarrow> (bytes \<times> Encoder) go" where
  "WriteField f e0 =
    (case size_updates e0 of (buf, e) \<Rightarrow>
     case searchTable f e of (idx, nameValueMatch) \<Rightarrow>
       if nameValueMatch then Ret (appendIndexed buf idx, e)
       else let indexing = shouldIndex f e in
         go_bind (if indexing then go_bind (dt_add f (e_dynTab e)) (\<lambda>dt. Ret (e\<lparr>e_dynTab := dt\<rparr>)) else Ret e)
           (\<lambda>e'. Ret (if idx = 0 then appendNewName buf f indexing else appendIndexedName buf f idx indexing, e')))"

definition e_SetMaxDynamicTableSize :: "32 word \<Rightarrow> Encoder \<Rightarrow> Encoder go" where
  "e_SetMaxDynamicTableSize v0 e =
    (let v = (if maxSizeLimit e < v0 then maxSizeLimit e else v0);
         e1 = (if v < minSize e then e\<lparr>minSize := v\<rparr> else e) in
     go_bind (setMaxSize v (e_dynTab e1)) (\<lambda>dt. Ret (e1\<lparr>tableSizeUpdate := True, e_dynTab := dt\<rparr>)))"

definition SetMaxDynamicTableSizeLimit :: "32 word \<Rightarrow> Encoder \<Rightarrow> Encoder go" where
  "SetMaxDynamicTableSizeLimit v e =
    (let e1 = e\<lparr>maxSizeLimit := v\<rparr> in
     if v < maxSize (e_dynTab e1)
     then go_bind (setMaxSize v (e_dynTab e1)) (\<lambda>dt. Ret (e1\<lparr>tableSizeUpdate := True, e_dynTab := dt\<rparr>))
     else Ret e1)"


section \<open>Decoder\<close>

text \<open>
  The errors: the internal \<open>errNeedMore\<close>, a \<open>DecodingError\<close> with its text or its invalid index, and
  plain errors.
\<close>

datatype hpack_error = errNeedMore | DecodingError string | InvalidIndexError int | PlainError gerror

definition errVarintOverflow :: hpack_error where
  "errVarintOverflow = DecodingError ''varint integer overflow''"

record Decoder =
  d_dynTab :: dynamicTable
  emitEnabled :: bool
  maxStrLen :: nat
  saveBuf :: bytes

definition NewDecoder :: "32 word \<Rightarrow> Decoder go" where
  "NewDecoder maxDynamicTableSize =
    go_bind (setMaxSize maxDynamicTableSize (emptyTable\<lparr>allowedMaxSize := maxDynamicTableSize\<rparr>))
      (\<lambda>dt. Ret \<lparr>d_dynTab = dt, emitEnabled = True, maxStrLen = 0, saveBuf = []\<rparr>)"

definition SetMaxStringLength :: "nat \<Rightarrow> Decoder \<Rightarrow> Decoder" where
  "SetMaxStringLength n d = d\<lparr>maxStrLen := n\<rparr>"

definition SetEmitEnabled :: "bool \<Rightarrow> Decoder \<Rightarrow> Decoder" where
  "SetEmitEnabled v d = d\<lparr>emitEnabled := v\<rparr>"

definition d_SetMaxDynamicTableSize :: "32 word \<Rightarrow> Decoder \<Rightarrow> Decoder go" where
  "d_SetMaxDynamicTableSize v d = go_bind (setMaxSize v (d_dynTab d)) (\<lambda>dt. Ret (d\<lparr>d_dynTab := dt\<rparr>))"

definition SetAllowedMaxDynamicTableSize :: "32 word \<Rightarrow> Decoder \<Rightarrow> Decoder" where
  "SetAllowedMaxDynamicTableSize v d = d\<lparr>d_dynTab := (d_dynTab d)\<lparr>allowedMaxSize := v\<rparr>\<rparr>"

definition maxTableIndex :: "Decoder \<Rightarrow> nat" where
  "maxTableIndex d = length (ents (d_dynTab d)) + length staticTable"

definition d_at :: "64 word \<Rightarrow> Decoder \<Rightarrow> HeaderField option" where
  "d_at i d =
    (if i < 1 then None
     else if maxTableIndex d < unat i then None
     else if unat i \<le> length staticTable then Some (staticTable ! (unat i - 1))
     else let dents = ents (d_dynTab d) in Some (dents ! (length dents - (unat i - length staticTable))))"

fun varint_rest :: "64 word \<Rightarrow> nat \<Rightarrow> bytes \<Rightarrow> hpack_error + 64 word \<times> bytes" where
  "varint_rest i m [] = Inl errNeedMore"
| "varint_rest i m (b # p) =
    (let i' = i + push_bit m (ucast (b AND 127)) in
     if b AND 128 = 0 then Inr (i', p)
     else if 63 \<le> m + 7 then Inl errVarintOverflow
     else varint_rest i' (m + 7) p)"

definition readVarInt :: "nat \<Rightarrow> bytes \<Rightarrow> (hpack_error + 64 word \<times> bytes) go" where
  "readVarInt n p =
    (if n < 1 \<or> 8 < n then Panic ''bad n''
     else case p of
       [] \<Rightarrow> Ret (Inl errNeedMore)
     | b # p' \<Rightarrow>
         let i = (if n < 8 then ucast b AND (2 ^ n - 1) else ucast b) in
         if i < 2 ^ n - 1 then Ret (Inr (i, p')) else Ret (varint_rest i 0 p'))"

fun run_bind :: "'a go option \<Rightarrow> ('a \<Rightarrow> 'b go option) \<Rightarrow> 'b go option" where
  "run_bind None f = None"
| "run_bind (Some (Panic m)) f = Some (Panic m)"
| "run_bind (Some (Ret x)) f = f x"

text \<open>What \<open>readString\<close> does with the bytes of the string.\<close>

definition string_bytes :: "Decoder \<Rightarrow> bool \<Rightarrow> bool \<Rightarrow> bytes \<Rightarrow> bytes \<Rightarrow> (hpack_error + bytes \<times> bytes) go option" where
  "string_bytes d isHuff wantStr s remain =
    (if \<not> wantStr then Some (Ret (Inr ([], remain)))
     else if \<not> isHuff then Some (Ret (Inr (s, remain)))
     else run_bind (huffmanDecode (maxStrLen d) s) (\<lambda>r. case r of
       Inl err \<Rightarrow> Some (Ret (Inl (PlainError err)))
     | Inr out \<Rightarrow> Some (Ret (Inr (out, remain)))))"

definition readString :: "Decoder \<Rightarrow> bytes \<Rightarrow> bool \<Rightarrow> (hpack_error + bytes \<times> bytes) go option" where
  "readString d p wantStr =
    (if p = [] then Some (Ret (Inl errNeedMore))
     else let isHuff = (p ! 0 AND 128 \<noteq> 0) in
       run_bind (Some (readVarInt 7 p)) (\<lambda>r. case r of
         Inl err \<Rightarrow> Some (Ret (Inl err))
       | Inr (strLen, p') \<Rightarrow>
           if maxStrLen d \<noteq> 0 \<and> maxStrLen d < unat strLen then Some (Ret (Inl (PlainError ErrStringLength)))
           else if length p' < unat strLen then Some (Ret (Inl errNeedMore))
           else string_bytes d isHuff wantStr (take (unat strLen) p') (drop (unat strLen) p')))"

text \<open>
  A parsed representation: the decoder, the bytes left in \<open>d.buf\<close>, the emitted fields and the error.
\<close>

type_synonym parsed = "Decoder \<times> bytes \<times> HeaderField list \<times> hpack_error option"

definition callEmit :: "Decoder \<Rightarrow> bytes \<Rightarrow> HeaderField \<Rightarrow> parsed" where
  "callEmit d buf hf =
    (if maxStrLen d \<noteq> 0 \<and> (maxStrLen d < length (hf_Name hf) \<or> maxStrLen d < length (hf_Value hf))
     then (d, buf, [], Some (PlainError ErrStringLength))
     else (d, buf, if emitEnabled d then [hf] else [], None))"

definition parseFieldIndexed :: "Decoder \<Rightarrow> bytes \<Rightarrow> parsed go option" where
  "parseFieldIndexed d buf = run_bind (Some (readVarInt 7 buf)) (\<lambda>r. case r of
     Inl err \<Rightarrow> Some (Ret (d, buf, [], Some err))
   | Inr (idx, buf') \<Rightarrow> (case d_at idx d of
       None \<Rightarrow> Some (Ret (d, buf, [], Some (InvalidIndexError (sint idx))))
     | Some hf \<Rightarrow> Some (Ret (callEmit d buf' \<lparr>hf_Name = hf_Name hf, hf_Value = hf_Value hf, hf_Sensitive = False\<rparr>))))"

datatype indexType = indexedTrue | indexedFalse | indexedNever

definition indexed :: "indexType \<Rightarrow> bool" where "indexed v = (v = indexedTrue)"
definition sensitive :: "indexType \<Rightarrow> bool" where "sensitive v = (v = indexedNever)"

definition literal_name :: "Decoder \<Rightarrow> 64 word \<Rightarrow> bytes \<Rightarrow> bool \<Rightarrow> (hpack_error + bytes \<times> bytes) go option" where
  "literal_name d nameIdx buf wantStr =
    (if 0 < nameIdx
     then case d_at nameIdx d of
       None \<Rightarrow> Some (Ret (Inl (InvalidIndexError (sint nameIdx))))
     | Some ihf \<Rightarrow> Some (Ret (Inr (hf_Name ihf, buf)))
     else readString d buf wantStr)"

definition literal_done :: "Decoder \<Rightarrow> indexType \<Rightarrow> bytes \<Rightarrow> bytes \<Rightarrow> bytes \<Rightarrow> parsed go option" where
  "literal_done d it name value buf =
    (let hf = \<lparr>hf_Name = name, hf_Value = value, hf_Sensitive = False\<rparr> in
     run_bind (Some (if indexed it then go_bind (dt_add hf (d_dynTab d)) (\<lambda>dt. Ret (d\<lparr>d_dynTab := dt\<rparr>)) else Ret d))
       (\<lambda>d'. Some (Ret (callEmit d' buf (hf\<lparr>hf_Sensitive := sensitive it\<rparr>)))))"

definition parseFieldLiteral :: "nat \<Rightarrow> indexType \<Rightarrow> Decoder \<Rightarrow> bytes \<Rightarrow> parsed go option" where
  "parseFieldLiteral n it d buf = run_bind (Some (readVarInt n buf)) (\<lambda>r. case r of
     Inl err \<Rightarrow> Some (Ret (d, buf, [], Some err))
   | Inr (nameIdx, buf1) \<Rightarrow>
       let wantStr = (emitEnabled d \<or> indexed it) in
       run_bind (literal_name d nameIdx buf1 wantStr) (\<lambda>r. case r of
         Inl err \<Rightarrow> Some (Ret (d, buf, [], Some err))
       | Inr (name, buf2) \<Rightarrow> run_bind (readString d buf2 wantStr) (\<lambda>r. case r of
           Inl err \<Rightarrow> Some (Ret (d, buf, [], Some err))
         | Inr (value, buf3) \<Rightarrow> literal_done d it name value buf3)))"

definition parseDynamicTableSizeUpdate :: "Decoder \<Rightarrow> bytes \<Rightarrow> parsed go option" where
  "parseDynamicTableSizeUpdate d buf = run_bind (Some (readVarInt 5 buf)) (\<lambda>r. case r of
     Inl err \<Rightarrow> Some (Ret (d, buf, [], Some err))
   | Inr (sz, buf') \<Rightarrow>
       if unat (allowedMaxSize (d_dynTab d)) < unat sz
       then Some (Ret (d, buf, [], Some (DecodingError ''dynamic table size update too large'')))
       else run_bind (Some (setMaxSize (ucast sz) (d_dynTab d)))
         (\<lambda>dt. Some (Ret (d\<lparr>d_dynTab := dt\<rparr>, buf', [], None))))"

definition parseHeaderFieldRepr :: "Decoder \<Rightarrow> bytes \<Rightarrow> parsed go option" where
  "parseHeaderFieldRepr d buf =
    (let b = buf ! 0 in
     if b AND 128 \<noteq> 0 then parseFieldIndexed d buf
     else if b AND 192 = 64 then parseFieldLiteral 6 indexedTrue d buf
     else if b AND 240 = 0 then parseFieldLiteral 4 indexedFalse d buf
     else if b AND 240 = 16 then parseFieldLiteral 4 indexedNever d buf
     else if b AND 224 = 32 then parseDynamicTableSizeUpdate d buf
     else Some (Ret (d, buf, [], Some (DecodingError ''invalid encoding''))))"

partial_function (option) write_loop ::
  "Decoder \<Rightarrow> bytes \<Rightarrow> HeaderField list \<Rightarrow> (Decoder \<times> HeaderField list \<times> hpack_error option) go option" where
  "write_loop d buf out =
    (if buf = [] then Some (Ret (d, out, None))
     else case parseHeaderFieldRepr d buf of
       None \<Rightarrow> None
     | Some (Panic m) \<Rightarrow> Some (Panic m)
     | Some (Ret (d', buf', fs, None)) \<Rightarrow> write_loop d' buf' (out @ fs)
     | Some (Ret (d', buf', fs, Some err)) \<Rightarrow>
         if err = errNeedMore then
           (if maxStrLen d' \<noteq> 0 \<and> 2 * (maxStrLen d' + 8) < length buf'
            then Some (Ret (d', out @ fs, Some (PlainError ErrStringLength)))
            else Some (Ret (d'\<lparr>saveBuf := saveBuf d' @ buf'\<rparr>, out @ fs, None)))
         else Some (Ret (d', out @ fs, Some err)))"

definition d_Write :: "Decoder \<Rightarrow> bytes \<Rightarrow> (Decoder \<times> HeaderField list \<times> hpack_error option) go option" where
  "d_Write d p =
    (if p = [] then Some (Ret (d, [], None))
     else if saveBuf d = [] then write_loop d p []
     else write_loop (d\<lparr>saveBuf := []\<rparr>) (saveBuf d @ p) [])"

definition d_Close :: "Decoder \<Rightarrow> Decoder \<times> hpack_error option" where
  "d_Close d = (if saveBuf d \<noteq> [] then (d\<lparr>saveBuf := []\<rparr>, Some (DecodingError ''truncated headers'')) else (d, None))"

definition DecodeFull :: "Decoder \<Rightarrow> bytes \<Rightarrow> (Decoder \<times> (hpack_error + HeaderField list)) go option" where
  "DecodeFull d p = run_bind (d_Write d p) (\<lambda>(d1, hf, err). case err of
     Some e \<Rightarrow> Some (Ret (d1, Inl e))
   | None \<Rightarrow> (case d_Close d1 of
       (d2, Some e) \<Rightarrow> Some (Ret (d2, Inl e))
     | (d2, None) \<Rightarrow> Some (Ret (d2, Inr hf))))"

end
