(* ===== verification/HuffmanProps.thy ===== *)
theory HuffmanProps
  imports Huffman "HOL-Library.Sublist"
begin

text \<open>
  The Huffman coder of HPACK is correct: the table is free of prefixes, the tree that \<open>init\<close> builds
  leads to the symbol of every code, and the decoder gives back what the encoder wrote. It is not
  robust, however: one input of five bytes makes it dereference a missing node.
\<close>

unbundle bit_operations_syntax


section \<open>The code table\<close>

definition entry_ok :: "32 word \<times> nat \<Rightarrow> bool" where
  "entry_ok e = (case e of (w, l) \<Rightarrow> 5 \<le> l \<and> l \<le> 30 \<and> unat w + 1 < 2 ^ l)"

definition huffmanTable :: "(32 word \<times> nat) list" where
  "huffmanTable = zip huffmanCodes huffmanCodeLen"

lemma length_tables: "length huffmanCodes = 256" "length huffmanCodeLen = 256"
  by (simp_all add: huffmanCodes_def huffmanCodeLen_def)

lemma huffmanTable_entries_ok: "list_all entry_ok huffmanTable"
  by (simp add: huffmanTable_def huffmanCodes_def huffmanCodeLen_def entry_ok_def)

text \<open>
  The code is canonical: read as fractions of \<open>2 ^ 30\<close>, the codes of each length lie between two
  limits, and among codes of one length those of later bytes are larger.
\<close>

definition huffman_limits :: "nat list" where
  "huffman_limits = [
    0, 0, 0, 0, 0, 335544320, 771751936, 1040187392,
    1065353216, 1065353216, 1070596096, 1072168960, 1072693248, 1073479680, 1073610752, 1073709056,
    1073709056, 1073709056, 1073709056, 1073715200, 1073723392, 1073730048, 1073736704, 1073740416,
    1073741184, 1073741312, 1073741552, 1073741704, 1073741820, 1073741820, 1073741823]"

definition in_limits :: "32 word \<times> nat \<Rightarrow> bool" where
  "in_limits e = (case e of (w, l) \<Rightarrow>
     huffman_limits ! (l - 1) \<le> unat w * 2 ^ (30 - l) \<and> (unat w + 1) * 2 ^ (30 - l) \<le> huffman_limits ! l)"

lemma huffmanTable_in_limits: "list_all in_limits huffmanTable"
  by (simp add: huffmanTable_def huffmanCodes_def huffmanCodeLen_def in_limits_def huffman_limits_def)

lemma huffman_limits_sorted: "sorted huffman_limits" "length huffman_limits = 31"
  by (simp_all add: huffman_limits_def)

fun increasing :: "nat list \<Rightarrow> (32 word \<times> nat) list \<Rightarrow> bool" where
  "increasing low [] = True"
| "increasing low ((w, l) # es) = (low ! l \<le> unat w \<and> increasing (low[l := unat w + 1]) es)"

lemma codes_increase: "increasing (replicate 31 0) huffmanTable"
proof -
  have "replicate 31 (0 :: nat) = [0, 0, 0, 0, 0, 0, 0, 0, 0, 0, 0, 0, 0, 0, 0, 0, 0, 0, 0, 0, 0, 0, 0, 0, 0, 0, 0, 0, 0, 0, 0]"
    by (simp add: numeral_eq_Suc)
  then show ?thesis by (simp only: ) (simp add: huffmanTable_def huffmanCodes_def huffmanCodeLen_def)
qed
lemma increasing_low:
  "increasing low es \<Longrightarrow> (v, l) \<in> set es \<Longrightarrow> \<forall>(w, k) \<in> set es. k < length low \<Longrightarrow> low ! l \<le> unat v"
proof (induction low es rule: increasing.induct)
  case (2 low w k es)
  then show ?case by (auto simp: nth_list_update split: if_splits)
qed simp

lemma increasing_sorted:
  "increasing low es \<Longrightarrow> \<forall>(w, k) \<in> set es. k < length low \<Longrightarrow>
    sorted_wrt (\<lambda>e f. snd e = snd f \<longrightarrow> unat (fst e) < unat (fst f)) es"
proof (induction low es rule: increasing.induct)
  case (2 low w k es)
  have ih: "increasing (low[k := unat w + 1]) es" "\<forall>(w, k) \<in> set es. k < length low" "k < length low"
    using 2(2,3) by auto
  have "unat w < unat v" if "(v, k) \<in> set es" for v
    using increasing_low [OF ih(1) that] ih(2,3) by simp
  with ih 2(1) show ?case by auto
qed simp


section \<open>Lists of bits\<close>

text \<open>The lowest \<open>n\<close> bits of a word, the highest of them first.\<close>

primrec cbits :: "'a :: len word \<Rightarrow> nat \<Rightarrow> bool list" where
  "cbits w 0 = []"
| "cbits w (Suc n) = bit w n # cbits w n"

definition bits :: "bytes \<Rightarrow> bool list" where
  "bits bs = concat (map (\<lambda>b. cbits b 8) bs)"

lemma length_cbits [simp]: "length (cbits w n) = n"
  by (induction n) simp_all

lemma cbits_eq_iff: "cbits w n = cbits v n \<longleftrightarrow> (\<forall>i<n. bit w i = bit v i)"
  by (induction n) (auto simp: less_Suc_eq)

lemma cbits_add: "cbits w (m + n) = cbits (drop_bit n w) m @ cbits w n"
  by (induction m) (simp_all add: bit_drop_bit_eq add.commute)

lemma cbits_split: "m \<le> n \<Longrightarrow> cbits w n = cbits (drop_bit (n - m) w) m @ cbits w (n - m)"
  using cbits_add [of w m "n - m"] by simp

lemma cbits_const: "cbits w n = replicate n b \<longleftrightarrow> (\<forall>i<n. bit w i = b)"
  by (induction n) (auto simp: less_Suc_eq)

lemma cbits_byte: "cbits (a :: byte) 8 = cbits b 8 \<longleftrightarrow> a = b"
  unfolding cbits_eq_iff by (auto simp: bit_eq_iff)

lemma bits_simps [simp]: "bits [] = []" "bits (b # bs) = cbits b 8 @ bits bs" "bits (xs @ ys) = bits xs @ bits ys"
  by (simp_all add: bits_def)

lemma length_bits [simp]: "length (bits bs) = 8 * length bs"
  by (induction bs) simp_all

lemma bits_inject: "length xs = length ys \<Longrightarrow> bits xs = bits ys \<longleftrightarrow> xs = ys"
  by (induction xs ys rule: list_induct2) (simp_all add: cbits_byte)

definition code_of :: "byte \<Rightarrow> bool list" where
  "code_of c = cbits (huffmanCodes ! unat c) (huffmanCodeLen ! unat c)"

definition code_len :: "byte \<Rightarrow> nat" where
  "code_len c = huffmanCodeLen ! unat c"

lemma length_code_of [simp]: "length (code_of c) = code_len c"
  by (simp add: code_of_def code_len_def)

lemma unat_byte: "unat (c :: byte) < 256"
  using unsigned_less [of c] by simp

lemma huffmanTable_nth: "huffmanTable ! unat (c :: byte) = (huffmanCodes ! unat c, code_len c)"
  "unat c < length huffmanTable"
  using unat_byte [of c] by (simp_all add: huffmanTable_def length_tables code_len_def)

lemma table_facts: "5 \<le> code_len c" "code_len c \<le> 30" "unat (huffmanCodes ! unat c) + 1 < 2 ^ code_len c"
  using huffmanTable_entries_ok huffmanTable_nth [of c] by (auto simp: list_all_length entry_ok_def)

lemma limit_facts:
  "huffman_limits ! (code_len c - 1) \<le> unat (huffmanCodes ! unat c) * 2 ^ (30 - code_len c)"
  "(unat (huffmanCodes ! unat c) + 1) * 2 ^ (30 - code_len c) \<le> huffman_limits ! code_len c"
  using huffmanTable_in_limits huffmanTable_nth [of c] by (auto simp: list_all_length in_limits_def)

lemma prefix_cbits:
  assumes "prefix (cbits w m) (cbits v n)" and "unat w < 2 ^ m" and "unat v < 2 ^ n"
  shows "m \<le> n \<and> drop_bit (n - m) v = (w :: 'a :: len word)"
proof -
  have le: "m \<le> n" using prefix_length_le [OF assms(1)] by simp
  then have "cbits w m = cbits (drop_bit (n - m) v) m"
    using assms(1) by (auto simp: cbits_split [OF le] prefix_def append_eq_append_conv)
  then have "bit w i = bit (drop_bit (n - m) v) i" for i
    using high_bits_zero [OF assms(2), of i] high_bits_zero [OF assms(3), of "n - m + i"] le
    by (cases "i < m") (auto simp: cbits_eq_iff bit_drop_bit_eq)
  with le show ?thesis by (simp add: bit_eq_iff)
qed

theorem code_prefix_free: "prefix (code_of c) (code_of d) \<Longrightarrow> c = d"
proof -
  assume p: "prefix (code_of c) (code_of d)"
  let ?w = "huffmanCodes ! unat c" and ?v = "huffmanCodes ! unat d" and ?m = "code_len c" and ?n = "code_len d"
  have d: "?m \<le> ?n" "drop_bit (?n - ?m) ?v = ?w"
    using prefix_cbits [of ?w ?m ?v ?n] p table_facts(3) [of c] table_facts(3) [of d]
    by (auto simp: code_of_def code_len_def)
  have "?m = ?n"
  proof (rule ccontr)
    assume "?m \<noteq> ?n"
    with d(1) have lt: "?m < ?n" by simp
    have div: "unat ?v div 2 ^ (?n - ?m) = unat ?w" by (metis d(2) unat_drop_bit_eq drop_bit_eq_div)
    have "unat ?v < (unat ?w + 1) * 2 ^ (?n - ?m)"
      unfolding div [symmetric] using dividend_less_div_times [of "2 ^ (?n - ?m)" "unat ?v"] by (simp add: add.commute)
    then have "unat ?v * 2 ^ (30 - ?n) < (unat ?w + 1) * (2 ^ (?n - ?m) * 2 ^ (30 - ?n))"
      by (simp only: mult.assoc [symmetric] mult_less_cancel2) simp
    also have "2 ^ (?n - ?m) * 2 ^ (30 - ?n) = (2 :: nat) ^ (30 - ?m)"
      using lt table_facts(2) [of d] by (simp flip: power_add)
    also have "(unat ?w + 1) * 2 ^ (30 - ?m) \<le> huffman_limits ! ?m" by (rule limit_facts(2))
    also have "\<dots> \<le> huffman_limits ! (?n - 1)"
      using lt table_facts(2) [of d] huffman_limits_sorted by (intro sorted_nth_mono) auto
    also have "\<dots> \<le> unat ?v * 2 ^ (30 - ?n)" by (rule limit_facts(1))
    finally show False by simp
  qed
  then have eq: "?w = ?v" using d(2) by simp
  have "\<forall>(w, k) \<in> set huffmanTable. k < length (replicate 31 (0 :: nat))"
    using huffmanTable_entries_ok by (auto simp: list_all_iff entry_ok_def)
  note inc = sorted_wrt_nth_less [OF increasing_sorted [OF codes_increase this]]
  show "c = d"
    using inc [of "unat c" "unat d"] inc [of "unat d" "unat c"] huffmanTable_nth [of c] huffmanTable_nth [of d] eq \<open>?m = ?n\<close>
    by (cases "unat c" "unat d" rule: linorder_cases) (simp_all add: word_unat_eq_iff)
qed
section \<open>The encoder\<close>

lemma or_last_snoc [simp]: "or_last (ds @ [d]) t = ds @ [d OR t]"
  by (induction ds) (simp, case_tac ds, simp_all)

lemma cbits_or_free:
  fixes d t :: byte
  assumes "cbits d 8 = xs @ replicate r False" and "r \<le> 8" and "\<And>i. r \<le> i \<Longrightarrow> \<not> bit t i"
  shows "cbits (d OR t) 8 = xs @ cbits t r"
proof -
  have "cbits d 8 = cbits (drop_bit r d) (8 - r) @ cbits d r"
    using cbits_split [of "8 - r" 8 d] assms(2) by simp
  moreover have "length xs = 8 - r" using arg_cong [OF assms(1), of length] assms(2) by simp
  ultimately have x: "cbits (drop_bit r d) (8 - r) = xs" and z: "cbits d r = replicate r False"
    using assms(1) by (auto simp: append_eq_append_conv)
  have "cbits (d OR t) 8 = cbits (drop_bit r (d OR t)) (8 - r) @ cbits (d OR t) r"
    using cbits_split [of "8 - r" 8 "d OR t"] assms(2) by simp
  also have "cbits (drop_bit r (d OR t)) (8 - r) = xs"
    unfolding x [symmetric] cbits_eq_iff using assms(3) by (auto simp: bit_simps)
  also have "cbits (d OR t) r = cbits t r"
    unfolding cbits_eq_iff using z by (auto simp: bit_simps cbits_const)
  finally show ?thesis .
qed

text \<open>\<open>r\<close> of the last byte's bits are free.\<close>

definition free_bits :: "bytes \<Rightarrow> nat \<Rightarrow> bool list \<Rightarrow> bool" where
  "free_bits dst r bs \<longleftrightarrow> 0 < r \<and> r \<le> 8 \<and> dst \<noteq> [] \<and> bits dst = bs @ replicate r False"

lemma free_bits_or:
  assumes "free_bits dst r bs" and "\<And>i. r \<le> i \<Longrightarrow> \<not> bit t i"
  shows "bits (or_last dst t) = bs @ cbits t r"
proof -
  obtain ds d where dst: "dst = ds @ [d]" using assms(1) by (cases dst rule: rev_cases) (auto simp: free_bits_def)
  with assms(1) have b: "bits ds @ cbits d 8 = bs @ replicate r False" and r: "r \<le> 8" by (auto simp: free_bits_def)
  from arg_cong [OF b, of length] r have "length bs \<ge> length (bits ds)" by simp
  with b obtain xs where xs: "bs = bits ds @ xs" "cbits d 8 = xs @ replicate r False"
    by (metis append_eq_append_conv_if append_take_drop_id)
  from cbits_or_free [OF xs(2) r assms(2)] xs(1) dst show ?thesis by simp
qed

definition filled :: "bytes \<Rightarrow> nat \<Rightarrow> bool list \<Rightarrow> bool" where
  "filled dst r bs \<longleftrightarrow> 0 < r \<and> r \<le> 8 \<and> bits dst = bs @ (if r = 8 then [] else replicate r False)"

lemma append_bits_filled:
  "append_bits dst r code n = (dst', r') \<Longrightarrow> free_bits dst r bs \<Longrightarrow> 0 < n \<Longrightarrow> r = 8 \<or> unat code < 2 ^ n \<Longrightarrow>
    filled dst' r' (bs @ cbits code n)"
proof (induction dst r code n arbitrary: bs rule: append_bits.induct)
  case (1 dst r code n)
  have r: "0 < r" "r \<le> 8" using 1(3) by (auto simp: free_bits_def)
  show ?case
  proof (cases "n < r")
    case True
    let ?t = "ucast (push_bit (r - n) code) :: byte"
    have t: "bit ?t i \<longleftrightarrow> i < 8 \<and> r - n \<le> i \<and> bit code (i - (r - n))" for i by (auto simp: bit_simps)
    have "bits (or_last dst ?t) = bs @ cbits ?t r"
      using 1(5) high_bits_zero [of code n] True by (intro free_bits_or [OF 1(3)]) (auto simp: t)
    also have "cbits ?t r = cbits (drop_bit (r - n) ?t) n @ cbits ?t (r - n)"
      using cbits_split [of n r ?t] True by simp
    also have "cbits (drop_bit (r - n) ?t) n = cbits code n"
      unfolding cbits_eq_iff bit_drop_bit_eq o_apply t using r True by auto
    also have "cbits ?t (r - n) = replicate (r - n) False" unfolding cbits_const t by simp
    finally show ?thesis using 1(2,4) True r by (auto simp: filled_def)
  next
    case False
    let ?t = "ucast (drop_bit (n - r) code) :: byte"
    have t: "bit ?t i \<longleftrightarrow> i < 8 \<and> bit code (n - r + i)" for i by (auto simp: bit_simps)
    have "bits (or_last dst ?t) = bs @ cbits ?t r"
      using 1(5) high_bits_zero [of code n] False by (intro free_bits_or [OF 1(3)]) (auto simp: t)
    also have "cbits ?t r = cbits (drop_bit (n - r) code) r"
      unfolding cbits_eq_iff t using r by (auto simp: bit_simps)
    finally have b: "bits (or_last dst ?t) = bs @ cbits (drop_bit (n - r) code) r" .
    have c: "cbits code n = cbits (drop_bit (n - r) code) r @ cbits code (n - r)" using False by (intro cbits_split) simp
    show ?thesis
    proof (cases "n - r = 0")
      case True
      with False have "append_bits dst r code n = (or_last dst ?t, 8)" by (subst append_bits.simps) (simp add: Let_def)
      with 1(2) b c True show ?thesis by (simp add: filled_def)
    next
      case n: False
      with False r have "append_bits dst r code n = append_bits (or_last dst ?t @ [0]) 8 code (n - r)"
        by (subst append_bits.simps) (simp add: Let_def)
      with 1(2) have s: "append_bits (or_last dst ?t @ [0]) 8 code (n - r) = (dst', r')" by simp
      have "cbits (0 :: byte) 8 = replicate 8 False" unfolding cbits_const by simp
      with b have f: "free_bits (or_last dst ?t @ [0]) 8 (bs @ cbits (drop_bit (n - r) code) r)"
        by (simp add: free_bits_def)
      from 1(1) [OF False refl n _ s f] n r c show ?thesis by simp
    qed
  qed
qed

lemma huffman_symbols_filled:
  "huffman_symbols dst r s = (dst', r') \<Longrightarrow> filled dst r bs \<Longrightarrow> filled dst' r' (bs @ concat (map code_of s))"
proof (induction dst r s arbitrary: bs rule: huffman_symbols.induct)
  case (2 dst r c s)
  let ?dst = "if r = 8 then dst @ [0] else dst"
  obtain d1 r1 where a: "appendByteToHuffmanCode ?dst r c = (d1, r1)" by fastforce
  have "cbits (0 :: byte) 8 = replicate 8 False" unfolding cbits_const by simp
  then have "free_bits ?dst r bs" using 2(3) by (auto simp: free_bits_def filled_def)
  with a table_facts [of c] have "filled d1 r1 (bs @ code_of c)"
    unfolding appendByteToHuffmanCode_def code_of_def code_len_def by (intro append_bits_filled) auto
  from 2(1) [OF a [symmetric] _ this] 2(2) a show ?case by simp
qed simp

lemma bit_eos: "bit (0x3fffffff :: 32 word) i \<longleftrightarrow> i < 30"
proof -
  have "(0x3fffffff :: 32 word) = mask 30" by (simp add: mask_eq_exp_minus_1)
  then have "bit (0x3fffffff :: 32 word) i \<longleftrightarrow> bit (mask 30 :: 32 word) i" by (rule arg_cong)
  then show ?thesis by (simp only: bit_mask_iff possible_bit_word) auto
qed

lemma AppendHuffmanString_bits:
  "\<exists>p<8. bits (AppendHuffmanString dst s) = bits dst @ concat (map code_of s) @ replicate p True"
proof -
  obtain d r where h: "huffman_symbols dst 8 s = (d, r)" by fastforce
  have f: "filled d r (bits dst @ concat (map code_of s))"
    by (rule huffman_symbols_filled [OF h]) (simp add: filled_def)
  show ?thesis
  proof (cases "r < 8")
    case True
    let ?t = "ucast (drop_bit (30 - r) (0x3fffffff :: 32 word)) :: byte"
    have t: "bit ?t i \<longleftrightarrow> i < r" for i
      using True by (simp only: bit_ucast_iff bit_drop_bit_eq o_apply bit_eos possible_bit_word) auto
    have "d \<noteq> []" using f True by (auto simp: filled_def)
    then have "bits (or_last d ?t) = (bits dst @ concat (map code_of s)) @ cbits ?t r"
      using f True by (intro free_bits_or) (auto simp: free_bits_def filled_def t)
    also have "cbits ?t r = replicate r True" unfolding cbits_const t by simp
    finally show ?thesis using True h by (auto simp: AppendHuffmanString_def)
  next
    case False
    with f h show ?thesis by (auto simp: AppendHuffmanString_def filled_def intro!: exI [of _ 0])
  qed
qed

lemma AppendHuffmanString_append:
  obtains v p where "AppendHuffmanString dst s = dst @ v" and "p < 8"
    and "bits v = concat (map code_of s) @ replicate p True" and "length v = HuffmanEncodeLength s"
proof -
  obtain p where p: "p < 8" "bits (AppendHuffmanString dst s) = bits dst @ concat (map code_of s) @ replicate p True"
    using AppendHuffmanString_bits by blast
  let ?a = "AppendHuffmanString dst s" and ?n = "length dst"
  have len: "?n \<le> length ?a" using arg_cong [OF p(2), of length] by simp
  have "bits (take ?n ?a) @ bits (drop ?n ?a) = bits dst @ concat (map code_of s) @ replicate p True"
    using p(2) by (metis append_take_drop_id bits_simps(3))
  then have e: "bits (take ?n ?a) = bits dst" "bits (drop ?n ?a) = concat (map code_of s) @ replicate p True"
    using len by (auto simp: append_eq_append_conv)
  have "take ?n ?a = dst" using e(1) bits_inject [of "take ?n ?a" dst] len by simp
  then have a: "?a = dst @ drop ?n ?a" by (metis append_take_drop_id)
  have "8 * length (drop ?n ?a) = sum_list (map code_len s) + p"
    using arg_cong [OF e(2), of length] by (simp add: length_concat o_def)
  moreover have "sum_list (map code_len s) = (\<Sum>c\<leftarrow>s. huffmanCodeLen ! unat c)"
    by (rule arg_cong [of _ _ sum_list]) (simp add: code_len_def)
  ultimately have "length (drop ?n ?a) = HuffmanEncodeLength s" using p(1) by (simp add: HuffmanEncodeLength_def)
  with a p(1) e(2) show ?thesis by (intro that [of "drop ?n ?a" p])
qed
section \<open>The decoding tree\<close>

fun descend :: "node \<Rightarrow> bytes \<Rightarrow> node option" where
  "descend n [] = Some n"
| "descend (Leaf l s) (b # bs) = None"
| "descend (Internal ch) (b # bs) = (case ch b of None \<Rightarrow> None | Some n \<Rightarrow> descend n bs)"

definition at_leaf :: "bool list \<Rightarrow> bytes \<Rightarrow> bool" where
  "at_leaf C bs \<longleftrightarrow> bs \<noteq> [] \<and> prefix C (bits bs) \<and> 8 * (length bs - 1) < length C"

definition above :: "bool list \<Rightarrow> bytes \<Rightarrow> bool" where
  "above C bs \<longleftrightarrow> prefix (bits bs) C \<and> 8 * length bs < length C"

definition apart :: "bool list \<Rightarrow> bytes \<Rightarrow> bool" where
  "apart C bs \<longleftrightarrow> \<not> prefix C (bits bs) \<and> \<not> prefix (bits bs) C"

lemma prefix_append_same_length: "length xs = length zs \<Longrightarrow> prefix (xs @ ys) (zs @ ws) \<longleftrightarrow> xs = zs \<and> prefix ys ws"
  by (auto simp: prefix_def append_eq_append_conv)

lemma position_Cons:
  assumes "C \<noteq> []"
  shows "at_leaf (cbits i 8 @ C) (b # bs) \<longleftrightarrow> b = i \<and> at_leaf C bs"
    and "above (cbits i 8 @ C) (b # bs) \<longleftrightarrow> b = i \<and> above C bs"
    and "apart (cbits i 8 @ C) (b # bs) \<longleftrightarrow> (b = i \<longrightarrow> apart C bs)"
proof -
  have l: "0 < length C" using assms by simp
  have p: "prefix (cbits i 8 @ C) (bits (b # bs)) \<longleftrightarrow> b = i \<and> prefix C (bits bs)"
    by (auto simp: prefix_append_same_length cbits_byte)
  show "at_leaf (cbits i 8 @ C) (b # bs) \<longleftrightarrow> b = i \<and> at_leaf C bs"
    using l unfolding at_leaf_def p by (cases bs) auto
  show "above (cbits i 8 @ C) (b # bs) \<longleftrightarrow> b = i \<and> above C bs"
    using l by (auto simp: above_def prefix_append_same_length cbits_byte)
  show "apart (cbits i 8 @ C) (b # bs) \<longleftrightarrow> (b = i \<longrightarrow> apart C bs)"
    by (auto simp: apart_def prefix_append_same_length cbits_byte)
qed

lemma fold_upd_range:
  assumes "a + k \<le> 256"
  shows "fold (\<lambda>i ch. ch(word_of_nat i := x)) [a..<a + k] ch b = (if a \<le> unat (b :: byte) \<and> unat b < a + k then x else ch b)"
  using assms
proof (induction k arbitrary: ch)
  case (Suc k)
  have "word_of_nat (a + k) = b \<longleftrightarrow> unat b = a + k"
    using Suc.prems unat_of_nat [of "a + k", where ?'a = 8] by (auto simp: word_unat_eq_iff simp del: of_nat_add)
  then show ?case using Suc by auto
qed auto

lemma div_eq_iff_range: "0 < m \<Longrightarrow> n div m = q \<longleftrightarrow> q * m \<le> n \<and> n < q * m + (m :: nat)"
  using dividend_less_div_times [of m n] div_times_less_eq_dividend [of n m]
  by (auto simp: algebra_simps intro: div_nat_eqI)

lemma leaf_range:
  fixes code :: "32 word"
  assumes "0 < l" and "l \<le> 8"
  defines "x \<equiv> ucast (push_bit (8 - l) code) :: byte"
  shows "unat x + 2 ^ (8 - l) \<le> 256"
    and "unat x \<le> unat b \<and> unat b < unat x + 2 ^ (8 - l) \<longleftrightarrow> prefix (cbits code l) (cbits (b :: byte) 8)"
proof -
  let ?k = "8 - l"
  have x: "bit x i \<longleftrightarrow> i < 8 \<and> ?k \<le> i \<and> bit code (i - ?k)" for i by (auto simp: x_def bit_simps)
  have "take_bit ?k x = 0" by (rule bit_eqI) (auto simp: bit_simps x)
  then have "unat x mod 2 ^ ?k = 0" by (metis take_bit_eq_mod unsigned_take_bit_eq unsigned_0)
  then obtain q where q: "unat x = q * 2 ^ ?k" by (metis dvd_div_mult_self mod_0_imp_dvd)
  have "unat x < 2 ^ l * 2 ^ ?k" using unat_byte [of x] assms(2) by (simp flip: power_add)
  then have "q < 2 ^ l" using q by simp
  then have "(q + 1) * 2 ^ ?k \<le> 2 ^ l * 2 ^ ?k" by (intro mult_right_mono) auto
  then show "unat x + 2 ^ ?k \<le> 256" using q assms(2) by (simp flip: power_add)
  have "unat x \<le> unat b \<and> unat b < unat x + 2 ^ ?k \<longleftrightarrow> unat b div 2 ^ ?k = q"
    unfolding q by (rule div_eq_iff_range [symmetric]) simp
  also have "q = unat x div 2 ^ ?k" using q by simp
  also have "unat b div 2 ^ ?k = unat x div 2 ^ ?k \<longleftrightarrow> drop_bit ?k b = drop_bit ?k x"
    by (simp only: word_unat_eq_iff unat_drop_bit_eq) (simp only: drop_bit_eq_div)
  also have "\<dots> \<longleftrightarrow> cbits (drop_bit ?k b) l = cbits (drop_bit ?k x) l"
  proof -
    have "\<not> bit (drop_bit ?k w) i" if "\<not> i < l" for i and w :: byte
      using that assms(2) bit_byte_ge [of w "8 - l + i"] by (auto simp: bit_drop_bit_eq)
    then show ?thesis unfolding cbits_eq_iff by (metis bit_eqI)
  qed
  also have "cbits (drop_bit ?k x) l = cbits code l" unfolding cbits_eq_iff using assms(2) by (auto simp: bit_drop_bit_eq x)
  also have "cbits (drop_bit ?k b) l = cbits code l \<longleftrightarrow> prefix (cbits code l) (cbits b 8)"
    using prefix_append_same_length [of "cbits code l" "cbits (drop_bit ?k b) l" "[]" "cbits b ?k"] cbits_split [of l 8 b] assms(2) by auto
  finally show "unat x \<le> unat b \<and> unat b < unat x + 2 ^ ?k \<longleftrightarrow> prefix (cbits code l) (cbits b 8)" .
qed
text \<open>What adding a code does to every position of the tree.\<close>

lemma addDecoderNode_descend:
  "addDecoderNode symb code l T = Ret T' \<Longrightarrow> 0 < l \<Longrightarrow>
    (at_leaf (cbits code l) bs \<longrightarrow> descend T' bs = Some (Leaf (l - 8 * (length bs - 1)) symb)) \<and>
    (above (cbits code l) bs \<longrightarrow> (\<exists>ch. descend T' bs = Some (Internal ch))) \<and>
    (apart (cbits code l) bs \<longrightarrow> descend T' bs = descend T bs)"
proof (induction symb code l T arbitrary: T' bs rule: addDecoderNode.induct)
  case (2 symb code l ch)
  show ?case
  proof (cases bs)
    case Nil
    with 2(2) show ?thesis
      by (auto simp: at_leaf_def above_def apart_def Let_def split: if_splits)
  next
    case (Cons b bs')
    show ?thesis
    proof (cases "8 < l")
      case True
      let ?i = "ucast (drop_bit (l - 8) code) :: byte"
      let ?cur = "case ch ?i of None \<Rightarrow> newInternalNode | Some n \<Rightarrow> n"
      obtain n where n: "addDecoderNode symb code (l - 8) ?cur = Ret n" "T' = Internal (ch(?i := Some n))"
        using 2(2) True by (auto simp: Let_def)
      have "cbits (drop_bit (l - 8) code) 8 = cbits ?i 8" unfolding cbits_eq_iff by (auto simp: bit_simps)
      then have C: "cbits code l = cbits ?i 8 @ cbits code (l - 8)" using cbits_split [of 8 l code] True by simp
      have ne: "cbits code (l - 8) \<noteq> []" using True by (metis length_cbits list.size(3) zero_less_diff less_irrefl)
      note ih = 2(1) [OF True refl refl n(1), of bs'] 
      have new: "descend newInternalNode bs' = (if bs' = [] then Some newInternalNode else None)"
        by (cases bs') (simp_all add: newInternalNode_def)
      show ?thesis
        unfolding C Cons position_Cons [OF ne]
      proof (intro conjI impI)
        assume "b = ?i \<and> at_leaf (cbits code (l - 8)) bs'"
        moreover from this have "l - 8 - 8 * (length bs' - 1) = l - 8 * (length (b # bs') - 1)"
          by (cases bs') (auto simp: at_leaf_def)
        ultimately show "descend T' (b # bs') = Some (Leaf (l - 8 * (length (b # bs') - 1)) symb)"
          using ih True n(2) by simp
      next
        assume "b = ?i \<and> above (cbits code (l - 8)) bs'"
        with ih True n(2) show "\<exists>ch. descend T' (b # bs') = Some (Internal ch)" by simp
      next
        assume a: "b = ?i \<longrightarrow> apart (cbits code (l - 8)) bs'"
        then have "b = ?i \<Longrightarrow> bs' \<noteq> []" by (auto simp: apart_def)
        with a ih True n(2) new show "descend T' (b # bs') = descend (Internal ch) (b # bs')"
          by (auto split: option.splits)
      qed
    next
      case False
      let ?x = "ucast (push_bit (8 - l) code) :: byte"
      note x = leaf_range [of l code] 
      have T': "T' = Internal (fold (\<lambda>i ch. ch(word_of_nat i := Some (Leaf l symb))) [unat ?x..<unat ?x + 2 ^ (8 - l)] ch)"
        using 2(2) False by (simp add: Let_def)
      have ch: "descend T' (b # bs') = (if prefix (cbits code l) (cbits b 8) then descend (Leaf l symb) bs' else descend (Internal ch) (b # bs'))"
        using x(1) x(2) [of b] False 2(3) by (simp add: T' fold_upd_range)
      have "at_leaf (cbits code l) (b # bs') \<longleftrightarrow> bs' = [] \<and> prefix (cbits code l) (cbits b 8)"
        using False 2(3) by (cases bs') (auto simp: at_leaf_def)
      moreover have "\<not> above (cbits code l) (b # bs')" using False by (auto simp: above_def)
      moreover have "apart (cbits code l) (b # bs') \<Longrightarrow> \<not> prefix (cbits code l) (cbits b 8)"
        by (auto simp: apart_def)
      ultimately show ?thesis unfolding Cons ch by auto
    qed
  qed
qed simp

lemma addDecoderNode_ok:
  "0 < l \<Longrightarrow> (\<And>bs m s. above (cbits code l) bs \<Longrightarrow> descend T bs \<noteq> Some (Leaf m s)) \<Longrightarrow>
    \<exists>T'. addDecoderNode symb code l T = Ret T'"
proof (induction symb code l T rule: addDecoderNode.induct)
  case (1 symb code l m s)
  from 1(2) [of "[]" m s] 1(1) show ?case by (simp add: above_def)
next
  case (2 symb code l ch)
  show ?case
  proof (cases "8 < l")
    case True
    let ?i = "ucast (drop_bit (l - 8) code) :: byte"
    let ?cur = "case ch ?i of None \<Rightarrow> newInternalNode | Some n \<Rightarrow> n"
    have "cbits (drop_bit (l - 8) code) 8 = cbits ?i 8" unfolding cbits_eq_iff by (auto simp: bit_simps)
    then have C: "cbits code l = cbits ?i 8 @ cbits code (l - 8)" using cbits_split [of 8 l code] True by simp
    have ne: "cbits code (l - 8) \<noteq> []" using True by (metis length_cbits list.size(3) zero_less_diff less_irrefl)
    have "descend ?cur bs \<noteq> Some (Leaf m s)" if "above (cbits code (l - 8)) bs" for bs m s
      using 2(3) [of "?i # bs" m s] that position_Cons(2) [OF ne] C
      by (cases bs) (auto simp: newInternalNode_def split: option.splits)
    with 2(1) [OF True refl refl] True obtain n where "addDecoderNode symb code (l - 8) ?cur = Ret n" by auto
    with True show ?thesis by (simp add: Let_def)
  qed (simp add: Let_def)
qed
lemma descend_append: "descend T (xs @ ys) = Option.bind (descend T xs) (\<lambda>n. descend n ys)"
  by (induction T xs rule: descend.induct) (simp_all split: option.splits)

lemma below_leaf:
  assumes "\<And>bs. at_leaf C bs \<Longrightarrow> \<exists>m s. descend T bs = Some (Leaf m s)" and "C \<noteq> []"
    and "prefix C (bits bs)" and "length C \<le> 8 * (length bs - 1)"
  shows "descend T bs = None"
proof -
  let ?k = "(length C + 7) div 8"
  have k: "?k < length bs" "length C \<le> 8 * ?k" "8 * (?k - 1) < length C" "0 < ?k"
    using assms(2,4) prefix_length_le [OF assms(3)] by (auto simp: length_greater_0_conv [symmetric] simp del: length_greater_0_conv)
  have "prefix (bits (take ?k bs)) (bits bs)" by (metis append_take_drop_id bits_simps(3) prefixI)
  then have "prefix C (bits (take ?k bs))"
    using assms(3) k(1,2) by (intro prefix_length_prefix [OF assms(3)]) auto
  then have "at_leaf C (take ?k bs)" using k by (auto simp: at_leaf_def)
  then obtain m s where "descend T (take ?k bs) = Some (Leaf m s)" using assms(1) by blast
  moreover obtain x xs where "drop ?k bs = x # xs" using k(1) by (cases "drop ?k bs") auto
  moreover have "descend T bs = Option.bind (descend T (take ?k bs)) (\<lambda>n. descend n (drop ?k bs))"
    by (metis append_take_drop_id descend_append)
  ultimately show ?thesis by simp
qed

definition tree_ok :: "byte set \<Rightarrow> node \<Rightarrow> bool" where
  "tree_ok S T \<longleftrightarrow>
    (\<exists>ch. T = Internal ch) \<and>
    (\<forall>c\<in>S. \<forall>bs. at_leaf (code_of c) bs \<longrightarrow> descend T bs = Some (Leaf (code_len c - 8 * (length bs - 1)) c)) \<and>
    (\<forall>c\<in>S. \<forall>bs. above (code_of c) bs \<longrightarrow> (\<exists>ch. descend T bs = Some (Internal ch))) \<and>
    (\<forall>bs n. bs \<noteq> [] \<longrightarrow> descend T bs = Some n \<longrightarrow>
      (\<exists>c\<in>S. at_leaf (code_of c) bs \<and> n = Leaf (code_len c - 8 * (length bs - 1)) c \<or>
        above (code_of c) bs \<and> (\<exists>ch. n = Internal ch)))"

lemma position_apart:
  assumes "c \<noteq> d"
  shows "at_leaf (code_of d) bs \<Longrightarrow> apart (code_of c) bs"
    and "above (code_of d) bs \<Longrightarrow> above (code_of c) bs \<or> apart (code_of c) bs"
proof -
  have n: "\<not> prefix (code_of c) (code_of d)" "\<not> prefix (code_of d) (code_of c)"
    using code_prefix_free assms by metis+
  show "apart (code_of c) bs" if "at_leaf (code_of d) bs"
    using that n by (auto simp: at_leaf_def apart_def dest: prefix_same_cases prefix_order.trans)
  show "above (code_of c) bs \<or> apart (code_of c) bs" if "above (code_of d) bs"
  proof -
    have d: "prefix (bits bs) (code_of d)" using that by (simp add: above_def)
    with n have c: "\<not> prefix (code_of c) (bits bs)" by (metis prefix_order.trans)
    show ?thesis
    proof (cases "prefix (bits bs) (code_of c)")
      case True
      moreover from True c have "8 * length bs < code_len c"
        by (metis le_neq_implies_less length_bits length_code_of not_equal_is_parallel parallelE prefix_length_le prefix_order.refl)
      ultimately show ?thesis by (simp add: above_def)
    qed (use c in \<open>simp add: apart_def\<close>)
  qed
qed

lemma position_cases:
  obtains "at_leaf C bs" | "above C bs" | "apart C bs" | "prefix C (bits bs)" "length C \<le> 8 * (length bs - 1)" | "bs = []"
proof (cases "prefix C (bits bs)")
  case True
  then show ?thesis using that by (cases "length C \<le> 8 * (length bs - 1)") (auto simp: at_leaf_def)
next
  case c: False
  show ?thesis
  proof (cases "prefix (bits bs) C")
    case True
    with c have "length (bits bs) \<noteq> length C" by (metis prefix_order.refl not_equal_is_parallel parallelE)
    with prefix_length_le [OF True] True that(2) show ?thesis by (simp add: above_def)
  qed (use c that(3) in \<open>simp add: apart_def\<close>)
qed

lemma tree_ok_insert:
  assumes "tree_ok S T" and "c \<notin> S"
  shows "\<exists>T'. addDecoderNode c (huffmanCodes ! unat c) (code_len c) T = Ret T' \<and> tree_ok (insert c S) T'"
proof -
  have len: "0 < code_len c" "code_of c \<noteq> []" using table_facts(1) [of c] by (auto simp: length_greater_0_conv [symmetric] simp del: length_greater_0_conv)
  have code: "cbits (huffmanCodes ! unat c) (code_len c) = code_of c" by (simp add: code_of_def code_len_def)
  obtain ch where T: "T = Internal ch" using assms(1) by (auto simp: tree_ok_def)
  have ne: "d \<noteq> c" if "d \<in> S" for d using that assms(2) by auto
  have "descend T bs \<noteq> Some (Leaf m s)" if a: "above (code_of c) bs" for bs m s
  proof
    assume w: "descend T bs = Some (Leaf m s)"
    then have "bs \<noteq> []" using T by auto
    with w assms(1) obtain d where d: "d \<in> S" "at_leaf (code_of d) bs" by (fastforce simp: tree_ok_def)
    from position_apart(1) [OF ne [OF d(1), symmetric] d(2)] a show False by (simp add: above_def apart_def)
  qed
  then obtain T' where T': "addDecoderNode c (huffmanCodes ! unat c) (code_len c) T = Ret T'"
    using addDecoderNode_ok [OF len(1), of "huffmanCodes ! unat c" T c] code by auto
  note w = addDecoderNode_descend [OF T' len(1), unfolded code]
  have r1: "\<exists>ch. T' = Internal ch" using T' T len by (auto simp: Let_def split: if_splits)
  have r2: "descend T' bs = Some (Leaf (code_len d - 8 * (length bs - 1)) d)" if "d \<in> insert c S" "at_leaf (code_of d) bs" for d bs
    using that w [of bs] assms(1) position_apart(1) [of c d bs] ne [of d] by (cases "d = c") (auto simp: tree_ok_def)
  have r3: "\<exists>ch. descend T' bs = Some (Internal ch)" if "d \<in> insert c S" "above (code_of d) bs" for d bs
    using that w [of bs] assms(1) position_apart(2) [of c d bs] ne [of d] by (cases "d = c") (auto simp: tree_ok_def)
  have r4: "\<exists>d\<in>insert c S. at_leaf (code_of d) bs \<and> n = Leaf (code_len d - 8 * (length bs - 1)) d \<or>
        above (code_of d) bs \<and> (\<exists>ch. n = Internal ch)" if "bs \<noteq> []" "descend T' bs = Some n" for bs n
  proof (cases rule: position_cases [of "code_of c" bs])
    case 3
    with that w [of bs] assms(1) show ?thesis by (auto simp: tree_ok_def)
  next
    case 4
    have "descend T' bs = None" by (rule below_leaf [OF _ len(2) 4]) (use w in blast)
    with that(2) show ?thesis by simp
  qed (use that w [of bs] in auto)
  have "tree_ok (insert c S) T'" unfolding tree_ok_def by (intro conjI ballI allI impI r1 r2 r3 r4)
  with T' show ?thesis by blast
qed

lemma init_loop_ok:
  "tree_ok S T \<Longrightarrow> distinct is \<Longrightarrow> (\<forall>i \<in> set is. i < 256 \<and> word_of_nat i \<notin> S) \<Longrightarrow>
    \<exists>T'. init_loop is T = Ret T' \<and> tree_ok (S \<union> word_of_nat ` set is) T'"
proof (induction "is" arbitrary: S T)
  case (Cons i "is")
  have u: "unat (word_of_nat j :: byte) = j" if "j < 256" for j using that by (simp add: unat_of_nat)
  obtain T1 where T1: "addDecoderNode (word_of_nat i) (huffmanCodes ! i) (huffmanCodeLen ! i) T = Ret T1"
      "tree_ok (insert (word_of_nat i) S) T1"
    using tree_ok_insert [OF Cons(2), of "word_of_nat i"] Cons(4) u [of i] by (auto simp: code_len_def)
  have "word_of_nat j \<notin> insert (word_of_nat i :: byte) S" if "j \<in> set is" for j
  proof -
    have "j < 256" "i < 256" "j \<noteq> i" "word_of_nat j \<notin> S" using that Cons(3,4) by auto
    with u [of i] u [of j] show ?thesis by (metis insert_iff)
  qed
  with Cons(1) [OF T1(2)] Cons(3,4) T1(1) show ?case by auto
qed simp

theorem huffman_init_ok: "huffman_init = Ret rootHuffmanNode \<and> tree_ok UNIV rootHuffmanNode"
proof -
  have "tree_ok {} newInternalNode"
    by (auto simp: tree_ok_def newInternalNode_def neq_Nil_conv)
  from init_loop_ok [OF this, of "[0..<256]"] obtain T where
    T: "init_loop [0..<256] newInternalNode = Ret T" "tree_ok (word_of_nat ` {0..<256}) T" by auto
  have "c \<in> word_of_nat ` {0..<256}" for c :: byte using unat_byte [of c] by (intro image_eqI [of _ _ "unat c"]) auto
  then have "word_of_nat ` {0..<256} = (UNIV :: byte set)" by blast
  with T show ?thesis by (simp add: huffman_init_def rootHuffmanNode_def length_tables)
qed
section \<open>The decoder\<close>

lemma root_leaf: "at_leaf (code_of c) bs \<Longrightarrow> descend rootHuffmanNode bs = Some (Leaf (code_len c - 8 * (length bs - 1)) c)"
  and root_above: "above (code_of c) bs \<Longrightarrow> \<exists>ch. descend rootHuffmanNode bs = Some (Internal ch)"
  and root_internal: "\<exists>ch. rootHuffmanNode = Internal ch"
  and root_cases: "bs \<noteq> [] \<Longrightarrow> descend rootHuffmanNode bs = Some n \<Longrightarrow>
      \<exists>c. at_leaf (code_of c) bs \<and> n = Leaf (code_len c - 8 * (length bs - 1)) c \<or>
        above (code_of c) bs \<and> (\<exists>ch. n = Internal ch)"
  using huffman_init_ok by (auto simp: tree_ok_def)

lemma descend_snoc: "descend T bs = Some (Internal ch) \<Longrightarrow> descend T (bs @ [b]) = ch b"
  by (simp add: descend_append split: option.splits)

lemma drop_cbits: "k \<le> n \<Longrightarrow> drop k (cbits w n) = cbits w (n - k)"
  using cbits_split [of k n w] by simp

lemma append_eq_prefix: "xs @ ys = zs @ ws \<Longrightarrow> length xs \<le> length zs \<Longrightarrow> prefix xs zs"
  by (rule prefix_length_prefix [of _ "zs @ ws"]) (auto intro: prefixI [of _ _ ys])

text \<open>
  The state of the decoder against the bits it has still to decode: \<open>path\<close> are the bytes that led from
  the root to the current node, and they are less than the code of the next symbol.
\<close>

definition decoding :: "bytes \<Rightarrow> bool list \<Rightarrow> bytes \<Rightarrow> nat \<Rightarrow> bool" where
  "decoding path B s p \<longleftrightarrow> p < 8 \<and> bits path @ B = concat (map code_of s) @ replicate p True \<and>
     (path = [] \<or> s \<noteq> [] \<and> 8 * length path < code_len (hd s))"

lemma decoding_Nil: "decoding path B [] p \<Longrightarrow> path = [] \<and> B = replicate p True \<and> p = length B \<and> length B < 8"
  by (auto simp: decoding_def)

lemma decoding_node:
  assumes "decoding path B s p"
  obtains ch where "descend rootHuffmanNode path = Some (Internal ch)"
proof (cases "path = []")
  case True
  with root_internal that show ?thesis by auto
next
  case False
  with assms obtain c s' where s: "s = c # s'" "8 * length path < code_len c" by (cases s) (auto simp: decoding_def)
  then have "bits path @ B = code_of c @ concat (map code_of s') @ replicate p True" using assms by (simp add: decoding_def)
  then have "prefix (bits path) (code_of c)" by (rule append_eq_prefix) (use s(2) in simp)
  with s(2) have "above (code_of c) path" by (simp add: above_def)
  with root_above that show ?thesis by blast
qed

lemma decoding_byte:
  assumes "decoding path B s p" and "prefix Q B" and "s = c # s'" and "prefix Q (cbits b 8)"
    and "8 \<le> length Q \<or> code_len c \<le> 8 * length path + length Q"
  shows "code_len c \<le> 8 * length path + 8 \<Longrightarrow>
      descend rootHuffmanNode (path @ [b]) = Some (Leaf (code_len c - 8 * length path) c) \<and> 8 * length path < code_len c \<and>
      decoding [] (drop (code_len c - 8 * length path) B) s' p"
    and "8 * length path + 8 < code_len c \<Longrightarrow>
      (\<exists>ch. descend rootHuffmanNode (path @ [b]) = Some (Internal ch)) \<and> decoding (path @ [b]) (drop 8 B) s p"
proof -
  let ?D = "concat (map code_of s') @ replicate p True"
  have e: "bits path @ B = code_of c @ ?D" and lt: "8 * length path < code_len c" and p: "p < 8"
    using assms(1,3) table_facts(1) [of c] by (auto simp: decoding_def)
  obtain R where R: "B = Q @ R" using assms(2) by (auto simp: prefix_def)
  have pre: "(bits path @ Q) @ R = code_of c @ ?D" using e R by simp
  have Q8: "length Q \<le> 8" using prefix_length_le [OF assms(4)] by simp
  {
    assume l: "code_len c \<le> 8 * length path + 8"
    have "prefix (code_of c) (bits path @ Q)"
      by (rule append_eq_prefix [OF pre [symmetric]]) (use assms(5) l in auto)
    then have "prefix (code_of c) (bits (path @ [b]))" using assms(4) by (auto intro: prefix_order.trans)
    then have "at_leaf (code_of c) (path @ [b])" using lt by (simp add: at_leaf_def)
    moreover have "drop (code_len c - 8 * length path) B = ?D" using arg_cong [OF e, of "drop (code_len c)"] lt by simp
    ultimately show "descend rootHuffmanNode (path @ [b]) = Some (Leaf (code_len c - 8 * length path) c) \<and> 8 * length path < code_len c \<and>
      decoding [] (drop (code_len c - 8 * length path) B) s' p"
      using root_leaf [of c "path @ [b]"] p lt by (simp add: decoding_def)
  }
  {
    assume l: "8 * length path + 8 < code_len c"
    then have "length Q = 8" using assms(5) Q8 by linarith
    with assms(4) have Q: "Q = cbits b 8" by (metis length_cbits not_equal_is_parallel parallelE prefix_order.refl)
    have "prefix (bits (path @ [b])) (code_of c)"
      using append_eq_prefix [OF pre] l Q by simp
    with l have "above (code_of c) (path @ [b])" by (simp add: above_def)
    moreover have "cbits b 8 @ drop 8 B = B" using assms(2) Q by (auto simp: prefix_def)
    ultimately show "(\<exists>ch. descend rootHuffmanNode (path @ [b]) = Some (Internal ch)) \<and> decoding (path @ [b]) (drop 8 B) s p"
      using root_above e p l assms(3) by (auto simp: decoding_def)
  }
qed
lemma decode_bits_ok:
  "decoding path (cbits cur nbits @ R) s p \<Longrightarrow> descend rootHuffmanNode path = Some n \<Longrightarrow> nbits \<le> 64 \<Longrightarrow>
    maxLen = 0 \<or> length buf + length s \<le> maxLen \<Longrightarrow>
    \<exists>path' n' nbits' s1 s2. s = s1 @ s2 \<and> nbits' < 8 \<and> descend rootHuffmanNode path' = Some n' \<and>
      decode_bits rootHuffmanNode maxLen n cur nbits buf = Some (Ret (Inr (n', nbits', buf @ s1))) \<and>
      decoding path' (cbits cur nbits' @ R) s2 p"
proof (induction nbits arbitrary: path n s buf rule: less_induct)
  case (less nbits)
  show ?case
  proof (cases "nbits < 8")
    case True
    then show ?thesis using less.prems by (subst decode_bits.simps) (intro exI [of _ path] exI [of _ n] exI [of _ nbits] exI [of _ "[]"] exI [of _ s]; simp)
  next
    case False
    let ?b = "ucast (drop_bit (nbits - 8) cur) :: byte"
    obtain ch where n: "n = Internal ch" using decoding_node [OF less.prems(1)] less.prems(2) by auto
    have b: "cbits ?b 8 = cbits (drop_bit (nbits - 8) cur) 8" unfolding cbits_eq_iff by (auto simp: bit_simps)
    have q: "cbits cur nbits = cbits ?b 8 @ cbits cur (nbits - 8)" using False unfolding b by (intro cbits_split) simp
    obtain c s' where s: "s = c # s'"
      using decoding_Nil [of path "cbits cur nbits @ R" p] less.prems(1) False by (cases s) auto
    note d = decoding_byte [OF less.prems(1) _ s, of "cbits ?b 8" ?b, unfolded q]
    have w: "descend rootHuffmanNode (path @ [?b]) = ch ?b" using descend_snoc less.prems(2) n by blast
    show ?thesis
    proof (cases "code_len c \<le> 8 * length path + 8")
      case True
      let ?l = "code_len c - 8 * length path"
      from d(1) True w have l: "ch ?b = Some (Leaf ?l c)" "0 < ?l" "decoding [] (drop ?l (cbits cur nbits @ R)) s' p"
        by (simp_all add: q)
      have step: "decode_bits rootHuffmanNode maxLen n cur nbits buf =
          decode_bits rootHuffmanNode maxLen rootHuffmanNode cur (nbits - ?l) (buf @ [c])"
        using False n l(1) less.prems(4) s by (subst decode_bits.simps) auto
      have "drop ?l (cbits cur nbits @ R) = cbits cur (nbits - ?l) @ R" using True False by (simp add: drop_cbits)
      with l(3) have d': "decoding [] (cbits cur (nbits - ?l) @ R) s' p" by simp
      have m: "maxLen = 0 \<or> length (buf @ [c]) + length s' \<le> maxLen" using less.prems(4) s by auto
      have "nbits - ?l < nbits" "nbits - ?l \<le> 64" using l(2) False less.prems(3) by auto
      from less.IH [OF this(1) d' descend.simps(1) this(2) m] obtain path' n' nbits' s1 s2 where
        r: "s' = s1 @ s2" "nbits' < 8" "descend rootHuffmanNode path' = Some n'"
          "decode_bits rootHuffmanNode maxLen rootHuffmanNode cur (nbits - ?l) (buf @ [c]) = Some (Ret (Inr (n', nbits', (buf @ [c]) @ s1)))"
          "decoding path' (cbits cur nbits' @ R) s2 p" by blast
      then show ?thesis using step s by (intro exI [of _ path'] exI [of _ n'] exI [of _ nbits'] exI [of _ "c # s1"] exI [of _ s2]) simp
    next
      case long: False
      with d(2) w obtain ch' where l: "ch ?b = Some (Internal ch')" "decoding (path @ [?b]) (cbits cur (nbits - 8) @ R) s p"
        by (auto simp: q)
      have "decode_bits rootHuffmanNode maxLen n cur nbits buf = decode_bits rootHuffmanNode maxLen (Internal ch') cur (nbits - 8) buf"
        using False n l(1) by (subst decode_bits.simps) auto
      with less.IH [of "nbits - 8" "path @ [?b]" s "Internal ch'" buf] l w less.prems(3,4) False show ?thesis by simp
    qed
  qed
qed

lemma code_not_ones: "code_of c \<noteq> replicate (code_len c) True"
proof
  let ?w = "huffmanCodes ! unat c" and ?l = "code_len c"
  assume "code_of c = replicate ?l True"
  then have "\<forall>i<?l. bit ?w i" by (simp add: code_of_def cbits_const code_len_def)
  moreover have "\<not> bit ?w i" if "?l \<le> i" for i using high_bits_zero [of ?w ?l i] table_facts(3) [of c] that by simp
  ultimately have "unat ?w = mask ?l" by (intro bit_eqI) (auto simp: bit_unat_iff bit_mask_iff not_less [symmetric])
  then show False using table_facts(3) [of c] by (simp add: mask_eq_exp_minus_1)
qed

lemma cbits_numeral: "cbits w (numeral k) = bit w (pred_numeral k) # cbits w (pred_numeral k)"
  by (simp add: numeral_eq_Suc)

lemma padding_codes:
  "at_leaf (code_of 61) [0x80]" "at_leaf (code_of 69) [0xc0]" "at_leaf (code_of 85) [0xe0]" "at_leaf (code_of 119) [0xf0]"
  "at_leaf (code_of 38) [0xf8]" "at_leaf (code_of 88) [0xfc]" "above (code_of 33) [0xfe]"
  by (simp_all add: at_leaf_def above_def code_of_def code_len_def huffmanCodes_def huffmanCodeLen_def cbits_numeral)
lemma padding_byte:
  assumes "0 < k" and "k < 8" and "cbits b 8 = replicate k True @ replicate (8 - k) False"
  shows "\<exists>n. descend rootHuffmanNode [b] = Some n \<and> (case n of Internal _ \<Rightarrow> True | Leaf l _ \<Rightarrow> k < l)"
proof -
  have "k \<in> set [1, 2, 3, 4, 5, 6, 7]" using assms(1,2) by auto
  then have "b \<in> {0x80, 0xc0, 0xe0, 0xf0, 0xf8, 0xfc, 0xfe}"
    using assms(3) by (auto simp: cbits_byte [symmetric] cbits_numeral numeral_eq_Suc)
  then obtain n where n: "descend rootHuffmanNode [b] = Some n"
    using padding_codes root_leaf root_above by (elim insertE emptyE; blast)
  moreover have "k < l" if leaf: "n = Leaf l s" for l s
  proof (rule ccontr)
    assume "\<not> k < l"
    obtain c where c: "at_leaf (code_of c) [b]" "l = code_len c" using root_cases [OF _ n] leaf by auto
    then obtain zs where "code_of c @ zs = replicate k True @ replicate (8 - k) False"
      using assms(3) by (auto simp: at_leaf_def prefix_def)
    then have "prefix (code_of c) (replicate k True)" by (rule append_eq_prefix) (use c(2) \<open>\<not> k < l\<close> in simp)
    then have "code_of c = replicate (code_len c) True"
      by (metis length_code_of length_replicate prefix_length_le take_replicate min.absorb1 append_eq_conv_conj prefixE)
    with code_not_ones show False by blast
  qed
  ultimately show ?thesis by (auto split: node.splits)
qed

lemma decode_tail_ok:
  "decoding path (cbits cur nbits) s p \<Longrightarrow> descend rootHuffmanNode path = Some n \<Longrightarrow> nbits < 8 \<Longrightarrow>
    decode_tail rootHuffmanNode n cur nbits buf = Some (Ret (buf @ s))"
proof (induction nbits arbitrary: path n s buf rule: less_induct)
  case (less nbits)
  let ?b = "ucast (push_bit (8 - nbits) cur) :: byte"
  have b: "bit ?b i \<longleftrightarrow> i < 8 \<and> 8 - nbits \<le> i \<and> bit cur (i - (8 - nbits))" for i
    using less.prems(3) by (auto simp: bit_simps)
  have q: "cbits ?b 8 = cbits cur nbits @ replicate (8 - nbits) False"
  proof -
    have "cbits (drop_bit (8 - nbits) ?b) nbits = cbits cur nbits"
      unfolding cbits_eq_iff bit_drop_bit_eq o_apply b using less.prems(3) by auto
    moreover have "cbits ?b (8 - nbits) = replicate (8 - nbits) False" unfolding cbits_const b by simp
    ultimately show ?thesis using cbits_split [of nbits 8 ?b] less.prems(3) by simp
  qed
  obtain ch where n: "n = Internal ch" using decoding_node [OF less.prems(1)] less.prems(2) by auto
  have w: "descend rootHuffmanNode (path @ [?b]) = ch ?b" using descend_snoc less.prems(2) n by blast
  show ?case
  proof (cases s)
    case Nil
    note e = decoding_Nil [OF less.prems(1) [unfolded Nil]]
    show ?thesis
    proof (cases "nbits = 0")
      case False
      have "p = nbits" and "path = []" and "cbits cur nbits = replicate p True" using e by simp_all
      then have "cbits ?b 8 = replicate nbits True @ replicate (8 - nbits) False" and p: "path = []" by (simp_all only: q)
      from padding_byte [OF _ less.prems(3) this(1)] False obtain m where
        m: "descend rootHuffmanNode [?b] = Some m" "case m of Internal _ \<Rightarrow> True | Leaf l _ \<Rightarrow> nbits < l" by blast
      have "ch ?b = Some m" using m(1) w unfolding p by (simp only: append_Nil)
      with False m(2) show ?thesis unfolding n Nil by (subst decode_tail.simps) (simp split: node.splits)
    qed (simp add: decode_tail.simps Nil)
  next
    case (Cons c s')
    let ?l = "code_len c - 8 * length path"
    have "bits path @ cbits cur nbits = concat (map code_of s) @ replicate p True" using less.prems(1) by (simp add: decoding_def)
    from arg_cong [OF this, of length] Cons have "code_len c \<le> 8 * length path + nbits" by simp
    moreover have "8 * length path < code_len c" using less.prems(1) Cons table_facts(1) [of c] by (auto simp: decoding_def)
    ultimately have len: "code_len c \<le> 8 * length path + nbits" "8 * length path < code_len c" .
    note d = decoding_byte(1) [OF less.prems(1) _ Cons, of "cbits cur nbits" ?b, unfolded q]
    from d len less.prems(3) w have l: "ch ?b = Some (Leaf ?l c)" "decoding [] (cbits cur (nbits - ?l)) s' p"
      by (simp_all add: drop_cbits)
    have "decode_tail rootHuffmanNode n cur nbits buf = decode_tail rootHuffmanNode rootHuffmanNode cur (nbits - ?l) (buf @ [c])"
      using n l(1) len by (subst decode_tail.simps) auto
    with less.IH [OF _ l(2)] len less.prems(3) Cons show ?thesis by simp
  qed
qed

lemma cbits_push_byte:
  assumes "nbits < 8"
  shows "cbits (push_bit 8 cur OR ucast (b :: byte) :: 64 word) (nbits + 8) = cbits cur nbits @ cbits b 8"
proof -
  let ?c = "push_bit 8 cur OR ucast b :: 64 word"
  have "cbits (drop_bit 8 ?c) nbits = cbits cur nbits"
    unfolding cbits_eq_iff using assms bit_byte_ge by (fastforce simp: bit_simps)
  moreover have "cbits ?c 8 = cbits b 8" unfolding cbits_eq_iff by (auto simp: bit_simps)
  ultimately show ?thesis using cbits_add [of ?c nbits 8] by simp
qed

lemma decode_bytes_ok:
  "decoding path (cbits cur nbits @ bits v) s p \<Longrightarrow> descend rootHuffmanNode path = Some n \<Longrightarrow> nbits < 8 \<Longrightarrow>
    maxLen = 0 \<or> length buf + length s \<le> maxLen \<Longrightarrow>
    decode_bytes rootHuffmanNode maxLen n cur nbits buf v = Some (Ret (Inr (buf @ s)))"
proof (induction v arbitrary: path cur nbits buf n s)
  case (Cons b v)
  let ?c = "push_bit 8 cur OR ucast b :: 64 word"
  have "decoding path (cbits ?c (nbits + 8) @ bits v) s p" using Cons.prems(1,3) by (simp add: cbits_push_byte)
  from decode_bits_ok [OF this Cons.prems(2) _ Cons.prems(4)] Cons.prems(3) obtain path' n' nbits' s1 s2 where
    r: "s = s1 @ s2" "nbits' < 8" "descend rootHuffmanNode path' = Some n'"
      "decode_bits rootHuffmanNode maxLen n ?c (nbits + 8) buf = Some (Ret (Inr (n', nbits', buf @ s1)))"
      "decoding path' (cbits ?c nbits' @ bits v) s2 p" by auto
  have "maxLen = 0 \<or> length (buf @ s1) + length s2 \<le> maxLen" using Cons.prems(4) r(1) by auto
  from Cons.IH [OF r(5,3,2) this] r show ?case by (simp add: Let_def)
qed (simp add: decode_tail_ok)

lemma huffmanDecode_bits:
  assumes "bits v = concat (map code_of s) @ replicate p True" and "p < 8" and "maxLen = 0 \<or> length s \<le> maxLen"
  shows "huffmanDecode maxLen v = Some (Ret (Inr s))"
  using decode_bytes_ok [of "[]" 0 0 v s p rootHuffmanNode maxLen "[]"] assms
  by (simp add: huffmanDecode_def decoding_def)

text \<open>
  Huffman coding is exact: decoding what was appended gives the string back, and the announced
  length is the length of what is appended.
\<close>

theorem huffman_decode_encode:
  "\<exists>v. AppendHuffmanString dst s = dst @ v \<and> length v = HuffmanEncodeLength s \<and> HuffmanDecodeToString v = Some (Ret (Inr s))"
proof -
  obtain v p where "AppendHuffmanString dst s = dst @ v" "p < 8" "bits v = concat (map code_of s) @ replicate p True"
      "length v = HuffmanEncodeLength s" by (rule AppendHuffmanString_append)
  with huffmanDecode_bits [of v s p 0] show ?thesis by (simp add: HuffmanDecodeToString_def)
qed
section \<open>Any input\<close>

lemma root_leaf_consumes:
  assumes "descend rootHuffmanNode bs = Some (Leaf l c)"
  shows "0 < l \<and> bs \<noteq> []"
proof -
  obtain ch where r: "rootHuffmanNode = Internal ch" using root_internal by blast
  have "bs \<noteq> []" using assms [unfolded r] by auto
  moreover from root_cases [OF this assms] this have "0 < l" by (auto simp: at_leaf_def)
  ultimately show ?thesis by simp
qed

lemma decode_bits_returns:
  "descend rootHuffmanNode path = Some (Internal ch) \<Longrightarrow>
    \<exists>r. decode_bits rootHuffmanNode maxLen (Internal ch) cur nbits buf = Some (Ret r) \<and>
      (\<forall>n' nbits' buf'. r = Inr (n', nbits', buf') \<longrightarrow>
        nbits' < 8 \<and> (\<exists>path' ch'. n' = Internal ch' \<and> descend rootHuffmanNode path' = Some n'))"
proof (induction nbits arbitrary: path ch buf rule: less_induct)
  case (less nbits)
  let ?b = "ucast (drop_bit (nbits - 8) cur) :: byte"
  have w: "descend rootHuffmanNode (path @ [?b]) = ch ?b" using descend_snoc less.prems by blast
  obtain root where root: "rootHuffmanNode = Internal root" using root_internal by blast
  consider "nbits < 8" | "8 \<le> nbits" "ch ?b = None" | ch' where "8 \<le> nbits" "ch ?b = Some (Internal ch')"
    | l c where "8 \<le> nbits" "ch ?b = Some (Leaf l c)"
    by (metis linorder_not_le node.exhaust not_None_eq)
  then show ?case
  proof cases
    case 4
    with root_leaf_consumes [of "path @ [?b]" l c] w have "nbits - l < nbits" by auto
    from less.IH [OF this, of "[]" root "buf @ [c]"] 4 root show ?thesis
      by (subst decode_bits.simps) auto
  next
    case 3
    with less.IH [of "nbits - 8" "path @ [?b]" ch' buf] w show ?thesis by (subst decode_bits.simps) auto
  qed (use less.prems in \<open>subst decode_bits.simps; auto\<close>)+
qed

lemma decode_tail_returns:
  "descend rootHuffmanNode path = Some (Internal ch) \<Longrightarrow> \<exists>r. decode_tail rootHuffmanNode (Internal ch) cur nbits buf = Some r"
proof (induction nbits arbitrary: path ch buf rule: less_induct)
  case (less nbits)
  let ?b = "ucast (push_bit (8 - nbits) cur) :: byte"
  have w: "descend rootHuffmanNode (path @ [?b]) = ch ?b" using descend_snoc less.prems by blast
  obtain root where root: "rootHuffmanNode = Internal root" using root_internal by blast
  show ?case
  proof (cases "\<exists>l c. ch ?b = Some (Leaf l c) \<and> 0 < nbits")
    case True
    then obtain l c where l: "ch ?b = Some (Leaf l c)" "0 < nbits" by blast
    with root_leaf_consumes [of "path @ [?b]" l c] w have "nbits - l < nbits" by auto
    from less.IH [OF this, of "[]" root "buf @ [c]"] l root show ?thesis
      by (subst decode_tail.simps) auto
  next
    case False
    then show ?thesis by (subst decode_tail.simps) (auto split: option.splits node.splits)
  qed
qed

lemma decode_bytes_returns:
  "descend rootHuffmanNode path = Some (Internal ch) \<Longrightarrow>
    \<exists>r. decode_bytes rootHuffmanNode maxLen (Internal ch) cur nbits buf v = Some r"
proof (induction v arbitrary: path ch cur nbits buf)
  case (Cons b v)
  from decode_bits_returns [OF Cons.prems, of maxLen "push_bit 8 cur OR ucast b" "nbits + 8" buf] obtain r where
    r: "decode_bits rootHuffmanNode maxLen (Internal ch) (push_bit 8 cur OR ucast b) (nbits + 8) buf = Some (Ret r)"
      "\<And>n' nbits' buf'. r = Inr (n', nbits', buf') \<Longrightarrow> \<exists>path' ch'. n' = Internal ch' \<and> descend rootHuffmanNode path' = Some n'"
    by blast
  show ?case
  proof (cases r)
    case (Inr t)
    obtain n' nbits' buf' where t: "t = (n', nbits', buf')" by (cases t)
    from r(2) [of n' nbits' buf'] Inr t obtain path' ch' where "n' = Internal ch'" "descend rootHuffmanNode path' = Some (Internal ch')"
      by auto
    with Cons.IH [OF this(2)] r(1) Inr t show ?thesis by (simp add: Let_def)
  qed (simp add: r Let_def)
qed (use decode_tail_returns in fastforce)

text \<open>
  The Huffman decoder ends on every input: every turn of its loops consumes at least one bit,
  because no leaf of the tree that \<open>init\<close> builds has an empty code.
\<close>

theorem huffmanDecode_returns: "\<exists>r. huffmanDecode maxLen v = Some r"
proof -
  obtain ch where "rootHuffmanNode = Internal ch" using root_internal by blast
  with decode_bytes_returns [of "[]" ch maxLen 0 0 "[]" v] show ?thesis by (simp add: huffmanDecode_def)
qed

text \<open>The code words around the end-of-string symbol, which is not in the tree.\<close>

lemma eos_positions:
  "at_leaf (code_of 48) [0]" "at_leaf (code_of 48) [7]" "above (code_of 10) [0xff]" "above (code_of 10) [0xff, 0xff]"
  "above (code_of 10) [0xff, 0xff, 0xff]" "code_len 48 = 5"
  by (simp_all add: at_leaf_def above_def code_of_def code_len_def huffmanCodes_def huffmanCodeLen_def cbits_numeral)

lemma eos_not_in_tree: "descend rootHuffmanNode [0xff, 0xff, 0xff, 0xfc] = None"
proof (rule ccontr)
  let ?e = "[0xff, 0xff, 0xff, 0xfc] :: bytes"
  assume "descend rootHuffmanNode ?e \<noteq> None"
  then obtain c where c: "at_leaf (code_of c) ?e \<or> above (code_of c) ?e" using root_cases [of ?e] by blast
  have "bits ?e = replicate 30 True @ [False, False]" by (simp add: cbits_numeral numeral_eq_Suc)
  moreover have "\<not> above (code_of c) ?e" using table_facts(2) [of c] by (simp add: above_def)
  with c have "at_leaf (code_of c) ?e" by blast
  then have "prefix (code_of c) (bits ?e)" unfolding at_leaf_def by blast
  ultimately have "prefix (code_of c) (replicate 30 True @ [False, False])" by (simp only:)
  then have "prefix (code_of c) (replicate 30 True)"
    by (rule prefix_length_prefix) (use table_facts(2) [of c] in simp_all)
  then have "code_of c = replicate (code_len c) True"
    by (metis length_code_of length_replicate prefix_length_le take_replicate min.absorb1 append_eq_conv_conj prefixE)
  with code_not_ones show False by blast
qed

text \<open>
  The Huffman decoder can be made to panic by the peer: for five bytes, two zeros followed by the
  thirty ones of the end-of-string symbol, the last loop finds no child and dereferences it.
\<close>

theorem huffmanDecode_panics: "huffmanDecode 0 [0x00, 0x3f, 0xff, 0xff, 0xff] = Some nil_deref"
proof -
  obtain ch0 where r: "rootHuffmanNode = Internal ch0" using root_internal by blast
  note leaf = root_leaf [unfolded r] and above = root_above [unfolded r]
  have l: "ch0 0 = Some (Leaf 5 48)" "ch0 7 = Some (Leaf 5 48)"
    using leaf [OF eos_positions(1)] leaf [OF eos_positions(2)] eos_positions(6) by (simp_all split: option.splits)
  obtain ch1 where c1: "ch0 0xff = Some (Internal ch1)" using above [OF eos_positions(3)] by (auto split: option.splits)
  obtain ch2 where c2: "ch1 0xff = Some (Internal ch2)" using above [OF eos_positions(4)] c1 by (auto split: option.splits)
  obtain ch3 where c3: "ch2 0xff = Some (Internal ch3)" using above [OF eos_positions(5)] c1 c2 by (auto split: option.splits)
  have c4: "ch3 0xfc = None" using eos_not_in_tree [unfolded r] c1 c2 c3 by (simp split: option.splits)
  have "(65535 :: byte) = 0xff" "(16777215 :: byte) = 0xff" "(4294967292 :: byte) = 0xfc" by simp_all
  note cs = l c1 c2 c3 c4 c2 [folded this(1)] c3 [folded this(2)] c4 [folded this(3)]
  show ?thesis
    by (simp add: huffmanDecode_def r Let_def decode_bits.simps decode_tail.simps cs nil_deref_def)
qed

end
