(* ===== verification/HpackProps.thy ===== *)
theory HpackProps
  imports Hpack HuffmanProps
begin

text \<open>
  HPACK works: whatever fields are written and however the table sizes are changed in between, the
  decoder emits exactly the fields written; how the bytes are cut into frames does not matter, and
  the decoder ends on every input. The dynamic tables need not be equal for this: it is enough that the
  encoder's is the newest part of the decoder's.
\<close>

unbundle bit_operations_syntax


section \<open>The dynamic table\<close>

definition fsize :: "HeaderField \<Rightarrow> nat" where
  "fsize f = length (hf_Name f) + length (hf_Value f) + 32"

definition tsize :: "HeaderField list \<Rightarrow> nat" where
  "tsize es = sum_list (map fsize es)"

lemma tsize_simps [simp]: "tsize [] = 0" "tsize (e # es) = fsize e + tsize es" "tsize (xs @ ys) = tsize xs + tsize ys"
  by (simp_all add: tsize_def)

lemma length_le_tsize: "length es \<le> tsize es"
  by (induction es) (simp_all add: fsize_def)

lemma unat_hf_size: "fsize f < 2 ^ 32 \<Longrightarrow> unat (hf_size f) = fsize f"
  by (simp only: hf_size_def fsize_def [symmetric] unat_of_nat) simp

text \<open>The newest entries that fit: what a table of size \<open>m\<close> keeps.\<close>

fun fit :: "nat \<Rightarrow> HeaderField list \<Rightarrow> HeaderField list" where
  "fit m [] = []"
| "fit m (e # es) = (if m < tsize (e # es) then fit m es else e # es)"

lemma fit_suffix: "suffix (fit m es) es" "tsize (fit m es) \<le> m"
  by (induction es) (auto simp: suffix_Cons)

lemma suffix_tsize: "suffix xs ys \<Longrightarrow> tsize xs \<le> tsize ys"
  by (auto simp: suffix_def)

lemma suffix_fit: "suffix xs es \<Longrightarrow> tsize xs \<le> m \<Longrightarrow> suffix xs (fit m es)"
proof (induction es)
  case (Cons e es)
  then show ?case using suffix_Cons [of xs e es] by (auto dest: suffix_tsize)
qed simp

lemma fit_same: "tsize es \<le> m \<Longrightarrow> fit m es = es"
  by (cases es) auto

text \<open>
  What the encoder and the decoder rely on in a table, and the lemma that keeps two tables in step.
\<close>

locale header_table =
  fixes ok :: "'t \<Rightarrow> bool" and contents :: "'t \<Rightarrow> HeaderField list" and limit :: "'t \<Rightarrow> nat"
    and add :: "HeaderField \<Rightarrow> 't \<Rightarrow> 't go" and set_max :: "32 word \<Rightarrow> 't \<Rightarrow> 't go"
  assumes contents_fit: "ok t \<Longrightarrow> tsize (contents t) \<le> limit t"
    and add_law: "ok t \<Longrightarrow> tsize (contents t) + fsize f < 2 ^ 32 \<Longrightarrow>
      \<exists>t'. add f t = Ret t' \<and> ok t' \<and> contents t' = fit (limit t) (contents t @ [f]) \<and> limit t' = limit t"
    and set_max_law: "ok t \<Longrightarrow>
      \<exists>t'. set_max v t = Ret t' \<and> ok t' \<and> contents t' = fit (unat v) (contents t) \<and> limit t' = unat v"
begin

definition in_step :: "'t \<Rightarrow> 't \<Rightarrow> bool" where
  "in_step e d \<longleftrightarrow> ok e \<and> ok d \<and> suffix (contents e) (contents d)"

lemma add_in_step:
  assumes "in_step e d" and "limit e \<le> limit d" and "limit d + fsize f < 2 ^ 32"
  shows "\<exists>e' d'. add f e = Ret e' \<and> add f d = Ret d' \<and> in_step e' d' \<and> limit e' = limit e \<and> limit d' = limit d"
proof -
  have o: "ok e" "ok d" "suffix (contents e) (contents d)" using assms(1) by (simp_all add: in_step_def)
  obtain e' where e': "add f e = Ret e'" "ok e'" "contents e' = fit (limit e) (contents e @ [f])" "limit e' = limit e"
    using add_law [OF o(1), of f] contents_fit [OF o(1)] assms(2,3) by auto
  obtain d' where d': "add f d = Ret d'" "ok d'" "contents d' = fit (limit d) (contents d @ [f])" "limit d' = limit d"
    using add_law [OF o(2), of f] contents_fit [OF o(2)] assms(3) by auto
  have "suffix (contents e @ [f]) (contents d @ [f])" using o(3) by (auto simp: suffix_def)
  then have "suffix (contents e') (contents d')"
    unfolding e'(3) d'(3) using fit_suffix [of "limit e"] assms(2) by (intro suffix_fit) (meson suffix_order.trans order.trans)+
  with e' d' show ?thesis by (simp add: in_step_def)
qed

lemma set_max_in_step:
  assumes "in_step e d" and "tsize (contents e) \<le> unat v"
  shows "\<exists>d'. set_max v d = Ret d' \<and> in_step e d' \<and> limit d' = unat v"
proof -
  obtain d' where "set_max v d = Ret d'" "ok d'" "contents d' = fit (unat v) (contents d)" "limit d' = unat v"
    using set_max_law [of d v] assms(1) by (auto simp: in_step_def)
  with assms show ?thesis by (auto simp: in_step_def intro: suffix_fit)
qed

lemma shrink_in_step:
  assumes "in_step e d"
  shows "\<exists>e'. set_max v e = Ret e' \<and> in_step e' d \<and> limit e' = unat v \<and> tsize (contents e') \<le> tsize (contents e)"
proof -
  obtain e' where "set_max v e = Ret e'" "ok e'" "contents e' = fit (unat v) (contents e)" "limit e' = unat v"
    using set_max_law [of e v] assms by (auto simp: in_step_def)
  with assms fit_suffix [of "unat v" "contents e"] show ?thesis
    by (auto simp: in_step_def intro: suffix_tsize suffix_order.trans)
qed

end

definition table_ok :: "dynamicTable \<Rightarrow> bool" where
  "table_ok dt \<longleftrightarrow> unat (dt_size dt) = tsize (ents dt) \<and> tsize (ents dt) \<le> unat (maxSize dt)"

definition table_limit :: "dynamicTable \<Rightarrow> nat" where
  "table_limit dt = unat (maxSize dt)"

lemma evict_loop_fit:
  "unat sz = tsize es \<Longrightarrow> \<exists>sz'. evict_loop es sz mx = Ret (fit (unat mx) es, sz') \<and> unat sz' = tsize (fit (unat mx) es)"
proof (induction es arbitrary: sz)
  case (Cons e es)
  have "unat sz < 2 ^ 32" using unsigned_less [of sz] by simp
  with Cons.prems have "unat (hf_size e) = fsize e" by (intro unat_hf_size) simp
  then have "unat (sz - hf_size e) = tsize es" using Cons.prems by (simp add: unat_sub word_le_nat_alt)
  from Cons.IH [OF this] Cons.prems show ?case by (auto simp: word_less_nat_alt)
qed (simp add: word_less_nat_alt)

lemma evict_fit:
  assumes "unat (dt_size dt) = tsize (ents dt)"
  shows "\<exists>dt'. evict dt = Ret dt' \<and> table_ok dt' \<and> ents dt' = fit (unat (maxSize dt)) (ents dt) \<and>
    maxSize dt' = maxSize dt \<and> allowedMaxSize dt' = allowedMaxSize dt"
  using evict_loop_fit [OF assms, of "maxSize dt"] fit_suffix(2) by (auto simp: evict_def table_ok_def)

lemma dt_add_fit:
  assumes "table_ok dt" and "tsize (ents dt) + fsize f < 2 ^ 32"
  shows "\<exists>dt'. dt_add f dt = Ret dt' \<and> table_ok dt' \<and> ents dt' = fit (unat (maxSize dt)) (ents dt @ [f]) \<and>
    maxSize dt' = maxSize dt \<and> allowedMaxSize dt' = allowedMaxSize dt"
proof -
  have "unat (hf_size f) = fsize f" using assms(2) by (intro unat_hf_size) simp
  then have "unat (dt_size dt + hf_size f) = tsize (ents dt @ [f])"
    using assms by (subst unat_word_ariths) (simp add: table_ok_def)
  from evict_fit [of "dt\<lparr>ents := ents dt @ [f], dt_size := dt_size dt + hf_size f\<rparr>"] this
  show ?thesis by (simp add: dt_add_def)
qed

lemma setMaxSize_fit:
  assumes "table_ok dt"
  shows "\<exists>dt'. setMaxSize v dt = Ret dt' \<and> table_ok dt' \<and> ents dt' = fit (unat v) (ents dt) \<and>
    maxSize dt' = v \<and> allowedMaxSize dt' = allowedMaxSize dt"
  using evict_fit [of "dt\<lparr>maxSize := v\<rparr>"] assms by (simp add: setMaxSize_def table_ok_def)

interpretation dt: header_table table_ok ents table_limit dt_add setMaxSize
proof
  fix t f
  assume "table_ok t" and "tsize (ents t) + fsize f < 2 ^ 32"
  from dt_add_fit [OF this]
  show "\<exists>t'. dt_add f t = Ret t' \<and> table_ok t' \<and> ents t' = fit (table_limit t) (ents t @ [f]) \<and> table_limit t' = table_limit t"
    by (auto simp: table_limit_def)
next
  fix t v
  assume "table_ok t"
  from setMaxSize_fit [OF this, of v]
  show "\<exists>t'. setMaxSize v t = Ret t' \<and> table_ok t' \<and> ents t' = fit (unat v) (ents t) \<and> table_limit t' = unat v"
    by (auto simp: table_limit_def)
qed (simp add: table_ok_def table_limit_def)
section \<open>Integers\<close>

declare varint_bytes.simps [simp del]

lemma byte_tests:
  fixes x :: byte
  shows "x AND 128 = 0 \<longleftrightarrow> \<not> bit x 7" "x AND 192 = 64 \<longleftrightarrow> \<not> bit x 7 \<and> bit x 6"
    "x AND 240 = 0 \<longleftrightarrow> \<not> bit x 7 \<and> \<not> bit x 6 \<and> \<not> bit x 5 \<and> \<not> bit x 4"
    "x AND 240 = 16 \<longleftrightarrow> \<not> bit x 7 \<and> \<not> bit x 6 \<and> \<not> bit x 5 \<and> bit x 4"
    "x AND 224 = 32 \<longleftrightarrow> \<not> bit x 7 \<and> \<not> bit x 6 \<and> bit x 5"
  by (auto simp add: cbits_byte [symmetric] cbits_numeral bit_and_iff)

lemma and_127: "(x :: byte) AND 127 = take_bit 7 x"
  using and_0x7f [of x] by simp

lemma varint_rest_bytes:
  "unat x < 2 ^ (63 - m) \<Longrightarrow> m < 63 \<Longrightarrow> varint_rest i m (varint_bytes x @ rest) = Inr (i + push_bit m x, rest)"
proof (induction x arbitrary: i m rule: varint_bytes.induct)
  case (1 x)
  show ?case
  proof (cases "128 \<le> x")
    case True
    define b :: byte where "b = ucast (0x80 OR (x AND 0x7f))"
    have v: "varint_bytes x = b # varint_bytes (drop_bit 7 x)" using True unfolding b_def by (subst varint_bytes.simps) simp
    have bit: "bit b n \<longleftrightarrow> n < 8 \<and> (n = 7 \<or> n < 7 \<and> bit x n)" for n
      unfolding b_def or.commute [of "0x80"] or_0x80 and_0x7f by (auto simp: bit_simps)
    have b: "b AND 128 \<noteq> 0" "ucast (b AND 127) = take_bit 7 x"
      unfolding byte_tests and_127 by (auto intro!: bit_eqI simp: bit bit_simps)
    have m: "7 < 63 - m"
    proof (rule ccontr)
      assume "\<not> 7 < 63 - m"
      then have "(2 :: nat) ^ (63 - m) \<le> 2 ^ 7" by (intro power_increasing) simp_all
      with True 1(2) show False by (simp add: word_le_nat_alt)
    qed
    have "unat (drop_bit 7 x) < 2 ^ (63 - (m + 7))"
    proof -
      have e: "63 - m = 63 - (m + 7) + 7" using m by simp
      have "(2 :: nat) ^ (63 - m) = 2 ^ (63 - (m + 7)) * 2 ^ 7" by (subst e) (rule power_add)
      with 1(2) show ?thesis unfolding unat_drop_7 by (simp add: less_mult_imp_div_less)
    qed
    from 1(1) [OF True this] m have ih: "varint_rest j (m + 7) (varint_bytes (drop_bit 7 x) @ rest) =
        Inr (j + push_bit (m + 7) (drop_bit 7 x), rest)" for j by simp
    have "push_bit m (take_bit 7 x) + push_bit (m + 7) (drop_bit 7 x) = push_bit m x"
      by (metis add.commute bits_ident push_bit_add push_bit_push_bit)
    with ih b m 1(3) show ?thesis unfolding v by (simp add: Let_def add.assoc)
  next
    case False
    then have small: "unat x < 2 ^ 7" by (simp add: word_le_nat_alt)
    have v: "varint_bytes x = [ucast x]" using False by (subst varint_bytes.simps) simp
    have "(ucast x :: byte) AND 128 = 0" unfolding byte_tests using high_bits_zero [OF small, of 7] by (simp add: bit_simps)
    moreover have "ucast ((ucast x :: byte) AND 127) = x"
      unfolding and_127 using high_bits_zero [OF small] by (intro bit_word_eqI) (auto simp: bit_simps not_le [symmetric])
    ultimately show ?thesis unfolding v by simp
  qed
qed

text \<open>An integer with a prefix of \<open>n\<close> bits, when the other bits of its first byte hold a type.\<close>

definition int_code :: "nat \<Rightarrow> 64 word \<Rightarrow> byte \<Rightarrow> bytes \<Rightarrow> bool" where
  "int_code n i h t \<longleftrightarrow> (\<forall>dst. appendVarInt dst n i = dst @ h # t) \<and> (\<forall>k. n \<le> k \<longrightarrow> \<not> bit h k) \<and>
     (\<forall>ty rest. (\<forall>k<n. \<not> bit ty k) \<longrightarrow> readVarInt n ((h OR ty) # t @ rest) = Ret (Inr (i, rest)))"

lemma appendVarInt_read:
  assumes "1 \<le> n" and "n \<le> 7" and "unat i < 2 ^ 63"
  shows "\<exists>h t. int_code n i h t"
proof -
  have mask: "2 ^ n - 1 = (mask n :: 64 word)" by (simp add: mask_eq_exp_minus_1)
  have um: "unat (mask n :: 64 word) < 2 ^ n" 
  proof -
    have "unat (mask n :: 64 word) = mask n" using assms(2) by (intro bit_eqI) (auto simp: bit_unat_iff bit_simps)
    then show ?thesis by (simp add: mask_eq_exp_minus_1)
  qed
  show ?thesis
  proof (cases "i < mask n")
    case True
    have "unat i < 2 ^ n" using True um by (simp add: word_less_nat_alt)
    note small = high_bits_zero [OF this]
    have rd: "ucast (ucast i OR ty :: byte) AND (mask n) = i" if "\<And>k. k < n \<Longrightarrow> \<not> bit ty k" for ty
      using that small assms(2) by (intro bit_eqI) (auto simp: bit_simps not_le [symmetric])
    have "int_code n i (ucast i) []"
      unfolding int_code_def
    proof (intro conjI allI impI)
      show "appendVarInt dst n i = dst @ ucast i # []" for dst using True by (simp add: appendVarInt_def mask Let_def)
      show "\<not> bit (ucast i :: byte) k" if "n \<le> k" for k using small that by (simp add: bit_simps)
      show "readVarInt n ((ucast i OR ty) # [] @ rest) = Ret (Inr (i, rest))" if "\<forall>k<n. \<not> bit ty k" for ty rest
        using rd [of ty] that True assms(1,2) by (simp add: readVarInt_def mask Let_def)
    qed
    then show ?thesis by blast
  next
    case False
    let ?h = "ucast (mask n :: 64 word) :: byte"
    have rd: "ucast (?h OR ty) AND mask n = (mask n :: 64 word)" for ty :: byte
      using assms(2) by (intro bit_eqI) (auto simp: bit_simps)
    have "unat (i - mask n) < 2 ^ 63" using assms(3) False by (simp add: unat_sub_if' not_less word_le_nat_alt)
    then have loop: "varint_rest (mask n) 0 (varint_bytes (i - mask n) @ rest) = Inr (i, rest)" for rest
      using varint_rest_bytes [of "i - mask n" 0 "mask n" rest] by simp
    have "int_code n i ?h (varint_bytes (i - mask n))"
      unfolding int_code_def
    proof (intro conjI allI impI)
      show "appendVarInt dst n i = dst @ ?h # varint_bytes (i - mask n)" for dst using False by (simp add: appendVarInt_def mask Let_def)
      show "\<not> bit ?h k" if "n \<le> k" for k using that by (simp add: bit_simps)
      show "readVarInt n ((?h OR ty) # varint_bytes (i - mask n) @ rest) = Ret (Inr (i, rest))" for ty rest
        using rd [of ty] loop [of rest] assms(1,2) by (simp add: readVarInt_def mask Let_def)
    qed
    then show ?thesis by blast
  qed
qed


section \<open>Strings\<close>

lemma type_bits:
  "bit (0x80 :: byte) k \<longleftrightarrow> k = 7" "bit (0x40 :: byte) k \<longleftrightarrow> k = 6" "bit (0x20 :: byte) k \<longleftrightarrow> k = 5" "bit (0x10 :: byte) k \<longleftrightarrow> k = 4"
proof -
  have "(0x80 :: byte) = 2 ^ 7" "(0x40 :: byte) = 2 ^ 6" "(0x20 :: byte) = 2 ^ 5" "(0x10 :: byte) = 2 ^ 4" by simp_all
  then show "bit (0x80 :: byte) k \<longleftrightarrow> k = 7" "bit (0x40 :: byte) k \<longleftrightarrow> k = 6" "bit (0x20 :: byte) k \<longleftrightarrow> k = 5" "bit (0x10 :: byte) k \<longleftrightarrow> k = 4"
    by (simp_all only: bit_exp_iff) auto
qed

lemma or_at_append [simp]: "or_at (length dst) t (dst @ h # hs) = dst @ (h OR t) # hs"
  by (simp add: or_at_def list_update_append)

lemma AppendHuffmanString_dst: "AppendHuffmanString dst s = dst @ AppendHuffmanString [] s"
proof -
  obtain v p where v: "AppendHuffmanString dst s = dst @ v" "p < 8"
      "bits v = concat (map code_of s) @ replicate p True" "length v = HuffmanEncodeLength s"
    by (rule AppendHuffmanString_append)
  obtain v' p' where v': "AppendHuffmanString [] s = [] @ v'" "p' < 8"
      "bits v' = concat (map code_of s) @ replicate p' True" "length v' = HuffmanEncodeLength s"
    by (rule AppendHuffmanString_append)
  have "length (bits v) = length (bits v')" using v(4) v'(4) by simp
  then have "p = p'" using v(3) v'(3) by simp
  then have "v = v'" using v(3,4) v'(3,4) bits_inject [of v v'] by simp
  with v(1) v'(1) show ?thesis by simp
qed

definition string_code :: "bytes \<Rightarrow> bytes \<Rightarrow> bool" where
  "string_code s w \<longleftrightarrow> (\<forall>dst. appendHpackString dst s = dst @ w) \<and>
     (\<forall>d rest. maxStrLen d = 0 \<longrightarrow> readString d (w @ rest) True = Some (Ret (Inr (s, rest))))"

lemma appendHpackString_read:
  assumes "length s < 2 ^ 62"
  shows "\<exists>w. string_code s w"
proof (cases "HuffmanEncodeLength s < length s")
  case True
  let ?L = "HuffmanEncodeLength s" and ?v = "AppendHuffmanString [] s"
  have L: "unat (word_of_nat ?L :: 64 word) = ?L" using True assms by (simp add: unat_of_nat)
  obtain h t where a: "int_code 7 (word_of_nat ?L) h t"
    using appendVarInt_read [of 7 "word_of_nat ?L"] L True assms by auto
  obtain v where v: "?v = [] @ v" "length v = ?L" "HuffmanDecodeToString v = Some (Ret (Inr s))"
    using huffman_decode_encode [of "[]" s] by blast
  have huff: "bit (h OR 0x80) 7" by (simp only: bit_or_iff type_bits) simp
  have "string_code s ((h OR 0x80) # t @ ?v)"
    unfolding string_code_def
  proof (intro conjI allI impI)
    show "appendHpackString dst s = dst @ (h OR 0x80) # t @ ?v" for dst
      using True a by (simp add: appendHpackString_def Let_def int_code_def AppendHuffmanString_dst [of "dst @ h # t"])
    show "readString d (((h OR 0x80) # t @ ?v) @ rest) True = Some (Ret (Inr (s, rest)))" if d: "maxStrLen d = 0" for d rest
    proof -
      have "\<forall>k<7. \<not> bit (0x80 :: byte) k" by (simp only: type_bits) simp
      with a have "readVarInt 7 ((h OR 0x80) # t @ ?v @ rest) = Ret (Inr (word_of_nat ?L, ?v @ rest))"
        unfolding int_code_def by blast
      then show ?thesis
        using d v huff L by (simp add: readString_def Let_def byte_tests string_bytes_def HuffmanDecodeToString_def)
    qed
  qed
  then show ?thesis by blast
next
  case False
  have L: "unat (word_of_nat (length s) :: 64 word) = length s" using assms by (simp add: unat_of_nat)
  obtain h t where a: "int_code 7 (word_of_nat (length s)) h t"
    using appendVarInt_read [of 7 "word_of_nat (length s)"] L assms by auto
  have "string_code s (h # t @ s)"
    unfolding string_code_def
  proof (intro conjI allI impI)
    show "appendHpackString dst s = dst @ h # t @ s" for dst
      using False a by (simp add: appendHpackString_def Let_def int_code_def)
    show "readString d ((h # t @ s) @ rest) True = Some (Ret (Inr (s, rest)))" if d: "maxStrLen d = 0" for d rest
    proof -
      have "\<forall>k<7. \<not> bit (0 :: byte) k" by simp
      with a have "readVarInt 7 ((h OR 0) # t @ s @ rest) = Ret (Inr (word_of_nat (length s), s @ rest))"
        unfolding int_code_def by blast
      moreover have "\<not> bit h 7" using a by (simp add: int_code_def)
      ultimately show ?thesis using d L by (simp add: readString_def Let_def byte_tests string_bytes_def)
    qed
  qed
  then show ?thesis by blast
qed


section \<open>Looking up fields\<close>

lemma byte_xor_0: "(x :: byte) XOR y = 0 \<longleftrightarrow> x = y"
  by (auto simp: bit_eq_iff bit_xor_iff)

lemma constantTimeStringCompare_eq: "constantTimeStringCompare a b \<longleftrightarrow> a = b"
proof -
  have f: "fold (\<lambda>(x, y) c. c OR (x XOR y)) ps c = 0 \<longleftrightarrow> c = 0 \<and> (\<forall>(x, y) \<in> set ps. x = y)" for ps :: "(byte \<times> byte) list" and c
    by (induction ps arbitrary: c) (auto simp: or_eq_0_iff byte_xor_0)
  show ?thesis
    unfolding constantTimeStringCompare_def f using list_all2_iff [of "(=)" a b] by (simp add: list.rel_eq)
qed

definition same_name :: "HeaderField \<Rightarrow> HeaderField \<Rightarrow> bool" where
  "same_name f g \<longleftrightarrow> hf_Name f = hf_Name g"

definition same_field :: "HeaderField \<Rightarrow> HeaderField \<Rightarrow> bool" where
  "same_field f g \<longleftrightarrow> hf_Name f = hf_Name g \<and> hf_Value f = hf_Value g"

lemma search_loop_found:
  "search_loop es k i f = (j, m) \<Longrightarrow> 0 < k \<Longrightarrow>
    (if m then \<not> hf_Sensitive f \<and> k \<le> j \<and> j - k < length es \<and> same_field (es ! (j - k)) f
     else j = i \<or> k \<le> j \<and> j - k < length es \<and> same_name (es ! (j - k)) f)"
proof (induction es k i f rule: search_loop.induct)
  case (2 ent es k i f)
  have step: "k + 1 \<le> j \<Longrightarrow> j - (k + 1) < length es \<Longrightarrow> k \<le> j \<and> j - k < length (ent # es) \<and> (ent # es) ! (j - k) = es ! (j - (k + 1))"
  proof -
    assume "k + 1 \<le> j" "j - (k + 1) < length es"
    moreover from this(1) have "j - k = Suc (j - (k + 1))" by simp
    ultimately show ?thesis by simp
  qed
  from 2 step show ?case
    by (auto simp: constantTimeStringCompare_eq same_name_def same_field_def Let_def split: if_splits)
qed (simp split: if_splits)

lemma length_staticTable: "length staticTable = 61"
  by (simp add: staticTable_def)

text \<open>The decoder finds what the encoder found, when the encoder's table is the end of its own.\<close>

lemma searchTable_at:
  assumes "searchTable f e = (idx, m)" and "suffix (ents (e_dynTab e)) (ents (d_dynTab d))" and "idx \<noteq> 0 \<or> m"
    and "length (ents (d_dynTab d)) < 2 ^ 32"
  shows "\<exists>hf. d_at (word_of_nat idx) d = Some hf \<and> (if m then \<not> hf_Sensitive f \<and> same_field hf f else same_name hf f) \<and> idx < 2 ^ 33"
proof -
  obtain X where D: "ents (d_dynTab d) = X @ ents (e_dynTab e)" using assms(2) by (auto simp: suffix_def)
  let ?E = "ents (e_dynTab e)"
  obtain i0 m0 where s0: "search_loop staticTable 1 0 f = (i0, m0)" by fastforce
  obtain j1 m1 where s1: "search_loop (rev ?E) 1 0 f = (j1, m1)" by fastforce
  note f0 = search_loop_found [OF s0] and f1 = search_loop_found [OF s1]
  have static: "d_at (word_of_nat i) d = Some (staticTable ! (i - 1))" if "1 \<le> i" "i \<le> 61" for i
    using that by (simp add: d_at_def maxTableIndex_def length_staticTable unat_of_nat word_less_nat_alt)
  have dynamic: "d_at (word_of_nat (j + 61)) d = Some (rev ?E ! (j - 1))" if "1 \<le> j" "j - 1 < length ?E" for j
    using that assms(4) by (simp add: d_at_def maxTableIndex_def length_staticTable unat_of_nat word_less_nat_alt D Let_def nth_append rev_nth del: of_nat_add)
  have bound: "length ?E < 2 ^ 32" using assms(4) D by simp
  show ?thesis
  proof (cases m0)
    case True
    with assms(1) s0 have "idx = i0" "m" by (simp_all add: searchTable_def)
    moreover have "1 \<le> i0" "i0 \<le> 61" using f0 True length_staticTable by auto
    ultimately show ?thesis using f0 True static [of i0] by simp
  next
    case m0: False
    with assms(1) s0 s1 have idx: "idx = (if m1 \<or> i0 = 0 \<and> j1 \<noteq> 0 then j1 + 61 else i0)" "m = m1"
      by (auto simp: searchTable_def search_def length_staticTable split: if_splits)
    show ?thesis
    proof (cases "m1 \<or> i0 = 0 \<and> j1 \<noteq> 0")
      case True
      then have "1 \<le> j1" "j1 - 1 < length ?E" "if m then \<not> hf_Sensitive f \<and> same_field (rev ?E ! (j1 - 1)) f else same_name (rev ?E ! (j1 - 1)) f"
        using f1 idx(2) by (auto split: if_splits)
      with dynamic [of j1] True idx(1) bound show ?thesis by (auto split: if_splits)
    next
      case False
      with assms(3) idx have "i0 \<noteq> 0" "\<not> m" "idx = i0" by auto
      moreover have "1 \<le> i0" "i0 \<le> 61" "same_name (staticTable ! (i0 - 1)) f"
        using f0 m0 length_staticTable \<open>i0 \<noteq> 0\<close> by auto
      ultimately show ?thesis using static [of i0] by simp
    qed
  qed
qed
section \<open>One field\<close>

text \<open>A decoder as a connection uses it: no limit on strings, fields are emitted.\<close>

definition unlimited :: "Decoder \<Rightarrow> bool" where
  "unlimited d \<longleftrightarrow> maxStrLen d = 0 \<and> emitEnabled d"

lemma write_loop_step:
  assumes "parseHeaderFieldRepr d buf = Some (Ret (d', buf', fs, None))" and "buf \<noteq> []"
  shows "write_loop d buf out = write_loop d' buf' (out @ fs)"
  using assms by (subst write_loop.simps) simp

lemma read_indexed:
  assumes "int_code 7 (word_of_nat idx) h t" and "d_at (word_of_nat idx) d = Some hf" and "same_field hf f"
    and "\<not> hf_Sensitive f" and "unlimited d"
  shows "appendIndexed dst idx = dst @ (h OR 0x80) # t"
    and "parseHeaderFieldRepr d ((h OR 0x80) # t @ rest) = Some (Ret (d, rest, [f], None))"
proof -
  show "appendIndexed dst idx = dst @ (h OR 0x80) # t" using assms(1) by (simp add: appendIndexed_def int_code_def)
  have "\<forall>k<7. \<not> bit (0x80 :: byte) k" by (simp only: type_bits) simp
  then have r: "readVarInt 7 ((h OR 0x80) # t @ rest) = Ret (Inr (word_of_nat idx, rest))"
    using assms(1) unfolding int_code_def by blast
  have "bit (h OR 0x80) 7" by (simp only: bit_or_iff type_bits) simp
  moreover have "\<lparr>hf_Name = hf_Name hf, hf_Value = hf_Value hf, hf_Sensitive = False\<rparr> = f"
    using assms(3,4) by (cases f) (auto simp: same_field_def)
  ultimately show "parseHeaderFieldRepr d ((h OR 0x80) # t @ rest) = Some (Ret (d, rest, [f], None))"
    using assms(2,5) r by (simp add: parseHeaderFieldRepr_def byte_tests parseFieldIndexed_def callEmit_def unlimited_def)
qed

text \<open>The three kinds of literals, by the type in the first byte.\<close>

definition literal_type :: "bool \<Rightarrow> bool \<Rightarrow> indexType" where
  "literal_type indexing sens = (if sens then indexedNever else if indexing then indexedTrue else indexedFalse)"

definition prefix_len :: "bool \<Rightarrow> nat" where
  "prefix_len indexing = (if indexing then 6 else 4)"

lemma encodeTypeByte_low: "\<forall>k<prefix_len indexing. \<not> bit (encodeTypeByte indexing sens) k" if "indexing \<longrightarrow> \<not> sens"
  using that by (auto simp only: encodeTypeByte_def prefix_len_def type_bits bit_0_eq split: if_splits)

lemma dispatch_literal:
  assumes "\<forall>k. prefix_len indexing \<le> k \<longrightarrow> \<not> bit h k" and "indexing \<longrightarrow> \<not> sens"
  shows "parseHeaderFieldRepr d ((h OR encodeTypeByte indexing sens) # buf) =
    parseFieldLiteral (prefix_len indexing) (literal_type indexing sens) d ((h OR encodeTypeByte indexing sens) # buf)"
proof -
  define b where "b = h OR encodeTypeByte indexing sens"
  have z: "bit (0 :: byte) k = False" for k by simp
  have "bit b k \<longleftrightarrow> (if sens then k = 4 else indexing \<and> k = 6)" if "prefix_len indexing \<le> k" for k
    using that assms by (simp only: b_def bit_or_iff encodeTypeByte_def type_bits z split: if_split) auto
  then have "\<not> bit b 7" "bit b 6 \<longleftrightarrow> indexing" "\<not> indexing \<Longrightarrow> \<not> bit b 5" "\<not> indexing \<Longrightarrow> bit b 4 \<longleftrightarrow> sens"
    using assms(2) by (auto simp: prefix_len_def split: if_splits)
  then show ?thesis
    unfolding b_def [symmetric] parseHeaderFieldRepr_def
    using assms(2) by (auto simp: byte_tests literal_type_def prefix_len_def)
qed
definition literal_bytes :: "bytes \<Rightarrow> HeaderField \<Rightarrow> nat \<Rightarrow> bool \<Rightarrow> bytes" where
  "literal_bytes dst f idx indexing = (if idx = 0 then appendNewName dst f indexing else appendIndexedName dst f idx indexing)"

lemma read_literal:
  assumes "indexing \<longrightarrow> \<not> hf_Sensitive f" and "unlimited d" and "length (hf_Name f) < 2 ^ 62" and "length (hf_Value f) < 2 ^ 62"
    and "idx \<noteq> 0 \<Longrightarrow> \<exists>hf. d_at (word_of_nat idx) d = Some hf \<and> same_name hf f \<and> idx < 2 ^ 33"
  shows "\<exists>w. w \<noteq> [] \<and> (\<forall>dst. literal_bytes dst f idx indexing = dst @ w) \<and>
    (\<forall>rest. parseHeaderFieldRepr d (w @ rest) =
      literal_done d (literal_type indexing (hf_Sensitive f)) (hf_Name f) (hf_Value f) rest)"
proof -
  let ?ty = "encodeTypeByte indexing (hf_Sensitive f)" and ?n = "prefix_len indexing"
  have n: "1 \<le> ?n" "?n \<le> 7" by (simp_all add: prefix_len_def)
  obtain wn where wn: "string_code (hf_Name f) wn" using appendHpackString_read [OF assms(3)] by blast
  obtain wv where wv: "string_code (hf_Value f) wv" using appendHpackString_read [OF assms(4)] by blast
  have val: "readString d (wv @ rest) True = Some (Ret (Inr (hf_Value f, rest)))" for rest
    using wv assms(2) by (simp add: string_code_def unlimited_def)
  have want: "emitEnabled d" using assms(2) by (simp add: unlimited_def)
  show ?thesis
  proof (cases "idx = 0")
    case True
    have "readVarInt ?n (?ty # wn @ wv @ rest) = Ret (Inr (0, wn @ wv @ rest))" for rest
    proof -
      have "ucast ?ty AND mask ?n = (0 :: 64 word)"
        using encodeTypeByte_low [OF assms(1)] by (intro bit_eqI) (auto simp: bit_simps)
      moreover have "(0 :: 64 word) < 2 ^ ?n - 1" by (simp add: prefix_len_def word_less_nat_alt)
      ultimately show ?thesis using n by (simp add: readVarInt_def mask_eq_exp_minus_1 Let_def)
    qed
    moreover have "parseHeaderFieldRepr d (?ty # buf) = parseFieldLiteral ?n (literal_type indexing (hf_Sensitive f)) d (?ty # buf)" for buf
      using dispatch_literal [of indexing 0 "hf_Sensitive f" d buf] assms(1) by simp
    moreover have "literal_bytes dst f idx indexing = dst @ ?ty # wn @ wv" for dst
      using True wn wv by (simp add: literal_bytes_def appendNewName_def string_code_def)
    moreover have "readString d (wn @ wv @ rest) True = Some (Ret (Inr (hf_Name f, wv @ rest)))" for rest
      using wn assms(2) by (simp add: string_code_def unlimited_def)
    ultimately show ?thesis
      using val want by (intro exI [of _ "?ty # wn @ wv"]) (simp add: parseFieldLiteral_def literal_name_def)
  next
    case False
    then obtain hf where hf: "d_at (word_of_nat idx) d = Some hf" "same_name hf f" "idx < 2 ^ 33" using assms(5) by blast
    have u: "unat (word_of_nat idx :: 64 word) = idx" using hf(3) by (simp add: unat_of_nat)
    obtain h t where a: "int_code ?n (word_of_nat idx) h t"
      using appendVarInt_read [OF n, of "word_of_nat idx"] u hf(3) by auto
    have "readVarInt ?n ((h OR ?ty) # t @ wv @ rest) = Ret (Inr (word_of_nat idx, wv @ rest))" for rest
      using a encodeTypeByte_low [OF assms(1)] unfolding int_code_def by blast
    moreover have "parseHeaderFieldRepr d ((h OR ?ty) # buf) = parseFieldLiteral ?n (literal_type indexing (hf_Sensitive f)) d ((h OR ?ty) # buf)" for buf
      using a assms(1) by (intro dispatch_literal) (simp_all add: int_code_def)
    moreover have "literal_bytes dst f idx indexing = dst @ (h OR ?ty) # t @ wv" for dst
      using False a wv by (simp add: literal_bytes_def appendIndexedName_def string_code_def int_code_def prefix_len_def Let_def)
    moreover have "0 < (word_of_nat idx :: 64 word)" using False u by (simp add: word_less_nat_alt)
    ultimately show ?thesis
      using val want hf by (intro exI [of _ "(h OR ?ty) # t @ wv"]) (simp add: parseFieldLiteral_def literal_name_def same_name_def)
  qed
qed

lemma read_size_update:
  assumes "unat v \<le> unat (allowedMaxSize (d_dynTab d))" and "setMaxSize v (d_dynTab d) = Ret dt"
  shows "\<exists>w. w \<noteq> [] \<and> (\<forall>dst. appendTableSize dst v = dst @ w) \<and>
    (\<forall>rest out. write_loop d (w @ rest) out = write_loop (d\<lparr>d_dynTab := dt\<rparr>) rest out)"
proof -
  have lt: "unat v < 2 ^ 32" using unsigned_less [of v] by simp
  then have u: "unat (ucast v :: 64 word) = unat v" by (simp add: unsigned_ucast_eq take_bit_nat_eq_self)
  with lt obtain h t where a: "int_code 5 (ucast v) h t" using appendVarInt_read [of 5 "ucast v"] by auto
  have "\<forall>k<5. \<not> bit (0x20 :: byte) k" by (simp only: type_bits) simp
  then have r: "readVarInt 5 ((h OR 0x20) # t @ rest) = Ret (Inr (ucast v, rest))" for rest
    using a unfolding int_code_def by blast
  have b: "bit (h OR 0x20) k \<longleftrightarrow> k = 5" if "5 \<le> k" for k
    using a that by (simp only: bit_or_iff type_bits int_code_def) auto
  have "ucast (ucast v :: 64 word) = v" by (rule bit_eqI) (auto simp: bit_simps)
  then have "parseHeaderFieldRepr d ((h OR 0x20) # t @ rest) = Some (Ret (d\<lparr>d_dynTab := dt\<rparr>, rest, [], None))" for rest
    using r assms u b by (simp add: parseHeaderFieldRepr_def byte_tests parseDynamicTableSizeUpdate_def)
  then have "write_loop d ((h OR 0x20) # t @ rest) out = write_loop (d\<lparr>d_dynTab := dt\<rparr>) rest out" for rest out
    using write_loop_step [of d "(h OR 0x20) # t @ rest"] by simp
  moreover have "appendTableSize dst v = dst @ (h OR 0x20) # t" for dst
    using a by (simp add: appendTableSize_def int_code_def)
  ultimately show ?thesis by (intro exI [of _ "(h OR 0x20) # t"]) simp
qed
section \<open>Encoder and decoder in step\<close>

definition synced :: "32 word \<Rightarrow> Encoder \<Rightarrow> Decoder \<Rightarrow> bool" where
  "synced A e d \<longleftrightarrow> unat A < 2 ^ 31 \<and> unlimited d \<and> saveBuf d = [] \<and> dt.in_step (e_dynTab e) (d_dynTab d) \<and>
     allowedMaxSize (d_dynTab d) = A \<and> maxSize (e_dynTab e) \<le> A \<and> maxSizeLimit e \<le> A \<and> maxSize (d_dynTab d) \<le> A \<and>
     (if tableSizeUpdate e then tsize (ents (e_dynTab e)) \<le> unat (minSize e)
      else minSize e = uint32Max \<and> maxSize (e_dynTab e) \<le> maxSize (d_dynTab d))"

lemma synced_unlimited: "synced A e d \<Longrightarrow> unlimited d"
  by (simp add: synced_def)

lemma resize_decoder:
  assumes "dt.in_step E (d_dynTab d)" and "tsize (ents E) \<le> unat v" and "v \<le> allowedMaxSize (d_dynTab d)"
  shows "\<exists>dt w. (\<forall>dst. appendTableSize dst v = dst @ w) \<and> dt.in_step E dt \<and> maxSize dt = v \<and>
    allowedMaxSize dt = allowedMaxSize (d_dynTab d) \<and>
    (\<forall>rest out. write_loop d (w @ rest) out = write_loop (d\<lparr>d_dynTab := dt\<rparr>) rest out)"
proof -
  obtain dt where dt: "setMaxSize v (d_dynTab d) = Ret dt" "dt.in_step E dt" using dt.set_max_in_step [OF assms(1,2)] by blast
  have "table_ok (d_dynTab d)" using assms(1) by (simp add: dt.in_step_def)
  from setMaxSize_fit [OF this, of v] dt(1) have "maxSize dt = v" "allowedMaxSize dt = allowedMaxSize (d_dynTab d)" by auto
  moreover obtain w where "\<forall>dst. appendTableSize dst v = dst @ w"
      "\<forall>rest out. write_loop d (w @ rest) out = write_loop (d\<lparr>d_dynTab := dt\<rparr>) rest out"
    using read_size_update [OF _ dt(1)] assms(3) by (auto simp: word_le_nat_alt)
  ultimately show ?thesis using dt(2) by blast
qed

lemma size_updates_read:
  assumes "synced A e d" and "size_updates e = (buf, e')"
  shows "\<exists>d'. synced A e' d' \<and> \<not> tableSizeUpdate e' \<and> (\<forall>rest out. write_loop d (buf @ rest) out = write_loop d' rest out)"
proof (cases "tableSizeUpdate e")
  case False
  with assms show ?thesis by (intro exI [of _ d]) (simp add: size_updates_def)
next
  case True
  let ?E = "e_dynTab e" and ?m = "maxSize (e_dynTab e)"
  have e': "e' = e\<lparr>tableSizeUpdate := False, minSize := uint32Max\<rparr>" using assms(2) True by (simp add: size_updates_def Let_def)
  have s: "dt.in_step ?E (d_dynTab d)" "tsize (ents ?E) \<le> unat (minSize e)" "allowedMaxSize (d_dynTab d) = A" "?m \<le> A"
    using assms(1) True by (simp_all add: synced_def)
  have fits: "tsize (ents ?E) \<le> unat ?m" using s(1) by (simp add: dt.in_step_def table_ok_def)
  obtain d1 b1 where d1: "dt.in_step ?E (d_dynTab d1)" "allowedMaxSize (d_dynTab d1) = A" "unlimited d1" "saveBuf d1 = []"
      "(if minSize e < ?m then appendTableSize [] (minSize e) else []) = b1"
      "\<And>rest out. write_loop d (b1 @ rest) out = write_loop d1 rest out"
  proof (cases "minSize e < ?m")
    case less: True
    then have "minSize e \<le> allowedMaxSize (d_dynTab d)" using s(3,4) by (simp add: word_le_nat_alt word_less_nat_alt)
    from resize_decoder [OF s(1,2) this] obtain dt w where "dt.in_step ?E dt" "allowedMaxSize dt = A"
        "\<forall>dst. appendTableSize dst (minSize e) = dst @ w" "\<forall>rest out. write_loop d (w @ rest) out = write_loop (d\<lparr>d_dynTab := dt\<rparr>) rest out"
      using s(3) by auto
    with less assms(1) show ?thesis by (intro that [of "d\<lparr>d_dynTab := dt\<rparr>" w]) (simp_all add: synced_def unlimited_def)
  next
    case False
    with s assms(1) show ?thesis by (intro that [of d "[]"]) (simp_all add: synced_def)
  qed
  from resize_decoder [OF d1(1) fits] s(4) d1(2) obtain dt w where w: "dt.in_step ?E dt" "maxSize dt = ?m" "allowedMaxSize dt = A"
      "\<forall>dst. appendTableSize dst ?m = dst @ w" "\<forall>rest out. write_loop d1 (w @ rest) out = write_loop (d1\<lparr>d_dynTab := dt\<rparr>) rest out"
    by auto
  have "buf = b1 @ w" using assms(2) True w(4) d1(5) by (simp add: size_updates_def Let_def)
  moreover have "synced A e' (d1\<lparr>d_dynTab := dt\<rparr>)" using assms(1) w(1-3) d1(3,4) by (simp add: synced_def e' unlimited_def)
  ultimately show ?thesis using d1(6) w(5) e' by (intro exI [of _ "d1\<lparr>d_dynTab := dt\<rparr>"]) simp
qed

lemma literal_done_emits:
  assumes "unlimited d" and "indexing \<longrightarrow> \<not> hf_Sensitive f" and "indexing \<Longrightarrow> dt_add f (d_dynTab d) = Ret dt"
  shows "literal_done d (literal_type indexing (hf_Sensitive f)) (hf_Name f) (hf_Value f) rest =
    Some (Ret (if indexing then d\<lparr>d_dynTab := dt\<rparr> else d, rest, [f], None))"
  using assms
  by (cases f) (auto simp: literal_done_def literal_type_def indexed_def sensitive_def callEmit_def unlimited_def Let_def)

lemma add_synced:
  assumes "synced A e d" and "\<not> tableSizeUpdate e" and "shouldIndex f e" and "fsize f < 2 ^ 32"
  obtains E D where "dt_add f (e_dynTab e) = Ret E" and "dt_add f (d_dynTab d) = Ret D"
    and "synced A (e\<lparr>e_dynTab := E\<rparr>) (d\<lparr>d_dynTab := D\<rparr>)"
proof -
  let ?E = "e_dynTab e" and ?D = "d_dynTab d"
  have s: "dt.in_step ?E ?D" "table_limit ?E \<le> table_limit ?D" "unat (maxSize ?E) < 2 ^ 31" "unat (maxSize ?D) < 2 ^ 31"
    using assms(1,2) by (auto simp: synced_def table_limit_def word_le_nat_alt)
  have "fsize f \<le> unat (maxSize ?E)" using assms(3) unat_hf_size [OF assms(4)] by (simp add: shouldIndex_def word_le_nat_alt)
  with s(3,4) have "table_limit ?D + fsize f < 2 ^ 32" by (simp add: table_limit_def)
  from dt.add_in_step [OF s(1,2) this] obtain E D where ED: "dt_add f ?E = Ret E" "dt_add f ?D = Ret D" "dt.in_step E D"
    by blast
  have ok: "table_ok ?E" "table_ok ?D" using s(1) by (simp_all add: dt.in_step_def)
  have "tsize (ents ?E) + fsize f < 2 ^ 32" "tsize (ents ?D) + fsize f < 2 ^ 32"
    using ok s(2) \<open>table_limit ?D + fsize f < 2 ^ 32\<close> by (auto simp: table_ok_def table_limit_def)
  from dt_add_fit [OF ok(1) this(1)] dt_add_fit [OF ok(2) this(2)] ED(1,2)
  have "maxSize E = maxSize ?E" "maxSize D = maxSize ?D" "allowedMaxSize D = allowedMaxSize ?D" by auto
  with assms(1,2) ED(3) have "synced A (e\<lparr>e_dynTab := E\<rparr>) (d\<lparr>d_dynTab := D\<rparr>)" by (simp add: synced_def unlimited_def)
  with ED(1,2) show ?thesis by (rule that)
qed

lemma WriteField_read:
  assumes "synced A e d" and "fsize f < 2 ^ 32"
  shows "\<exists>bs e' d'. WriteField f e = Ret (bs, e') \<and> synced A e' d' \<and>
    (\<forall>rest out. write_loop d (bs @ rest) out = write_loop d' rest (out @ [f]))"
proof -
  obtain buf e1 where u: "size_updates e = (buf, e1)" by fastforce
  from size_updates_read [OF assms(1) u] obtain d1 where d1: "synced A e1 d1" "\<not> tableSizeUpdate e1"
      "\<And>rest out. write_loop d (buf @ rest) out = write_loop d1 rest out" by blast
  obtain idx m where s: "searchTable f e1 = (idx, m)" by fastforce
  have suf: "suffix (ents (e_dynTab e1)) (ents (d_dynTab d1))" and tok: "table_ok (d_dynTab d1)" and p: "unlimited d1"
    using d1(1) by (auto simp: synced_def dt.in_step_def)
  have "length (ents (d_dynTab d1)) \<le> unat (maxSize (d_dynTab d1))"
    using tok length_le_tsize [of "ents (d_dynTab d1)"] by (auto simp: table_ok_def)
  moreover have "unat (maxSize (d_dynTab d1)) < 2 ^ 32" using unsigned_less [of "maxSize (d_dynTab d1)"] by simp
  ultimately have len: "length (ents (d_dynTab d1)) < 2 ^ 32" by linarith
  note found = searchTable_at [OF s suf _ len]
  show ?thesis
  proof (cases m)
    case True
    with found obtain hf where hf: "d_at (word_of_nat idx) d1 = Some hf" "\<not> hf_Sensitive f" "same_field hf f" "idx < 2 ^ 33" by auto
    then have "unat (word_of_nat idx :: 64 word) < 2 ^ 63" by (simp add: unat_of_nat)
    then obtain h t where a: "int_code 7 (word_of_nat idx) h t" using appendVarInt_read [of 7 "word_of_nat idx"] by auto
    note r = read_indexed [OF a hf(1,3,2) p]
    have "write_loop d1 ((h OR 0x80) # t @ rest) out = write_loop d1 rest (out @ [f])" for rest out
      using write_loop_step [OF r(2)] by simp
    then show ?thesis
      using d1 r(1) [of buf] True u s by (intro exI [of _ "buf @ (h OR 0x80) # t"] exI [of _ e1] exI [of _ d1]) (simp add: WriteField_def)
  next
    case False
    let ?ix = "shouldIndex f e1"
    have ns: "?ix \<longrightarrow> \<not> hf_Sensitive f" by (simp add: shouldIndex_def)
    have ln: "length (hf_Name f) < 2 ^ 62" "length (hf_Value f) < 2 ^ 62" using assms(2) by (simp_all add: fsize_def)
    obtain w where w: "w \<noteq> []" "\<forall>dst. literal_bytes dst f idx ?ix = dst @ w"
        "\<forall>rest. parseHeaderFieldRepr d1 (w @ rest) = literal_done d1 (literal_type ?ix (hf_Sensitive f)) (hf_Name f) (hf_Value f) rest"
      using read_literal [OF ns p ln, of idx] found False by auto
    obtain E D where ED: "?ix \<Longrightarrow> dt_add f (e_dynTab e1) = Ret E" "?ix \<Longrightarrow> dt_add f (d_dynTab d1) = Ret D"
        "?ix \<Longrightarrow> synced A (e1\<lparr>e_dynTab := E\<rparr>) (d1\<lparr>d_dynTab := D\<rparr>)"
      using add_synced [OF d1(1,2) _ assms(2)] by metis
    define e2 where "e2 = (if ?ix then e1\<lparr>e_dynTab := E\<rparr> else e1)"
    define d2 where "d2 = (if ?ix then d1\<lparr>d_dynTab := D\<rparr> else d1)"
    have "parseHeaderFieldRepr d1 (w @ rest) = Some (Ret (d2, rest, [f], None))" for rest
      using w(3) literal_done_emits [OF p ns, of D rest] ED(2) by (simp add: d2_def)
    then have "write_loop d1 (w @ rest) out = write_loop d2 rest (out @ [f])" for rest out
      using write_loop_step [of d1 "w @ rest"] w(1) by simp
    moreover have "WriteField f e = Ret (buf @ w, e2)"
      using u s False w(2) [unfolded literal_bytes_def] ED(1) by (auto simp: WriteField_def e2_def Let_def)
    moreover have "synced A e2 d2" using ED(3) d1(1) by (simp add: e2_def d2_def)
    ultimately show ?thesis using d1(3) by (intro exI [of _ "buf @ w"] exI [of _ e2] exI [of _ d2]) simp
  qed
qed
section \<open>Sequences of operations\<close>

datatype enc_op = OWrite HeaderField | OSetMax "32 word" | OSetLimit "32 word"

fun encode_ops :: "enc_op list \<Rightarrow> Encoder \<Rightarrow> (bytes \<times> Encoder) go" where
  "encode_ops [] e = Ret ([], e)"
| "encode_ops (OWrite f # ops) e =
    go_bind (WriteField f e) (\<lambda>(bs, e'). go_bind (encode_ops ops e') (\<lambda>(cs, e''). Ret (bs @ cs, e'')))"
| "encode_ops (OSetMax v # ops) e = go_bind (e_SetMaxDynamicTableSize v e) (encode_ops ops)"
| "encode_ops (OSetLimit v # ops) e = go_bind (SetMaxDynamicTableSizeLimit v e) (encode_ops ops)"

fun written :: "enc_op list \<Rightarrow> HeaderField list" where
  "written [] = []"
| "written (OWrite f # ops) = f # written ops"
| "written (_ # ops) = written ops"

fun op_ok :: "32 word \<Rightarrow> enc_op \<Rightarrow> bool" where
  "op_ok A (OWrite f) = (length (hf_Name f) + length (hf_Value f) + 32 < 2 ^ 32)"
| "op_ok A (OSetMax v) = True"
| "op_ok A (OSetLimit v) = (v \<le> A)"

lemma resize_encoder:
  assumes "synced A e d" and "v \<le> A" and "unat v \<le> unat m \<or> m = minSize e" and "maxSizeLimit e \<le> A" and "l \<le> A"
  obtains E where "setMaxSize v (e_dynTab e) = Ret E"
    and "synced A (e\<lparr>minSize := m, maxSizeLimit := l, tableSizeUpdate := True, e_dynTab := E\<rparr>) d"
proof -
  have s: "dt.in_step (e_dynTab e) (d_dynTab d)" using assms(1) by (simp add: synced_def)
  from dt.shrink_in_step [OF s, of v] obtain E where E: "setMaxSize v (e_dynTab e) = Ret E" "dt.in_step E (d_dynTab d)"
      "tsize (ents E) \<le> tsize (ents (e_dynTab e))" by blast
  have "table_ok (e_dynTab e)" using s by (simp add: dt.in_step_def)
  from setMaxSize_fit [OF this, of v] E(1) have mx: "maxSize E = v" by auto
  have fits: "tsize (ents E) \<le> unat v" using E(2) mx by (simp add: dt.in_step_def table_ok_def)
  have "tsize (ents E) \<le> unat m"
  proof (cases "tableSizeUpdate e")
    case True
    then have "tsize (ents (e_dynTab e)) \<le> unat (minSize e)" using assms(1) by (simp add: synced_def)
    with fits E(3) assms(3) show ?thesis by auto
  next
    case False
    then have "minSize e = uint32Max" using assms(1) by (simp add: synced_def)
    moreover have "unat v \<le> unat uint32Max" by (simp add: uint32Max_def flip: word_le_nat_alt)
    ultimately show ?thesis using fits assms(3) by auto
  qed
  with assms E(2) mx have "synced A (e\<lparr>minSize := m, maxSizeLimit := l, tableSizeUpdate := True, e_dynTab := E\<rparr>) d"
    by (simp add: synced_def)
  with E(1) show ?thesis by (rule that)
qed

lemma SetMax_synced:
  assumes "synced A e d"
  shows "\<exists>e'. e_SetMaxDynamicTableSize v e = Ret e' \<and> synced A e' d"
proof -
  let ?v = "if maxSizeLimit e < v then maxSizeLimit e else v"
  have l: "maxSizeLimit e \<le> A" using assms by (simp add: synced_def)
  have v: "?v \<le> A" using l by (auto simp: word_le_nat_alt word_less_nat_alt)
  let ?m = "if ?v < minSize e then ?v else minSize e"
  have "unat ?v \<le> unat ?m \<or> ?m = minSize e" by simp
  from resize_encoder [OF assms v this l l] obtain E where
    "setMaxSize ?v (e_dynTab e) = Ret E" "synced A (e\<lparr>minSize := ?m, maxSizeLimit := maxSizeLimit e, tableSizeUpdate := True, e_dynTab := E\<rparr>) d" .
  then show ?thesis by (auto simp: e_SetMaxDynamicTableSize_def Let_def)
qed

lemma SetLimit_synced:
  assumes "synced A e d" and "v \<le> A"
  shows "\<exists>e'. SetMaxDynamicTableSizeLimit v e = Ret e' \<and> synced A e' d"
proof (cases "v < maxSize (e_dynTab e)")
  case True
  have l: "maxSizeLimit e \<le> A" using assms by (simp add: synced_def)
  from resize_encoder [OF assms(1,2) _ l assms(2), of "minSize e"] obtain E where
    "setMaxSize v (e_dynTab e) = Ret E" "synced A (e\<lparr>minSize := minSize e, maxSizeLimit := v, tableSizeUpdate := True, e_dynTab := E\<rparr>) d"
    by blast
  with True show ?thesis by (auto simp: SetMaxDynamicTableSizeLimit_def Let_def)
next
  case False
  with assms show ?thesis by (auto simp: SetMaxDynamicTableSizeLimit_def Let_def synced_def)
qed

lemma encode_ops_read:
  "synced A e d \<Longrightarrow> list_all (op_ok A) ops \<Longrightarrow>
    \<exists>bs e' d'. encode_ops ops e = Ret (bs, e') \<and> synced A e' d' \<and>
      (\<forall>rest out. write_loop d (bs @ rest) out = write_loop d' rest (out @ written ops))"
proof (induction ops e arbitrary: d rule: encode_ops.induct)
  case (2 f ops e)
  then have "fsize f < 2 ^ 32" by (simp add: fsize_def)
  from WriteField_read [OF 2(2) this] obtain bs e1 d1 where w: "WriteField f e = Ret (bs, e1)" "synced A e1 d1"
      "\<forall>rest out. write_loop d (bs @ rest) out = write_loop d1 rest (out @ [f])" by blast
  from 2(1) [OF w(2)] 2(3) obtain cs e2 d2 where "encode_ops ops e1 = Ret (cs, e2)" "synced A e2 d2"
      "\<forall>rest out. write_loop d1 (cs @ rest) out = write_loop d2 rest (out @ written ops)" by auto
  with w show ?case by (intro exI [of _ "bs @ cs"] exI [of _ e2] exI [of _ d2]) simp
next
  case (3 v ops e)
  from SetMax_synced [OF 3(2)] obtain e1 where "e_SetMaxDynamicTableSize v e = Ret e1" "synced A e1 d" by blast
  with 3(1) [of e1 d] 3(3) show ?case by simp
next
  case (4 v ops e)
  from SetLimit_synced [OF 4(2)] 4(3) obtain e1 where "SetMaxDynamicTableSizeLimit v e = Ret e1" "synced A e1 d" by auto
  with 4(1) [of e1 d] 4(3) show ?case by simp
qed auto

lemma start_synced:
  assumes "4096 \<le> A" and "unat A < 2 ^ 31"
  shows "\<exists>e d. NewEncoder = Ret e \<and> NewDecoder A = Ret d \<and> synced A e d"
proof -
  have t: "table_ok emptyTable" "table_ok (emptyTable\<lparr>allowedMaxSize := A\<rparr>)" by (simp_all add: table_ok_def emptyTable_def)
  obtain E where E: "setMaxSize initialHeaderTableSize emptyTable = Ret E" "table_ok E" "ents E = []" "maxSize E = 4096"
    using setMaxSize_fit [OF t(1), of initialHeaderTableSize] by (auto simp: emptyTable_def initialHeaderTableSize_def)
  obtain D where D: "setMaxSize A (emptyTable\<lparr>allowedMaxSize := A\<rparr>) = Ret D" "table_ok D" "ents D = []" "maxSize D = A" "allowedMaxSize D = A"
    using setMaxSize_fit [OF t(2), of A] by (auto simp: emptyTable_def)
  show ?thesis
    using E D assms by (simp add: NewEncoder_def NewDecoder_def synced_def unlimited_def dt.in_step_def initialHeaderTableSize_def)
qed

text \<open>
  C8. Header compression loses nothing: for every sequence of written fields and changes of the table
  size, the decoder gives back exactly the fields written, in order and with their sensitivity, as
  long as the encoder's size limit stays within what the decoder allows.
\<close>

theorem hpack_fields_read_back:
  assumes "4096 \<le> A" and "unat A < 2 ^ 31" and "list_all (op_ok A) ops"
  shows "\<exists>bs e d0 d. go_bind NewEncoder (encode_ops ops) = Ret (bs, e) \<and> NewDecoder A = Ret d0 \<and>
    DecodeFull d0 bs = Some (Ret (d, Inr (written ops)))"
proof -
  obtain e0 d0 where s: "NewEncoder = Ret e0" "NewDecoder A = Ret d0" "synced A e0 d0"
    using start_synced [OF assms(1,2)] by blast
  from encode_ops_read [OF s(3) assms(3)] obtain bs e d where e: "encode_ops ops e0 = Ret (bs, e)" "synced A e d"
      "\<And>rest out. write_loop d0 (bs @ rest) out = write_loop d rest (out @ written ops)" by blast
  have w: "write_loop d0 bs [] = Some (Ret (d, written ops, None))" using e(3) [of "[]" "[]"] by (simp add: write_loop.simps [of d])
  have "saveBuf d0 = []" "saveBuf d = []" using s(3) e(2) by (simp_all add: synced_def)
  moreover have "bs = [] \<Longrightarrow> written ops = [] \<and> d0 = d" using w by (simp add: write_loop.simps [of d0])
  ultimately have "DecodeFull d0 bs = Some (Ret (d, Inr (written ops)))"
    using w by (cases "bs = []") (simp_all add: DecodeFull_def d_Write_def d_Close_def)
  with s e(1) show ?thesis by auto
qed
section \<open>Any bytes, in any pieces\<close>

text \<open>Every parser gives the same result on a longer input, unless it asks for more.\<close>

fun more :: "bytes \<Rightarrow> hpack_error + 'a \<times> bytes \<Rightarrow> hpack_error + 'a \<times> bytes" where
  "more q (Inl e) = Inl e"
| "more q (Inr (x, p)) = Inr (x, p @ q)"

lemma varint_rest_more: "varint_rest i m p \<noteq> Inl errNeedMore \<Longrightarrow> varint_rest i m (p @ q) = more q (varint_rest i m p)"
  by (induction i m p rule: varint_rest.induct) (auto simp: Let_def)

lemma readVarInt_more:
  "readVarInt n p \<noteq> Ret (Inl errNeedMore) \<Longrightarrow> readVarInt n (p @ q) = map_go (more q) (readVarInt n p)"
  by (cases p) (auto simp: readVarInt_def Let_def varint_rest_more split: if_splits)

lemma varint_rest_shorter: "varint_rest i m p = Inr (x, r) \<Longrightarrow> length r < length p"
  by (induction i m p rule: varint_rest.induct) (fastforce simp: Let_def split: if_splits)+

lemma readVarInt_shorter: "readVarInt n p = Ret (Inr (x, r)) \<Longrightarrow> length r < length p"
  by (cases p) (auto simp: readVarInt_def Let_def dest: varint_rest_shorter split: if_splits)

lemma string_bytes_more: "string_bytes d h w s (r @ q) = map_option (map_go (more q)) (string_bytes d h w s r)"
  by (cases "huffmanDecode (maxStrLen d) s")
    (auto simp: string_bytes_def split: go.splits sum.splits, case_tac a, auto split: sum.splits)

lemma string_bytes_rest: "string_bytes d h w s r = Some (Ret (Inr (x, r'))) \<Longrightarrow> r' = r"
  by (cases "huffmanDecode (maxStrLen d) s")
    (auto simp: string_bytes_def split: if_splits, case_tac a, auto split: sum.splits)

lemma string_bytes_total: "\<exists>x. string_bytes d h w s r = Some x \<and> x \<noteq> Ret (Inl errNeedMore)"
proof -
  obtain x where "huffmanDecode (maxStrLen d) s = Some x" using huffmanDecode_returns by blast
  then show ?thesis by (cases x) (auto simp: string_bytes_def split: sum.splits)
qed

lemma readString_more:
  assumes "readString d p w \<noteq> Some (Ret (Inl errNeedMore))"
  shows "readString d (p @ q) w = map_option (map_go (more q)) (readString d p w)"
proof (cases p)
  case (Cons b p')
  note r = readVarInt_more [of 7 p q]
  consider e where "readVarInt 7 p = Ret (Inl e)" | m where "readVarInt 7 p = Panic m"
    | x r where "readVarInt 7 p = Ret (Inr (x, r))"
    by (metis go.exhaust sum.exhaust surj_pair)
  then show ?thesis
  proof cases
    case 1
    with assms Cons r show ?thesis by (auto simp: readString_def Let_def split: if_splits)
  next
    case 2
    with Cons r show ?thesis by (simp add: readString_def Let_def)
  next
    case (3 x rs)
    with r have "readVarInt 7 (p @ q) = Ret (Inr (x, rs @ q))" by simp
    with 3 assms Cons show ?thesis by (auto simp: readString_def Let_def string_bytes_more split: if_splits)
  qed
qed (use assms in \<open>simp add: readString_def\<close>)

lemma readString_total: "\<exists>x. readString d p w = Some x"
proof (cases "readVarInt 7 p")
  case (Ret r)
  have "\<exists>x. string_bytes d h w s rest = Some x" for h s rest using string_bytes_total by blast
  with Ret show ?thesis by (cases r) (auto simp: readString_def Let_def split: prod.splits)
qed (simp add: readString_def Let_def)

lemma readString_shorter: "readString d p w = Some (Ret (Inr (x, r))) \<Longrightarrow> length r \<le> length p"
proof (cases "readVarInt 7 p")
  case (Ret v)
  assume a: "readString d p w = Some (Ret (Inr (x, r)))"
  show ?thesis
  proof (cases v)
    case (Inr t)
    obtain l p' where t: "t = (l, p')" by (cases t)
    with Ret Inr readVarInt_shorter [of 7 p l p'] have "length p' < length p" by simp
    with a Ret Inr t show ?thesis by (auto simp: readString_def Let_def dest!: string_bytes_rest split: if_splits)
  qed (use a Ret in \<open>auto simp: readString_def Let_def split: if_splits\<close>)
qed (auto simp: readString_def Let_def split: if_splits)
fun moreP :: "bytes \<Rightarrow> parsed \<Rightarrow> parsed" where
  "moreP q (d, b, fs, e) = (d, b @ q, fs, e)"

lemma callEmit_more: "callEmit d (b @ q) hf = moreP q (callEmit d b hf)"
  by (simp add: callEmit_def)

lemma literal_name_more:
  "literal_name d i p w \<noteq> Some (Ret (Inl errNeedMore)) \<Longrightarrow>
    literal_name d i (p @ q) w = map_option (map_go (more q)) (literal_name d i p w)"
  by (auto simp: literal_name_def readString_more split: option.splits)

lemma literal_name_facts:
  "\<exists>x. literal_name d i p w = Some x"
  "literal_name d i p w = Some (Ret (Inr (x, r))) \<Longrightarrow> length r \<le> length p"
  using readString_total by (auto simp: literal_name_def dest: readString_shorter split: option.splits if_splits)

lemma literal_done_more: "literal_done d it n v (b @ q) = map_option (map_go (moreP q)) (literal_done d it n v b)"
  by (cases "dt_add \<lparr>hf_Name = n, hf_Value = v, hf_Sensitive = False\<rparr> (d_dynTab d)")
    (simp_all add: literal_done_def Let_def callEmit_more)

lemma run_cases:
  obtains "r = None" | m where "r = Some (Panic m)" | e where "r = Some (Ret (Inl e))" | x p where "r = Some (Ret (Inr (x, p)))"
  by (metis go.exhaust old.prod.exhaust option.exhaust sum.exhaust)

definition asks :: "parsed go option \<Rightarrow> bool" where
  "asks r \<longleftrightarrow> (\<exists>d b fs. r = Some (Ret (d, b, fs, Some errNeedMore)))"

lemma asks_simps [simp]: "asks (Some (Ret (d, b, fs, e))) \<longleftrightarrow> e = Some errNeedMore" "\<not> asks (Some (Panic m))" "\<not> asks None"
  by (auto simp: asks_def)

lemma parseFieldIndexed_more:
  "\<not> asks (parseFieldIndexed d p) \<Longrightarrow> parseFieldIndexed d (p @ q) = map_option (map_go (moreP q)) (parseFieldIndexed d p)"
  using readVarInt_more [of 7 p q]
  by (cases rule: run_cases [of "Some (readVarInt 7 p)"])
    (auto simp: parseFieldIndexed_def callEmit_more split: option.splits)

lemma parseDynamicTableSizeUpdate_more:
  assumes "\<not> asks (parseDynamicTableSizeUpdate d p)"
  shows "parseDynamicTableSizeUpdate d (p @ q) = map_option (map_go (moreP q)) (parseDynamicTableSizeUpdate d p)"
proof (cases rule: run_cases [of "Some (readVarInt 5 p)"])
  case (4 x r)
  with readVarInt_more [of 5 p q] show ?thesis
    by (cases "setMaxSize (ucast x) (d_dynTab d)") (simp_all add: parseDynamicTableSizeUpdate_def)
qed (use assms readVarInt_more [of 5 p q] in \<open>auto simp: parseDynamicTableSizeUpdate_def\<close>)

lemma parseFieldLiteral_more:
  assumes "\<not> asks (parseFieldLiteral n it d p)"
  shows "parseFieldLiteral n it d (p @ q) = map_option (map_go (moreP q)) (parseFieldLiteral n it d p)"
proof (cases rule: run_cases [of "Some (readVarInt n p)"])
  case (4 i p1)
  then have v: "readVarInt n p = Ret (Inr (i, p1))" "readVarInt n (p @ q) = Ret (Inr (i, p1 @ q))"
    using readVarInt_more [of n p q] by simp_all
  let ?w = "emitEnabled d \<or> indexed it"
  show ?thesis
  proof (cases rule: run_cases [of "literal_name d i p1 ?w"])
    case (4 nm p2)
    then have l: "literal_name d i (p1 @ q) ?w = Some (Ret (Inr (nm, p2 @ q)))" using literal_name_more [of d i p1 ?w q] by simp
    show ?thesis
      using v 4 l assms readString_more [of d p2 ?w q]
      by (cases rule: run_cases [of "readString d p2 ?w"])
        (auto simp: parseFieldLiteral_def Let_def literal_done_more)
  qed (use v assms literal_name_more [of d i p1 ?w q] in \<open>auto simp: parseFieldLiteral_def Let_def\<close>)
qed (use assms readVarInt_more [of n p q] in \<open>auto simp: parseFieldLiteral_def\<close>)

lemma parse_more:
  assumes "p \<noteq> []" and "\<not> asks (parseHeaderFieldRepr d p)"
  shows "parseHeaderFieldRepr d (p @ q) = map_option (map_go (moreP q)) (parseHeaderFieldRepr d p)"
proof -
  have "(p @ q) ! 0 = p ! 0" using assms(1) by (simp add: nth_append)
  with assms(2) show ?thesis
    by (auto simp: parseHeaderFieldRepr_def Let_def parseFieldIndexed_more parseFieldLiteral_more parseDynamicTableSizeUpdate_more)
qed
text \<open>A representation that was parsed took at least a byte, and asking for more changes nothing.\<close>

definition sound :: "Decoder \<Rightarrow> bytes \<Rightarrow> parsed go option \<Rightarrow> bool" where
  "sound d p r \<longleftrightarrow> r \<noteq> None \<and> (\<forall>d' p' fs e. r = Some (Ret (d', p', fs, e)) \<longrightarrow>
     maxStrLen d' = maxStrLen d \<and> saveBuf d' = saveBuf d \<and> (e = None \<longrightarrow> length p' < length p) \<and>
     (e = Some errNeedMore \<longrightarrow> d' = d \<and> p' = p \<and> fs = []))"

lemma sound_simps [simp]:
  "sound d p (Some (Panic m))" "sound d p (Some (Ret (d, p, [], Some e)))"
  by (simp_all add: sound_def)

lemma callEmit_sound:
  "length p' < length p \<Longrightarrow> maxStrLen d' = maxStrLen d \<Longrightarrow> saveBuf d' = saveBuf d \<Longrightarrow> sound d p (Some (Ret (callEmit d' p' hf)))"
  by (simp add: sound_def callEmit_def)

lemma parseFieldIndexed_sound: "sound d p (parseFieldIndexed d p)"
  using readVarInt_shorter [of 7 p]
  by (cases rule: run_cases [of "Some (readVarInt 7 p)"])
    (auto simp: parseFieldIndexed_def intro: callEmit_sound split: option.splits)

lemma parseDynamicTableSizeUpdate_sound: "sound d p (parseDynamicTableSizeUpdate d p)"
proof (cases rule: run_cases [of "Some (readVarInt 5 p)"])
  case (4 x r)
  with readVarInt_shorter [of 5 p x r] show ?thesis
    by (cases "setMaxSize (ucast x) (d_dynTab d)") (simp_all add: parseDynamicTableSizeUpdate_def sound_def)
qed (auto simp: parseDynamicTableSizeUpdate_def)

lemma literal_done_sound:
  "length p' < length p \<Longrightarrow> sound d p (literal_done d it n v p')"
  by (cases "dt_add \<lparr>hf_Name = n, hf_Value = v, hf_Sensitive = False\<rparr> (d_dynTab d)")
    (auto simp: literal_done_def Let_def intro: callEmit_sound)

lemma parseFieldLiteral_sound: "sound d p (parseFieldLiteral n it d p)"
proof (cases rule: run_cases [of "Some (readVarInt n p)"])
  case (4 i p1)
  then have v: "readVarInt n p = Ret (Inr (i, p1))" "length p1 < length p" using readVarInt_shorter [of n p i p1] by simp_all
  let ?w = "emitEnabled d \<or> indexed it"
  show ?thesis
  proof (cases rule: run_cases [of "literal_name d i p1 ?w"])
    case (4 nm p2)
    show ?thesis
    proof (cases rule: run_cases [of "readString d p2 ?w"])
      case v2: (4 vl p3)
      have "length p3 < length p"
        using v(2) literal_name_facts(2) [OF 4] readString_shorter [OF v2] by simp
      with v 4 v2 show ?thesis by (simp add: parseFieldLiteral_def Let_def literal_done_sound)
    qed (use v 4 readString_total [of d p2 ?w] in \<open>auto simp: parseFieldLiteral_def Let_def\<close>)
  qed (use v literal_name_facts(1) [of d i p1 ?w] in \<open>auto simp: parseFieldLiteral_def Let_def\<close>)
qed (auto simp: parseFieldLiteral_def)

lemma parse_sound: "sound d p (parseHeaderFieldRepr d p)"
  by (auto simp: parseHeaderFieldRepr_def Let_def parseFieldIndexed_sound parseFieldLiteral_sound parseDynamicTableSizeUpdate_sound)

lemma parse_cases:
  obtains m where "parseHeaderFieldRepr d p = Some (Panic m)"
  | d' p' fs where "parseHeaderFieldRepr d p = Some (Ret (d', p', fs, None))" "length p' < length p"
      "maxStrLen d' = maxStrLen d" "saveBuf d' = saveBuf d"
  | "parseHeaderFieldRepr d p = Some (Ret (d, p, [], Some errNeedMore))"
  | d' p' fs e where "parseHeaderFieldRepr d p = Some (Ret (d', p', fs, Some e))" "e \<noteq> errNeedMore"
  using parse_sound [of d p] unfolding sound_def by (metis go.exhaust option.exhaust surj_pair)

text \<open>
  C24. The decoder ends on every input, valid or not: each turn of the loop of \<open>Write\<close> consumes at
  least one byte.
\<close>

theorem d_Write_returns: "\<exists>r. d_Write d p = Some r"
proof -
  have "\<exists>r. write_loop d' buf out = Some r" for d' buf out
  proof (induction "length buf" arbitrary: d' buf out rule: less_induct)
    case less
    show ?case
    proof (cases rule: parse_cases [of d' buf])
      case (2 d'' p' fs)
      with less [of p' d'' "out @ fs"] show ?thesis by (subst write_loop.simps) simp
    qed (subst write_loop.simps; simp)+
  qed
  then show ?thesis by (simp add: d_Write_def)
qed

lemma write_loop_out:
  "write_loop d buf (out @ out') = map_option (map_go (\<lambda>(d, fs, e). (d, out @ fs, e))) (write_loop d buf out')"
proof (induction "length buf" arbitrary: d buf out' rule: less_induct)
  case less
  show ?case
  proof (cases rule: parse_cases [of d buf])
    case (2 d' p' fs)
    with less [of p' d' "out' @ fs"] show ?thesis
      by (subst (1 2) write_loop.simps) simp
  qed (subst (1 2) write_loop.simps; simp)+
qed

lemma write_loop_append:
  assumes "maxStrLen d = 0" and "saveBuf d = []"
  shows "write_loop d (buf @ q) out = run_bind (write_loop d buf out) (\<lambda>(d', fs, e). case e of
    Some err \<Rightarrow> Some (Ret (d', fs, Some err)) | None \<Rightarrow> write_loop (d'\<lparr>saveBuf := []\<rparr>) (saveBuf d' @ q) fs)"
  using assms
proof (induction "length buf" arbitrary: d buf out rule: less_induct)
  case less
  have e: "d\<lparr>saveBuf := []\<rparr> = d" using less.prems(2) by (cases d) simp
  show ?case
  proof (cases "buf = []")
    case True
    show ?thesis using less.prems True by (simp add: e write_loop.simps [of d "[]"])
  next
    case ne: False
    show ?thesis
    proof (cases rule: parse_cases [of d buf])
      case (1 m)
      with parse_more [OF ne, of d q] ne show ?thesis by (subst (1 2) write_loop.simps) simp
    next
      case (2 d' p' fs)
      with parse_more [OF ne, of d q] ne less.hyps [of p' d' "out @ fs"] less.prems show ?thesis
        by (subst (1 2) write_loop.simps) simp
    next
      case 3
      with ne less.prems show ?thesis by (subst (2) write_loop.simps) (simp add: e)
    next
      case (4 d' p' fs e)
      with parse_more [OF ne, of d q] ne show ?thesis by (subst (1 2) write_loop.simps) simp
    qed
  qed
qed
fun write_chunks :: "Decoder \<Rightarrow> bytes list \<Rightarrow> (Decoder \<times> HeaderField list \<times> hpack_error option) go option" where
  "write_chunks d [] = Some (Ret (d, [], None))"
| "write_chunks d (c # cs) = run_bind (d_Write d c) (\<lambda>(d', fs, e). case e of
     Some err \<Rightarrow> Some (Ret (d', fs, Some err))
   | None \<Rightarrow> run_bind (write_chunks d' cs) (\<lambda>(d'', gs, e'). Some (Ret (d'', fs @ gs, e'))))"

lemma run_bind_map: "run_bind r (\<lambda>(d, gs, e). Some (Ret (d, fs @ gs, e))) = map_option (map_go (\<lambda>(d, gs, e). (d, fs @ gs, e))) r"
  by (cases rule: run_bind.cases [of "(r, undefined)"]) (auto split: prod.splits)

lemma run_bind_id: "run_bind r (\<lambda>(d, gs, e). Some (Ret (d, gs, e))) = r"
  by (cases rule: run_bind.cases [of "(r, undefined)"]) (auto split: prod.splits)

lemma d_Write_Nil [simp]: "d_Write d [] = Some (Ret (d, [], None))"
  by (simp add: d_Write_def)

lemma d_Write_eq: "p \<noteq> [] \<Longrightarrow> d_Write d p = write_loop (d\<lparr>saveBuf := []\<rparr>) (saveBuf d @ p) []"
  by (cases d) (simp add: d_Write_def)

lemma write_loop_maxStrLen:
  "write_loop d buf out = Some (Ret (d', fs, e)) \<Longrightarrow> maxStrLen d' = maxStrLen d"
proof (induction "length buf" arbitrary: d buf out rule: less_induct)
  case less
  show ?case
  proof (cases rule: parse_cases [of d buf])
    case (2 d1 p' gs)
    with less.hyps [of p' d1 "out @ gs"] less.prems show ?thesis by (subst (asm) write_loop.simps) (simp split: if_splits)
  next
    case (4 d1 p' gs err)
    with parse_sound [of d buf] have "maxStrLen d1 = maxStrLen d" by (simp add: sound_def)
    with 4 less.prems show ?thesis by (subst (asm) write_loop.simps) (auto split: if_splits)
  qed (use less.prems in \<open>subst (asm) write_loop.simps; auto split: if_splits\<close>)+
qed

lemma d_Write_append:
  assumes "maxStrLen d = 0"
  shows "d_Write d (p @ q) = run_bind (d_Write d p) (\<lambda>(d', fs, e). case e of
     Some err \<Rightarrow> Some (Ret (d', fs, Some err))
   | None \<Rightarrow> run_bind (d_Write d' q) (\<lambda>(d'', gs, e'). Some (Ret (d'', fs @ gs, e'))))"
proof -
  consider "p = []" | "q = []" "p \<noteq> []" | "p \<noteq> []" "q \<noteq> []" by blast
  then show ?thesis
  proof cases
    case 1
    then show ?thesis by (simp add: run_bind_id)
  next
    case 2
    have f: "(\<lambda>(d', fs, e). case e of Some err \<Rightarrow> Some (Ret (d', fs, Some err))
        | None \<Rightarrow> run_bind (d_Write d' []) (\<lambda>(d'', gs, e'). Some (Ret (d'', fs @ gs, e')))) = (\<lambda>(d', fs, e). Some (Ret (d', fs, e)))"
      by (auto simp: fun_eq_iff split: option.splits)
    show ?thesis unfolding 2(1) f run_bind_id by simp
  next
    case 3
    have w: "write_loop (d'\<lparr>saveBuf := []\<rparr>) (saveBuf d' @ q) fs = run_bind (d_Write d' q) (\<lambda>(d'', gs, e'). Some (Ret (d'', fs @ gs, e')))" for d' fs
      using write_loop_out [of "d'\<lparr>saveBuf := []\<rparr>" "saveBuf d' @ q" fs "[]"] 3(2) by (simp add: d_Write_eq run_bind_map)
    have "d_Write d (p @ q) = write_loop (d\<lparr>saveBuf := []\<rparr>) ((saveBuf d @ p) @ q) []" using 3 by (simp add: d_Write_eq)
    also note write_loop_append
    also have "write_loop (d\<lparr>saveBuf := []\<rparr>) (saveBuf d @ p) [] = d_Write d p" using 3(1) by (simp add: d_Write_eq)
    finally show ?thesis using assms unfolding w by simp
  qed
qed

text \<open>
  C22. How a header block is cut into frames does not matter: writing its pieces one after another gives
  the same fields, the same decoder and the same error as writing it whole, whatever the bytes are, for
  a decoder without a limit on strings.
\<close>

theorem header_block_pieces:
  assumes "maxStrLen d = 0"
  shows "write_chunks d cs = d_Write d (concat cs)"
  using assms
proof (induction cs arbitrary: d)
  case (Cons c cs)
  have "maxStrLen d' = 0" if "d_Write d c = Some (Ret (d', fs, e))" for d' fs e
    using that Cons.prems write_loop_maxStrLen by (cases "c = []") (fastforce simp: d_Write_eq)+
  with Cons.IH show ?case
    by (cases rule: run_bind.cases [of "(d_Write d c, undefined)"])
      (auto simp: d_Write_append [OF Cons.prems] split: option.splits)
qed simp

text \<open>
  C23. A header block of seven bytes, a literal with a Huffman-coded name, makes the decoder of a new
  connection dereference a missing node of its tree: any peer can stop the process.
\<close>

theorem header_block_panics:
  "\<exists>d. NewDecoder A = Ret d \<and> d_Write d [0x00, 0x85, 0x00, 0x3f, 0xff, 0xff, 0xff] = Some nil_deref"
proof -
  have "table_ok (emptyTable\<lparr>allowedMaxSize := A\<rparr>)" by (simp add: table_ok_def emptyTable_def)
  then obtain dt where "setMaxSize A (emptyTable\<lparr>allowedMaxSize := A\<rparr>) = Ret dt" using setMaxSize_fit by blast
  then have "NewDecoder A = Ret \<lparr>d_dynTab = dt, emitEnabled = True, maxStrLen = 0, saveBuf = []\<rparr>"
    by (simp add: NewDecoder_def)
  then show ?thesis
    using huffmanDecode_panics
    by (simp add: d_Write_def write_loop.simps parseHeaderFieldRepr_def parseFieldLiteral_def literal_name_def readString_def
        readVarInt_def string_bytes_def nil_deref_def Let_def)
qed


section \<open>A short exchange\<close>

definition demo_headers :: "enc_op list" where
  "demo_headers = [OWrite (pair '':method'' ''POST''), OWrite (pair ''te'' ''trailers''), OSetMax 40, OSetLimit 4096,
     OWrite (pair ''te'' ''trailers''), OWrite ((pair ''authorization'' ''x'')\<lparr>hf_Sensitive := True\<rparr>)]"

theorem hpack_fields_read_back_witness:
  "\<exists>bs e d0 d. go_bind NewEncoder (encode_ops demo_headers) = Ret (bs, e) \<and> NewDecoder 4096 = Ret d0 \<and>
    DecodeFull d0 bs = Some (Ret (d, Inr [pair '':method'' ''POST'', pair ''te'' ''trailers'', pair ''te'' ''trailers'',
      (pair ''authorization'' ''x'')\<lparr>hf_Sensitive := True\<rparr>]))"
  using hpack_fields_read_back [of 4096 demo_headers] by (simp add: demo_headers_def pair_def)

definition demo_decoder :: Decoder where
  "demo_decoder = \<lparr>d_dynTab = emptyTable, emitEnabled = True, maxStrLen = 0, saveBuf = []\<rparr>"

theorem header_block_pieces_witness:
  "write_chunks demo_decoder [[0x82], [], [0x84, 0x1f], [0x0f]] = d_Write demo_decoder [0x82, 0x84, 0x1f, 0x0f] \<and>
   maxStrLen demo_decoder = 0"
  using header_block_pieces [of demo_decoder "[[0x82], [], [0x84, 0x1f], [0x0f]]"] by (simp add: demo_decoder_def)

end
