(* ===== verification/Frames.thy ===== *)
theory Frames
  imports ByteIO
begin

text \<open>
  HTTP/2 frames (\<open>golang.org/x/net/http2/frame.go\<close> and \<open>errors.go\<close>): the framer that both ends of every
  connection between a scheduler, its clients and its executors use. A framer holds the bytes its reader
  will still deliver and the bytes its writer has taken; the writer itself is a field, the function that
  says how many of the bytes it is given it takes and with which error.
\<close>

unbundle bit_operations_syntax


section \<open>Types of frames, flags and errors\<close>

type_synonym FrameType = byte
type_synonym FrameFlags = byte
type_synonym ErrCode = "32 word"
type_synonym streamid = "32 word"

abbreviation (input) FrameData :: FrameType where "FrameData \<equiv> 0x0"
abbreviation (input) FrameHeaders :: FrameType where "FrameHeaders \<equiv> 0x1"
abbreviation (input) FramePriority :: FrameType where "FramePriority \<equiv> 0x2"
abbreviation (input) FrameRSTStream :: FrameType where "FrameRSTStream \<equiv> 0x3"
abbreviation (input) FrameSettings :: FrameType where "FrameSettings \<equiv> 0x4"
abbreviation (input) FramePushPromise :: FrameType where "FramePushPromise \<equiv> 0x5"
abbreviation (input) FramePing :: FrameType where "FramePing \<equiv> 0x6"
abbreviation (input) FrameGoAway :: FrameType where "FrameGoAway \<equiv> 0x7"
abbreviation (input) FrameWindowUpdate :: FrameType where "FrameWindowUpdate \<equiv> 0x8"
abbreviation (input) FrameContinuation :: FrameType where "FrameContinuation \<equiv> 0x9"

definition Has :: "FrameFlags \<Rightarrow> FrameFlags \<Rightarrow> bool" where
  "Has f v = (f AND v = v)"

abbreviation (input) FlagEndStream :: FrameFlags where "FlagEndStream \<equiv> 0x1"
abbreviation (input) FlagAck :: FrameFlags where "FlagAck \<equiv> 0x1"
abbreviation (input) FlagEndHeaders :: FrameFlags where "FlagEndHeaders \<equiv> 0x4"
abbreviation (input) FlagPadded :: FrameFlags where "FlagPadded \<equiv> 0x8"
abbreviation (input) FlagPriority :: FrameFlags where "FlagPriority \<equiv> 0x20"

abbreviation (input) ErrCodeNo :: ErrCode where "ErrCodeNo \<equiv> 0x0"
abbreviation (input) ErrCodeProtocol :: ErrCode where "ErrCodeProtocol \<equiv> 0x1"
abbreviation (input) ErrCodeInternal :: ErrCode where "ErrCodeInternal \<equiv> 0x2"
abbreviation (input) ErrCodeFlowControl :: ErrCode where "ErrCodeFlowControl \<equiv> 0x3"
abbreviation (input) ErrCodeSettingsTimeout :: ErrCode where "ErrCodeSettingsTimeout \<equiv> 0x4"
abbreviation (input) ErrCodeStreamClosed :: ErrCode where "ErrCodeStreamClosed \<equiv> 0x5"
abbreviation (input) ErrCodeFrameSize :: ErrCode where "ErrCodeFrameSize \<equiv> 0x6"
abbreviation (input) ErrCodeRefusedStream :: ErrCode where "ErrCodeRefusedStream \<equiv> 0x7"
abbreviation (input) ErrCodeCancel :: ErrCode where "ErrCodeCancel \<equiv> 0x8"
abbreviation (input) ErrCodeCompression :: ErrCode where "ErrCodeCompression \<equiv> 0x9"
abbreviation (input) ErrCodeConnect :: ErrCode where "ErrCodeConnect \<equiv> 0xa"
abbreviation (input) ErrCodeEnhanceYourCalm :: ErrCode where "ErrCodeEnhanceYourCalm \<equiv> 0xb"
abbreviation (input) ErrCodeInadequateSecurity :: ErrCode where "ErrCodeInadequateSecurity \<equiv> 0xc"
abbreviation (input) ErrCodeHTTP11Required :: ErrCode where "ErrCodeHTTP11Required \<equiv> 0xd"

datatype h2_error = H2ConnectionError ErrCode | H2StreamError streamid ErrCode | ErrFrameTooLarge | H2Error gerror

definition errStreamID :: h2_error where
  "errStreamID = H2Error (Errorf ''invalid streamid'')"

definition ErrShortWrite :: gerror where
  "ErrShortWrite = Errorf ''short write''"

record FrameHeader =
  fh_valid :: bool
  fh_Type :: FrameType
  fh_Flags :: FrameFlags
  fh_Length :: "32 word"
  fh_StreamID :: streamid

record PriorityParam =
  StreamDep :: streamid
  Exclusive :: bool
  Weight :: byte

definition zeroPriority :: PriorityParam where
  "zeroPriority = \<lparr>StreamDep = 0, Exclusive = False, Weight = 0\<rparr>"

definition IsZero :: "PriorityParam \<Rightarrow> bool" where
  "IsZero p = (p = zeroPriority)"

datatype Frame =
    DataFrame FrameHeader bytes
  | HeadersFrame FrameHeader PriorityParam bytes
  | PriorityFrame FrameHeader PriorityParam
  | RSTStreamFrame FrameHeader ErrCode
  | SettingsFrame FrameHeader bytes
  | PushPromiseFrame FrameHeader streamid bytes
  | PingFrame FrameHeader bytes
  | GoAwayFrame FrameHeader streamid ErrCode bytes
  | WindowUpdateFrame FrameHeader "32 word"
  | ContinuationFrame FrameHeader bytes
  | UnknownFrame FrameHeader bytes

fun Header :: "Frame \<Rightarrow> FrameHeader" where
  "Header (DataFrame h _) = h"
| "Header (HeadersFrame h _ _) = h"
| "Header (PriorityFrame h _) = h"
| "Header (RSTStreamFrame h _) = h"
| "Header (SettingsFrame h _) = h"
| "Header (PushPromiseFrame h _ _) = h"
| "Header (PingFrame h _) = h"
| "Header (GoAwayFrame h _ _ _) = h"
| "Header (WindowUpdateFrame h _) = h"
| "Header (ContinuationFrame h _) = h"
| "Header (UnknownFrame h _) = h"

definition invalid_header :: "FrameHeader \<Rightarrow> FrameHeader" where
  "invalid_header h = h\<lparr>fh_valid := False\<rparr>"

fun invalidate :: "Frame \<Rightarrow> Frame" where
  "invalidate (DataFrame h d) = DataFrame (invalid_header h) d"
| "invalidate (HeadersFrame h p d) = HeadersFrame (invalid_header h) p d"
| "invalidate (PriorityFrame h p) = PriorityFrame (invalid_header h) p"
| "invalidate (RSTStreamFrame h c) = RSTStreamFrame (invalid_header h) c"
| "invalidate (SettingsFrame h p) = SettingsFrame (invalid_header h) p"
| "invalidate (PushPromiseFrame h i d) = PushPromiseFrame (invalid_header h) i d"
| "invalidate (PingFrame h d) = PingFrame (invalid_header h) d"
| "invalidate (GoAwayFrame h i c d) = GoAwayFrame (invalid_header h) i c d"
| "invalidate (WindowUpdateFrame h n) = WindowUpdateFrame (invalid_header h) n"
| "invalidate (ContinuationFrame h d) = ContinuationFrame (invalid_header h) d"
| "invalidate (UnknownFrame h d) = UnknownFrame (invalid_header h) d"

text \<open>The accessors of a frame's buffers (\<open>Data\<close>, \<open>HeaderBlockFragment\<close>, \<open>DebugData\<close>, \<open>Payload\<close>).\<close>

definition checkValid :: "FrameHeader \<Rightarrow> unit go" where
  "checkValid h = (if fh_valid h then Ret () else Panic ''Frame accessor called on non-owned Frame'')"

fun buffer :: "Frame \<Rightarrow> bytes" where
  "buffer (DataFrame _ d) = d"
| "buffer (HeadersFrame _ _ d) = d"
| "buffer (SettingsFrame _ p) = p"
| "buffer (PushPromiseFrame _ _ d) = d"
| "buffer (GoAwayFrame _ _ _ d) = d"
| "buffer (ContinuationFrame _ d) = d"
| "buffer (UnknownFrame _ d) = d"
| "buffer _ = []"

definition access :: "Frame \<Rightarrow> bytes go" where
  "access f = go_bind (checkValid (Header f)) (\<lambda>_. Ret (buffer f))"

definition StreamEnded :: "Frame \<Rightarrow> bool" where
  "StreamEnded f = Has (fh_Flags (Header f)) FlagEndStream"

definition HeadersEnded :: "Frame \<Rightarrow> bool" where
  "HeadersEnded f = Has (fh_Flags (Header f)) FlagEndHeaders"

definition HasPriority :: "Frame \<Rightarrow> bool" where
  "HasPriority f = Has (fh_Flags (Header f)) FlagPriority"

definition IsAck :: "Frame \<Rightarrow> bool" where
  "IsAck f = Has (fh_Flags (Header f)) FlagAck"


section \<open>Settings\<close>

type_synonym SettingID = "16 word"

abbreviation (input) SettingHeaderTableSize :: SettingID where "SettingHeaderTableSize \<equiv> 0x1"
abbreviation (input) SettingEnablePush :: SettingID where "SettingEnablePush \<equiv> 0x2"
abbreviation (input) SettingMaxConcurrentStreams :: SettingID where "SettingMaxConcurrentStreams \<equiv> 0x3"
abbreviation (input) SettingInitialWindowSize :: SettingID where "SettingInitialWindowSize \<equiv> 0x4"
abbreviation (input) SettingMaxFrameSize :: SettingID where "SettingMaxFrameSize \<equiv> 0x5"
abbreviation (input) SettingMaxHeaderListSize :: SettingID where "SettingMaxHeaderListSize \<equiv> 0x6"

record Setting =
  set_ID :: SettingID
  set_Val :: "32 word"

definition Setting_Valid :: "Setting \<Rightarrow> h2_error option" where
  "Setting_Valid s =
    (if set_ID s = SettingEnablePush then
       (if set_Val s \<noteq> 1 \<and> set_Val s \<noteq> 0 then Some (H2ConnectionError ErrCodeProtocol) else None)
     else if set_ID s = SettingInitialWindowSize then
       (if 0x7fffffff < set_Val s then Some (H2ConnectionError ErrCodeFlowControl) else None)
     else if set_ID s = SettingMaxFrameSize then
       (if set_Val s < 16384 \<or> 0xffffff < set_Val s then Some (H2ConnectionError ErrCodeProtocol) else None)
     else None)"

text \<open>
  The payload of a settings frame in steps of six bytes. A payload that ends inside a setting makes the
  slice expressions panic; \<open>parseSettingsFrame\<close> lets none through.
\<close>

definition slice_bounds :: "'a go" where
  "slice_bounds = Panic ''runtime error: slice bounds out of range''"

fun settings_value :: "SettingID \<Rightarrow> bytes \<Rightarrow> 32 word option go" where
  "settings_value s [] = Ret None"
| "settings_value s (i0 # i1 # v0 # v1 # v2 # v3 # buf) =
    (if join_be16 i0 i1 = s then Ret (Some (join_be32 v0 v1 v2 v3)) else settings_value s buf)"
| "settings_value s _ = slice_bounds"

definition Settings_Value :: "SettingID \<Rightarrow> Frame \<Rightarrow> 32 word option go" where
  "Settings_Value s f = go_bind (access f) (settings_value s)"

text \<open>The settings \<open>ForeachSetting\<close> gives to its function, in order; the function may stop it with an error.\<close>

fun foreach_loop :: "(Setting \<Rightarrow> 's \<Rightarrow> h2_error option \<times> 's) \<Rightarrow> bytes \<Rightarrow> 's \<Rightarrow> (h2_error option \<times> 's) go" where
  "foreach_loop fn [] st = Ret (None, st)"
| "foreach_loop fn (i0 # i1 # v0 # v1 # v2 # v3 # buf) st =
    (case fn \<lparr>set_ID = join_be16 i0 i1, set_Val = join_be32 v0 v1 v2 v3\<rparr> st of
       (Some err, st') \<Rightarrow> Ret (Some err, st')
     | (None, st') \<Rightarrow> foreach_loop fn buf st')"
| "foreach_loop fn _ st = slice_bounds"

definition ForeachSetting :: "(Setting \<Rightarrow> 's \<Rightarrow> h2_error option \<times> 's) \<Rightarrow> Frame \<Rightarrow> 's \<Rightarrow> (h2_error option \<times> 's) go" where
  "ForeachSetting fn f st = go_bind (access f) (\<lambda>p. foreach_loop fn p st)"


section \<open>Reading frames\<close>

definition readByte :: "bytes \<Rightarrow> h2_error + bytes \<times> byte" where
  "readByte p = (case p of [] \<Rightarrow> Inl (H2Error ErrUnexpectedEOF) | b # rest \<Rightarrow> Inr (rest, b))"

definition readUint32 :: "bytes \<Rightarrow> h2_error + bytes \<times> 32 word" where
  "readUint32 p = (case p of
     b0 # b1 # b2 # b3 # rest \<Rightarrow> Inr (rest, join_be32 b0 b1 b2 b3)
   | _ \<Rightarrow> Inl (H2Error ErrUnexpectedEOF))"

definition clear_high :: "32 word \<Rightarrow> 32 word" where
  "clear_high v = v AND 0x7fffffff"

definition frameHeaderLen :: nat where "frameHeaderLen = 9"

definition header_of_bytes :: "bytes \<Rightarrow> FrameHeader" where
  "header_of_bytes buf = \<lparr>
     fh_valid = True,
     fh_Type = buf ! 3,
     fh_Flags = buf ! 4,
     fh_Length = push_bit 16 (ucast (buf ! 0)) OR push_bit 8 (ucast (buf ! 1)) OR ucast (buf ! 2),
     fh_StreamID = clear_high (join_be32 (buf ! 5) (buf ! 6) (buf ! 7) (buf ! 8))\<rparr>"

definition readFrameHeader :: "bytes \<Rightarrow> FrameHeader decoded" where
  "readFrameHeader r = bind_dec (ReadFull frameHeaderLen r) (\<lambda>buf r'. Inr (header_of_bytes buf, r'))"

text \<open>The optional length of the padding in front of a payload.\<close>

definition pad_length :: "FrameHeader \<Rightarrow> bytes \<Rightarrow> h2_error + bytes \<times> byte" where
  "pad_length fh p = (if Has (fh_Flags fh) FlagPadded then readByte p else Inr (p, 0))"

definition parseDataFrame :: "FrameHeader \<Rightarrow> bytes \<Rightarrow> h2_error + Frame" where
  "parseDataFrame fh payload =
    (if fh_StreamID fh = 0 then Inl (H2ConnectionError ErrCodeProtocol)
     else case pad_length fh payload of
       Inl e \<Rightarrow> Inl e
     | Inr (p, padSize) \<Rightarrow>
         if length p < unat padSize then Inl (H2ConnectionError ErrCodeProtocol)
         else Inr (DataFrame fh (take (length p - unat padSize) p)))"

definition read_priority :: "bytes \<Rightarrow> h2_error + bytes \<times> PriorityParam" where
  "read_priority p = (case readUint32 p of
     Inl e \<Rightarrow> Inl e
   | Inr (p1, v) \<Rightarrow> (case readByte p1 of
       Inl e \<Rightarrow> Inl e
     | Inr (p2, w) \<Rightarrow> Inr (p2, \<lparr>StreamDep = clear_high v, Exclusive = (v \<noteq> clear_high v), Weight = w\<rparr>)))"

definition parseHeadersFrame :: "FrameHeader \<Rightarrow> bytes \<Rightarrow> h2_error + Frame" where
  "parseHeadersFrame fh p =
    (if fh_StreamID fh = 0 then Inl (H2ConnectionError ErrCodeProtocol)
     else case pad_length fh p of
       Inl e \<Rightarrow> Inl e
     | Inr (p1, padLength) \<Rightarrow>
         (case (if Has (fh_Flags fh) FlagPriority then read_priority p1 else Inr (p1, zeroPriority)) of
            Inl e \<Rightarrow> Inl e
          | Inr (p2, prio) \<Rightarrow>
              if length p2 \<le> unat padLength then Inl (H2StreamError (fh_StreamID fh) ErrCodeProtocol)
              else Inr (HeadersFrame fh prio (take (length p2 - unat padLength) p2))))"

definition parsePriorityFrame :: "FrameHeader \<Rightarrow> bytes \<Rightarrow> h2_error + Frame" where
  "parsePriorityFrame fh payload =
    (if fh_StreamID fh = 0 then Inl (H2ConnectionError ErrCodeProtocol)
     else if length payload \<noteq> 5 then Inl (H2ConnectionError ErrCodeFrameSize)
     else let v = join_be32 (payload ! 0) (payload ! 1) (payload ! 2) (payload ! 3); streamID = clear_high v in
       Inr (PriorityFrame fh \<lparr>StreamDep = streamID, Exclusive = (streamID \<noteq> v), Weight = payload ! 4\<rparr>))"

definition parseRSTStreamFrame :: "FrameHeader \<Rightarrow> bytes \<Rightarrow> h2_error + Frame" where
  "parseRSTStreamFrame fh p =
    (if length p \<noteq> 4 then Inl (H2ConnectionError ErrCodeFrameSize)
     else if fh_StreamID fh = 0 then Inl (H2ConnectionError ErrCodeProtocol)
     else Inr (RSTStreamFrame fh (join_be32 (p ! 0) (p ! 1) (p ! 2) (p ! 3))))"

definition parseSettingsFrame :: "FrameHeader \<Rightarrow> bytes \<Rightarrow> (h2_error + Frame) go" where
  "parseSettingsFrame fh p =
    (if Has (fh_Flags fh) FlagAck \<and> 0 < fh_Length fh then Ret (Inl (H2ConnectionError ErrCodeFrameSize))
     else if fh_StreamID fh \<noteq> 0 then Ret (Inl (H2ConnectionError ErrCodeProtocol))
     else if length p mod 6 \<noteq> 0 then Ret (Inl (H2ConnectionError ErrCodeFrameSize))
     else let f = SettingsFrame fh p in
       go_bind (Settings_Value SettingInitialWindowSize f) (\<lambda>v. Ret (case v of
         Some v \<Rightarrow> if 0x7fffffff < v then Inl (H2ConnectionError ErrCodeFlowControl) else Inr f
       | None \<Rightarrow> Inr f)))"

definition parsePushPromise :: "FrameHeader \<Rightarrow> bytes \<Rightarrow> h2_error + Frame" where
  "parsePushPromise fh p =
    (if fh_StreamID fh = 0 then Inl (H2ConnectionError ErrCodeProtocol)
     else case pad_length fh p of
       Inl e \<Rightarrow> Inl e
     | Inr (p1, padLength) \<Rightarrow> (case readUint32 p1 of
         Inl e \<Rightarrow> Inl e
       | Inr (p2, i) \<Rightarrow>
           if length p2 < unat padLength then Inl (H2ConnectionError ErrCodeProtocol)
           else Inr (PushPromiseFrame fh (clear_high i) (take (length p2 - unat padLength) p2))))"

definition parsePingFrame :: "FrameHeader \<Rightarrow> bytes \<Rightarrow> h2_error + Frame" where
  "parsePingFrame fh payload =
    (if length payload \<noteq> 8 then Inl (H2ConnectionError ErrCodeFrameSize)
     else if fh_StreamID fh \<noteq> 0 then Inl (H2ConnectionError ErrCodeProtocol)
     else Inr (PingFrame fh payload))"

definition parseGoAwayFrame :: "FrameHeader \<Rightarrow> bytes \<Rightarrow> h2_error + Frame" where
  "parseGoAwayFrame fh p =
    (if fh_StreamID fh \<noteq> 0 then Inl (H2ConnectionError ErrCodeProtocol)
     else if length p < 8 then Inl (H2ConnectionError ErrCodeFrameSize)
     else Inr (GoAwayFrame fh (clear_high (join_be32 (p ! 0) (p ! 1) (p ! 2) (p ! 3)))
       (join_be32 (p ! 4) (p ! 5) (p ! 6) (p ! 7)) (drop 8 p)))"

definition parseWindowUpdateFrame :: "FrameHeader \<Rightarrow> bytes \<Rightarrow> h2_error + Frame" where
  "parseWindowUpdateFrame fh p =
    (if length p \<noteq> 4 then Inl (H2ConnectionError ErrCodeFrameSize)
     else let inc = clear_high (join_be32 (p ! 0) (p ! 1) (p ! 2) (p ! 3)) in
       if inc = 0 then
         (if fh_StreamID fh = 0 then Inl (H2ConnectionError ErrCodeProtocol)
          else Inl (H2StreamError (fh_StreamID fh) ErrCodeProtocol))
       else Inr (WindowUpdateFrame fh inc))"

definition parseContinuationFrame :: "FrameHeader \<Rightarrow> bytes \<Rightarrow> h2_error + Frame" where
  "parseContinuationFrame fh p = Inr (ContinuationFrame fh p)"

definition parseUnknownFrame :: "FrameHeader \<Rightarrow> bytes \<Rightarrow> h2_error + Frame" where
  "parseUnknownFrame fh p = Inr (UnknownFrame fh p)"

definition typeFrameParser :: "FrameType \<Rightarrow> FrameHeader \<Rightarrow> bytes \<Rightarrow> (h2_error + Frame) go" where
  "typeFrameParser t fh p =
    (if t = FrameData then Ret (parseDataFrame fh p)
     else if t = FrameHeaders then Ret (parseHeadersFrame fh p)
     else if t = FramePriority then Ret (parsePriorityFrame fh p)
     else if t = FrameRSTStream then Ret (parseRSTStreamFrame fh p)
     else if t = FrameSettings then parseSettingsFrame fh p
     else if t = FramePushPromise then Ret (parsePushPromise fh p)
     else if t = FramePing then Ret (parsePingFrame fh p)
     else if t = FrameGoAway then Ret (parseGoAwayFrame fh p)
     else if t = FrameWindowUpdate then Ret (parseWindowUpdateFrame fh p)
     else if t = FrameContinuation then Ret (parseContinuationFrame fh p)
     else Ret (parseUnknownFrame fh p))"

text \<open>The framer; \<open>fr_r\<close> are the bytes its reader will still deliver, \<open>fr_sent\<close> those its writer has taken.\<close>

record Framer =
  fr_r :: bytes
  lastFrame :: "Frame option"
  maxReadSize :: "32 word"
  fr_w :: "bytes \<Rightarrow> nat \<times> gerror option"
  wbuf :: bytes
  fr_sent :: bytes
  AllowIllegalWrites :: bool

definition maxFrameSize :: "32 word" where "maxFrameSize = 0xffffff"

definition SetMaxReadFrameSize :: "32 word \<Rightarrow> Framer \<Rightarrow> Framer" where
  "SetMaxReadFrameSize v fr = fr\<lparr>maxReadSize := (if maxFrameSize < v then maxFrameSize else v)\<rparr>"

definition NewFramer :: "(bytes \<Rightarrow> nat \<times> gerror option) \<Rightarrow> bytes \<Rightarrow> Framer" where
  "NewFramer w r = SetMaxReadFrameSize maxFrameSize
     \<lparr>fr_r = r, lastFrame = None, maxReadSize = 0, fr_w = w, wbuf = [], fr_sent = [], AllowIllegalWrites = False\<rparr>"

text \<open>
  What \<open>ReadFrame\<close> takes from the bytes: its outcome and the bytes left. A failing \<open>io.ReadFull\<close> has
  taken all that was there.
\<close>

definition take_frame :: "32 word \<Rightarrow> bytes \<Rightarrow> (h2_error + Frame) go \<times> bytes" where
  "take_frame limit r = (case readFrameHeader r of
     Inl e \<Rightarrow> (Ret (Inl (H2Error e)), [])
   | Inr (fh, r1) \<Rightarrow>
       if limit < fh_Length fh then (Ret (Inl ErrFrameTooLarge), r1)
       else (case ReadFull (unat (fh_Length fh)) r1 of
         Inl e \<Rightarrow> (Ret (Inl (H2Error e)), [])
       | Inr (payload, r2) \<Rightarrow> (typeFrameParser (fh_Type fh) fh payload, r2)))"

definition ReadFrame :: "Framer \<Rightarrow> ((h2_error + Frame) \<times> Framer) go" where
  "ReadFrame fr =
    (let fr1 = fr\<lparr>lastFrame := map_option invalidate (lastFrame fr)\<rparr>;
         (outcome, r') = take_frame (maxReadSize fr1) (fr_r fr1); fr2 = fr1\<lparr>fr_r := r'\<rparr> in
     go_bind outcome (\<lambda>res. Ret (case res of
       Inl e \<Rightarrow> (Inl e, fr2)
     | Inr f \<Rightarrow> (Inr f, fr2\<lparr>lastFrame := Some f\<rparr>))))"


section \<open>Writing frames\<close>

definition validStreamID :: "streamid \<Rightarrow> bool" where
  "validStreamID streamID = (streamID \<noteq> 0 \<and> streamID AND 0x80000000 = 0)"

definition startWrite :: "FrameType \<Rightarrow> FrameFlags \<Rightarrow> streamid \<Rightarrow> Framer \<Rightarrow> Framer" where
  "startWrite ftype flags streamID f = f\<lparr>wbuf := [0, 0, 0, ftype, flags] @ be32 streamID\<rparr>"

definition endWrite :: "Framer \<Rightarrow> h2_error option \<times> Framer" where
  "endWrite f =
    (let len = length (wbuf f) - frameHeaderLen in
     if 2 ^ 24 \<le> len then (Some ErrFrameTooLarge, f)
     else let buf = [word_of_nat (len div 2 ^ 16), word_of_nat (len div 2 ^ 8), word_of_nat len] @ drop 3 (wbuf f);
              (n, err) = fr_w f buf;
              f' = f\<lparr>wbuf := buf, fr_sent := fr_sent f @ take n buf\<rparr> in
       (if err = None \<and> n \<noteq> length buf then Some (H2Error ErrShortWrite) else map_option H2Error err, f'))"

definition writeBytes :: "bytes \<Rightarrow> Framer \<Rightarrow> Framer" where
  "writeBytes v f = f\<lparr>wbuf := wbuf f @ v\<rparr>"

definition writeByte :: "byte \<Rightarrow> Framer \<Rightarrow> Framer" where
  "writeByte v f = f\<lparr>wbuf := wbuf f @ [v]\<rparr>"

definition writeUint16 :: "16 word \<Rightarrow> Framer \<Rightarrow> Framer" where
  "writeUint16 v f = f\<lparr>wbuf := wbuf f @ be16 v\<rparr>"

definition writeUint32 :: "32 word \<Rightarrow> Framer \<Rightarrow> Framer" where
  "writeUint32 v f = f\<lparr>wbuf := wbuf f @ be32 v\<rparr>"

definition WriteData :: "streamid \<Rightarrow> bool \<Rightarrow> bytes \<Rightarrow> Framer \<Rightarrow> h2_error option \<times> Framer" where
  "WriteData streamID endStream d f =
    (if \<not> validStreamID streamID \<and> \<not> AllowIllegalWrites f then (Some errStreamID, f)
     else endWrite (writeBytes d (startWrite FrameData (if endStream then FlagEndStream else 0) streamID f)))"

definition WriteSettings :: "Setting list \<Rightarrow> Framer \<Rightarrow> h2_error option \<times> Framer" where
  "WriteSettings settings f =
    endWrite (fold (\<lambda>s. writeUint32 (set_Val s) \<circ> writeUint16 (set_ID s)) settings (startWrite FrameSettings 0 0 f))"

definition WriteSettingsAck :: "Framer \<Rightarrow> h2_error option \<times> Framer" where
  "WriteSettingsAck f = endWrite (startWrite FrameSettings FlagAck 0 f)"

definition WritePing :: "bool \<Rightarrow> bytes \<Rightarrow> Framer \<Rightarrow> h2_error option \<times> Framer" where
  "WritePing ack d f = endWrite (writeBytes d (startWrite FramePing (if ack then FlagAck else 0) 0 f))"

definition WriteGoAway :: "streamid \<Rightarrow> ErrCode \<Rightarrow> bytes \<Rightarrow> Framer \<Rightarrow> h2_error option \<times> Framer" where
  "WriteGoAway maxStreamID code debugData f =
    endWrite (writeBytes debugData (writeUint32 code (writeUint32 (clear_high maxStreamID) (startWrite FrameGoAway 0 0 f))))"

definition WriteWindowUpdate :: "streamid \<Rightarrow> 32 word \<Rightarrow> Framer \<Rightarrow> h2_error option \<times> Framer" where
  "WriteWindowUpdate streamID incr f =
    (if (incr < 1 \<or> 2147483647 < incr) \<and> \<not> AllowIllegalWrites f then
       (Some (H2Error (Errorf ''illegal window increment value'')), f)
     else endWrite (writeUint32 incr (startWrite FrameWindowUpdate 0 streamID f)))"

record HeadersFrameParam =
  hp_StreamID :: streamid
  hp_BlockFragment :: bytes
  hp_EndStream :: bool
  hp_EndHeaders :: bool
  hp_PadLength :: byte
  hp_Priority :: PriorityParam

definition exclusive_bit :: "PriorityParam \<Rightarrow> 32 word" where
  "exclusive_bit p = (if Exclusive p then StreamDep p OR 0x80000000 else StreamDep p)"

definition headers_flags :: "HeadersFrameParam \<Rightarrow> FrameFlags" where
  "headers_flags p =
    (if hp_PadLength p \<noteq> 0 then FlagPadded else 0) OR (if hp_EndStream p then FlagEndStream else 0) OR
    (if hp_EndHeaders p then FlagEndHeaders else 0) OR (if IsZero (hp_Priority p) then 0 else FlagPriority)"

definition WriteHeaders :: "HeadersFrameParam \<Rightarrow> Framer \<Rightarrow> h2_error option \<times> Framer" where
  "WriteHeaders p f =
    (if \<not> validStreamID (hp_StreamID p) \<and> \<not> AllowIllegalWrites f then (Some errStreamID, f)
     else
       let f1 = startWrite FrameHeaders (headers_flags p) (hp_StreamID p) f;
           f2 = (if hp_PadLength p \<noteq> 0 then writeByte (hp_PadLength p) f1 else f1) in
       if \<not> IsZero (hp_Priority p) \<and> \<not> validStreamID (StreamDep (hp_Priority p)) \<and> \<not> AllowIllegalWrites f
       then (Some (H2Error (Errorf ''invalid dependent stream id'')), f2)
       else
         let f3 = (if \<not> IsZero (hp_Priority p)
               then writeByte (Weight (hp_Priority p)) (writeUint32 (exclusive_bit (hp_Priority p)) f2) else f2) in
         endWrite (writeBytes (replicate (unat (hp_PadLength p)) 0) (writeBytes (hp_BlockFragment p) f3)))"

definition WritePriority :: "streamid \<Rightarrow> PriorityParam \<Rightarrow> Framer \<Rightarrow> h2_error option \<times> Framer" where
  "WritePriority streamID p f =
    (if \<not> validStreamID streamID \<and> \<not> AllowIllegalWrites f then (Some errStreamID, f)
     else endWrite (writeByte (Weight p) (writeUint32 (exclusive_bit p) (startWrite FramePriority 0 streamID f))))"

definition WriteRSTStream :: "streamid \<Rightarrow> ErrCode \<Rightarrow> Framer \<Rightarrow> h2_error option \<times> Framer" where
  "WriteRSTStream streamID code f =
    (if \<not> validStreamID streamID \<and> \<not> AllowIllegalWrites f then (Some errStreamID, f)
     else endWrite (writeUint32 code (startWrite FrameRSTStream 0 streamID f)))"

definition WriteContinuation :: "streamid \<Rightarrow> bool \<Rightarrow> bytes \<Rightarrow> Framer \<Rightarrow> h2_error option \<times> Framer" where
  "WriteContinuation streamID endHeaders fragment f =
    (if \<not> validStreamID streamID \<and> \<not> AllowIllegalWrites f then (Some errStreamID, f)
     else endWrite (writeBytes fragment
       (startWrite FrameContinuation (if endHeaders then FlagEndHeaders else 0) streamID f)))"

record PushPromiseParam =
  pp_StreamID :: streamid
  pp_PromiseID :: streamid
  pp_BlockFragment :: bytes
  pp_EndHeaders :: bool
  pp_PadLength :: byte

definition WritePushPromise :: "PushPromiseParam \<Rightarrow> Framer \<Rightarrow> h2_error option \<times> Framer" where
  "WritePushPromise p f =
    (if \<not> validStreamID (pp_StreamID p) \<and> \<not> AllowIllegalWrites f then (Some errStreamID, f)
     else
       let flags = (if pp_PadLength p \<noteq> 0 then FlagPadded else 0) OR (if pp_EndHeaders p then FlagEndHeaders else 0);
           f1 = startWrite FramePushPromise flags (pp_StreamID p) f;
           f2 = (if pp_PadLength p \<noteq> 0 then writeByte (pp_PadLength p) f1 else f1) in
       if \<not> validStreamID (pp_PromiseID p) \<and> \<not> AllowIllegalWrites f then (Some errStreamID, f2)
       else endWrite (writeBytes (replicate (unat (pp_PadLength p)) 0)
              (writeBytes (pp_BlockFragment p) (writeUint32 (pp_PromiseID p) f2))))"

definition WriteRawFrame :: "FrameType \<Rightarrow> FrameFlags \<Rightarrow> streamid \<Rightarrow> bytes \<Rightarrow> Framer \<Rightarrow> h2_error option \<times> Framer" where
  "WriteRawFrame t flags streamID payload f = endWrite (writeBytes payload (startWrite t flags streamID f))"

end
