(* ===== verification/FrameProps.thy ===== *)
theory FrameProps
  imports Frames
begin

text \<open>
  Properties of the framer: what one side writes the other reads, frame by frame and whatever the way
  the frames are mixed; what comes out of \<open>ReadFrame\<close> for arbitrary bytes.
\<close>

unbundle bit_operations_syntax


section \<open>One frame on the wire\<close>

definition frame_bytes :: "FrameType \<Rightarrow> FrameFlags \<Rightarrow> streamid \<Rightarrow> bytes \<Rightarrow> bytes" where
  "frame_bytes t fl sid pl =
    [word_of_nat (length pl div 2 ^ 16), word_of_nat (length pl div 2 ^ 8), word_of_nat (length pl), t, fl] @ be32 sid @ pl"

definition head_of :: "FrameType \<Rightarrow> FrameFlags \<Rightarrow> streamid \<Rightarrow> nat \<Rightarrow> FrameHeader" where
  "head_of t fl sid n = \<lparr>fh_valid = True, fh_Type = t, fh_Flags = fl, fh_Length = word_of_nat n, fh_StreamID = sid\<rparr>"

lemma head_of_sel [simp]:
  "fh_valid (head_of t fl sid n)" "fh_Type (head_of t fl sid n) = t" "fh_Flags (head_of t fl sid n) = fl"
  "fh_Length (head_of t fl sid n) = word_of_nat n" "fh_StreamID (head_of t fl sid n) = sid"
  by (simp_all add: head_of_def)

lemma be24_back:
  assumes "n < 2 ^ 24"
  shows "push_bit 16 (ucast (word_of_nat (n div 2 ^ 16) :: byte)) OR push_bit 8 (ucast (word_of_nat (n div 2 ^ 8) :: byte))
    OR ucast (word_of_nat n :: byte) = (word_of_nat n :: 32 word)" (is "?l = ?r")
proof (rule bit_word_eqI)
  fix k assume "k < LENGTH(32)"
  have d: "n div 2 ^ 16 = drop_bit 16 n" "n div 2 ^ 8 = drop_bit 8 n"
    by (simp_all add: drop_bit_eq_div)
  have hi: "bit n k \<Longrightarrow> k < 24" using assms
    by (metis bit_take_bit_iff take_bit_nat_eq_self)
  from \<open>k < LENGTH(32)\<close> consider "k < 8" | "8 \<le> k" "k < 16" | "16 \<le> k" "k < 24" | "24 \<le> k" "k < 32" by fastforce
  then show "bit ?l k \<longleftrightarrow> bit ?r k"
    unfolding d using hi by cases (auto simp: bit_simps)
qed

lemma readFrameHeader_bytes:
  assumes "length pl < 2 ^ 24"
  shows "readFrameHeader (frame_bytes t fl sid pl @ r) = Inr (head_of t fl (clear_high sid) (length pl), pl @ r)"
proof -
  let ?n = "length pl"
  let ?h = "[word_of_nat (?n div 2 ^ 16), word_of_nat (?n div 2 ^ 8), word_of_nat ?n, t, fl] @ be32 sid"
  have "ReadFull frameHeaderLen (?h @ pl @ r) = Inr (?h, pl @ r)"
    by (rule ReadFull_appendI) (simp add: frameHeaderLen_def)
  moreover have "header_of_bytes ?h = head_of t fl (clear_high sid) ?n"
    using be24_back [OF assms] by (simp add: header_of_bytes_def head_of_def be32_def)
  ultimately show ?thesis
    by (simp add: readFrameHeader_def frame_bytes_def)
qed

lemma take_frame_bytes:
  assumes "length pl < 2 ^ 24" and "length pl \<le> unat limit"
  shows "take_frame limit (frame_bytes t fl sid pl @ r) = (typeFrameParser t (head_of t fl (clear_high sid) (length pl)) pl, r)"
proof -
  have u: "unat (word_of_nat (length pl) :: 32 word) = length pl"
    unfolding unat_of_nat using assms(1) by simp
  then have "\<not> limit < word_of_nat (length pl)"
    using assms(2) by (simp add: word_less_nat_alt)
  with u show ?thesis
    unfolding take_frame_def readFrameHeader_bytes [OF assms(1)] by simp
qed

definition full_writer :: "Framer \<Rightarrow> bool" where
  "full_writer f = (\<forall>b. fr_w f b = (length b, None))"

lemma endWrite_full:
  assumes "full_writer f" and "wbuf f = [0, 0, 0, t, fl] @ be32 sid @ pl"
  shows "endWrite f = (if length pl < 2 ^ 24
     then (None, f\<lparr>wbuf := frame_bytes t fl sid pl, fr_sent := fr_sent f @ frame_bytes t fl sid pl\<rparr>)
     else (Some ErrFrameTooLarge, f))"
  using assms by (simp add: endWrite_def full_writer_def Let_def frame_bytes_def frameHeaderLen_def)


section \<open>Stream ids and flags\<close>

lemma clear_high_take: "clear_high v = take_bit 31 v"
  by (simp add: clear_high_def take_bit_eq_mask mask_eq_exp_minus_1)

lemma clear_high_0 [simp]: "clear_high 0 = 0"
  by (simp add: clear_high_def)

lemma clear_high_idem [simp]: "clear_high (clear_high v) = clear_high v"
  by (simp add: clear_high_take)

lemma clear_high_iff: "clear_high v = v \<longleftrightarrow> v \<le> 0x7fffffff"
proof -
  have "clear_high v = v \<longleftrightarrow> unat v < 2 ^ 31"
    unfolding clear_high_take word_unat_eq_iff unsigned_take_bit_eq by (rule take_bit_nat_eq_self_iff)
  then show ?thesis by (auto simp: word_le_nat_alt)
qed

lemma clear_high_le: "clear_high v \<le> 0x7fffffff"
  using clear_high_iff [of "clear_high v"] by simp

lemma bit_high: "bit (0x80000000 :: 32 word) k \<longleftrightarrow> k = 31"
proof -
  have e: "(0x80000000 :: 32 word) = 2 ^ 31" by simp
  show ?thesis unfolding e bit_exp_iff by auto
qed

lemma clear_high_bit: "clear_high v = v \<longleftrightarrow> \<not> bit v 31"
proof
  assume "clear_high v = v"
  then show "\<not> bit v 31" unfolding clear_high_take by (metis bit_take_bit_iff less_irrefl)
next
  assume nb: "\<not> bit v 31"
  show "clear_high v = v"
  proof (rule bit_word_eqI)
    fix k assume "k < LENGTH(32)"
    then have "k < 31 \<or> k = 31" by auto
    with nb show "bit (clear_high v) k \<longleftrightarrow> bit v k" by (auto simp: clear_high_take bit_simps)
  qed
qed

lemma high_bit_zero: "v AND 0x80000000 = 0 \<longleftrightarrow> clear_high v = (v :: 32 word)"
proof
  assume z: "v AND 0x80000000 = 0"
  have "bit (v AND 0x80000000) 31 \<longleftrightarrow> bit v 31" by (simp only: bit_and_iff bit_high simp_thms)
  then show "clear_high v = v" unfolding z clear_high_bit by simp
next
  assume "clear_high v = v"
  then have "\<not> bit (v AND 0x80000000) k" for k
    by (auto simp only: clear_high_bit bit_and_iff bit_high)
  then show "v AND 0x80000000 = 0" by (metis bit_0_eq bot_apply bot_bool_def bit_word_eqI)
qed

lemma validStreamID_iff: "validStreamID s \<longleftrightarrow> s \<noteq> 0 \<and> clear_high s = s"
  by (simp add: validStreamID_def high_bit_zero)

lemma clear_high_exclusive:
  assumes "clear_high v = v"
  shows "clear_high (v OR 0x80000000) = v"
proof (rule bit_word_eqI)
  fix k assume "k < LENGTH(32)"
  from assms have "\<not> bit v 31" by (simp add: clear_high_bit)
  then have "bit v k \<Longrightarrow> k < 31" using \<open>k < LENGTH(32)\<close> by (cases "k = 31") auto
  then show "bit (clear_high (v OR 0x80000000)) k \<longleftrightarrow> bit v k"
    by (auto simp only: clear_high_take bit_take_bit_iff bit_or_iff bit_high)
qed

lemma exclusive_differs: "clear_high v = v \<Longrightarrow> v OR 0x80000000 \<noteq> (v :: 32 word)"
  unfolding clear_high_bit by (metis bit_high bit_or_iff)

lemma exclusive_bit_back:
  assumes "clear_high (StreamDep p) = StreamDep p"
  shows "clear_high (exclusive_bit p) = StreamDep p" and "exclusive_bit p \<noteq> StreamDep p \<longleftrightarrow> Exclusive p"
  using assms by (simp_all add: exclusive_bit_def clear_high_exclusive exclusive_differs)


section \<open>What a write puts on the wire\<close>

datatype write_op =
    PutData streamid bool bytes
  | PutHeaders HeadersFrameParam
  | PutPriority streamid PriorityParam
  | PutRSTStream streamid ErrCode
  | PutSettings "Setting list"
  | PutSettingsAck
  | PutPushPromise PushPromiseParam
  | PutPing bool bytes
  | PutGoAway streamid ErrCode bytes
  | PutWindowUpdate streamid "32 word"
  | PutContinuation streamid bool bytes
  | PutRaw FrameType FrameFlags streamid bytes

fun do_write :: "write_op \<Rightarrow> Framer \<Rightarrow> h2_error option \<times> Framer" where
  "do_write (PutData s e d) = WriteData s e d"
| "do_write (PutHeaders p) = WriteHeaders p"
| "do_write (PutPriority s p) = WritePriority s p"
| "do_write (PutRSTStream s c) = WriteRSTStream s c"
| "do_write (PutSettings ss) = WriteSettings ss"
| "do_write PutSettingsAck = WriteSettingsAck"
| "do_write (PutPushPromise p) = WritePushPromise p"
| "do_write (PutPing a d) = WritePing a d"
| "do_write (PutGoAway s c d) = WriteGoAway s c d"
| "do_write (PutWindowUpdate s n) = WriteWindowUpdate s n"
| "do_write (PutContinuation s e d) = WriteContinuation s e d"
| "do_write (PutRaw t fl s d) = WriteRawFrame t fl s d"

text \<open>The type, flags, stream and payload of the frame.\<close>

definition setting_bytes :: "Setting \<Rightarrow> bytes" where
  "setting_bytes s = be16 (set_ID s) @ be32 (set_Val s)"

definition pad_prefix :: "byte \<Rightarrow> bytes" where
  "pad_prefix n = (if n = 0 then [] else [n])"

definition priority_bytes :: "PriorityParam \<Rightarrow> bytes" where
  "priority_bytes p = be32 (exclusive_bit p) @ [Weight p]"

fun shape :: "write_op \<Rightarrow> FrameType \<times> FrameFlags \<times> streamid \<times> bytes" where
  "shape (PutData s e d) = (FrameData, if e then FlagEndStream else 0, s, d)"
| "shape (PutHeaders p) = (FrameHeaders, headers_flags p, hp_StreamID p,
     pad_prefix (hp_PadLength p) @ (if IsZero (hp_Priority p) then [] else priority_bytes (hp_Priority p)) @
     hp_BlockFragment p @ replicate (unat (hp_PadLength p)) 0)"
| "shape (PutPriority s p) = (FramePriority, 0, s, priority_bytes p)"
| "shape (PutRSTStream s c) = (FrameRSTStream, 0, s, be32 c)"
| "shape (PutSettings ss) = (FrameSettings, 0, 0, concat (map setting_bytes ss))"
| "shape PutSettingsAck = (FrameSettings, FlagAck, 0, [])"
| "shape (PutPushPromise p) = (FramePushPromise,
     (if pp_PadLength p \<noteq> 0 then FlagPadded else 0) OR (if pp_EndHeaders p then FlagEndHeaders else 0), pp_StreamID p,
     pad_prefix (pp_PadLength p) @ be32 (pp_PromiseID p) @ pp_BlockFragment p @ replicate (unat (pp_PadLength p)) 0)"
| "shape (PutPing a d) = (FramePing, if a then FlagAck else 0, 0, d)"
| "shape (PutGoAway s c d) = (FrameGoAway, 0, 0, be32 (clear_high s) @ be32 c @ d)"
| "shape (PutWindowUpdate s n) = (FrameWindowUpdate, 0, s, be32 n)"
| "shape (PutContinuation s e d) = (FrameContinuation, if e then FlagEndHeaders else 0, s, d)"
| "shape (PutRaw t fl s d) = (t, fl, s, d)"

definition payload :: "write_op \<Rightarrow> bytes" where
  "payload op = snd (snd (snd (shape op)))"

definition wire :: "write_op \<Rightarrow> bytes" where
  "wire op = (case shape op of (t, fl, s, pl) \<Rightarrow> frame_bytes t fl s pl)"

text \<open>What the write methods check unless illegal writes are allowed.\<close>

fun legal :: "write_op \<Rightarrow> bool" where
  "legal (PutData s e d) = validStreamID s"
| "legal (PutHeaders p) = (validStreamID (hp_StreamID p) \<and>
     (IsZero (hp_Priority p) \<or> validStreamID (StreamDep (hp_Priority p))))"
| "legal (PutPriority s p) = validStreamID s"
| "legal (PutRSTStream s c) = validStreamID s"
| "legal (PutPushPromise p) = (validStreamID (pp_StreamID p) \<and> validStreamID (pp_PromiseID p))"
| "legal (PutWindowUpdate s n) = (1 \<le> n \<and> n \<le> 2147483647)"
| "legal (PutContinuation s e d) = validStreamID s"
| "legal _ = True"

lemmas write_steps = startWrite_def writeBytes_def writeByte_def writeUint16_def writeUint32_def

lemma full_writer_upd [simp]: "full_writer (f\<lparr>wbuf := b\<rparr>) = full_writer f" "full_writer (f\<lparr>fr_sent := b\<rparr>) = full_writer f"
  by (simp_all add: full_writer_def)

lemma settings_written:
  "fold (\<lambda>s. writeUint32 (set_Val s) \<circ> writeUint16 (set_ID s)) ss f = f\<lparr>wbuf := wbuf f @ concat (map setting_bytes ss)\<rparr>"
  by (induction ss arbitrary: f) (simp_all add: write_steps setting_bytes_def)

lemma do_write_buffer:
  assumes "\<not> AllowIllegalWrites f" and "legal op" and "shape op = (t, fl, sid, pl)"
  shows "do_write op f = endWrite (f\<lparr>wbuf := 0 # 0 # 0 # t # fl # be32 sid @ pl\<rparr>)"
  using assms
  by (cases op) (auto simp: WriteData_def WriteHeaders_def WritePriority_def WriteRSTStream_def WriteSettings_def
      WriteSettingsAck_def WritePushPromise_def WritePing_def WriteGoAway_def WriteWindowUpdate_def WriteContinuation_def
      WriteRawFrame_def settings_written write_steps Let_def pad_prefix_def priority_bytes_def word_le_nat_alt word_less_nat_alt)

lemma do_write_wire:
  assumes "full_writer f" and "\<not> AllowIllegalWrites f" and "legal op"
  shows "do_write op f = (if length (payload op) < 2 ^ 24
     then (None, f\<lparr>wbuf := wire op, fr_sent := fr_sent f @ wire op\<rparr>)
     else (Some ErrFrameTooLarge, snd (do_write op f)))"
proof -
  obtain t fl sid pl where sh: "shape op = (t, fl, sid, pl)" by (metis prod_cases4)
  with do_write_buffer [OF assms(2,3) sh] assms(1) show ?thesis
    by (simp add: payload_def wire_def endWrite_full)
qed

lemma do_write_illegal:
  assumes "\<not> AllowIllegalWrites f" and "\<not> legal op"
  shows "\<exists>e f'. do_write op f = (Some e, f') \<and> fr_sent f' = fr_sent f"
  using assms
  by (cases op) (auto simp: WriteData_def WriteHeaders_def WritePriority_def WriteRSTStream_def WritePushPromise_def
      WriteWindowUpdate_def WriteContinuation_def Let_def write_steps not_le)


section \<open>Reading it back\<close>

text \<open>
  Writes the reader has to accept: a HEADERS frame carries a fragment, the stream a PRIORITY frame
  names has 31 bits, no setting asks for a window over \<open>2\<^sup>3\<^sup>1 - 1\<close>, a ping has eight bytes (its Go type is
  \<open>[8]byte\<close>), and a raw frame has none of the ten known types.
\<close>

fun readable :: "write_op \<Rightarrow> bool" where
  "readable (PutHeaders p) = (hp_BlockFragment p \<noteq> [])"
| "readable (PutPriority s p) = (clear_high (StreamDep p) = StreamDep p)"
| "readable (PutSettings ss) = list_all (\<lambda>s. set_ID s = SettingInitialWindowSize \<longrightarrow> set_Val s \<le> 0x7fffffff) ss"
| "readable (PutPing a d) = (length d = 8)"
| "readable (PutRaw t fl s d) = (9 < t)"
| "readable _ = True"

text \<open>The frame the reader sees.\<close>

definition head_op :: "write_op \<Rightarrow> FrameHeader" where
  "head_op op = (case shape op of (t, fl, s, pl) \<Rightarrow> head_of t fl (clear_high s) (length pl))"

fun frame_of :: "write_op \<Rightarrow> Frame" where
  "frame_of (PutData s e d) = DataFrame (head_op (PutData s e d)) d"
| "frame_of (PutHeaders p) = HeadersFrame (head_op (PutHeaders p)) (hp_Priority p) (hp_BlockFragment p)"
| "frame_of (PutPriority s p) = PriorityFrame (head_op (PutPriority s p)) p"
| "frame_of (PutRSTStream s c) = RSTStreamFrame (head_op (PutRSTStream s c)) c"
| "frame_of (PutSettings ss) = SettingsFrame (head_op (PutSettings ss)) (concat (map setting_bytes ss))"
| "frame_of PutSettingsAck = SettingsFrame (head_op PutSettingsAck) []"
| "frame_of (PutPushPromise p) = PushPromiseFrame (head_op (PutPushPromise p)) (pp_PromiseID p) (pp_BlockFragment p)"
| "frame_of (PutPing a d) = PingFrame (head_op (PutPing a d)) d"
| "frame_of (PutGoAway s c d) = GoAwayFrame (head_op (PutGoAway s c d)) (clear_high s) c d"
| "frame_of (PutWindowUpdate s n) = WindowUpdateFrame (head_op (PutWindowUpdate s n)) n"
| "frame_of (PutContinuation s e d) = ContinuationFrame (head_op (PutContinuation s e d)) d"
| "frame_of (PutRaw t fl s d) = UnknownFrame (head_op (PutRaw t fl s d)) d"

text \<open>The flags a write sets are the flags a read finds.\<close>

lemma Has_headers_flags:
  "Has (headers_flags p) FlagPadded \<longleftrightarrow> hp_PadLength p \<noteq> 0"
  "Has (headers_flags p) FlagPriority \<longleftrightarrow> \<not> IsZero (hp_Priority p)"
  "Has (headers_flags p) FlagEndHeaders \<longleftrightarrow> hp_EndHeaders p"
  "Has (headers_flags p) FlagEndStream \<longleftrightarrow> hp_EndStream p"
  by (cases "hp_PadLength p = 0"; cases "hp_EndStream p"; cases "hp_EndHeaders p"; cases "IsZero (hp_Priority p)";
      simp add: Has_def headers_flags_def)+

lemma Has_const [simp]:
  "\<not> Has 0 1" "\<not> Has 0 8" "\<not> Has 1 8" "\<not> Has 0 4" "Has 4 4" "Has 1 1" "Has 8 8" "\<not> Has 4 8" "Has 12 8" "Has 12 4" "\<not> Has 8 4"
  by (simp_all add: Has_def)

lemma pad_length_prefix:
  assumes "Has (fh_Flags fh) FlagPadded \<longleftrightarrow> n \<noteq> 0"
  shows "pad_length fh (pad_prefix n @ p) = Inr (p, n)"
  using assms by (simp add: pad_length_def pad_prefix_def readByte_def)

lemma readUint32_be32 [simp]: "readUint32 (be32 n @ p) = Inr (p, n)"
  by (simp add: readUint32_def be32_def)

lemma read_priority_bytes:
  assumes "clear_high (StreamDep p) = StreamDep p"
  shows "read_priority (priority_bytes p @ s) = Inr (s, p)"
  using exclusive_bit_back [OF assms] by (simp add: read_priority_def priority_bytes_def readByte_def)

lemma settings_value_bytes:
  "settings_value i (concat (map setting_bytes ss)) = Ret (map_option set_Val (find (\<lambda>s. set_ID s = i) ss))"
  by (induction ss) (simp_all add: setting_bytes_def be16_def be32_def)

lemma length_settings [simp]: "length (concat (map setting_bytes ss)) = 6 * length ss"
  by (induction ss) (simp_all add: setting_bytes_def)

lemma find_setting_ok:
  "list_all (\<lambda>s. set_ID s = i \<longrightarrow> set_Val s \<le> v) ss \<Longrightarrow> find (\<lambda>s. set_ID s = i) ss = Some s \<Longrightarrow> set_Val s \<le> v"
  by (induction ss) (auto split: if_splits)

lemma parse_settings_back:
  assumes "readable (PutSettings ss)"
  shows "parseSettingsFrame (head_of FrameSettings 0 0 n) (concat (map setting_bytes ss)) =
    Ret (Inr (SettingsFrame (head_of FrameSettings 0 0 n) (concat (map setting_bytes ss))))"
  using assms find_setting_ok [of 4 "0x7fffffff" ss]
  by (auto simp: parseSettingsFrame_def Settings_Value_def access_def checkValid_def settings_value_bytes Let_def not_less
      split: option.splits)

lemma be32_nths: "be32 n @ p = [be32 n ! 0, be32 n ! 1, be32 n ! 2, be32 n ! 3] @ p"
  by (simp add: be32_def)

lemma join_be32_nth [simp]: "join_be32 (be32 n ! 0) (be32 n ! Suc 0) (be32 n ! 2) (be32 n ! 3) = n"
  by (simp add: be32_def)

lemmas parser_defs = parseDataFrame_def parseHeadersFrame_def parsePriorityFrame_def parseRSTStreamFrame_def
  parsePushPromise_def parsePingFrame_def parseGoAwayFrame_def parseWindowUpdateFrame_def parseContinuationFrame_def
  parseUnknownFrame_def

lemma parse_headers_back:
  assumes "legal (PutHeaders p)" and "readable (PutHeaders p)"
  shows "parseHeadersFrame (head_op (PutHeaders p)) (payload (PutHeaders p)) = Inr (frame_of (PutHeaders p))"
proof (cases "IsZero (hp_Priority p)")
  case True
  with assms Has_headers_flags [of p] show ?thesis
    by (auto simp: parseHeadersFrame_def head_op_def payload_def validStreamID_iff pad_length_prefix IsZero_def)
next
  case False
  with assms Has_headers_flags [of p] show ?thesis
    by (auto simp: parseHeadersFrame_def head_op_def payload_def validStreamID_iff pad_length_prefix read_priority_bytes)
qed

lemma parse_push_back:
  assumes "legal (PutPushPromise p)"
  shows "parsePushPromise (head_op (PutPushPromise p)) (payload (PutPushPromise p)) = Inr (frame_of (PutPushPromise p))"
  using assms
  by (auto simp: parsePushPromise_def head_op_def payload_def validStreamID_iff pad_length_prefix)

lemma typeFrameParser_back:
  assumes "legal op" and "readable op" and "length (payload op) < 2 ^ 24"
  shows "typeFrameParser (fst (shape op)) (head_op op) (payload op) = Ret (Inr (frame_of op))"
proof (cases op)
  case (PutHeaders p)
  then show ?thesis using parse_headers_back assms by (simp add: typeFrameParser_def)
next
  case (PutPushPromise p)
  then show ?thesis using parse_push_back assms by (simp add: typeFrameParser_def)
next
  case (PutSettings ss)
  then show ?thesis using parse_settings_back assms
    by (simp add: typeFrameParser_def head_op_def payload_def)
next
  case (PutRaw t fl s d)
  then show ?thesis using assms by (auto simp: typeFrameParser_def parseUnknownFrame_def payload_def)
next
  case PutSettingsAck
  then show ?thesis by (simp add: typeFrameParser_def parseSettingsFrame_def head_op_def payload_def
        Settings_Value_def access_def checkValid_def)
next
  case (PutPriority s p)
  then show ?thesis using assms exclusive_bit_back [of p]
    by (auto simp: typeFrameParser_def parsePriorityFrame_def head_op_def payload_def priority_bytes_def validStreamID_iff
        be32_def Let_def)
next
  case (PutWindowUpdate s n)
  then have "clear_high n = n" "n \<noteq> 0" using assms(1) by (auto simp: clear_high_iff)
  with PutWindowUpdate show ?thesis
    by (simp add: typeFrameParser_def parseWindowUpdateFrame_def head_op_def payload_def Let_def)
next
  case (PutData s e d)
  then show ?thesis using assms
    by (auto simp: typeFrameParser_def parseDataFrame_def head_op_def payload_def validStreamID_iff pad_length_def)
next
  case (PutGoAway s c d)
  then show ?thesis by (simp add: typeFrameParser_def parseGoAwayFrame_def head_op_def payload_def be32_def)
qed (use assms in \<open>auto simp: typeFrameParser_def parser_defs head_op_def payload_def validStreamID_iff\<close>)

lemma do_write_ok:
  assumes "full_writer f" and "\<not> AllowIllegalWrites f" and "do_write op f = (None, f')"
  shows "legal op" and "length (payload op) < 2 ^ 24" and "f' = f\<lparr>wbuf := wire op, fr_sent := fr_sent f @ wire op\<rparr>"
proof -
  show l: "legal op" using do_write_illegal [OF assms(2)] assms(3) by fastforce
  show len: "length (payload op) < 2 ^ 24"
    using do_write_wire [OF assms(1,2) l] assms(3) by (metis option.distinct(1) prod.inject)
  show "f' = f\<lparr>wbuf := wire op, fr_sent := fr_sent f @ wire op\<rparr>"
    using do_write_wire [OF assms(1,2) l] len assms(3) by simp
qed

primrec write_all :: "write_op list \<Rightarrow> Framer \<Rightarrow> h2_error option \<times> Framer" where
  "write_all [] f = (None, f)"
| "write_all (op # ops) f = (case do_write op f of
     (Some e, f') \<Rightarrow> (Some e, f')
   | (None, f') \<Rightarrow> write_all ops f')"

lemma write_all_ok:
  assumes "full_writer f" and "\<not> AllowIllegalWrites f" and "write_all ops f = (None, f')"
  shows "list_all legal ops" and "list_all (\<lambda>op. length (payload op) < 2 ^ 24) ops"
    and "fr_sent f' = fr_sent f @ concat (map wire ops)"
proof -
  have "list_all legal ops \<and> list_all (\<lambda>op. length (payload op) < 2 ^ 24) ops \<and> fr_sent f' = fr_sent f @ concat (map wire ops)"
    using assms
  proof (induction ops arbitrary: f)
    case (Cons op ops)
    then obtain f1 where w: "do_write op f = (None, f1)" "write_all ops f1 = (None, f')"
      by (auto split: prod.splits option.splits)
    from do_write_ok [OF Cons.prems(1,2) w(1)] Cons.IH [of f1] Cons.prems(1,2) w(2) show ?case by simp
  qed simp
  then show "list_all legal ops" "list_all (\<lambda>op. length (payload op) < 2 ^ 24) ops"
    "fr_sent f' = fr_sent f @ concat (map wire ops)" by blast+
qed

lemma write_all_total:
  assumes "full_writer f" and "\<not> AllowIllegalWrites f"
    and "list_all (\<lambda>op. legal op \<and> length (payload op) < 2 ^ 24) ops"
  shows "fst (write_all ops f) = None"
  using assms
proof (induction ops arbitrary: f)
  case (Cons op ops)
  then have "do_write op f = (None, f\<lparr>wbuf := wire op, fr_sent := fr_sent f @ wire op\<rparr>)"
    by (subst do_write_wire) simp_all
  with Cons show ?case by simp
qed simp

lemma endWrite_framer: "full_writer (snd (endWrite f)) = full_writer f" "AllowIllegalWrites (snd (endWrite f)) = AllowIllegalWrites f"
  by (simp_all add: endWrite_def full_writer_def Let_def split: prod.splits)

lemma do_write_framer:
  "full_writer (snd (do_write op f)) = full_writer f" "AllowIllegalWrites (snd (do_write op f)) = AllowIllegalWrites f"
  by (cases op; simp add: WriteData_def WriteHeaders_def WritePriority_def WriteRSTStream_def WriteSettings_def
      WriteSettingsAck_def WritePushPromise_def WritePing_def WriteGoAway_def WriteWindowUpdate_def WriteContinuation_def
      WriteRawFrame_def settings_written write_steps Let_def endWrite_framer)+

lemma write_all_framer:
  "write_all ops f = (e, f') \<Longrightarrow> full_writer f' = full_writer f \<and> AllowIllegalWrites f' = AllowIllegalWrites f"
proof (induction ops arbitrary: f)
  case (Cons op ops)
  then show ?case using do_write_framer [of op f] by (auto split: prod.splits option.splits)
qed simp

definition frame_get :: "32 word \<Rightarrow> bytes \<Rightarrow> h2_error option + Frame \<times> bytes" where
  "frame_get limit s = (case take_frame limit s of
     (Ret (Inr f), r) \<Rightarrow> Inr (f, r) | (Ret (Inl e), _) \<Rightarrow> Inl (Some e) | (Panic _, _) \<Rightarrow> Inl None)"

definition passes :: "32 word \<Rightarrow> write_op \<Rightarrow> bool" where
  "passes limit op = (legal op \<and> readable op \<and> length (payload op) < 2 ^ 24 \<and> length (payload op) \<le> unat limit)"

interpretation h2: framing wire "frame_get limit" "passes limit" frame_of for limit
proof
  fix op s assume p: "passes limit op"
  obtain t fl sid pl where sh: "shape op = (t, fl, sid, pl)" by (metis prod_cases4)
  with p typeFrameParser_back [of op] show "frame_get limit (wire op @ s) = Inr (frame_of op, s)"
    by (simp add: frame_get_def wire_def take_frame_bytes passes_def payload_def head_op_def)
qed

primrec read_frames :: "nat \<Rightarrow> Framer \<Rightarrow> ((h2_error + Frame list) \<times> Framer) go" where
  "read_frames 0 fr = Ret (Inr [], fr)"
| "read_frames (Suc n) fr = go_bind (ReadFrame fr) (\<lambda>(res, fr1). case res of
     Inl e \<Rightarrow> Ret (Inl e, fr1)
   | Inr f \<Rightarrow> go_bind (read_frames n fr1) (\<lambda>(rest, fr2). Ret (map_sum id (Cons f) rest, fr2)))"

lemma read_frames_get:
  assumes "get_n (frame_get (maxReadSize fr)) n (fr_r fr) = Inr (fs, r)"
  shows "\<exists>fr'. read_frames n fr = Ret (Inr fs, fr') \<and> fr_r fr' = r"
  using assms
proof (induction n arbitrary: fr fs)
  case (Suc n)
  then obtain f r1 fs' where g: "frame_get (maxReadSize fr) (fr_r fr) = Inr (f, r1)"
    and rest: "get_n (frame_get (maxReadSize fr)) n r1 = Inr (fs', r)" and fs: "fs = f # fs'"
    by (auto split: sum.splits)
  from g have t: "take_frame (maxReadSize fr) (fr_r fr) = (Ret (Inr f), r1)"
    by (auto simp: frame_get_def split: prod.splits sum.splits go.splits)
  define fr1 where "fr1 = fr\<lparr>fr_r := r1, lastFrame := Some f\<rparr>"
  have "ReadFrame fr = Ret (Inr f, fr1)"
    using t by (simp add: ReadFrame_def Let_def fr1_def)
  moreover have "\<exists>fr'. read_frames n fr1 = Ret (Inr fs', fr') \<and> fr_r fr' = r"
    using rest by (intro Suc.IH) (simp add: fr1_def)
  ultimately show ?case using fs by auto
qed simp

text \<open>
  C9. Any sequence of frames that a framer has written without an error, of all the kinds the package
  writes and mixed in any way, is read by the framer at the other end as exactly those frames, in that
  order and with nothing taken from the bytes that follow, as long as the frames are ones a reader has to
  accept and fit its maximal frame size.
\<close>

theorem frames_read_back:
  assumes "full_writer f" and "\<not> AllowIllegalWrites f" and "fr_sent f = []" and "write_all ops f = (None, f')"
    and "list_all readable ops" and "list_all (\<lambda>op. length (payload op) \<le> unat (maxReadSize rd)) ops"
    and "fr_r rd = fr_sent f' @ rest"
  shows "\<exists>rd'. read_frames (length ops) rd = Ret (Inr (map frame_of ops), rd') \<and> fr_r rd' = rest"
proof (rule read_frames_get)
  note w = write_all_ok [OF assms(1,2,4)]
  have "list_all (passes (maxReadSize rd)) ops"
    using w(1,2) assms(5,6) by (simp add: passes_def list_all_iff)
  then show "get_n (frame_get (maxReadSize rd)) (length ops) (fr_r rd) = Inr (map frame_of ops, rest)"
    using h2.get_n_puts w(3) assms(3,7) by simp
qed

definition demo_writes :: "write_op list" where
  "demo_writes = [
     PutSettings [\<lparr>set_ID = SettingInitialWindowSize, set_Val = 65535\<rparr>],
     PutHeaders \<lparr>hp_StreamID = 1, hp_BlockFragment = [0x82, 0x86], hp_EndStream = False, hp_EndHeaders = True, hp_PadLength = 2,
       hp_Priority = \<lparr>StreamDep = 3, Exclusive = True, Weight = 15\<rparr>\<rparr>,
     PutData 1 True [7, 8, 9], PutWindowUpdate 0 4096, PutGoAway 1 ErrCodeNo [42]]"

definition demo_writer :: Framer where
  "demo_writer = NewFramer (\<lambda>b. (length b, None)) []"

theorem frames_read_back_witness:
  "\<exists>rd'. read_frames 5 (NewFramer (\<lambda>b. (length b, None)) (fr_sent (snd (write_all demo_writes demo_writer)) @ [1, 2])) =
     Ret (Inr (map frame_of demo_writes), rd') \<and> fr_r rd' = [1, 2]"
proof -
  let ?rd = "NewFramer (\<lambda>b. (length b, None)) (fr_sent (snd (write_all demo_writes demo_writer)) @ [1, 2])"
  have f: "full_writer demo_writer" "\<not> AllowIllegalWrites demo_writer" "fr_sent demo_writer = []"
    by (simp_all add: full_writer_def demo_writer_def NewFramer_def SetMaxReadFrameSize_def)
  have "list_all (\<lambda>op. legal op \<and> length (payload op) < 2 ^ 24) demo_writes"
    by (simp add: demo_writes_def validStreamID_def payload_def IsZero_def zeroPriority_def setting_bytes_def pad_prefix_def
        priority_bytes_def)
  then have w: "write_all demo_writes demo_writer = (None, snd (write_all demo_writes demo_writer))"
    using write_all_total [OF f(1,2)] by (metis prod.collapse)
  have "list_all readable demo_writes"
    by (simp add: demo_writes_def)
  moreover have "list_all (\<lambda>op. length (payload op) \<le> unat (maxReadSize ?rd)) demo_writes"
    by (simp add: demo_writes_def payload_def NewFramer_def SetMaxReadFrameSize_def maxFrameSize_def IsZero_def zeroPriority_def
        setting_bytes_def pad_prefix_def priority_bytes_def)
  moreover have "length demo_writes = 5"
    by (simp add: demo_writes_def)
  ultimately show ?thesis
    using frames_read_back [OF f w, of ?rd "[1, 2]"] by (simp add: NewFramer_def SetMaxReadFrameSize_def)
qed


section \<open>Arbitrary bytes\<close>

text \<open>What the rest of the package relies on in a frame that was read.\<close>

fun well_formed :: "Frame \<Rightarrow> bool" where
  "well_formed (DataFrame h d) = (fh_Type h = FrameData \<and> fh_StreamID h \<noteq> 0 \<and> length d \<le> unat (fh_Length h))"
| "well_formed (HeadersFrame h p d) = (fh_Type h = FrameHeaders \<and> fh_StreamID h \<noteq> 0 \<and> d \<noteq> [] \<and> length d \<le> unat (fh_Length h) \<and>
     StreamDep p \<le> 0x7fffffff \<and> (Has (fh_Flags h) FlagPriority \<or> IsZero p))"
| "well_formed (PriorityFrame h p) = (fh_Type h = FramePriority \<and> fh_StreamID h \<noteq> 0 \<and> fh_Length h = 5 \<and> StreamDep p \<le> 0x7fffffff)"
| "well_formed (RSTStreamFrame h c) = (fh_Type h = FrameRSTStream \<and> fh_StreamID h \<noteq> 0 \<and> fh_Length h = 4)"
| "well_formed (SettingsFrame h p) = (fh_Type h = FrameSettings \<and> fh_StreamID h = 0 \<and> length p = unat (fh_Length h) \<and>
     length p mod 6 = 0 \<and> \<not> (Has (fh_Flags h) FlagAck \<and> p \<noteq> []) \<and>
     (case settings_value SettingInitialWindowSize p of Ret (Some v) \<Rightarrow> v \<le> 0x7fffffff | Ret None \<Rightarrow> True | Panic _ \<Rightarrow> False))"
| "well_formed (PushPromiseFrame h i d) = (fh_Type h = FramePushPromise \<and> fh_StreamID h \<noteq> 0 \<and> i \<le> 0x7fffffff \<and>
     length d + 4 \<le> unat (fh_Length h))"
| "well_formed (PingFrame h d) = (fh_Type h = FramePing \<and> fh_StreamID h = 0 \<and> length d = 8)"
| "well_formed (GoAwayFrame h i c d) = (fh_Type h = FrameGoAway \<and> fh_StreamID h = 0 \<and> i \<le> 0x7fffffff \<and>
     length d + 8 = unat (fh_Length h))"
| "well_formed (WindowUpdateFrame h n) = (fh_Type h = FrameWindowUpdate \<and> fh_Length h = 4 \<and> 1 \<le> n \<and> n \<le> 0x7fffffff)"
| "well_formed (ContinuationFrame h d) = (fh_Type h = FrameContinuation \<and> length d = unat (fh_Length h))"
| "well_formed (UnknownFrame h d) = (9 < fh_Type h \<and> length d = unat (fh_Length h))"

lemma settings_value_returns: "length p mod 6 = 0 \<Longrightarrow> \<exists>v. settings_value s p = Ret v"
  by (induction s p rule: settings_value.induct) auto

lemma readByte_cases: "readByte p = Inr (q, b) \<longleftrightarrow> p = b # q"
  by (cases p) (auto simp: readByte_def)

lemma readUint32_length: "readUint32 p = Inr (q, v) \<Longrightarrow> length p = length q + 4"
  by (auto simp: readUint32_def split: list.splits)

lemma pad_length_length: "pad_length h p = Inr (q, n) \<Longrightarrow> length q \<le> length p"
  by (auto simp: pad_length_def readByte_cases split: if_splits)

lemma read_priority_InrD:
  assumes "read_priority p = Inr (q, prio)"
  shows "length q \<le> length p \<and> StreamDep prio \<le> 0x7fffffff"
  using assms clear_high_le by (auto simp: read_priority_def readByte_cases dest!: readUint32_length split: sum.splits)

lemma word_length_eq: "length p = unat (n :: 32 word) \<Longrightarrow> length p = unat m \<Longrightarrow> n = m"
  by (simp add: word_unat_eq_iff)

lemma parse_headers_formed:
  assumes "parseHeadersFrame h p = Inr f" and "fh_Type h = FrameHeaders" and "length p = unat (fh_Length h)"
  shows "well_formed f \<and> Header f = h"
  using assms
  by (auto simp: parseHeadersFrame_def IsZero_def zeroPriority_def split: if_splits sum.splits
      dest!: pad_length_length read_priority_InrD) (meson diff_le_self le_trans)+

lemma parse_push_formed:
  assumes "parsePushPromise h p = Inr f" and "fh_Type h = FramePushPromise" and "length p = unat (fh_Length h)"
  shows "well_formed f \<and> Header f = h"
  using assms clear_high_le
  by (auto simp: parsePushPromise_def split: if_splits sum.splits dest!: pad_length_length readUint32_length
     ) (meson diff_le_self le_trans)+

lemma parse_data_formed:
  assumes "parseDataFrame h p = Inr f" and "fh_Type h = FrameData" and "length p = unat (fh_Length h)"
  shows "well_formed f \<and> Header f = h"
  using assms by (auto simp: parseDataFrame_def split: if_splits sum.splits dest!: pad_length_length
     )

lemma parse_settings_formed:
  assumes "fh_valid h" and "fh_Type h = FrameSettings" and "length p = unat (fh_Length h)"
  shows "\<exists>res. parseSettingsFrame h p = Ret res \<and> (\<forall>f. res = Inr f \<longrightarrow> well_formed f \<and> Header f = h)"
proof (cases "length p mod 6 = 0")
  case True
  then obtain v where v: "settings_value SettingInitialWindowSize p = Ret v"
    using settings_value_returns [OF True, of SettingInitialWindowSize] by (elim exE)
  have "0 < fh_Length h \<longleftrightarrow> p \<noteq> []"
    using assms(3) by (metis length_greater_0_conv unat_gt_0 word_coorder.not_eq_extremum)
  with v True assms show ?thesis
    by (auto simp: parseSettingsFrame_def Settings_Value_def access_def checkValid_def Let_def split: option.splits if_splits)
qed (simp add: parseSettingsFrame_def)

lemma word_nonzero: "v \<noteq> 0 \<Longrightarrow> 1 \<le> (v :: 32 word)"
  by (simp add: word_le_nat_alt unat_gt_0 Suc_le_eq)

lemma typeFrameParser_formed:
  assumes "fh_valid h" and "length p = unat (fh_Length h)"
  shows "\<exists>res. typeFrameParser (fh_Type h) h p = Ret res \<and> (\<forall>f. res = Inr f \<longrightarrow> well_formed f \<and> Header f = h)"
proof -
  note len = word_length_eq [OF assms(2)]
  have small: "\<not> 9 < t \<Longrightarrow> t \<in> {0, 1, 2, 3, 4, 5, 6, 7, 8, 9}" for t :: byte
  proof -
    assume "\<not> 9 < t"
    then have "unat t \<le> 9" by (simp add: word_less_nat_alt)
    then have "unat t \<in> {0, 1, 2, 3, 4, 5, 6, 7, 8, 9}" by auto
    then have "(word_of_nat (unat t) :: byte) \<in> word_of_nat ` {0, 1, 2, 3, 4, 5, 6, 7, 8, 9}" by (rule imageI)
    then show "t \<in> {0, 1, 2, 3, 4, 5, 6, 7, 8, 9}" by simp
  qed
  consider "fh_Type h = FrameHeaders" | "fh_Type h = FramePushPromise" | "fh_Type h = FrameData" | "fh_Type h = FrameSettings"
    | "fh_Type h \<in> {2, 3, 6, 7, 8, 9}" | "9 < fh_Type h"
    using small [of "fh_Type h"] by blast
  then show ?thesis
  proof cases
    case 5
    then show ?thesis
      using assms len [of 4] len [of 5] clear_high_le
      by (auto simp: typeFrameParser_def parser_defs Let_def word_nonzero split: if_splits)
  next
    case 6
    then show ?thesis using assms by (auto simp: typeFrameParser_def parseUnknownFrame_def)
  qed (use assms parse_headers_formed parse_push_formed parse_data_formed parse_settings_formed in
      \<open>auto simp: typeFrameParser_def\<close>)
qed

lemma header_of_bytes_sel [simp]: "fh_valid (header_of_bytes b)" "fh_StreamID (header_of_bytes b) \<le> 0x7fffffff"
  using clear_high_le by (simp_all add: header_of_bytes_def)

lemma take_frame_formed:
  "\<exists>res r'. take_frame limit r = (Ret res, r') \<and> (\<forall>f. res = Inr f \<longrightarrow>
     well_formed f \<and> fh_valid (Header f) \<and> fh_StreamID (Header f) \<le> 0x7fffffff \<and> fh_Length (Header f) \<le> limit \<and>
     (\<exists>used. r = used @ r' \<and> length used = 9 + unat (fh_Length (Header f))))"
proof (cases "readFrameHeader r")
  case (Inr a)
  then obtain h r1 where a: "readFrameHeader r = Inr (h, r1)" by (cases a) simp
  then obtain b where b: "ReadFull frameHeaderLen r = Inr (b, r1)" and h: "h = header_of_bytes b"
    by (auto simp: readFrameHeader_def elim!: bind_dec.elims)
  show ?thesis
  proof (cases "ReadFull (unat (fh_Length h)) r1")
    case (Inr c)
    then obtain p r2 where c: "ReadFull (unat (fh_Length h)) r1 = Inr (p, r2)" by (cases c) simp
    have r: "r = (b @ p) @ r2" "length (b @ p) = 9 + unat (fh_Length h)"
      using ReadFull_InrD [OF b] ReadFull_InrD [OF c] by (simp_all add: frameHeaderLen_def)
    from typeFrameParser_formed [of h p] h ReadFull_InrD(2) [OF c] obtain res where
      "typeFrameParser (fh_Type h) h p = Ret res" "\<And>f. res = Inr f \<Longrightarrow> well_formed f \<and> Header f = h"
      by auto
    with a c r h show ?thesis
      by (cases "limit < fh_Length h") (auto simp: take_frame_def)
  qed (use a in \<open>auto simp: take_frame_def\<close>)
qed (auto simp: take_frame_def)

lemma ReadFrame_taken:
  assumes "take_frame (maxReadSize fr) (fr_r fr) = (Ret res, r')"
  shows "ReadFrame fr = Ret (res, fr\<lparr>fr_r := r',
    lastFrame := (case res of Inl _ \<Rightarrow> map_option invalidate (lastFrame fr) | Inr f \<Rightarrow> Some f)\<rparr>)"
  using assms by (simp add: ReadFrame_def Let_def split: sum.splits)

text \<open>
  C16. Whatever bytes a peer sends, \<open>ReadFrame\<close> returns: it does not panic. A frame it returns has the
  shape its type requires (stream frames carry a stream, connection frames carry none, stream ids and
  dependencies have 31 bits, window increments are from 1 to \<open>2\<^sup>3\<^sup>1 - 1\<close>, settings come in whole and an
  initial window is a legal one, a HEADERS frame has a fragment), is not longer than the maximum that was
  set, and took exactly its header and its length from the connection.
\<close>

theorem ReadFrame_well_formed:
  "\<exists>res fr'. ReadFrame fr = Ret (res, fr') \<and> (\<forall>f. res = Inr f \<longrightarrow>
     well_formed f \<and> fh_StreamID (Header f) \<le> 0x7fffffff \<and> fh_Length (Header f) \<le> maxReadSize fr \<and>
     lastFrame fr' = Some f \<and> access f = Ret (buffer f) \<and>
     (\<exists>used. fr_r fr = used @ fr_r fr' \<and> length used = 9 + unat (fh_Length (Header f))))"
proof -
  obtain res r' where t: "take_frame (maxReadSize fr) (fr_r fr) = (Ret res, r')"
    and f: "\<forall>f. res = Inr f \<longrightarrow> well_formed f \<and> fh_valid (Header f) \<and> fh_StreamID (Header f) \<le> 0x7fffffff \<and>
      fh_Length (Header f) \<le> maxReadSize fr \<and> (\<exists>used. fr_r fr = used @ r' \<and> length used = 9 + unat (fh_Length (Header f)))"
    using take_frame_formed by blast
  show ?thesis
    unfolding ReadFrame_taken [OF t] using f by (auto simp: access_def checkValid_def)
qed

theorem ReadFrame_well_formed_witness:
  "\<exists>res fr'. ReadFrame (NewFramer (\<lambda>b. (length b, None)) [0, 0, 4, 8, 0, 0, 0, 0, 0, 0, 0, 1, 0, 9]) = Ret (res, fr') \<and>
     (case res of Inr (WindowUpdateFrame h n) \<Rightarrow> n = 256 \<and> n \<le> 0x7fffffff \<and> fr_r fr' = [9] | _ \<Rightarrow> False)"
proof -
  let ?fr = "NewFramer (\<lambda>b. (length b, None)) [0, 0, 4, 8, 0, 0, 0, 0, 0, 0, 0, 1, 0, 9]"
  have "take_frame (maxReadSize ?fr) (fr_r ?fr) = (Ret (Inr (WindowUpdateFrame (head_of 8 0 0 4) 256)), [9])"
    by (simp add: NewFramer_def SetMaxReadFrameSize_def maxFrameSize_def take_frame_def readFrameHeader_def ReadFull_def
        frameHeaderLen_def header_of_bytes_def join_be32_def clear_high_def typeFrameParser_def parseWindowUpdateFrame_def
        head_of_def Let_def)
  from ReadFrame_taken [OF this] ReadFrame_well_formed [of ?fr] show ?thesis by simp
qed

end
