(* ===== verification/GrpcHeaders.thy ===== *)
theory GrpcHeaders
  imports Proto HpackProps FrameProps Decimal "HOL-Library.AList"
begin

text \<open>
  The headers of a gRPC call (\<open>grpc/transport/http_util.go\<close> and \<open>grpc/metadata/metadata.go\<close>): timeouts
  as header values, metadata keys and values, and the decoder that turns the fields of a header block
  into the state of a call. Header names and values are strings here, one character a byte.
\<close>

section \<open>Timeouts\<close>

definition timeoutUnitToDuration :: "char \<Rightarrow> int option" where
  "timeoutUnitToDuration u =
    (if u = CHR ''H'' then Some 3600000000000
     else if u = CHR ''M'' then Some 60000000000
     else if u = CHR ''S'' then Some 1000000000
     else if u = CHR ''m'' then Some 1000000
     else if u = CHR ''u'' then Some 1000
     else if u = CHR ''n'' then Some 1
     else None)"

definition maxTimeoutValue :: int where "maxTimeoutValue = 100000000 - 1"

definition div_up :: "int \<Rightarrow> int \<Rightarrow> int" where
  "div_up d r = (if 0 < d smod r then d sdiv r + 1 else d sdiv r)"

definition timeoutEncode :: "int \<Rightarrow> string" where
  "timeoutEncode t =
    (if div_up t 1 \<le> maxTimeoutValue then show_int (div_up t 1) @ ''n''
     else if div_up t 1000 \<le> maxTimeoutValue then show_int (div_up t 1000) @ ''u''
     else if div_up t 1000000 \<le> maxTimeoutValue then show_int (div_up t 1000000) @ ''m''
     else if div_up t 1000000000 \<le> maxTimeoutValue then show_int (div_up t 1000000000) @ ''S''
     else if div_up t 60000000000 \<le> maxTimeoutValue then show_int (div_up t 60000000000) @ ''M''
     else show_int (div_up t 3600000000000) @ ''H'')"

definition timeoutDecode :: "string \<Rightarrow> int result" where
  "timeoutDecode s =
    (if length s < 2 then Inl (Errorf (''transport: timeout string is too short: '' @ go_quote s))
     else case timeoutUnitToDuration (last s) of
       None \<Rightarrow> Inl (Errorf (''transport: timeout unit is not recognized: '' @ go_quote s))
     | Some d \<Rightarrow> (case ParseInt10 (butlast s) of
         Inl err \<Rightarrow> Inl err
       | Inr t \<Rightarrow> Inr (wrap64 (d * t))))"

lemma div_up_nonneg: "0 \<le> t \<Longrightarrow> 0 < r \<Longrightarrow> div_up t r = (t + r - 1) div r"
proof -
  assume a: "0 \<le> t" "0 < r"
  then have m: "t sdiv r = t div r" "t smod r = t mod r"
    by (auto simp: sdiv_nonneg signed_modulo_int_def minus_div_mult_eq_mod sgn_if)
  have t: "t = r * (t div r) + t mod r" by simp
  have "0 \<le> t mod r" "t mod r < r" using a by simp_all
  show ?thesis
  proof (cases "t mod r = 0")
    case True
    then have "(t + r - 1) div r = (r * (t div r) + (r - 1)) div r"
      using t by (metis add.right_neutral add_diff_eq)
    also have "\<dots> = t div r" using a by (simp add: div_pos_pos_trivial)
    finally show ?thesis using m True by (simp add: div_up_def)
  next
    case False
    then have pos: "0 < t mod r" using \<open>0 \<le> t mod r\<close> by simp
    have "(t + r - 1) div r = (r * (t div r + 1) + (t mod r - 1)) div r"
      using t by (simp add: algebra_simps)
    also have "\<dots> = t div r + 1" using pos \<open>t mod r < r\<close> by (simp add: div_pos_pos_trivial)
    finally show ?thesis using m pos by (simp add: div_up_def)
  qed
qed

lemma div_up_bounds:
  assumes "0 \<le> t" and "0 < r"
  shows "t \<le> r * div_up t r" and "r * div_up t r < t + r"
proof -
  have "r * ((t + r - 1) div r) = t + r - 1 - (t + r - 1) mod r" by (simp add: minus_mod_eq_mult_div)
  moreover have "0 \<le> (t + r - 1) mod r" "(t + r - 1) mod r < r" using assms(2) by simp_all
  ultimately show "t \<le> r * div_up t r" "r * div_up t r < t + r"
    unfolding div_up_nonneg [OF assms] by linarith+
qed

lemma timeoutDecode_show:
  assumes "timeoutUnitToDuration u = Some d" and "in64 n" and "in64 (d * n)"
  shows "timeoutDecode (show_int n @ [u]) = Inr (d * n)"
proof -
  have "show_int n \<noteq> []" by (simp add: show_int_def)
  then show ?thesis
    using assms by (simp add: timeoutDecode_def ParseInt10_show wrap64_id in64_def Suc_le_eq not_less)
qed

text \<open>One step of the choice of a unit: the value in unit \<open>r\<close>, after the smaller unit \<open>q\<close> was too fine.\<close>

lemma timeout_in_unit:
  assumes u: "timeoutUnitToDuration u = Some r" and r: "0 < r" "r \<le> 1000 * q" and q: "0 < q"
    and fine: "maxTimeoutValue < div_up t q" and t: "0 < t" and max: "r * div_up t r < 2 ^ 63"
  shows "\<exists>t'. timeoutDecode (show_int (div_up t r) @ [u]) = Inr t' \<and> t \<le> t' \<and> (t' - t) * 99999 \<le> t"
proof -
  note up = div_up_bounds [of t r] and upq = div_up_bounds [of t q]
  have "99999999 < div_up t q" using fine by (simp add: maxTimeoutValue_def)
  then have "q * 100000000 \<le> q * div_up t q" using q by (intro mult_left_mono) simp_all
  then have tq: "q * 99999999 < t" using upq(2) t q by linarith
  have pos: "0 \<le> div_up t r" using div_up_nonneg [of t r] t r(1) by (simp add: pos_imp_zdiv_nonneg_iff)
  then have "div_up t r \<le> r * div_up t r" "0 \<le> r * div_up t r"
    using r(1) mult_right_mono [of 1 r "div_up t r"] by simp_all
  then have "timeoutDecode (show_int (div_up t r) @ [u]) = Inr (r * div_up t r)"
    using max pos by (intro timeoutDecode_show u) (simp_all add: in64_def)
  moreover have "t \<le> r * div_up t r" "(r * div_up t r - t) * 99999 \<le> t"
    using up t r tq by simp_all
  ultimately show ?thesis by blast
qed

text \<open>
  C39. The timeout a client puts in its headers reaches the server never shortened, and lengthened by less
  than a part in 99999, for every positive timeout of at most 2562047 hours.
\<close>

theorem timeout_not_shortened:
  assumes "0 < t" and "t \<le> 2562047 * 3600000000000"
  shows "\<exists>t'. timeoutDecode (timeoutEncode t) = Inr t' \<and> t \<le> t' \<and> (t' - t) * 99999 \<le> t"
proof -
  have small: "r * div_up t r < 2 ^ 63" if "0 < r" "r \<le> 60000000000" for r
    using div_up_bounds(2) [of t r] that assms by simp
  have hours: "3600000000000 * div_up t 3600000000000 < 2 ^ 63"
  proof -
    have "3600000000000 * div_up t 3600000000000 < 3600000000000 * 2562048"
      using div_up_bounds(2) [of t 3600000000000] assms by linarith
    then have "div_up t 3600000000000 \<le> 2562047" by simp
    then show ?thesis by simp
  qed
  have "div_up t 1 = t" using assms(1) by (simp add: div_up_nonneg)
  show ?thesis
  proof (cases "t \<le> maxTimeoutValue")
    case True
    with assms(1) have "timeoutDecode (show_int t @ ''n'') = Inr (1 * t)"
      by (intro timeoutDecode_show) (simp_all add: timeoutUnitToDuration_def in64_def maxTimeoutValue_def)
    with True assms(1) \<open>div_up t 1 = t\<close> show ?thesis by (simp add: timeoutEncode_def)
  next
    case False
    define good where "good s \<longleftrightarrow> (\<exists>t'. timeoutDecode s = Inr t' \<and> t \<le> t' \<and> (t' - t) * 99999 \<le> t)" for s
    note unit = timeout_in_unit [OF _ _ _ _ _ assms(1), folded good_def]
    have "good (show_int (div_up t 1000) @ ''u'')" if "maxTimeoutValue < div_up t 1"
      using that small [of 1000] by (intro unit [where q = 1]) (simp_all add: timeoutUnitToDuration_def)
    moreover have "good (show_int (div_up t 1000000) @ ''m'')" if "maxTimeoutValue < div_up t 1000"
      using that small [of 1000000] by (intro unit [where q = 1000]) (simp_all add: timeoutUnitToDuration_def)
    moreover have "good (show_int (div_up t 1000000000) @ ''S'')" if "maxTimeoutValue < div_up t 1000000"
      using that small [of 1000000000] by (intro unit [where q = 1000000]) (simp_all add: timeoutUnitToDuration_def)
    moreover have "good (show_int (div_up t 60000000000) @ ''M'')" if "maxTimeoutValue < div_up t 1000000000"
      using that small [of 60000000000] by (intro unit [where q = 1000000000]) (simp_all add: timeoutUnitToDuration_def)
    moreover have "good (show_int (div_up t 3600000000000) @ ''H'')" if "maxTimeoutValue < div_up t 60000000000"
      using that hours by (intro unit [where q = 60000000000]) (simp_all add: timeoutUnitToDuration_def)
    ultimately have "good (timeoutEncode t)"
      using False \<open>div_up t 1 = t\<close> unfolding timeoutEncode_def by (auto simp: not_le)
    then show ?thesis by (simp add: good_def)
  qed
qed

theorem timeout_not_shortened_witness:
  "\<exists>t'. timeoutDecode (timeoutEncode 100000000001) = Inr t' \<and> 100000000001 \<le> t' \<and> (t' - 100000000001) * 99999 \<le> 100000000001"
  using timeout_not_shortened [of 100000000001] by simp

text \<open>
  The longest timeout of all, the largest \<open>int64\<close> of nanoseconds that stands for no limit, is
  rounded up to 2562048 hours; the server multiplies it out in 64 bits, wraps to a negative duration, and
  the deadline of the call has passed before it starts.
\<close>

theorem timeout_overflows:
  "\<exists>t'. timeoutDecode (timeoutEncode (2 ^ 63 - 1)) = Inr t' \<and> t' < 0"
proof -
  have d: "div_up 9223372036854775807 r = (9223372036854775807 + r - 1) div r" if "0 < r" for r
    using that by (simp add: div_up_nonneg)
  have e: "timeoutEncode (2 ^ 63 - 1) = show_int 2562048 @ [CHR ''H'']"
    by (simp add: timeoutEncode_def d maxTimeoutValue_def)
  have "ParseInt10 (show_int 2562048) = Inr 2562048"
    by (rule ParseInt10_show) (simp add: in64_def)
  moreover have "show_int 2562048 \<noteq> []" by (simp add: show_int_def)
  moreover have "wrap64 (3600000000000 * 2562048) < 0" by (simp add: wrap64_def)
  ultimately show ?thesis
    unfolding e by (simp add: timeoutDecode_def timeoutUnitToDuration_def Suc_le_eq not_less)
qed


section \<open>Metadata\<close>

text \<open>
  \<open>base64.StdEncoding\<close>. Decoding drops line breaks; an error is \<open>None\<close>, since its position is only
  logged.
\<close>

definition b64_char :: "nat \<Rightarrow> char" where
  "b64_char n = (if n < 26 then char_of (65 + n) else if n < 52 then char_of (71 + n)
     else if n < 62 then char_of (n - 4) else if n = 62 then CHR ''+'' else CHR ''/'')"

definition b64_val :: "char \<Rightarrow> nat option" where
  "b64_val c = (let n = of_char c in
     if 65 \<le> n \<and> n \<le> 90 then Some (n - 65) else if 97 \<le> n \<and> n \<le> 122 then Some (n - 71)
     else if 48 \<le> n \<and> n \<le> 57 then Some (n + 4) else if n = 43 then Some 62 else if n = 47 then Some 63 else None)"

fun b64_encode :: "string \<Rightarrow> string" where
  "b64_encode [] = []"
| "b64_encode [a] = (let x = of_char a in [b64_char (x div 4), b64_char (x mod 4 * 16), CHR ''='', CHR ''=''])"
| "b64_encode [a, b] = (let x = of_char a; y = of_char b in
     [b64_char (x div 4), b64_char (x mod 4 * 16 + y div 16), b64_char (y mod 16 * 4), CHR ''=''])"
| "b64_encode (a # b # c # s) = (let x = of_char a; y = of_char b; z = of_char c in
     [b64_char (x div 4), b64_char (x mod 4 * 16 + y div 16), b64_char (y mod 16 * 4 + z div 64), b64_char (z mod 64)] @ b64_encode s)"

fun b64_groups :: "string \<Rightarrow> string option" where
  "b64_groups [] = Some []"
| "b64_groups (a # b # c # d # s) = (case (b64_val a, b64_val b) of
     (Some x, Some y) \<Rightarrow>
       if c = CHR ''='' then (if d = CHR ''='' \<and> s = [] then Some [char_of (x * 4 + y div 16)] else None)
       else (case b64_val c of
         None \<Rightarrow> None
       | Some z \<Rightarrow>
           if d = CHR ''='' then (if s = [] then Some [char_of (x * 4 + y div 16), char_of (y mod 16 * 16 + z div 4)] else None)
           else (case b64_val d of
             None \<Rightarrow> None
           | Some w \<Rightarrow> map_option (\<lambda>rest. [char_of (x * 4 + y div 16), char_of (y mod 16 * 16 + z div 4),
                 char_of (z mod 4 * 64 + w)] @ rest) (b64_groups s)))
   | _ \<Rightarrow> None)"
| "b64_groups _ = None"

definition b64_decode :: "string \<Rightarrow> string option" where
  "b64_decode s = b64_groups (filter (\<lambda>c. c \<noteq> CHR 0x0A \<and> c \<noteq> CHR 0x0D) s)"

definition isASCII :: "string \<Rightarrow> bool" where
  "isASCII s = list_all (\<lambda>c. (of_char c :: nat) \<le> 127) s"

definition ascii_lower :: "char \<Rightarrow> char" where
  "ascii_lower c = (let n = of_char c :: nat in if 65 \<le> n \<and> n \<le> 90 then char_of (n + 32) else c)"

text \<open>\<open>strings.ToLower\<close>; the Unicode case tables are a parameter.\<close>

definition ToLower :: "(string \<Rightarrow> string) \<Rightarrow> string \<Rightarrow> string" where
  "ToLower unicode s = (if isASCII s then map ascii_lower s else unicode s)"

definition binHdrSuffix :: string where "binHdrSuffix = ''-bin''"

definition encodeKeyValue :: "(string \<Rightarrow> string) \<Rightarrow> string \<Rightarrow> string \<Rightarrow> string \<times> string" where
  "encodeKeyValue unicode k v =
    (if isASCII v then (k, v) else (ToLower unicode (k @ binHdrSuffix), b64_encode v))"

definition DecodeKeyValue :: "string \<Rightarrow> string \<Rightarrow> (string \<times> string) option" where
  "DecodeKeyValue k v =
    (if \<not> suffix binHdrSuffix k then Some (k, v)
     else map_option (Pair (take (length k - length binHdrSuffix) k)) (b64_decode v))"

type_synonym MD = "(string \<times> string list) list"

definition md_append :: "MD \<Rightarrow> string \<Rightarrow> string \<Rightarrow> MD" where
  "md_append md k v = AList.update k ((case map_of md k of Some vs \<Rightarrow> vs | None \<Rightarrow> []) @ [v]) md"

text \<open>\<open>New\<close> goes through its map in an order the runtime chooses; it is the list argument here.\<close>

fun md_New :: "(string \<Rightarrow> string) \<Rightarrow> (string \<times> string) list \<Rightarrow> MD \<Rightarrow> MD" where
  "md_New unicode [] md = md"
| "md_New unicode ((k, v) # m) md = (case encodeKeyValue unicode k v of (key, val) \<Rightarrow> md_New unicode m (md_append md key val))"

fun pairs_loop :: "(string \<Rightarrow> string) \<Rightarrow> string list \<Rightarrow> MD \<Rightarrow> MD" where
  "pairs_loop unicode (k # s # kv) md = (case encodeKeyValue unicode k s of (key, val) \<Rightarrow> pairs_loop unicode kv (md_append md key val))"
| "pairs_loop unicode _ md = md"

definition md_Pairs :: "(string \<Rightarrow> string) \<Rightarrow> string list \<Rightarrow> MD go" where
  "md_Pairs unicode kv =
    (if length kv mod 2 = 1
     then Panic (''metadata: Pairs got the odd number of input pairs for metadata: '' @ show_nat (length kv))
     else Ret (pairs_loop unicode kv []))"

lemma b64_val_char [simp]: "n < 64 \<Longrightarrow> b64_val (b64_char n) = Some n"
  by (auto simp: b64_val_def b64_char_def Let_def)

lemma b64_char_neq [simp]: "n < 64 \<Longrightarrow> b64_char n \<noteq> CHR ''='' \<and> b64_char n \<noteq> CHR 0x0A \<and> b64_char n \<noteq> CHR 0x0D"
  using b64_val_char [of n] by (auto simp: b64_val_def simp del: b64_val_char)

lemma div_bound: "x < 256 \<Longrightarrow> x div 4 < 64 \<and> x div 16 < 16 \<and> x div 64 < (4 :: nat)"
  by (simp add: less_mult_imp_div_less)

lemma b64_bounds [simp]:
  fixes a b c :: char
  shows "of_char a div 4 < (64 :: nat)" "of_char a mod 4 * 16 + of_char b div 16 < (64 :: nat)"
    "of_char b mod 16 * 4 + of_char c div 64 < (64 :: nat)" "of_char c mod 64 < (64 :: nat)"
    "of_char a mod 4 * 16 < (64 :: nat)" "of_char b mod 16 * 4 < (64 :: nat)"
proof -
  have "of_char a < (256 :: nat)" "of_char b < (256 :: nat)" "of_char c < (256 :: nat)" by simp_all
  note d = this [THEN div_bound]
  have "of_char a mod 4 < (4 :: nat)" "of_char b mod 16 < (16 :: nat)" by simp_all
  with d show "of_char a div 4 < (64 :: nat)" "of_char a mod 4 * 16 + of_char b div 16 < (64 :: nat)"
    "of_char b mod 16 * 4 + of_char c div 64 < (64 :: nat)" "of_char c mod 64 < (64 :: nat)"
    "of_char a mod 4 * 16 < (64 :: nat)" "of_char b mod 16 * 4 < (64 :: nat)" by linarith+
qed

lemma div_mod_mult_add: "(k :: nat) < d \<Longrightarrow> (m * d + k) div d = m" "(k :: nat) < d \<Longrightarrow> (m * d + k) mod d = k"
  by simp_all

lemma b64_join:
  fixes x y z :: nat
  assumes "y < 256" and "z < 256"
  shows "x div 4 * 4 + (x mod 4 * 16 + y div 16) div 16 = x"
    and "(x mod 4 * 16 + y div 16) mod 16 * 16 + (y mod 16 * 4 + z div 64) div 4 = y"
    and "(x mod 4 * 16 + y div 16) mod 16 * 16 + (y mod 16 * 4) div 4 = y"
    and "(y mod 16 * 4 + z div 64) mod 4 * 64 + z mod 64 = z"
  using div_bound [OF assms(1)] div_bound [OF assms(2)] by (simp_all add: div_mod_mult_add)

lemma b64_join_first: "x div 4 * 4 + (x mod 4 * 16) div 16 = (x :: nat)"
  by simp

lemma char_join: "n = of_char c \<Longrightarrow> char_of (n :: nat) = c"
  by simp

lemma b64_groups_four:
  assumes "p < 64" and "q < 64" and "r < 64" and "t < 64"
  shows "b64_groups (b64_char p # b64_char q # b64_char r # b64_char t # s) =
    map_option ((@) [char_of (p * 4 + q div 16), char_of (q mod 16 * 16 + r div 4), char_of (r mod 4 * 64 + t)]) (b64_groups s)"
    and "b64_groups [b64_char p, b64_char q, b64_char r, CHR ''=''] = Some [char_of (p * 4 + q div 16), char_of (q mod 16 * 16 + r div 4)]"
    and "b64_groups [b64_char p, b64_char q, CHR ''='', CHR ''=''] = Some [char_of (p * 4 + q div 16)]"
  using assms by simp_all

lemma b64_groups_encode: "b64_groups (b64_encode s) = Some s"
proof (induction s rule: b64_encode.induct)
  case (2 a)
  show ?case
    unfolding b64_encode.simps Let_def
    by (subst b64_groups_four(3) [OF _ _ b64_bounds(1,1)]) (simp_all only: b64_bounds char_join b64_join_first)
next
  case (3 a b)
  have "(of_char b :: nat) < 256" by simp
  then show ?case
    unfolding b64_encode.simps Let_def
    by (subst b64_groups_four(2) [OF _ _ _ b64_bounds(1)]) (simp_all only: b64_bounds char_join b64_join)
next
  case (4 a b c s)
  have "(of_char b :: nat) < 256" "(of_char c :: nat) < 256" by simp_all
  then show ?case
    unfolding b64_encode.simps Let_def append_Cons append_Nil
    by (subst b64_groups_four(1)) (simp_all only: b64_bounds char_join b64_join 4 option.map append_Cons append_Nil)
qed simp

lemma b64_encode_lines: "c \<in> set (b64_encode s) \<Longrightarrow> c \<noteq> CHR 0x0A \<and> c \<noteq> CHR 0x0D"
proof (induction s rule: b64_encode.induct)
  case (4 a b d s)
  then show ?case by (auto simp: Let_def simp del: char_of_eq_iff of_char_eq_iff)
qed (auto simp: Let_def)

lemma b64_decode_encode: "b64_decode (b64_encode s) = Some s"
proof -
  have "filter (\<lambda>c. c \<noteq> CHR 0x0A \<and> c \<noteq> CHR 0x0D) (b64_encode s) = b64_encode s"
    by (rule filter_True) (use b64_encode_lines in blast)
  then show ?thesis by (simp add: b64_decode_def b64_groups_encode)
qed

text \<open>
  A metadata pair that a caller attaches is what the peer decodes, whatever bytes its value has: a
  value outside ASCII travels in base64 under the key with \<open>-bin\<close> and comes back under the key in
  lower case. This needs an ASCII key that does not end in \<open>-bin\<close> itself when the value is ASCII.
\<close>

theorem metadata_read_back:
  assumes "isASCII k" and "\<not> (isASCII v \<and> suffix binHdrSuffix k)" and "encodeKeyValue unicode k v = (key, val)"
  shows "DecodeKeyValue key val = Some (if isASCII v then k else map ascii_lower k, v)"
proof (cases "isASCII v")
  case False
  have "key = map ascii_lower k @ binHdrSuffix"
    using assms(1,3) False by (auto simp: encodeKeyValue_def ToLower_def isASCII_def binHdrSuffix_def ascii_lower_def)
  with assms(3) False show ?thesis
    by (auto simp: encodeKeyValue_def DecodeKeyValue_def b64_decode_encode suffix_def)
qed (use assms in \<open>auto simp: encodeKeyValue_def DecodeKeyValue_def\<close>)

theorem metadata_read_back_witness:
  "DecodeKeyValue (fst (encodeKeyValue id ''Id'' [CHR 0xFF, CHR ''a''])) (snd (encodeKeyValue id ''Id'' [CHR 0xFF, CHR ''a''])) =
     Some (''id'', [CHR 0xFF, CHR ''a''])"
  using metadata_read_back [of "''Id''" "[CHR 0xFF, CHR ''a'']" id] by (simp add: isASCII_def ascii_lower_def char_of_def bit_0)

text \<open>An ASCII value under a key that ends in \<open>-bin\<close> is sent as it is, and the peer fails to decode it or reads another value.\<close>

lemma bin_key_loses_value:
  "encodeKeyValue unicode ''trace-bin'' ''abc'' = (''trace-bin'', ''abc'') \<and> DecodeKeyValue ''trace-bin'' ''abc'' = None"
  "encodeKeyValue unicode ''trace-bin'' ''abcd'' = (''trace-bin'', ''abcd'') \<and>
     DecodeKeyValue ''trace-bin'' ''abcd'' = Some (''trace'', [CHR 0x69, CHR 0xB7, CHR 0x1D])"
  by (simp_all add: encodeKeyValue_def DecodeKeyValue_def isASCII_def binHdrSuffix_def suffix_def b64_decode_def b64_val_def char_of_def bit_0)


section \<open>The header decoder of a connection\<close>

record decodeState =
  ds_statusCode :: "32 word"
  ds_statusDesc :: string
  ds_timeoutSet :: bool
  ds_timeout :: int
  ds_method :: string
  ds_mdata :: MD

definition noState :: decodeState where
  "noState = \<lparr>ds_statusCode = 0, ds_statusDesc = [], ds_timeoutSet = False, ds_timeout = 0, ds_method = [], ds_mdata = []\<rparr>"

record hpackDecoder =
  hd_h :: Decoder
  hd_state :: decodeState
  hd_err :: "rpc_error option"

definition isReservedHeader :: "string \<Rightarrow> bool go" where
  "isReservedHeader hdr =
    (if hdr = [] then Panic ''runtime error: index out of range''
     else if hd hdr = CHR '':'' then Ret True
     else Ret (hdr \<in> {''content-type'', ''grpc-message-type'', ''grpc-encoding'', ''grpc-message'', ''grpc-status'',
       ''grpc-timeout'', ''te''}))"

definition Contains :: "string \<Rightarrow> string \<Rightarrow> bool" where
  "Contains s sub = list_ex (\<lambda>i. prefix sub (drop i s)) [0..<Suc (length s)]"

definition LastIndex :: "string \<Rightarrow> char \<Rightarrow> nat option" where
  "LastIndex s c = (if c \<in> set s then Some (length s - 1 - length (takeWhile (\<lambda>x. x \<noteq> c) (rev s))) else None)"

text \<open>The user part of a header: what \<open>emit\<close> does with a field that is not reserved.\<close>

definition emit_metadata :: "string \<Rightarrow> string \<Rightarrow> decodeState \<Rightarrow> decodeState" where
  "emit_metadata name value st =
    (case (if name = ''user-agent'' then map_option (\<lambda>i. take i value) (LastIndex value (CHR '' '')) else Some value) of
       None \<Rightarrow> st
     | Some v \<Rightarrow> (case DecodeKeyValue name v of
         None \<Rightarrow> st
       | Some (k, w) \<Rightarrow> st\<lparr>ds_mdata := md_append (ds_mdata st) k w\<rparr>))"

text \<open>The callback of \<open>newHPACKDecoder\<close> on one field: the error it records, if any, and the state.\<close>

definition emit_field :: "string \<Rightarrow> string \<Rightarrow> decodeState \<Rightarrow> (rpc_error option \<times> decodeState) go" where
  "emit_field name value st =
    (if name = ''content-type'' then
       Ret (if Contains value ''application/grpc'' then None
            else Some (StreamError FailedPrecondition ''transport: received the unexpected header''), st)
     else if name = ''grpc-status'' then
       (case ParseInt10 value of
          Inl err \<Rightarrow> Ret (Some (StreamError Code.Internal (''transport: malformed grpc-status: '' @ Error err)), st)
        | Inr code \<Rightarrow> Ret (None, st\<lparr>ds_statusCode := word_of_int code\<rparr>))
     else if name = ''grpc-message'' then Ret (None, st\<lparr>ds_statusDesc := value\<rparr>)
     else if name = ''grpc-timeout'' then
       (case timeoutDecode value of
          Inl err \<Rightarrow> Ret (Some (StreamError Code.Internal (''transport: malformed time-out: '' @ Error err)),
            st\<lparr>ds_timeoutSet := True, ds_timeout := 0\<rparr>)
        | Inr t \<Rightarrow> Ret (None, st\<lparr>ds_timeoutSet := True, ds_timeout := t\<rparr>))
     else if name = '':path'' then Ret (None, st\<lparr>ds_method := value\<rparr>)
     else go_bind (isReservedHeader name) (\<lambda>r. Ret (None, if r then st else emit_metadata name value st)))"

definition str :: "bytes \<Rightarrow> string" where
  "str b = map char_of_byte b"

definition emit_header :: "HeaderField \<Rightarrow> hpackDecoder \<Rightarrow> hpackDecoder go" where
  "emit_header f d = go_bind (emit_field (str (hf_Name f)) (str (hf_Value f)) (hd_state d)) (\<lambda>(e, st).
     Ret (d\<lparr>hd_state := st, hd_err := (case e of None \<Rightarrow> hd_err d | Some _ \<Rightarrow> e)\<rparr>))"

primrec emit_headers :: "HeaderField list \<Rightarrow> hpackDecoder \<Rightarrow> hpackDecoder go" where
  "emit_headers [] d = Ret d"
| "emit_headers (f # fs) d = go_bind (emit_header f d) (emit_headers fs)"

definition http2InitHeaderTableSize :: "32 word" where "http2InitHeaderTableSize = 4096"

definition newHPACKDecoder :: "hpackDecoder go" where
  "newHPACKDecoder = go_bind (NewDecoder http2InitHeaderTableSize) (\<lambda>h. Ret \<lparr>hd_h = h, hd_state = noState, hd_err = None\<rparr>)"

definition hpack_message :: "hpack_error \<Rightarrow> string" where
  "hpack_message e = (case e of
     errNeedMore \<Rightarrow> ''need more data''
   | DecodingError m \<Rightarrow> ''decoding error: '' @ m
   | InvalidIndexError i \<Rightarrow> ''decoding error: invalid indexed representation index '' @ show_int i
   | PlainError g \<Rightarrow> Error g)"

text \<open>
  \<open>decodeClientHTTP2Headers\<close> and \<open>decodeServerHTTP2Headers\<close> on the fragment of a frame and its flag for the
  end of the headers. The fields are given to the callback after \<open>Write\<close> has returned; the callback
  touches nothing \<open>Write\<close> uses. The two functions are the same text in the source.
\<close>

definition decodeHTTP2Headers ::
    "bytes \<Rightarrow> bool \<Rightarrow> hpackDecoder \<Rightarrow> ((bool \<times> rpc_error option) \<times> hpackDecoder) go option" where
  "decodeHTTP2Headers fragment ended d =
    run_bind (d_Write (hd_h d) fragment) (\<lambda>(h1, fields, werr).
    run_bind (Some (emit_headers fields (d\<lparr>hd_h := h1, hd_err := None\<rparr>))) (\<lambda>d1.
      let err = map_option (\<lambda>e. StreamError Code.Internal (''transport: HPACK header decode error: '' @ hpack_message e)) werr;
          (h2, cerr) = (if ended then d_Close (hd_h d1) else (hd_h d1, None));
          err1 = (if err = None
            then map_option (\<lambda>e. StreamError Code.Internal (''transport: HPACK decoder close error: '' @ hpack_message e)) cerr else err);
          err2 = (if err1 = None then hd_err d1 else err1) in
      Some (Ret ((ended, err2), d1\<lparr>hd_h := h2\<rparr>))))"

definition http2RSTErrConvTab :: "ErrCode \<Rightarrow> Code option" where
  "http2RSTErrConvTab c =
    (if c \<in> {ErrCodeNo, ErrCodeProtocol, ErrCodeInternal, ErrCodeSettingsTimeout, ErrCodeFrameSize, ErrCodeCompression,
        ErrCodeConnect} then Some Code.Internal
     else if c = ErrCodeFlowControl \<or> c = ErrCodeEnhanceYourCalm then Some ResourceExhausted
     else if c = ErrCodeRefusedStream then Some Unavailable
     else if c = ErrCodeCancel then Some Canceled
     else if c = ErrCodeInadequateSecurity then Some PermissionDenied
     else None)"

text \<open>A code that is not in the table gives the zero value, \<open>ErrCodeNo\<close>.\<close>

definition statusCodeConvTab :: "Code \<Rightarrow> ErrCode" where
  "statusCodeConvTab c = (case c of
     Code.Internal \<Rightarrow> ErrCodeInternal
   | Canceled \<Rightarrow> ErrCodeCancel
   | Unavailable \<Rightarrow> ErrCodeRefusedStream
   | ResourceExhausted \<Rightarrow> ErrCodeEnhanceYourCalm
   | PermissionDenied \<Rightarrow> ErrCodeInadequateSecurity
   | _ \<Rightarrow> ErrCodeNo)"

text \<open>
  A header block of three bytes, a literal with an empty name, makes the callback of a new
  connection index an empty string: a peer can stop the process that reads it, scheduler or executor.
\<close>

theorem empty_header_name_panics:
  "\<exists>d m. newHPACKDecoder = Ret d \<and> decodeHTTP2Headers [0x00, 0x00, 0x00] ended d = Some (Panic m)"
proof -
  have "table_ok (emptyTable\<lparr>allowedMaxSize := http2InitHeaderTableSize\<rparr>)" by (simp add: table_ok_def emptyTable_def)
  then obtain dt where "setMaxSize http2InitHeaderTableSize (emptyTable\<lparr>allowedMaxSize := http2InitHeaderTableSize\<rparr>) = Ret dt"
    using setMaxSize_fit by blast
  then have d: "NewDecoder http2InitHeaderTableSize = Ret \<lparr>d_dynTab = dt, emitEnabled = True, maxStrLen = 0, saveBuf = []\<rparr>"
    by (simp add: NewDecoder_def)
  have "emit_headers [\<lparr>hf_Name = [], hf_Value = [], hf_Sensitive = False\<rparr>] hd = Panic ''runtime error: index out of range''" for hd
    by (simp add: emit_header_def emit_field_def str_def isReservedHeader_def)
  with d show ?thesis
    by (simp add: newHPACKDecoder_def decodeHTTP2Headers_def d_Write_def write_loop.simps parseHeaderFieldRepr_def
        parseFieldLiteral_def literal_name_def literal_done_def callEmit_def readString_def readVarInt_def string_bytes_def Let_def
        indexed_def sensitive_def)
qed

end
