(* ===== verification/Transport.thy ===== *)
theory Transport
  imports Prelude
begin

text \<open>
  The flow control of gRPC's HTTP/2 transport: the quota pools that meter what is sent
  (\<open>transport/control.go\<close>, \<open>http2Client.Write\<close>), the windows that meter what is received, the queue
  between the reader of the connection and a stream (\<open>transport/transport.go\<close>), and the window of
  \<open>golang.org/x/net/http2\<close>. Every method holds its lock from start to end, so each is one step; a
  channel of capacity one is an option.
\<close>

section \<open>Quota pools\<close>

text \<open>Quotas are 64-bit; they are sums of 32-bit window increments and stay far from overflow.\<close>

record quotaPool =
  qp_c :: "int option"
  qp_quota :: int

definition newQuotaPool :: "int \<Rightarrow> quotaPool" where
  "newQuotaPool q = (if 0 < q then \<lparr>qp_c = Some q, qp_quota = 0\<rparr> else \<lparr>qp_c = None, qp_quota = q\<rparr>)"

definition qp_offer :: "quotaPool \<Rightarrow> quotaPool" where
  "qp_offer qb =
    (if qp_quota qb \<le> 0 then qb
     else case qp_c qb of
       None \<Rightarrow> qb\<lparr>qp_c := Some (qp_quota qb), qp_quota := 0\<rparr>
     | Some _ \<Rightarrow> qb)"

definition qp_add :: "int \<Rightarrow> quotaPool \<Rightarrow> quotaPool" where
  "qp_add n qb = qp_offer (qb\<lparr>qp_quota := qp_quota qb + n\<rparr>)"

definition qp_cancel :: "quotaPool \<Rightarrow> quotaPool" where
  "qp_cancel qb = (case qp_c qb of
     Some n \<Rightarrow> qb\<lparr>qp_c := None, qp_quota := qp_quota qb + n\<rparr>
   | None \<Rightarrow> qb)"

definition qp_reset :: "int \<Rightarrow> quotaPool \<Rightarrow> quotaPool" where
  "qp_reset v qb = (let qb' = qp_cancel qb in qp_offer (qb'\<lparr>qp_quota := qp_quota qb' + v\<rparr>))"

text \<open>Receiving from the channel \<open>acquire\<close> returns; \<open>None\<close> is a receive that blocks.\<close>

definition qp_acquire :: "quotaPool \<Rightarrow> (int \<times> quotaPool) option" where
  "qp_acquire qb = map_option (\<lambda>n. (n, qb\<lparr>qp_c := None\<rparr>)) (qp_c qb)"

definition qp_ok :: "quotaPool \<Rightarrow> bool" where
  "qp_ok qb = (case qp_c qb of None \<Rightarrow> True | Some n \<Rightarrow> 0 < n \<and> 0 \<le> qp_quota qb)"

definition qp_total :: "quotaPool \<Rightarrow> int" where
  "qp_total qb = qp_quota qb + (case qp_c qb of None \<Rightarrow> 0 | Some n \<Rightarrow> n)"

text \<open>
  What a sender relies on in a pool: a pool is a counter; adding adds, what is acquired is positive,
  never more than there is, and taken off, and when there is some, a pool that was poked gives it.
\<close>

locale quota_pool =
  fixes ok :: "'q \<Rightarrow> bool" and total :: "'q \<Rightarrow> int" and add :: "int \<Rightarrow> 'q \<Rightarrow> 'q"
    and cancel :: "'q \<Rightarrow> 'q" and acquire :: "'q \<Rightarrow> (int \<times> 'q) option"
  assumes add_ok: "ok q \<Longrightarrow> 0 \<le> n \<Longrightarrow> ok (add n q)"
    and add_total: "total (add n q) = total q + n"
    and cancel_ok: "ok (cancel q)"
    and cancel_total: "total (cancel q) = total q"
    and acquire_ok: "ok q \<Longrightarrow> acquire q = Some (n, q') \<Longrightarrow> ok q' \<and> 0 < n \<and> n \<le> total q"
    and acquire_total: "acquire q = Some (n, q') \<Longrightarrow> total q' = total q - n"
    and acquire_ready: "0 < total q \<Longrightarrow> acquire (add 0 q) \<noteq> None"
begin

lemma poke_facts:
  assumes "ok q" and "acquire (add 0 q) = Some (n, q')"
  shows "ok q'" "0 < n" "n \<le> total q" "total q' = total q - n"
  using acquire_ok [OF add_ok [OF assms(1)] assms(2)] acquire_total [OF assms(2)] add_total [of 0 q] by auto

lemma give_back:
  assumes "ok q" and "m \<le> n"
  shows "ok (if m < n then add (n - m) q else q)" "total (if m < n then add (n - m) q else q) = total q + (n - m)"
  using assms by (simp_all add: add_ok add_total)

end

lemmas qp_defs = qp_add_def qp_offer_def qp_cancel_def qp_reset_def qp_acquire_def qp_ok_def qp_total_def

interpretation qp: quota_pool qp_ok qp_total qp_add qp_cancel qp_acquire
  by unfold_locales (auto simp: qp_defs split: option.splits if_splits)

lemma qp_reset_ok: "qp_ok (qp_reset v qb)" "qp_total (qp_reset v qb) = qp_total qb + v"
  by (auto simp: qp_defs Let_def split: option.splits)

lemma newQuotaPool_ok: "qp_ok (newQuotaPool q)" "qp_total (newQuotaPool q) = q"
  by (simp_all add: newQuotaPool_def qp_ok_def qp_total_def)


section \<open>Writing a message\<close>

definition http2MaxFrameLen :: nat where
  "http2MaxFrameLen = 16384"

text \<open>
  One data frame of \<open>Write\<close>, with the stream's quota \<open>sq\<close> and the transport's \<open>tq\<close> in hand: what is
  sent, what is left, and the two pools after the overbooked quota is returned.
\<close>

definition overbooked :: "int \<Rightarrow> nat \<Rightarrow> quotaPool \<Rightarrow> quotaPool" where
  "overbooked q ps pool = (if int ps < q then qp_add (q - int ps) pool else pool)"

definition write_frame ::
  "'a list \<Rightarrow> int \<Rightarrow> int \<Rightarrow> quotaPool \<Rightarrow> quotaPool \<Rightarrow> 'a list \<times> 'a list \<times> quotaPool \<times> quotaPool" where
  "write_frame r sq tq sp tp =
    (let size0 = int http2MaxFrameLen;
         size1 = (if sq < size0 then sq else size0);
         size = (if tq < size1 then tq else size1);
         p = take (nat size) r; ps = length p in
     (p, drop (nat size) r, overbooked sq ps sp, overbooked tq ps tp))"

record 'a out_stream =
  os_pool :: quotaPool
  os_held :: "int option"
  os_left :: "'a list"
  os_sent :: "'a list"
  os_granted :: int

record 'a out_conn =
  oc_pool :: quotaPool
  oc_sent :: nat
  oc_granted :: int
  oc_streams :: "nat \<Rightarrow> 'a out_stream"

text \<open>
  The writers and the reader of window updates. A writer first takes quota of its stream, then waits
  for quota of the transport; in between anything may happen. Each of its three waits may end because
  the call was cancelled or the transport is closing; a writer that gives up while it waits for the
  right to write has already paid for the frame it does not send. \<open>os_granted\<close> and \<open>oc_granted\<close> count
  what the peer has allowed so far.
\<close>

inductive write_step :: "'a out_conn \<Rightarrow> 'a out_conn \<Rightarrow> bool" where
  conn_update: "write_step w (w\<lparr>oc_pool := qp_add (int n) (oc_pool w), oc_granted := oc_granted w + int n\<rparr>)"
| stream_update: "s = oc_streams w i \<Longrightarrow>
    write_step w (w\<lparr>oc_streams := (oc_streams w)(i := s\<lparr>os_pool := qp_add (int n) (os_pool s), os_granted := os_granted s + int n\<rparr>)\<rparr>)"
| take_stream: "s = oc_streams w i \<Longrightarrow> os_held s = None \<Longrightarrow> os_left s \<noteq> [] \<Longrightarrow>
    qp_acquire (qp_add 0 (os_pool s)) = Some (sq, sp) \<Longrightarrow>
    write_step w (w\<lparr>oc_streams := (oc_streams w)(i := s\<lparr>os_held := Some sq, os_pool := sp\<rparr>)\<rparr>)"
| frame: "s = oc_streams w i \<Longrightarrow> os_held s = Some sq \<Longrightarrow> qp_acquire (qp_add 0 (oc_pool w)) = Some (tq, tp) \<Longrightarrow>
    write_frame (os_left s) sq tq (os_pool s) tp = (p, r, sp', tp') \<Longrightarrow>
    write_step w (w\<lparr>oc_pool := tp', oc_sent := oc_sent w + length p,
      oc_streams := (oc_streams w)(i := s\<lparr>os_held := None, os_left := r, os_sent := os_sent s @ p, os_pool := sp'\<rparr>)\<rparr>)"
| no_stream_quota: "s = oc_streams w i \<Longrightarrow> os_held s = None \<Longrightarrow>
    write_step w (w\<lparr>oc_streams := (oc_streams w)(i := s\<lparr>os_left := []\<rparr>)\<rparr>)"
| no_conn_quota: "s = oc_streams w i \<Longrightarrow> os_held s = Some sq \<Longrightarrow>
    write_step w (w\<lparr>oc_pool := (if streamError then qp_cancel (oc_pool w) else oc_pool w),
      oc_streams := (oc_streams w)(i := s\<lparr>os_held := None, os_left := []\<rparr>)\<rparr>)"
| not_writable: "s = oc_streams w i \<Longrightarrow> os_held s = Some sq \<Longrightarrow> qp_acquire (qp_add 0 (oc_pool w)) = Some (tq, tp) \<Longrightarrow>
    write_frame (os_left s) sq tq (os_pool s) tp = (p, r, sp', tp') \<Longrightarrow>
    write_step w (w\<lparr>oc_pool := tp',
      oc_streams := (oc_streams w)(i := s\<lparr>os_held := None, os_left := [], os_pool := sp'\<rparr>)\<rparr>)"

inductive_cases write_stepE: "write_step w w'"

definition os_ok :: "'a out_stream \<Rightarrow> bool" where
  "os_ok s \<longleftrightarrow> qp_ok (os_pool s) \<and> 0 \<le> qp_total (os_pool s) \<and>
     (case os_held s of
        None \<Rightarrow> int (length (os_sent s)) + qp_total (os_pool s) \<le> os_granted s
      | Some sq \<Rightarrow> 0 < sq \<and> os_left s \<noteq> [] \<and> int (length (os_sent s)) + sq + qp_total (os_pool s) \<le> os_granted s)"

definition oc_ok :: "'a out_conn \<Rightarrow> bool" where
  "oc_ok w \<longleftrightarrow> qp_ok (oc_pool w) \<and> 0 \<le> qp_total (oc_pool w) \<and> int (oc_sent w) + qp_total (oc_pool w) \<le> oc_granted w \<and> (\<forall>i. os_ok (oc_streams w i))"

lemma overbooked_ok:
  assumes "qp_ok pool" and "int ps \<le> q"
  shows "qp_ok (overbooked q ps pool)" "qp_total (overbooked q ps pool) = qp_total pool + (q - int ps)"
  using qp.give_back [OF assms] by (simp_all add: overbooked_def)

lemma write_frame_facts:
  assumes "write_frame r sq tq sp tp = (p, r', sp', tp')" and "0 < sq" and "0 < tq"
  shows "p @ r' = r" "length p \<le> http2MaxFrameLen" "int (length p) \<le> sq" "int (length p) \<le> tq"
    "sp' = overbooked sq (length p) sp" "tp' = overbooked tq (length p) tp" "r \<noteq> [] \<Longrightarrow> p \<noteq> []"
proof -
  define size where "size = (if tq < (if sq < int http2MaxFrameLen then sq else int http2MaxFrameLen) then tq
    else (if sq < int http2MaxFrameLen then sq else int http2MaxFrameLen))"
  have f: "p = take (nat size) r" "r' = drop (nat size) r" "sp' = overbooked sq (length p) sp" "tp' = overbooked tq (length p) tp"
    using assms(1) by (auto simp: write_frame_def Let_def size_def)
  have z: "0 < size" "size \<le> sq" "size \<le> tq" "size \<le> int http2MaxFrameLen"
    using assms(2,3) by (auto simp: size_def http2MaxFrameLen_def)
  show "p @ r' = r" "sp' = overbooked sq (length p) sp" "tp' = overbooked tq (length p) tp" using f by simp_all
  show "length p \<le> http2MaxFrameLen" "int (length p) \<le> sq" "int (length p) \<le> tq" using f(1) z by auto
  show "p \<noteq> []" if "r \<noteq> []" using f(1) z(1) that by simp
qed

lemma write_step_ok: "write_step w w' \<Longrightarrow> oc_ok w \<Longrightarrow> oc_ok w'"
proof (induction rule: write_step.induct)
  case (stream_update s w i n)
  then have "os_ok s" by (simp add: oc_ok_def)
  then have "os_ok (s\<lparr>os_pool := qp_add (int n) (os_pool s), os_granted := os_granted s + int n\<rparr>)"
    by (auto simp: os_ok_def qp.add_ok qp.add_total split: option.splits)
  with stream_update show ?case by (simp add: oc_ok_def)
next
  case (take_stream s w i sq sp)
  then have "os_ok s" by (simp add: oc_ok_def)
  then have "os_ok (s\<lparr>os_held := Some sq, os_pool := sp\<rparr>)"
    using qp.poke_facts [OF _ take_stream(4)] take_stream(2,3) by (auto simp: os_ok_def)
  with take_stream show ?case by (simp add: oc_ok_def)
next
  case (frame s w i sq tq tp p r sp' tp')
  have s: "os_ok s" and c: "qp_ok (oc_pool w)" using frame by (simp_all add: oc_ok_def)
  have sq: "0 < sq" "qp_ok (os_pool s)" using s frame(2) by (simp_all add: os_ok_def)
  note t = qp.poke_facts [OF c frame(3)]
  note f = write_frame_facts [OF frame(4) sq(1) t(2)]
  have "os_ok (s\<lparr>os_held := None, os_left := r, os_sent := os_sent s @ p, os_pool := sp'\<rparr>)"
    using s frame(2) overbooked_ok [OF sq(2) f(3)] f(3,5) by (simp add: os_ok_def)
  moreover have "qp_ok tp'" "0 \<le> qp_total tp'" "int (oc_sent w + length p) + qp_total tp' \<le> oc_granted w"
    using overbooked_ok [OF t(1) f(4)] f(4,6) t(3,4) frame(5) by (simp_all add: oc_ok_def)
  ultimately show ?case using frame(5) by (simp add: oc_ok_def)
next
  case (no_stream_quota s w i)
  then have "os_ok s" by (simp add: oc_ok_def)
  then have "os_ok (s\<lparr>os_left := []\<rparr>)" using no_stream_quota(2) by (simp add: os_ok_def)
  with no_stream_quota show ?case by (simp add: oc_ok_def)
next
  case (no_conn_quota s w i sq streamError)
  then have "os_ok s" by (simp add: oc_ok_def)
  then have "os_ok (s\<lparr>os_held := None, os_left := []\<rparr>)" using no_conn_quota(2) by (auto simp: os_ok_def)
  with no_conn_quota show ?case by (simp add: oc_ok_def qp.cancel_ok qp.cancel_total)
next
  case (not_writable s w i sq tq tp p r sp' tp')
  have s: "os_ok s" and c: "qp_ok (oc_pool w)" using not_writable by (simp_all add: oc_ok_def)
  have sq: "0 < sq" "qp_ok (os_pool s)" using s not_writable(2) by (simp_all add: os_ok_def)
  note t = qp.poke_facts [OF c not_writable(3)]
  note f = write_frame_facts [OF not_writable(4) sq(1) t(2)]
  have "os_ok (s\<lparr>os_held := None, os_left := [], os_pool := sp'\<rparr>)"
    using s not_writable(2) overbooked_ok [OF sq(2) f(3)] f(3,5) by (simp add: os_ok_def)
  moreover have "qp_ok tp'" "0 \<le> qp_total tp'" "int (oc_sent w) + qp_total tp' \<le> oc_granted w"
    using overbooked_ok [OF t(1) f(4)] f(4,6) t(3,4) not_writable(5) by (simp_all add: oc_ok_def)
  ultimately show ?case using not_writable(5) by (simp add: oc_ok_def)
qed (simp add: oc_ok_def qp.add_ok qp.add_total)

definition carries :: "(nat \<Rightarrow> 'a list) \<Rightarrow> 'a out_conn \<Rightarrow> bool" where
  "carries msg w = (\<forall>i. prefix (os_sent (oc_streams w i)) (msg i) \<and>
     (os_left (oc_streams w i) \<noteq> [] \<longrightarrow> os_sent (oc_streams w i) @ os_left (oc_streams w i) = msg i))"

lemma write_step_carries: "write_step w w' \<Longrightarrow> oc_ok w \<Longrightarrow> carries msg w \<Longrightarrow> carries msg w'"
proof (induction rule: write_step.induct)
  case (frame s w i sq tq tp p r sp' tp')
  have s: "os_ok s" and c: "qp_ok (oc_pool w)" using frame by (simp_all add: oc_ok_def)
  then have sq: "0 < sq" "os_left s \<noteq> []" using frame(2) by (simp_all add: os_ok_def)
  have "p @ r = os_left s" using write_frame_facts(1) [OF frame(4) sq(1) qp.poke_facts(2) [OF c frame(3)]] .
  moreover have "os_sent s @ os_left s = msg i" using frame(1,6) sq(2) by (simp add: carries_def)
  ultimately have "(os_sent s @ p) @ r = msg i" by simp
  then have "prefix (os_sent s @ p) (msg i)" "(os_sent s @ p) @ r = msg i" by (metis prefixI, assumption)
  with frame show ?case by (simp add: carries_def)
qed (auto simp: carries_def)

definition out_start :: "int \<Rightarrow> (nat \<Rightarrow> int) \<Rightarrow> (nat \<Rightarrow> 'a list) \<Rightarrow> 'a out_conn" where
  "out_start window streamSendQuota msg = \<lparr>oc_pool = newQuotaPool window, oc_sent = 0, oc_granted = window,
     oc_streams = (\<lambda>i. \<lparr>os_pool = newQuotaPool (streamSendQuota i), os_held = None, os_left = msg i, os_sent = [],
       os_granted = streamSendQuota i\<rparr>)\<rparr>"

text \<open>
  C14. Writers never overrun the peer's windows: whatever the order of window updates, of writers
  taking quota, of frames and of writers giving up, the bytes sent on the connection and on each stream
  are at most what the peer has granted, and what a stream has sent is the beginning of its message.
\<close>

theorem writes_stay_in_window:
  assumes "write_step\<^sup>*\<^sup>* (out_start window streamSendQuota msg) w" and "0 \<le> window" and "\<And>i. 0 \<le> streamSendQuota i"
  shows "int (oc_sent w) \<le> oc_granted w \<and>
    (\<forall>i. int (length (os_sent (oc_streams w i))) \<le> os_granted (oc_streams w i) \<and> prefix (os_sent (oc_streams w i)) (msg i))"
proof -
  have "oc_ok (out_start window streamSendQuota msg) \<and> carries msg (out_start window streamSendQuota msg)"
    using assms(2,3) by (simp add: out_start_def oc_ok_def os_ok_def carries_def newQuotaPool_ok)
  with assms(1) have "oc_ok w \<and> carries msg w"
    by (induction rule: rtranclp_induct) (auto dest: write_step_ok write_step_carries)
  moreover have "int (length (os_sent s)) \<le> os_granted s" if "os_ok s" for s :: "'a out_stream"
    using that by (cases "os_held s") (auto simp: os_ok_def)
  ultimately show ?thesis by (auto simp: oc_ok_def carries_def)
qed

text \<open>No wake-up is lost: a writer with something to send goes on as soon as the windows are open.\<close>

lemma open_windows_let_write:
  assumes "oc_ok w" and "s = oc_streams w i" and "0 < qp_total (oc_pool w)"
  shows "os_held s = None \<Longrightarrow> os_left s \<noteq> [] \<Longrightarrow> 0 < qp_total (os_pool s) \<Longrightarrow>
      \<exists>w'. write_step w w' \<and> os_held (oc_streams w' i) \<noteq> None"
    and "os_held s = Some sq \<Longrightarrow> \<exists>w'. write_step w w' \<and> oc_sent w < oc_sent w'"
proof -
  show "\<exists>w'. write_step w w' \<and> os_held (oc_streams w' i) \<noteq> None"
    if h: "os_held s = None" "os_left s \<noteq> []" and q: "0 < qp_total (os_pool s)"
  proof -
    obtain sq sp where "qp_acquire (qp_add 0 (os_pool s)) = Some (sq, sp)"
      using qp.acquire_ready [OF q] by auto
    from write_step.take_stream [OF assms(2) h this] show ?thesis by fastforce
  qed
  show "\<exists>w'. write_step w w' \<and> oc_sent w < oc_sent w'" if "os_held s = Some sq"
  proof -
    obtain tq tp where t: "qp_acquire (qp_add 0 (oc_pool w)) = Some (tq, tp)"
      using qp.acquire_ready [OF assms(3)] by auto
    obtain p r sp' tp' where f: "write_frame (os_left s) sq tq (os_pool s) tp = (p, r, sp', tp')"
      using prod_cases4 by blast
    have "os_ok s" "qp_ok (oc_pool w)" using assms(1,2) by (simp_all add: oc_ok_def)
    then have "0 < sq" "os_left s \<noteq> []" "qp_ok (oc_pool w)" using that by (simp_all add: os_ok_def)
    then have "p \<noteq> []" using write_frame_facts(7) [OF f _ qp.poke_facts(2) [OF _ t]] by blast
    with write_step.frame [OF assms(2) that t f] show ?thesis by fastforce
  qed
qed


section \<open>Inbound windows\<close>

record inFlow =
  fl_limit :: "32 word"
  fl_pendingData :: "32 word"
  fl_pendingUpdate :: "32 word"

datatype flow_error = FlowError gerror | ConnectionErrorf string

definition defaultWindowSize :: "32 word" where "defaultWindowSize = 65535"
definition initialWindowSize :: "32 word" where "initialWindowSize = defaultWindowSize"
definition initialConnWindowSize :: "32 word" where "initialConnWindowSize = defaultWindowSize * 16"

definition exceeds :: "inFlow \<Rightarrow> 32 word \<Rightarrow> gerror option" where
  "exceeds f n =
    (if fl_limit f < fl_pendingData f + fl_pendingUpdate f + n
     then Some (Errorf (''recieved '' @ show_nat (unat (fl_pendingData f + fl_pendingUpdate f + n)) @
       ''-bytes data exceeding the limit '' @ show_nat (unat (fl_limit f)) @ '' bytes''))
     else None)"

text \<open>\<open>onData\<close> on the flow of the connection, and on the flow of a stream with its connection.\<close>

definition conn_onData :: "32 word \<Rightarrow> inFlow \<Rightarrow> gerror option \<times> inFlow" where
  "conn_onData n f =
    (if n = 0 then (None, f)
     else case exceeds f n of
       Some e \<Rightarrow> (Some e, f)
     | None \<Rightarrow> (None, f\<lparr>fl_pendingData := fl_pendingData f + n\<rparr>))"

definition onData :: "32 word \<Rightarrow> inFlow \<Rightarrow> inFlow \<Rightarrow> flow_error option \<times> inFlow \<times> inFlow" where
  "onData n f conn =
    (if n = 0 then (None, f, conn)
     else case exceeds f n of
       Some e \<Rightarrow> (Some (FlowError e), f, conn)
     | None \<Rightarrow> (case conn_onData n conn of
         (Some e, conn') \<Rightarrow> (Some (ConnectionErrorf (Error e)), f, conn')
       | (None, conn') \<Rightarrow> (None, f\<lparr>fl_pendingData := fl_pendingData f + n\<rparr>, conn')))"

definition consume :: "32 word \<Rightarrow> inFlow \<Rightarrow> 32 word \<times> inFlow" where
  "consume n f =
    (let f1 = f\<lparr>fl_pendingData := fl_pendingData f - n, fl_pendingUpdate := fl_pendingUpdate f + n\<rparr> in
     if fl_limit f1 div 4 \<le> fl_pendingUpdate f1 then (fl_pendingUpdate f1, f1\<lparr>fl_pendingUpdate := 0\<rparr>) else (0, f1))"

definition connOnRead :: "32 word \<Rightarrow> inFlow \<Rightarrow> 32 word \<times> inFlow" where
  "connOnRead n f = (if n = 0 then (0, f) else consume n f)"

definition onRead :: "32 word \<Rightarrow> inFlow \<Rightarrow> inFlow \<Rightarrow> (32 word \<times> 32 word) \<times> inFlow \<times> inFlow" where
  "onRead n f conn =
    (if n = 0 \<or> fl_pendingData f = 0 then ((0, 0), f, conn)
     else case consume n f of (swu, f') \<Rightarrow> (case connOnRead n conn of (cwu, conn') \<Rightarrow> ((swu, cwu), f', conn')))"

definition restoreConn :: "inFlow \<Rightarrow> inFlow \<Rightarrow> 32 word \<times> inFlow \<times> inFlow" where
  "restoreConn f conn =
    (case connOnRead (fl_pendingData f) conn of (q, conn') \<Rightarrow>
       (q, f\<lparr>fl_pendingData := 0, fl_pendingUpdate := 0\<rparr>, conn'))"

text \<open>
  The inbound side of a connection. \<open>ic_received\<close> counts the bytes accepted, \<open>ic_granted\<close> the window
  updates of the connection sent back, and \<open>ic_dropped\<close> the bytes of frames for streams that are not
  active, which \<open>handleData\<close> ignores. A frame has at most \<open>2 ^ 24 - 1\<close> bytes, and a stream's reader
  reads no more than it was given.
\<close>

record in_conn =
  ic_conn :: inFlow
  ic_streams :: "nat \<Rightarrow> inFlow"
  ic_ids :: "nat list"
  ic_active :: "nat set"
  ic_received :: nat
  ic_granted :: nat
  ic_dropped :: nat

definition newStream_flow :: inFlow where
  "newStream_flow = \<lparr>fl_limit = initialWindowSize, fl_pendingData = 0, fl_pendingUpdate = 0\<rparr>"

definition in_start :: in_conn where
  "in_start = \<lparr>ic_conn = \<lparr>fl_limit = initialConnWindowSize, fl_pendingData = 0, fl_pendingUpdate = 0\<rparr>,
     ic_streams = (\<lambda>_. newStream_flow), ic_ids = [], ic_active = {}, ic_received = 0, ic_granted = 0, ic_dropped = 0\<rparr>"

inductive flow_step :: "in_conn \<Rightarrow> in_conn \<Rightarrow> bool" where
  open_stream: "i \<notin> set (ic_ids c) \<Longrightarrow>
    flow_step c (c\<lparr>ic_streams := (ic_streams c)(i := newStream_flow), ic_ids := i # ic_ids c, ic_active := insert i (ic_active c)\<rparr>)"
| data: "i \<in> set (ic_ids c) \<Longrightarrow> i \<in> ic_active c \<Longrightarrow> unat n < 2 ^ 24 \<Longrightarrow> onData n (ic_streams c i) (ic_conn c) = (None, f, cf) \<Longrightarrow>
    flow_step c (c\<lparr>ic_streams := (ic_streams c)(i := f), ic_conn := cf, ic_received := ic_received c + unat n\<rparr>)"
| rejected: "i \<in> set (ic_ids c) \<Longrightarrow> i \<in> ic_active c \<Longrightarrow> unat n < 2 ^ 24 \<Longrightarrow>
    onData n (ic_streams c i) (ic_conn c) = (Some (FlowError e), f, cf) \<Longrightarrow>
    flow_step c (c\<lparr>ic_streams := (ic_streams c)(i := f), ic_conn := cf, ic_dropped := ic_dropped c + unat n\<rparr>)"
| unknown: "i \<notin> ic_active c \<Longrightarrow> unat (n :: 32 word) < 2 ^ 24 \<Longrightarrow> flow_step c (c\<lparr>ic_dropped := ic_dropped c + unat n\<rparr>)"
| read_data: "i \<in> set (ic_ids c) \<Longrightarrow> n \<le> fl_pendingData (ic_streams c i) \<or> fl_pendingData (ic_streams c i) = 0 \<Longrightarrow>
    onRead n (ic_streams c i) (ic_conn c) = ((swu, cwu), f, cf) \<Longrightarrow>
    flow_step c (c\<lparr>ic_streams := (ic_streams c)(i := f), ic_conn := cf, ic_granted := ic_granted c + unat cwu\<rparr>)"
| close_stream: "i \<in> set (ic_ids c) \<Longrightarrow> restoreConn (ic_streams c i) (ic_conn c) = (q, f, cf) \<Longrightarrow>
    flow_step c (c\<lparr>ic_streams := (ic_streams c)(i := f), ic_conn := cf, ic_active := ic_active c - {i},
      ic_granted := ic_granted c + unat q\<rparr>)"

definition flow_ok :: "nat \<Rightarrow> inFlow \<Rightarrow> bool" where
  "flow_ok L f \<longleftrightarrow> unat (fl_limit f) = L \<and> unat (fl_pendingData f) + unat (fl_pendingUpdate f) \<le> L \<and>
     unat (fl_pendingUpdate f) < L div 4"

lemma unat_add32: "unat a + unat b < 2 ^ 32 \<Longrightarrow> unat (a + b :: 32 word) = unat a + unat b"
  by (simp add: unat_word_ariths)

lemma exceeds_None:
  assumes "flow_ok L f" and "L < 2 ^ 24" and "unat n < 2 ^ 24" and "exceeds f n = None"
  shows "flow_ok L (f\<lparr>fl_pendingData := fl_pendingData f + n\<rparr>)" "unat (fl_pendingData f + n) = unat (fl_pendingData f) + unat n"
proof -
  have a: "unat (fl_pendingData f + fl_pendingUpdate f) = unat (fl_pendingData f) + unat (fl_pendingUpdate f)"
    using assms(1,2) by (intro unat_add32) (simp add: flow_ok_def)
  moreover have b: "unat (fl_pendingData f + fl_pendingUpdate f + n) = unat (fl_pendingData f) + unat (fl_pendingUpdate f) + unat n"
    using assms(1-3) a by (subst unat_add32) (simp_all add: flow_ok_def)
  moreover show c: "unat (fl_pendingData f + n) = unat (fl_pendingData f) + unat n"
    using assms(1-3) by (intro unat_add32) (simp add: flow_ok_def)
  moreover have "fl_pendingData f + fl_pendingUpdate f + n \<le> fl_limit f"
    using assms(4) by (simp add: exceeds_def not_less split: if_splits)
  ultimately show "flow_ok L (f\<lparr>fl_pendingData := fl_pendingData f + n\<rparr>)"
    using assms(1) by (simp add: flow_ok_def word_le_nat_alt)
qed

lemma consume_facts:
  assumes "flow_ok L f" and "L < 2 ^ 24" and "4 \<le> L" and "n \<le> fl_pendingData f" and "consume n f = (u, f')"
  shows "flow_ok L f'" "unat (fl_pendingData f') = unat (fl_pendingData f) - unat n" "unat n \<le> unat (fl_pendingData f)"
    "unat u + unat (fl_pendingUpdate f') = unat (fl_pendingUpdate f) + unat n"
proof -
  have n: "unat n \<le> unat (fl_pendingData f)" using assms(4) by (simp add: word_le_nat_alt)
  then show "unat n \<le> unat (fl_pendingData f)" .
  have d: "unat (fl_pendingData f - n) = unat (fl_pendingData f) - unat n" using assms(4) by (rule unat_sub)
  have u: "unat (fl_pendingUpdate f + n) = unat (fl_pendingUpdate f) + unat n"
    using assms(1,2) n by (intro unat_add32) (simp add: flow_ok_def)
  have l: "unat (fl_limit f div 4) = L div 4" using assms(1) by (simp add: flow_ok_def unat_div)
  show "flow_ok L f'" "unat (fl_pendingData f') = unat (fl_pendingData f) - unat n"
    "unat u + unat (fl_pendingUpdate f') = unat (fl_pendingUpdate f) + unat n"
    using assms(1,3,5) n d u l
    by (auto simp: consume_def Let_def flow_ok_def word_le_nat_alt split: if_splits)
qed

abbreviation pending :: "inFlow \<Rightarrow> nat" where
  "pending f \<equiv> unat (fl_pendingData f)"

definition streamWindow :: nat where "streamWindow = 65535"
definition connWindow :: nat where "connWindow = 1048560"

definition ic_ok :: "in_conn \<Rightarrow> bool" where
  "ic_ok c \<longleftrightarrow> flow_ok connWindow (ic_conn c) \<and> (\<forall>i \<in> set (ic_ids c). flow_ok streamWindow (ic_streams c i)) \<and>
     (\<Sum>i \<in> set (ic_ids c). pending (ic_streams c i)) = pending (ic_conn c) \<and>
     ic_received c = ic_granted c + pending (ic_conn c) + unat (fl_pendingUpdate (ic_conn c))"

lemma sum_update:
  assumes "finite A" and "i \<in> A"
  shows "(\<Sum>j \<in> A. g ((s(i := f)) j)) + g (s i) = (\<Sum>j \<in> A. g (s j)) + (g f :: nat)"
proof -
  have "(\<Sum>j \<in> A - {i}. g ((s(i := f)) j)) = (\<Sum>j \<in> A - {i}. g (s j))" by (intro sum.cong) auto
  then show ?thesis using sum.remove [OF assms, of "\<lambda>j. g ((s(i := f)) j)"] sum.remove [OF assms, of "\<lambda>j. g (s j)"] by simp
qed

lemma pending_le_conn: "ic_ok c \<Longrightarrow> i \<in> set (ic_ids c) \<Longrightarrow> pending (ic_streams c i) \<le> pending (ic_conn c)"
  using member_le_sum [of i "set (ic_ids c)" "\<lambda>i. pending (ic_streams c i)"] by (simp add: ic_ok_def)

text \<open>Replacing one stream and the connection keeps the invariant when their changes agree.\<close>

lemma ic_ok_update:
  assumes "ic_ok c" and "i \<in> set (ic_ids c)" and "flow_ok streamWindow f" and "flow_ok connWindow cf"
    and "pending cf + pending (ic_streams c i) = pending (ic_conn c) + pending f"
    and "rc = gr + pending cf + unat (fl_pendingUpdate cf)"
  shows "ic_ok (c\<lparr>ic_streams := (ic_streams c)(i := f), ic_conn := cf, ic_received := rc, ic_granted := gr\<rparr>)"
  using assms sum_update [of "set (ic_ids c)" i pending "ic_streams c" f] by (auto simp: ic_ok_def)

lemma windows: "streamWindow < 2 ^ 24" "connWindow < 2 ^ 24" "4 \<le> streamWindow" "4 \<le> connWindow"
  by (simp_all add: streamWindow_def connWindow_def)

lemma onData_facts:
  assumes "ic_ok c" and "i \<in> set (ic_ids c)" and "unat n < 2 ^ 24" and "onData n (ic_streams c i) (ic_conn c) = (None, f, cf)"
  shows "flow_ok streamWindow f" "flow_ok connWindow cf" "pending f = pending (ic_streams c i) + unat n"
    "pending cf = pending (ic_conn c) + unat n" "fl_pendingUpdate cf = fl_pendingUpdate (ic_conn c)"
proof -
  have s: "flow_ok streamWindow (ic_streams c i)" "flow_ok connWindow (ic_conn c)" using assms(1,2) by (simp_all add: ic_ok_def)
  show "flow_ok streamWindow f" "flow_ok connWindow cf" "pending f = pending (ic_streams c i) + unat n"
    "pending cf = pending (ic_conn c) + unat n" "fl_pendingUpdate cf = fl_pendingUpdate (ic_conn c)"
    using assms(4) s exceeds_None [OF s(1) windows(1) assms(3)] exceeds_None [OF s(2) windows(2) assms(3)]
    by (auto simp: onData_def conn_onData_def split: if_splits option.splits)
qed

lemma connOnRead_facts:
  assumes "flow_ok connWindow cf0" and "unat n \<le> pending cf0" and "connOnRead n cf0 = (q, cf)"
  shows "flow_ok connWindow cf" "pending cf = pending cf0 - unat n"
    "unat q + unat (fl_pendingUpdate cf) = unat (fl_pendingUpdate cf0) + unat n"
proof -
  have n: "n \<le> fl_pendingData cf0" using assms(2) by (simp add: word_le_nat_alt)
  show "flow_ok connWindow cf" "pending cf = pending cf0 - unat n"
    "unat q + unat (fl_pendingUpdate cf) = unat (fl_pendingUpdate cf0) + unat n"
    using assms(1,3) consume_facts [OF assms(1) windows(2,4) n, of q cf] by (auto simp: connOnRead_def split: if_splits)
qed

lemma flow_step_ok: "flow_step c c' \<Longrightarrow> ic_ok c \<Longrightarrow> ic_ok c'"
proof (induction rule: flow_step.induct)
  case (open_stream i c)
  have "(\<Sum>j \<in> set (ic_ids c). pending (((ic_streams c)(i := newStream_flow)) j)) = (\<Sum>j \<in> set (ic_ids c). pending (ic_streams c j))"
    using open_stream(1) by (intro sum.cong) auto
  with open_stream show ?case
    by (auto simp: ic_ok_def newStream_flow_def initialWindowSize_def defaultWindowSize_def flow_ok_def streamWindow_def)
next
  case (data i c n f cf)
  note f = onData_facts [OF data(5,1,3,4)]
  have "ic_received c + unat n = ic_granted c + pending cf + unat (fl_pendingUpdate cf)"
    using data(5) f(4,5) by (simp add: ic_ok_def)
  from ic_ok_update [OF data(5,1) f(1,2) _ this] f(3,4) show ?case by simp
next
  case (rejected i c n e f cf)
  then have "f = ic_streams c i" "cf = ic_conn c"
    by (auto simp: onData_def conn_onData_def split: if_splits option.splits)
  with rejected(5) show ?case by (simp add: ic_ok_def)
next
  case (read_data i c n swu cwu f cf)
  have s: "flow_ok streamWindow (ic_streams c i)" "flow_ok connWindow (ic_conn c)"
    using read_data(1,4) by (simp_all add: ic_ok_def)
  show ?case
  proof (cases "n = 0 \<or> fl_pendingData (ic_streams c i) = 0")
    case True
    with read_data(3,4) show ?thesis by (auto simp: onRead_def)
  next
    case False
    then obtain cs where cs: "consume n (ic_streams c i) = (swu, f)" "connOnRead n (ic_conn c) = (cwu, cf)"
      using read_data(3) by (auto simp: onRead_def split: prod.splits)
    have n: "n \<le> fl_pendingData (ic_streams c i)" using read_data(2) False by simp
    note f = consume_facts [OF s(1) windows(1,3) n cs(1)]
    have "unat n \<le> pending (ic_conn c)" using f(3) pending_le_conn [OF read_data(4,1)] by simp
    note g = connOnRead_facts [OF s(2) this cs(2)]
    have "ic_received c = ic_granted c + unat cwu + pending cf + unat (fl_pendingUpdate cf)"
      using read_data(4) g(2,3) \<open>unat n \<le> pending (ic_conn c)\<close> by (simp add: ic_ok_def)
    from ic_ok_update [OF read_data(4,1) f(1) g(1) _ this] f(2,3) g(2) \<open>unat n \<le> pending (ic_conn c)\<close>
    show ?thesis by simp
  qed
next
  case (close_stream i c q f cf)
  have s: "flow_ok streamWindow (ic_streams c i)" "flow_ok connWindow (ic_conn c)"
    using close_stream(1,3) by (simp_all add: ic_ok_def)
  have cs: "connOnRead (fl_pendingData (ic_streams c i)) (ic_conn c) = (q, cf)"
      "f = (ic_streams c i)\<lparr>fl_pendingData := 0, fl_pendingUpdate := 0\<rparr>"
    using close_stream(2) by (auto simp: restoreConn_def split: prod.splits)
  note p = pending_le_conn [OF close_stream(3,1)]
  note g = connOnRead_facts [OF s(2) p cs(1)]
  have fok: "flow_ok streamWindow f" using s(1) cs(2) windows by (auto simp: flow_ok_def streamWindow_def)
  have rc: "ic_received c = ic_granted c + unat q + pending cf + unat (fl_pendingUpdate cf)"
    using close_stream(3) g(2,3) p by (simp add: ic_ok_def)
  have "pending cf + pending (ic_streams c i) = pending (ic_conn c) + pending f" using g(2) p cs(2) by simp
  from ic_ok_update [OF close_stream(3,1) fok g(1) this rc] show ?case by (simp add: ic_ok_def)
qed (simp add: ic_ok_def)

lemma flow_reachable_ok: "flow_step\<^sup>*\<^sup>* in_start c \<Longrightarrow> ic_ok c"
proof (induction rule: rtranclp_induct)
  case base
  show ?case
    by (simp add: in_start_def ic_ok_def flow_ok_def connWindow_def initialConnWindowSize_def defaultWindowSize_def)
qed (auto dest: flow_step_ok)


text \<open>
  Bytes of frames for streams that are no longer active are never granted back: enough of them close
  the window of the connection for good, although nothing is left to read.
\<close>

lemma ignored_data_closes_window:
  "\<exists>c. flow_step\<^sup>*\<^sup>* in_start c \<and> fl_pendingData (ic_conn c) = 0 \<and>
     ic_received c + ic_dropped c = ic_granted c + connWindow"
proof -
  have "flow_step in_start (in_start\<lparr>ic_dropped := ic_dropped in_start + unat (1048560 :: 32 word)\<rparr>)"
    by (rule flow_step.unknown [of 1]) (simp_all add: in_start_def)
  then show ?thesis
    by (intro exI [of _ "in_start\<lparr>ic_dropped := ic_dropped in_start + unat (1048560 :: 32 word)\<rparr>"])
      (simp add: in_start_def connWindow_def r_into_rtranclp)
qed


section \<open>The queue of a stream\<close>

record 'a recvBuffer =
  rb_c :: "'a option"
  rb_backlog :: "'a list"

definition newRecvBuffer :: "'a recvBuffer" where
  "newRecvBuffer = \<lparr>rb_c = None, rb_backlog = []\<rparr>"

definition rb_load :: "'a recvBuffer \<Rightarrow> 'a recvBuffer" where
  "rb_load b = (case rb_backlog b of
     [] \<Rightarrow> b
   | r # rs \<Rightarrow> (case rb_c b of None \<Rightarrow> b\<lparr>rb_c := Some r, rb_backlog := rs\<rparr> | Some _ \<Rightarrow> b))"

definition rb_put :: "'a \<Rightarrow> 'a recvBuffer \<Rightarrow> 'a recvBuffer" where
  "rb_put r b = rb_load (b\<lparr>rb_backlog := rb_backlog b @ [r]\<rparr>)"

definition rb_get :: "'a recvBuffer \<Rightarrow> ('a \<times> 'a recvBuffer) option" where
  "rb_get b = map_option (\<lambda>r. (r, b\<lparr>rb_c := None\<rparr>)) (rb_c b)"

definition rb_queue :: "'a recvBuffer \<Rightarrow> 'a list" where
  "rb_queue b = (case rb_c b of None \<Rightarrow> [] | Some r \<Rightarrow> [r]) @ rb_backlog b"

lemmas rb_defs = rb_load_def rb_put_def rb_get_def rb_queue_def

text \<open>
  Puts, receives and loads in any order; between a receive and the load that follows it, the reader of
  the connection may put.
\<close>

datatype 'a rb_op = RPut 'a | RGet | RLoad

fun rb_run :: "'a rb_op list \<Rightarrow> 'a recvBuffer \<Rightarrow> 'a list \<times> 'a recvBuffer" where
  "rb_run [] b = ([], b)"
| "rb_run (RPut r # ops) b = rb_run ops (rb_put r b)"
| "rb_run (RLoad # ops) b = rb_run ops (rb_load b)"
| "rb_run (RGet # ops) b = (case rb_get b of
     None \<Rightarrow> rb_run ops b
   | Some (r, b') \<Rightarrow> (case rb_run ops b' of (rs, b'') \<Rightarrow> (r # rs, b'')))"

fun puts :: "'a rb_op list \<Rightarrow> 'a list" where
  "puts [] = []"
| "puts (RPut r # ops) = r # puts ops"
| "puts (RGet # ops) = puts ops"
| "puts (RLoad # ops) = puts ops"

lemma rb_queue_ops: "rb_queue (rb_put r b) = rb_queue b @ [r]" "rb_queue (rb_load b) = rb_queue b"
  "rb_get b = Some (x, b') \<Longrightarrow> rb_queue b = x # rb_queue b'"
  by (auto simp: rb_defs split: option.splits list.splits)

lemma rb_run_queue: "rb_run ops b = (rs, b') \<Longrightarrow> rs @ rb_queue b' = rb_queue b @ puts ops"
proof (induction ops b arbitrary: rs b' rule: rb_run.induct)
  case (4 ops b)
  then show ?case
    by (auto simp: rb_queue_ops(3) split: option.splits prod.splits)
qed (simp_all add: rb_queue_ops)

text \<open>
  C21. The buffer between the connection and a stream is a queue: under every interleaving of puts,
  receives and loads the received items, followed by those still in the buffer, are the items put, in
  order; and when the reader has loaded after its last receive, an item that is there can be received.
\<close>

theorem recvBuffer_is_queue:
  "(case rb_run ops newRecvBuffer of (rs, b) \<Rightarrow> rs @ rb_queue b = puts ops \<and>
     (rb_queue b = [] \<or> (\<exists>r b'. rb_get (rb_load b) = Some (r, b'))))"
proof (cases "rb_run ops newRecvBuffer")
  case (Pair rs b)
  have "rb_queue newRecvBuffer = []" by (simp add: newRecvBuffer_def rb_queue_def)
  with rb_run_queue [OF Pair] Pair show ?thesis by (auto simp: rb_defs split: option.splits list.splits)
qed


section \<open>The window of \<open>x/net/http2\<close>\<close>

record h2flow =
  h2_n :: int32
  h2_conn :: "int32 option"

definition h2_available :: "h2flow \<Rightarrow> int32" where
  "h2_available f = (case h2_conn f of None \<Rightarrow> h2_n f | Some c \<Rightarrow> if sint c < sint (h2_n f) then c else h2_n f)"

definition h2_take :: "int32 \<Rightarrow> h2flow \<Rightarrow> h2flow go" where
  "h2_take n f = (if sint (h2_available f) < sint n then Panic ''internal error: took too much''
     else Ret \<lparr>h2_n = h2_n f - n, h2_conn = map_option (\<lambda>c. c - n) (h2_conn f)\<rparr>)"

definition h2_add :: "int32 \<Rightarrow> h2flow \<Rightarrow> bool \<times> h2flow" where
  "h2_add n f = (let remain = 0x7fffffff - h2_n f in
     if sint remain < sint n then (False, f) else (True, f\<lparr>h2_n := h2_n f + n\<rparr>))"

lemma sint32_sub: "- (2 ^ 31) \<le> sint a - sint b \<Longrightarrow> sint a - sint b < 2 ^ 31 \<Longrightarrow> sint (a - b :: int32) = sint a - sint b"
  by (simp add: sint_word_ariths signed_take_bit_int_eq_self)

lemma sint32_add: "- (2 ^ 31) \<le> sint a + sint b \<Longrightarrow> sint a + sint b < 2 ^ 31 \<Longrightarrow> sint (a + b :: int32) = sint a + sint b"
  by (simp add: sint_word_ariths signed_take_bit_int_eq_self)

text \<open>
  The window of a stream or connection is exact while it is not negative: an increment is accepted
  exactly when the sum fits in 31 bits, and then the window grows by it; taking panics exactly when more
  is taken than is available in the window and in that of the connection, and otherwise lowers both.
\<close>

theorem h2flow_exact:
  assumes "0 \<le> sint (h2_n f)" and "0 \<le> sint k" and "h2_conn f = Some c"
  shows "fst (h2_add n f) = (sint (h2_n f) + sint n \<le> 2 ^ 31 - 1) \<and>
    sint (h2_n (snd (h2_add n f))) = (if fst (h2_add n f) then sint (h2_n f) + sint n else sint (h2_n f)) \<and>
    (case h2_take k f of
       Panic _ \<Rightarrow> min (sint c) (sint (h2_n f)) < sint k
     | Ret f' \<Rightarrow> sint k \<le> min (sint c) (sint (h2_n f)) \<and> sint (h2_n f') = sint (h2_n f) - sint k \<and>
         map_option sint (h2_conn f') = Some (sint c - sint k))"
proof -
  note b = sint32_bounds [of "h2_n f"] sint32_bounds [of n] sint32_bounds [of k] sint32_bounds [of c]
  have "sint (0x7fffffff :: int32) = 2 ^ 31 - 1" by simp
  then have r: "sint (0x7fffffff - h2_n f) = 2 ^ 31 - 1 - sint (h2_n f)"
    using assms(1) b sint32_sub [of "0x7fffffff" "h2_n f"] by simp
  have a: "sint (h2_n f + n) = sint (h2_n f) + sint n" if "sint (h2_n f) + sint n \<le> 2 ^ 31 - 1"
    using that assms(1) b by (intro sint32_add) auto
  have m: "sint (h2_available f) = min (sint c) (sint (h2_n f))" by (simp add: h2_available_def assms(3) min_def)
  have t: "sint (h2_n f - k) = sint (h2_n f) - sint k" "sint (c - k) = sint c - sint k" if "sint k \<le> min (sint c) (sint (h2_n f))"
    using that assms(2) b by (intro sint32_sub; simp)+
  show ?thesis using r a m t assms(3) by (auto simp: h2_add_def h2_take_def Let_def not_less)
qed

text \<open>
  A window made negative by a smaller initial window size: the room left is computed with a wrap, and
  every increment is refused.
\<close>

lemma h2_add_refuses_negative_window:
  "h2_add 100 \<lparr>h2_n = - 1, h2_conn = None\<rparr> = (False, \<lparr>h2_n = - 1, h2_conn = None\<rparr>)"
  by (simp add: h2_add_def Let_def)

text \<open>
  \<open>applySettings\<close> on a stream: the difference of the window sizes is computed on unsigned 32-bit
  numbers, so a smaller window gives the stream four gigabytes of quota instead of taking some away.
\<close>

definition applyInitialWindowSize :: "32 word \<Rightarrow> 32 word \<Rightarrow> quotaPool \<Rightarrow> quotaPool" where
  "applyInitialWindowSize val streamSendQuota pool = qp_reset (int (unat (val - streamSendQuota))) pool"

lemma smaller_window_grants_quota:
  "qp_total (applyInitialWindowSize 65534 65535 pool) = qp_total pool + (2 ^ 32 - 1)"
proof -
  have "uint (65534 - 65535 :: 32 word) = (65534 - 65535) mod 2 ^ 32" by (simp only: uint_word_ariths) simp
  then have "int (unat (65534 - 65535 :: 32 word)) = 2 ^ 32 - 1" by (simp only: uint_nat [symmetric]) simp
  then show ?thesis by (simp only: applyInitialWindowSize_def qp_reset_ok(2))
qed


section \<open>A short exchange\<close>

definition demo_out :: "nat out_conn" where
  "demo_out = out_start 10 (\<lambda>_. 3) (\<lambda>i. if i = 0 then [1, 2, 3, 4] else [])"

lemma demo_out_held:
  "write_step demo_out (demo_out\<lparr>oc_streams := (oc_streams demo_out)(0 := (oc_streams demo_out 0)
     \<lparr>os_held := Some 3, os_pool := \<lparr>qp_c = None, qp_quota = 0\<rparr>\<rparr>)\<rparr>)"
  by (rule write_step.take_stream [OF refl])
    (simp_all add: demo_out_def out_start_def newQuotaPool_def qp_defs)

theorem writes_stay_in_window_witness:
  "\<exists>w. write_step\<^sup>*\<^sup>* demo_out w \<and> oc_streams w 0 = \<lparr>os_pool = \<lparr>qp_c = None, qp_quota = 0\<rparr>, os_held = None, os_left = [4],
     os_sent = [1, 2, 3], os_granted = 3\<rparr> \<and> int (oc_sent w) \<le> oc_granted w \<and> prefix (os_sent (oc_streams w 0)) [1, 2, 3, 4]"
proof -
  let ?w = "demo_out\<lparr>oc_streams := (oc_streams demo_out)(0 := (oc_streams demo_out 0)
     \<lparr>os_held := Some 3, os_pool := \<lparr>qp_c = None, qp_quota = 0\<rparr>\<rparr>)\<rparr>"
  let ?s = "oc_streams ?w 0"
  have f: "write_frame (os_left ?s) 3 10 (os_pool ?s) \<lparr>qp_c = None, qp_quota = 0\<rparr> =
      ([1, 2, 3], [4], \<lparr>qp_c = None, qp_quota = 0\<rparr>, \<lparr>qp_c = Some 7, qp_quota = 0\<rparr>)"
    by (simp add: demo_out_def out_start_def write_frame_def Let_def http2MaxFrameLen_def overbooked_def qp_defs)
  have "write_step ?w (?w\<lparr>oc_pool := \<lparr>qp_c = Some 7, qp_quota = 0\<rparr>, oc_sent := oc_sent ?w + length [1 :: nat, 2, 3],
      oc_streams := (oc_streams ?w)(0 := ?s\<lparr>os_held := None, os_left := [4], os_sent := os_sent ?s @ [1, 2, 3],
        os_pool := \<lparr>qp_c = None, qp_quota = 0\<rparr>\<rparr>)\<rparr>)" (is "write_step _ ?w'")
    by (rule write_step.frame [OF refl _ _ f]) (simp_all add: demo_out_def out_start_def newQuotaPool_def qp_defs)
  with demo_out_held have reach: "write_step\<^sup>*\<^sup>* demo_out ?w'" by (meson converse_rtranclp_into_rtranclp r_into_rtranclp)
  have "int (oc_sent ?w') \<le> oc_granted ?w' \<and>
      (\<forall>i. int (length (os_sent (oc_streams ?w' i))) \<le> os_granted (oc_streams ?w' i) \<and>
        prefix (os_sent (oc_streams ?w' i)) (if i = 0 then [1, 2, 3, 4] else []))"
    by (rule writes_stay_in_window [OF reach [unfolded demo_out_def], folded demo_out_def]) simp_all
  with reach show ?thesis by (intro exI [of _ ?w']) (simp add: demo_out_def out_start_def)
qed


theorem h2flow_exact_witness:
  "fst (h2_add 5 \<lparr>h2_n = 10, h2_conn = Some 7\<rparr>) \<and>
   (case h2_take 7 \<lparr>h2_n = 10, h2_conn = Some 7\<rparr> of Panic _ \<Rightarrow> False | Ret f' \<Rightarrow> sint (h2_n f') = 3)"
  using h2flow_exact [of "\<lparr>h2_n = 10, h2_conn = Some 7\<rparr>" 7 7 5] by (simp split: go.splits)

end
