(* ===== verification/ClientStreams.thy ===== *)
theory ClientStreams
  imports GrpcHeaders Transport
begin

text \<open>
  The client end of a gRPC connection (\<open>grpc/transport/http2_client.go\<close> and the streams of
  \<open>transport.go\<close>): the streams, the reader that dispatches the frames of the connection to them, and the
  controller that writes the control frames they ask for. A stream is an object that outlives its place
  in \<open>activeStreams\<close>, so the objects are a store by stream id (ids are never used twice) and
  \<open>activeStreams\<close> is a set of ids. The handlers hold the mutexes they need and are steps.
\<close>

unbundle bit_operations_syntax


section \<open>Streams\<close>

datatype streamState = streamActive | streamWriteDone | streamReadDone | streamDone

datatype recv_msg = MsgData bytes | MsgErr rpc_error

text \<open>\<open>headerChan\<close> is closed exactly when \<open>s_headerDone\<close> is set.\<close>

record Stream =
  s_id :: streamid
  s_method :: string
  s_buf :: "recv_msg recvBuffer"
  s_fc :: inFlow
  s_sendQuotaPool :: quotaPool
  s_header :: MD
  s_trailer :: MD
  s_state :: streamState
  s_headerDone :: bool
  s_statusCode :: "32 word"
  s_statusDesc :: string

definition s_write :: "recv_msg \<Rightarrow> Stream \<Rightarrow> Stream" where
  "s_write m s = s\<lparr>s_buf := rb_put m (s_buf s)\<rparr>"

lemma rb_queue_put: "rb_queue (rb_put m b) = rb_queue b @ [m]"
  by (auto simp: rb_defs split: option.splits list.splits)

definition EOF_msg :: recv_msg where
  "EOF_msg = MsgErr (GoError IoEOF)"

datatype control =
    windowUpdate streamid "32 word"
  | settings bool "Setting list"
  | resetStream streamid ErrCode
  | flushIO
  | ping bool bytes

datatype transportState = reachable | unreachable | closing

record http2Client =
  t_state :: transportState
  t_streams :: "streamid \<rightharpoonup> Stream"
  t_active :: "streamid set"
  t_nextID :: streamid
  t_fc :: inFlow
  t_sendQuotaPool :: quotaPool
  t_streamSendQuota :: "32 word"
  t_streamsQuota :: "quotaPool option"
  t_maxStreams :: int
  t_control :: "control list"
  t_hDec :: hpackDecoder
  t_cur :: "streamid option"

definition put_control :: "control \<Rightarrow> http2Client \<Rightarrow> http2Client" where
  "put_control i t = t\<lparr>t_control := t_control t @ [i]\<rparr>"

definition upd_stream :: "streamid \<Rightarrow> (Stream \<Rightarrow> Stream) \<Rightarrow> http2Client \<Rightarrow> http2Client" where
  "upd_stream i f t = t\<lparr>t_streams := (t_streams t)(i := map_option f (t_streams t i))\<rparr>"

definition newStream :: "string \<Rightarrow> http2Client \<Rightarrow> Stream \<times> http2Client" where
  "newStream m t =
    (let s = \<lparr>s_id = t_nextID t, s_method = m, s_buf = newRecvBuffer, s_fc = newStream_flow,
           s_sendQuotaPool = newQuotaPool (int (unat (t_streamSendQuota t))), s_header = [], s_trailer = [],
           s_state = streamActive, s_headerDone = False, s_statusCode = 0, s_statusDesc = []\<rparr> in
     (s, t\<lparr>t_nextID := t_nextID t + 2, t_streams := (t_streams t)(t_nextID t \<mapsto> s)\<rparr>))"

definition notifyError :: "http2Client \<Rightarrow> http2Client" where
  "notifyError t = (if t_state t = reachable then t\<lparr>t_state := unreachable\<rparr> else t)"

definition getStream :: "Frame \<Rightarrow> http2Client \<Rightarrow> Stream option" where
  "getStream f t = (if fh_StreamID (Header f) \<in> t_active t then t_streams t (fh_StreamID (Header f)) else None)"

text \<open>\<open>updateWindow\<close>, the window handler of a stream that was read.\<close>

definition updateWindow :: "streamid \<Rightarrow> 32 word \<Rightarrow> http2Client \<Rightarrow> http2Client" where
  "updateWindow i n t = (case t_streams t i of
     None \<Rightarrow> t
   | Some s \<Rightarrow> (case onRead n (s_fc s) (t_fc t) of ((swu, cwu), f, conn) \<Rightarrow>
       let t1 = upd_stream i (\<lambda>s. s\<lparr>s_fc := f\<rparr>) (t\<lparr>t_fc := conn\<rparr>);
           t2 = (if 0 < swu then put_control (windowUpdate i swu) t1 else t1) in
       if 0 < cwu then put_control (windowUpdate 0 cwu) t2 else t2))"

definition code_num :: "Code \<Rightarrow> 32 word" where
  "code_num c = (case c of OK \<Rightarrow> 0 | Canceled \<Rightarrow> 1 | Unknown \<Rightarrow> 2 | InvalidArgument \<Rightarrow> 3 | DeadlineExceeded \<Rightarrow> 4
     | NotFound \<Rightarrow> 5 | AlreadyExists \<Rightarrow> 6 | PermissionDenied \<Rightarrow> 7 | ResourceExhausted \<Rightarrow> 8 | FailedPrecondition \<Rightarrow> 9
     | Aborted \<Rightarrow> 10 | OutOfRange \<Rightarrow> 11 | Unimplemented \<Rightarrow> 12 | Code.Internal \<Rightarrow> 13 | Unavailable \<Rightarrow> 14 | DataLoss \<Rightarrow> 15
     | Unauthenticated \<Rightarrow> 16)"


section \<open>Handlers of the reader\<close>

text \<open>The data of a frame that the stream's windows accept, and what an \<open>END_STREAM\<close> flag on it does.\<close>

definition data_ended :: "Stream \<Rightarrow> Stream" where
  "data_ended s = s_write EOF_msg (s\<lparr>s_state := (if s_state s = streamWriteDone then streamDone else streamReadDone),
     s_statusCode := code_num Code.Internal, s_statusDesc := ''server closed the stream without sending trailers''\<rparr>)"

definition flow_failed :: "gerror \<Rightarrow> Stream \<Rightarrow> Stream" where
  "flow_failed err s = s_write EOF_msg (s\<lparr>s_state := streamDone, s_statusCode := code_num Code.Internal, s_statusDesc := Error err\<rparr>)"

definition handleData :: "Frame \<Rightarrow> http2Client \<Rightarrow> http2Client" where
  "handleData f t = (case getStream f t of
     None \<Rightarrow> t
   | Some s \<Rightarrow>
       let i = s_id s; d = buffer f;
           finish = (\<lambda>t. if StreamEnded f then upd_stream i data_ended t else t) in
       if d = [] then finish t
       else (case onData (word_of_nat (length d)) (s_fc s) (t_fc t) of
         (Some (ConnectionErrorf _), fl, conn) \<Rightarrow> notifyError (upd_stream i (\<lambda>s. s\<lparr>s_fc := fl\<rparr>) (t\<lparr>t_fc := conn\<rparr>))
       | (Some (FlowError err), fl, conn) \<Rightarrow>
           if s_state s = streamDone then t
           else put_control (resetStream i ErrCodeFlowControl) (upd_stream i (flow_failed err) t)
       | (None, fl, conn) \<Rightarrow>
           finish (upd_stream i (\<lambda>s. s_write (MsgData d) (s\<lparr>s_fc := fl\<rparr>)) (t\<lparr>t_fc := conn\<rparr>))))"

text \<open>A code that is not in the table leaves the zero value, \<open>OK\<close>, in the status.\<close>

definition stream_reset :: "ErrCode \<Rightarrow> Stream \<Rightarrow> Stream" where
  "stream_reset code s = s_write EOF_msg (s\<lparr>s_state := streamDone, s_headerDone := True,
     s_statusCode := (case http2RSTErrConvTab code of Some c \<Rightarrow> code_num c | None \<Rightarrow> 0)\<rparr>)"

definition handleRSTStream :: "Frame \<Rightarrow> ErrCode \<Rightarrow> http2Client \<Rightarrow> http2Client" where
  "handleRSTStream f code t = (case getStream f t of
     None \<Rightarrow> t
   | Some s \<Rightarrow> if s_state s = streamDone then t else upd_stream (s_id s) (stream_reset code) t)"

definition handleSettings :: "Frame \<Rightarrow> http2Client \<Rightarrow> http2Client go" where
  "handleSettings f t =
    (if IsAck f then Ret t
     else go_bind (ForeachSetting (\<lambda>s ss. (None, ss @ [s])) f []) (\<lambda>(_, ss). Ret (put_control (settings True ss) t)))"

definition handlePing :: "bytes \<Rightarrow> http2Client \<Rightarrow> http2Client" where
  "handlePing d t = put_control (ping True d) t"

definition handleWindowUpdate :: "Frame \<Rightarrow> 32 word \<Rightarrow> http2Client \<Rightarrow> http2Client" where
  "handleWindowUpdate f incr t =
    (if fh_StreamID (Header f) = 0 then t\<lparr>t_sendQuotaPool := qp_add (int (unat incr)) (t_sendQuotaPool t)\<rparr>
     else case getStream f t of
       None \<Rightarrow> t
     | Some s \<Rightarrow> upd_stream (s_id s) (\<lambda>s. s\<lparr>s_sendQuotaPool := qp_add (int (unat incr)) (s_sendQuotaPool s)\<rparr>) t)"

text \<open>What the complete headers, or trailers, of a response do to its stream.\<close>

definition headers_arrived :: "decodeState \<Rightarrow> bool \<Rightarrow> Stream \<Rightarrow> Stream" where
  "headers_arrived st endStream s =
    (let s1 = (if s_headerDone s then s
           else s\<lparr>s_header := (if \<not> endStream \<and> ds_mdata st \<noteq> [] then ds_mdata st else s_header s), s_headerDone := True\<rparr>) in
     if \<not> endStream \<or> s_state s1 = streamDone then s1
     else s_write EOF_msg (s1\<lparr>s_trailer := (if ds_mdata st \<noteq> [] then ds_mdata st else s_trailer s1), s_state := streamDone,
       s_statusCode := ds_statusCode st, s_statusDesc := ds_statusDesc st\<rparr>))"

definition operateHeaders :: "streamid option \<Rightarrow> bytes \<Rightarrow> bool \<Rightarrow> bool \<Rightarrow> http2Client \<Rightarrow> http2Client go option" where
  "operateHeaders cur fragment ended endStream t =
    run_bind (decodeHTTP2Headers fragment ended (t_hDec t)) (\<lambda>((endHeaders, err), hDec).
      let finished = (\<lambda>t. t\<lparr>t_hDec := hDec\<lparr>hd_state := noState\<rparr>, t_cur := None\<rparr>) in
      Some (Ret (case cur of
        None \<Rightarrow> finished t
      | Some i \<Rightarrow> (case err of
          Some e \<Rightarrow> finished (upd_stream i (s_write (MsgErr e)) t)
        | None \<Rightarrow>
            if \<not> endHeaders then t\<lparr>t_hDec := hDec, t_cur := Some i\<rparr>
            else finished (upd_stream i (headers_arrived (hd_state hDec) endStream) t)))))"

text \<open>The dispatch of one frame; a continuation passes its \<open>END_HEADERS\<close> flag as the end of the stream.\<close>

definition reader_frame :: "Frame \<Rightarrow> http2Client \<Rightarrow> http2Client go option" where
  "reader_frame f t = (case f of
     HeadersFrame _ _ fragment \<Rightarrow> operateHeaders (map_option s_id (getStream f t)) fragment (HeadersEnded f) (StreamEnded f) t
   | ContinuationFrame _ fragment \<Rightarrow> operateHeaders (t_cur t) fragment (HeadersEnded f) (HeadersEnded f) t
   | DataFrame _ _ \<Rightarrow> Some (Ret (handleData f t))
   | RSTStreamFrame _ code \<Rightarrow> Some (Ret (handleRSTStream f code t))
   | SettingsFrame _ _ \<Rightarrow> Some (handleSettings f t)
   | PingFrame _ d \<Rightarrow> Some (Ret (handlePing d t))
   | GoAwayFrame _ _ _ _ \<Rightarrow> Some (Ret t)
   | WindowUpdateFrame _ n \<Rightarrow> Some (Ret (handleWindowUpdate f n t))
   | _ \<Rightarrow> Some (Ret t))"

text \<open>
  The reader after the settings of the server: it dispatches frames until a read fails. The result says
  whether it stopped by itself; \<open>Panic\<close> is a panic in a handler.
\<close>

lemma ReadFrame_consumes:
  assumes "ReadFrame fr = Ret (Inr f, fr')"
  shows "length (fr_r fr') < length (fr_r fr)"
proof -
  obtain res r' where t: "take_frame (maxReadSize fr) (fr_r fr) = (Ret res, r')"
    and u: "\<forall>f. res = Inr f \<longrightarrow> (\<exists>used. fr_r fr = used @ r' \<and> length used = 9 + unat (fh_Length (Header f)))"
    using take_frame_formed by blast
  from ReadFrame_taken [OF t] assms have "res = Inr f" "fr_r fr' = r'" by auto
  with u show ?thesis by fastforce
qed

function reader_loop :: "Framer \<Rightarrow> http2Client \<Rightarrow> (http2Client \<times> Framer) go option" where
  "reader_loop fr t = (case ReadFrame fr of
     Panic m \<Rightarrow> Some (Panic m)
   | Ret (Inl e, fr') \<Rightarrow> Some (Ret (notifyError t, fr'))
   | Ret (Inr f, fr') \<Rightarrow> run_bind (reader_frame f t) (reader_loop fr'))"
  by pat_completeness auto
termination reader_loop
  by (relation "measure (\<lambda>(fr, t). length (fr_r fr))") (auto dest: ReadFrame_consumes)

declare reader_loop.simps [simp del]

definition reader :: "Framer \<Rightarrow> http2Client \<Rightarrow> (http2Client \<times> Framer) go option" where
  "reader fr t = (case ReadFrame fr of
     Panic m \<Rightarrow> Some (Panic m)
   | Ret (Inl e, fr') \<Rightarrow> Some (Ret (notifyError t, fr'))
   | Ret (Inr f, fr') \<Rightarrow> (case f of
       SettingsFrame _ _ \<Rightarrow> run_bind (Some (handleSettings f t)) (\<lambda>t1.
         run_bind (Some newHPACKDecoder) (\<lambda>d. reader_loop fr' (t1\<lparr>t_hDec := d, t_cur := None\<rparr>)))
     | _ \<Rightarrow> Some (Ret (notifyError t, fr'))))"


section \<open>Closing, settings and the controller\<close>

definition CloseStream :: "streamid \<Rightarrow> rpc_error option \<Rightarrow> http2Client \<Rightarrow> http2Client" where
  "CloseStream i err t = (case t_streams t i of
     None \<Rightarrow> t
   | Some s \<Rightarrow>
       let t1 = t\<lparr>t_active := t_active t - {i}, t_streamsQuota := map_option (qp_add 1) (t_streamsQuota t)\<rparr> in
       (case restoreConn (s_fc s) (t_fc t1) of (q, fl, conn) \<Rightarrow>
          let t2 = upd_stream i (\<lambda>s. s\<lparr>s_fc := fl\<rparr>) (t1\<lparr>t_fc := conn\<rparr>);
              t3 = (if 0 < q then put_control (windowUpdate 0 q) t2 else t2) in
          if s_state s = streamDone then t3
          else
            let t4 = upd_stream i (\<lambda>s. s\<lparr>s_headerDone := True, s_state := streamDone\<rparr>) t3 in
            (case err of
               Some (StreamError _ _) \<Rightarrow> put_control (resetStream i ErrCodeCancel) t4
             | _ \<Rightarrow> t4)))"

definition ErrConnClosing :: rpc_error where
  "ErrConnClosing = ConnectionError ''transport is closing''"

text \<open>\<open>Close\<close>; the closing of the connection itself, whose error it returns, is left out.\<close>

definition Close :: "http2Client \<Rightarrow> gerror option \<times> http2Client" where
  "Close t =
    (if t_state t = closing then (Some (Errorf ''transport: Close() was already called''), t)
     else (None, t\<lparr>t_state := closing, t_active := {}, t_streams := (\<lambda>i. map_option (\<lambda>s.
       if i \<in> t_active t then s_write (MsgErr ErrConnClosing) (s\<lparr>s_headerDone := True\<rparr>) else s) (t_streams t i))\<rparr>))"

definition MaxInt32 :: "32 word" where "MaxInt32 = 0x7fffffff"

definition applySetting :: "Setting \<Rightarrow> http2Client \<Rightarrow> http2Client" where
  "applySetting s t =
    (if set_ID s = SettingMaxConcurrentStreams then
       let v = int (unat (if MaxInt32 < set_Val s then MaxInt32 else set_Val s)) in
       t\<lparr>t_streamsQuota := Some (case t_streamsQuota t of
           None \<Rightarrow> newQuotaPool (v - int (card (t_active t)))
         | Some q \<Rightarrow> qp_reset (v - t_maxStreams t) q),
         t_maxStreams := v\<rparr>
     else if set_ID s = SettingInitialWindowSize then
       t\<lparr>t_streams := (\<lambda>i. map_option (\<lambda>st. if i \<in> t_active t
           then st\<lparr>s_sendQuotaPool := applyInitialWindowSize (set_Val s) (t_streamSendQuota t) (s_sendQuotaPool st)\<rparr> else st)
           (t_streams t i)),
         t_streamSendQuota := set_Val s\<rparr>
     else t)"

definition applySettings :: "Setting list \<Rightarrow> http2Client \<Rightarrow> http2Client" where
  "applySettings ss t = fold applySetting ss t"

text \<open>
  The controller takes the oldest item and writes its frame; the errors of these writes are dropped.
\<close>

fun control_item :: "control \<Rightarrow> http2Client \<Rightarrow> Framer \<Rightarrow> http2Client \<times> Framer" where
  "control_item (windowUpdate i n) t fr = (t, snd (WriteWindowUpdate i n fr))"
| "control_item (settings ack ss) t fr =
    (if ack then (applySettings ss t, snd (WriteSettingsAck fr)) else (t, snd (WriteSettings ss fr)))"
| "control_item (resetStream i code) t fr = (t, snd (WriteRSTStream i code fr))"
| "control_item flushIO t fr = (t, fr)"
| "control_item (ping ack d) t fr = (t, snd (WritePing ack d fr))"

definition controller_step :: "http2Client \<Rightarrow> Framer \<Rightarrow> (http2Client \<times> Framer) option" where
  "controller_step t fr = (case t_control t of
     [] \<Rightarrow> None
   | i # is \<Rightarrow> Some (control_item i (t\<lparr>t_control := is\<rparr>) fr))"


section \<open>Reading a stream\<close>

record recvBufferReader =
  rr_last :: bytes
  rr_err :: "rpc_error option"

text \<open>
  \<open>Read\<close> of at most \<open>n\<close> bytes when the context of the stream is not done; \<open>None\<close> is a read that blocks.
  An empty \<open>last\<close> and no \<open>last\<close> are read the same way. \<open>bytes.Reader.Read\<close> of an empty message returns
  \<open>EOF\<close>.
\<close>

definition last_Read :: "nat \<Rightarrow> bytes \<Rightarrow> (rpc_error + bytes) \<times> bytes" where
  "last_Read n b = (if n = 0 then (Inr [], b) else if b = [] then (Inl (GoError IoEOF), b) else (Inr (take n b), drop n b))"

definition rr_Read :: "nat \<Rightarrow> recvBufferReader \<Rightarrow> recv_msg recvBuffer \<Rightarrow>
    ((rpc_error + bytes) \<times> recvBufferReader \<times> recv_msg recvBuffer) option" where
  "rr_Read n r buf = (case rr_err r of
     Some e \<Rightarrow> Some (Inl e, r, buf)
   | None \<Rightarrow>
       let step = (\<lambda>b buf. case last_Read n b of
             (Inl e, b') \<Rightarrow> (Inl e, \<lparr>rr_last = b', rr_err = Some e\<rparr>, buf)
           | (Inr d, b') \<Rightarrow> (Inr d, \<lparr>rr_last = b', rr_err = None\<rparr>, buf)) in
       if rr_last r \<noteq> [] then Some (step (rr_last r) buf)
       else (case rb_get buf of
         None \<Rightarrow> None
       | Some (MsgErr e, buf1) \<Rightarrow> Some (Inl e, r\<lparr>rr_err := Some e\<rparr>, rb_load buf1)
       | Some (MsgData d, buf1) \<Rightarrow> Some (step d (rb_load buf1))))"


section \<open>A connection with one call\<close>

definition open_stream :: "streamid \<Rightarrow> Stream \<Rightarrow> http2Client \<Rightarrow> bool" where
  "open_stream i s t = (validStreamID i \<and> i \<in> t_active t \<and> t_streams t i = Some s \<and> s_id s = i)"

definition demo_stream :: Stream where
  "demo_stream = \<lparr>s_id = 1, s_method = ''/executor.Commander/ExecuteCommand'', s_buf = newRecvBuffer, s_fc = newStream_flow,
     s_sendQuotaPool = newQuotaPool 65535, s_header = [], s_trailer = [], s_state = streamActive, s_headerDone = False,
     s_statusCode = 0, s_statusDesc = []\<rparr>"

definition demo_client :: "Decoder \<Rightarrow> http2Client" where
  "demo_client h = \<lparr>t_state = reachable, t_streams = [1 \<mapsto> demo_stream], t_active = {1}, t_nextID = 3,
     t_fc = \<lparr>fl_limit = initialConnWindowSize, fl_pendingData = 0, fl_pendingUpdate = 0\<rparr>, t_sendQuotaPool = newQuotaPool 65535,
     t_streamSendQuota = 65535, t_streamsQuota = None, t_maxStreams = 0, t_control = [], t_hDec = \<lparr>hd_h = h, hd_state = noState, hd_err = None\<rparr>, t_cur = None\<rparr>"

lemma demo_open: "open_stream 1 demo_stream (demo_client d)" "s_state demo_stream \<noteq> streamDone"
  by (simp_all add: open_stream_def demo_client_def demo_stream_def validStreamID_def)


section \<open>Properties of the handlers\<close>

text \<open>
  A stream that the server resets with an error code that has no entry in the table of codes (a
  closed stream, a demand for HTTP/1.1, any code above 13) ends at the client with the status \<open>OK\<close>: a
  failed call is reported as a success.
\<close>

theorem unmapped_reset_reports_ok:
  assumes "getStream (RSTStreamFrame h code) t = Some s" and "s_id s = fh_StreamID h" and "s_state s \<noteq> streamDone"
    and "code = ErrCodeStreamClosed \<or> ErrCodeHTTP11Required \<le> code"
  shows "\<exists>t' s'. reader_frame (RSTStreamFrame h code) t = Some (Ret t') \<and> t_streams t' (s_id s) = Some s' \<and>
    s_state s' = streamDone \<and> s_statusCode s' = code_num OK \<and> rb_queue (s_buf s') = rb_queue (s_buf s) @ [EOF_msg]"
proof -
  have "http2RSTErrConvTab code = None"
    using assms(4) by (auto simp: http2RSTErrConvTab_def word_le_nat_alt)
  moreover have "t_streams t (s_id s) = Some s"
    using assms(1,2) by (auto simp: getStream_def split: if_splits)
  ultimately show ?thesis
    using assms(1,3)
    by (simp add: reader_frame_def handleRSTStream_def upd_stream_def stream_reset_def s_write_def rb_queue_put code_num_def)
qed

theorem unmapped_reset_reports_ok_witness:
  "\<exists>t' s'. reader_frame (RSTStreamFrame (head_of FrameRSTStream 0 1 4) ErrCodeStreamClosed)
       (demo_client \<lparr>d_dynTab = emptyTable, emitEnabled = True, maxStrLen = 0, saveBuf = []\<rparr>) = Some (Ret t') \<and>
     t_streams t' 1 = Some s' \<and> s_state s' = streamDone \<and> s_statusCode s' = code_num OK \<and> rb_queue (s_buf s') = [EOF_msg]"
  using unmapped_reset_reports_ok [of "head_of FrameRSTStream 0 1 4" ErrCodeStreamClosed
      "demo_client \<lparr>d_dynTab = emptyTable, emitEnabled = True, maxStrLen = 0, saveBuf = []\<rparr>" demo_stream]
  by (simp add: getStream_def demo_client_def demo_stream_def newRecvBuffer_def rb_queue_def)

text \<open>The data frames of a stream, when its window and the window of the connection have room.\<close>

definition data_frame :: "streamid \<Rightarrow> bytes \<Rightarrow> Frame" where
  "data_frame i d = frame_of (PutData i False d)"

definition room :: "nat \<Rightarrow> inFlow \<Rightarrow> bool" where
  "room n f = (unat (fl_limit f) < 2 ^ 31 \<and> unat (fl_pendingData f) + unat (fl_pendingUpdate f) + n \<le> unat (fl_limit f))"

lemma room_sum:
  assumes "room n f"
  shows "unat (fl_pendingData f + fl_pendingUpdate f + word_of_nat n) = unat (fl_pendingData f) + unat (fl_pendingUpdate f) + n"
    and "unat (fl_pendingData f + word_of_nat n) = unat (fl_pendingData f) + n"
proof -
  have n: "unat (word_of_nat n :: 32 word) = n" using assms by (simp add: room_def unat_of_nat)
  show "unat (fl_pendingData f + word_of_nat n) = unat (fl_pendingData f) + n"
    using assms n by (subst unat_plus_simple [THEN iffD1]) (auto simp: room_def word_le_nat_alt unat_word_ariths)
  show "unat (fl_pendingData f + fl_pendingUpdate f + word_of_nat n) = unat (fl_pendingData f) + unat (fl_pendingUpdate f) + n"
    using assms n by (simp add: room_def unat_word_ariths)
qed

lemma onData_room:
  assumes "room (n + m) f" and "room (n + m) conn" and "0 < n"
  shows "\<exists>f' conn'. onData (word_of_nat n) f conn = (None, f', conn') \<and> room m f' \<and> room m conn'"
proof -
  have r: "room n f" "room n conn" using assms by (simp_all add: room_def)
  have "unat (word_of_nat n :: 32 word) = n" using r(1) by (simp add: room_def unat_of_nat)
  then have z: "(word_of_nat n :: 32 word) \<noteq> 0" using assms(3) by auto
  have "exceeds f (word_of_nat n) = None" "exceeds conn (word_of_nat n) = None"
    using r room_sum(1) [OF r(1)] room_sum(1) [OF r(2)] by (auto simp: exceeds_def room_def word_less_nat_alt)
  then show ?thesis
    using z assms(1,2) room_sum(2) [OF r(1)] room_sum(2) [OF r(2)] by (auto simp: onData_def conn_onData_def room_def)
qed

lemma handleData_room:
  assumes "open_stream i s t" and "d \<noteq> []" and "room (length d + m) (s_fc s)" and "room (length d + m) (t_fc t)"
  shows "\<exists>t' s'. reader_frame (data_frame i d) t = Some (Ret t') \<and> open_stream i s' t' \<and> room m (s_fc s') \<and> room m (t_fc t') \<and>
    s_buf s' = rb_put (MsgData d) (s_buf s) \<and> s_state s' = s_state s"
proof -
  obtain f conn where f: "onData (word_of_nat (length d)) (s_fc s) (t_fc t) = (None, f, conn)" "room m f" "room m conn"
    using onData_room [OF assms(3,4)] assms(2) by auto
  have "getStream (data_frame i d) t = Some s"
    using assms(1) by (simp add: open_stream_def getStream_def data_frame_def head_op_def validStreamID_iff)
  moreover have "\<not> StreamEnded (data_frame i d)" "buffer (data_frame i d) = d"
    by (simp_all add: data_frame_def StreamEnded_def head_op_def)
  ultimately have "handleData (data_frame i d) t = upd_stream i (\<lambda>s. s_write (MsgData d) (s\<lparr>s_fc := f\<rparr>)) (t\<lparr>t_fc := conn\<rparr>)"
    using f(1) assms(1,2) by (simp add: handleData_def open_stream_def)
  then have "reader_frame (data_frame i d) t = Some (Ret (upd_stream i (\<lambda>s. s_write (MsgData d) (s\<lparr>s_fc := f\<rparr>)) (t\<lparr>t_fc := conn\<rparr>)))"
    by (simp add: reader_frame_def data_frame_def)
  then show ?thesis using f assms(1) by (auto simp: open_stream_def upd_stream_def s_write_def)
qed

primrec reader_frames :: "Frame list \<Rightarrow> http2Client \<Rightarrow> http2Client go option" where
  "reader_frames [] t = Some (Ret t)"
| "reader_frames (f # fs) t = run_bind (reader_frame f t) (reader_frames fs)"

lemma data_frames_queued:
  assumes "open_stream i s t" and "list_all (\<lambda>d. d \<noteq> []) ds" and "room (length (concat ds)) (s_fc s)" and "room (length (concat ds)) (t_fc t)"
  shows "\<exists>t' s'. reader_frames (map (data_frame i) ds) t = Some (Ret t') \<and> open_stream i s' t' \<and> s_state s' = s_state s \<and>
    s_buf s' = fold rb_put (map MsgData ds) (s_buf s)"
  using assms
proof (induction ds arbitrary: s t)
  case (Cons d ds)
  then obtain t1 s1 where t1: "reader_frame (data_frame i d) t = Some (Ret t1)" "open_stream i s1 t1"
      "room (length (concat ds)) (s_fc s1)" "room (length (concat ds)) (t_fc t1)" "s_buf s1 = rb_put (MsgData d) (s_buf s)"
      "s_state s1 = s_state s"
    using handleData_room [OF Cons.prems(1), of d "length (concat ds)"] by auto
  from Cons.IH [OF t1(2) _ t1(3,4)] Cons.prems(2) t1(1,5,6) show ?case by auto
qed auto

text \<open>What the reader of a stream has still to give, and that each read gives some of it.\<close>

definition rb_full :: "'a recvBuffer \<Rightarrow> bool" where
  "rb_full b = (rb_c b = None \<longrightarrow> rb_backlog b = [])"

fun data_of :: "recv_msg list \<Rightarrow> bytes" where
  "data_of (MsgData d # ms) = d @ data_of ms"
| "data_of _ = []"

lemma rb_full_put: "rb_full b \<Longrightarrow> rb_full (rb_put m b)"
  by (auto simp: rb_full_def rb_defs split: option.splits list.splits)

lemma rb_full_puts: "rb_full b \<Longrightarrow> rb_full (fold rb_put ms b) \<and> rb_queue (fold rb_put ms b) = rb_queue b @ ms"
  by (induction ms arbitrary: b) (auto simp: rb_full_put rb_queue_put)

lemma rb_full_get:
  assumes "rb_full b" and "rb_queue b = m # ms"
  shows "\<exists>b1. rb_get b = Some (m, b1) \<and> rb_full (rb_load b1) \<and> rb_queue (rb_load b1) = ms"
  using assms by (auto simp: rb_full_def rb_defs split: option.splits list.splits)

lemma rr_Read_data:
  assumes "rr_err r = None" and "rb_full b" and "list_all (\<lambda>m. \<exists>d. m = MsgData d \<and> d \<noteq> []) (rb_queue b)" and "0 < n"
    and "rr_last r @ data_of (rb_queue b) \<noteq> []"
  shows "\<exists>d r' b'. rr_Read n r b = Some (Inr d, r', b') \<and> d \<noteq> [] \<and> length d \<le> n \<and> rr_err r' = None \<and> rb_full b' \<and>
    list_all (\<lambda>m. \<exists>d. m = MsgData d \<and> d \<noteq> []) (rb_queue b') \<and>
    rr_last r @ data_of (rb_queue b) = d @ rr_last r' @ data_of (rb_queue b')"
proof (cases "rr_last r = []")
  case False
  with assms show ?thesis by (simp add: rr_Read_def last_Read_def)
next
  case True
  with assms(5) obtain m ms where q: "rb_queue b = m # ms" by (cases "rb_queue b") auto
  with assms(3) obtain d where d: "m = MsgData d" "d \<noteq> []" by auto
  from rb_full_get [OF assms(2) q] obtain b1 where "rb_get b = Some (MsgData d, b1)" "rb_full (rb_load b1)" "rb_queue (rb_load b1) = ms"
    using d(1) by auto
  with assms True q d show ?thesis by (simp add: rr_Read_def last_Read_def)
qed

text \<open>The bytes that reads of the given sizes return, up to the first that blocks or fails.\<close>

fun read_stream :: "nat list \<Rightarrow> recvBufferReader \<Rightarrow> recv_msg recvBuffer \<Rightarrow> bytes" where
  "read_stream [] r b = []"
| "read_stream (n # ns) r b = (case rr_Read n r b of
     Some (Inr d, r', b') \<Rightarrow> d @ read_stream ns r' b'
   | _ \<Rightarrow> [])"

lemma read_stream_all:
  assumes "rr_err r = None" and "rb_full b" and "list_all (\<lambda>m. \<exists>d. m = MsgData d \<and> d \<noteq> []) (rb_queue b)"
    and "list_all (\<lambda>n. 0 < n) ns" and "length (rr_last r @ data_of (rb_queue b)) \<le> length ns"
  shows "read_stream ns r b = rr_last r @ data_of (rb_queue b)"
  using assms
proof (induction ns arbitrary: r b)
  case (Cons n ns)
  show ?case
  proof (cases "rr_last r @ data_of (rb_queue b) = []")
    case True
    then have "rr_last r = []" "rb_queue b = []" using Cons.prems(3) by (cases "rb_queue b"; auto)+
    then have "rb_get b = None" by (auto simp: rb_defs split: option.splits)
    with True \<open>rr_last r = []\<close> Cons.prems(1) show ?thesis by (simp add: rr_Read_def)
  next
    case False
    from rr_Read_data [OF Cons.prems(1-3) _ False, of n] Cons.prems(4) obtain d r' b' where
      x: "rr_Read n r b = Some (Inr d, r', b')" "d \<noteq> []" "rr_err r' = None" "rb_full b'"
        "list_all (\<lambda>m. \<exists>d. m = MsgData d \<and> d \<noteq> []) (rb_queue b')"
        "rr_last r @ data_of (rb_queue b) = d @ rr_last r' @ data_of (rb_queue b')" by auto
    have "length (rr_last r' @ data_of (rb_queue b')) \<le> length ns"
      using Cons.prems(5) x(2,6) by (cases d) auto
    with Cons.IH [OF x(3-5)] Cons.prems(4) x(1,6) show ?thesis by simp
  qed
qed auto

lemma data_of_map: "data_of (map MsgData ds) = concat ds"
  by (induction ds) simp_all

text \<open>
  C17. The data of a call arrives whole and in order: when the data frames of a stream fit its window and
  the window of the connection, reads of the stream, of any sizes and as many as there are bytes, return
  exactly the bytes of the frames one after another.
\<close>

theorem stream_delivers_data:
  assumes "open_stream i s t" and "list_all (\<lambda>d. d \<noteq> []) ds" and "room (length (concat ds)) (s_fc s)"
    and "room (length (concat ds)) (t_fc t)" and "s_buf s = newRecvBuffer"
    and "list_all (\<lambda>n. 0 < n) ns" and "length (concat ds) \<le> length ns"
  shows "\<exists>t' s'. reader_frames (map (data_frame i) ds) t = Some (Ret t') \<and> t_streams t' i = Some s' \<and> s_state s' = s_state s \<and>
    read_stream ns \<lparr>rr_last = [], rr_err = None\<rparr> (s_buf s') = concat ds"
proof -
  obtain t' s' where t': "reader_frames (map (data_frame i) ds) t = Some (Ret t')" "open_stream i s' t'" "s_state s' = s_state s"
      "s_buf s' = fold rb_put (map MsgData ds) newRecvBuffer"
    using data_frames_queued [OF assms(1-4)] assms(5) by auto
  have b: "rb_full (s_buf s')" "rb_queue (s_buf s') = map MsgData ds"
    using rb_full_puts [of newRecvBuffer "map MsgData ds"] t'(4) by (simp_all add: newRecvBuffer_def rb_full_def rb_queue_def)
  have "read_stream ns \<lparr>rr_last = [], rr_err = None\<rparr> (s_buf s') = concat ds"
    using assms(2,6,7) b by (subst read_stream_all) (auto simp: data_of_map list_all_iff)
  with t' show ?thesis by (auto simp: open_stream_def)
qed

theorem stream_delivers_data_witness:
  "\<exists>t' s'. reader_frames [data_frame 1 [1, 2, 3], data_frame 1 [4]]
       (demo_client \<lparr>d_dynTab = emptyTable, emitEnabled = True, maxStrLen = 0, saveBuf = []\<rparr>) = Some (Ret t') \<and>
     t_streams t' 1 = Some s' \<and> s_state s' = streamActive \<and>
     read_stream [2, 2, 9, 1] \<lparr>rr_last = [], rr_err = None\<rparr> (s_buf s') = [1, 2, 3, 4]"
proof -
  have "room (Suc (Suc (Suc (Suc 0)))) (s_fc demo_stream)" "s_buf demo_stream = newRecvBuffer" "s_state demo_stream = streamActive"
    by (simp_all add: room_def demo_stream_def newStream_flow_def initialWindowSize_def defaultWindowSize_def)
  moreover have "room (Suc (Suc (Suc (Suc 0)))) (t_fc (demo_client h))" for h
    by (simp add: room_def demo_client_def initialConnWindowSize_def defaultWindowSize_def)
  ultimately show ?thesis
    using stream_delivers_data [OF demo_open(1), where ds = "[[1, 2, 3], [4]]" and ns = "[2, 2, 9, 1]"] by simp
qed

end
