(* ===== verification/Calls.thy ===== *)
theory Calls
  imports ClientStreams
begin

text \<open>
  Header blocks on a connection: the loops of \<open>http2_client.go\<close> and \<open>http2_server.go\<close> that cut a block into
  a HEADERS frame and CONTINUATION frames, the fields a server sends with \<open>WriteHeader\<close> and \<open>WriteStatus\<close>,
  and what the client's reader makes of them. The writers of the connection take turns
  (\<open>writableChan\<close>), so a block is written without other frames in between; the buffer in front of the
  connection, which is flushed at the end of a batch, is the framer's writer.
\<close>

section \<open>Writing a header block\<close>

definition first_part :: "streamid \<Rightarrow> bool \<Rightarrow> bool \<Rightarrow> bytes \<Rightarrow> HeadersFrameParam" where
  "first_part i endStream endHeaders b = \<lparr>hp_StreamID = i, hp_BlockFragment = b, hp_EndStream = endStream,
     hp_EndHeaders = endHeaders, hp_PadLength = 0, hp_Priority = zeroPriority\<rparr>"

function write_block :: "bool \<Rightarrow> streamid \<Rightarrow> bool \<Rightarrow> bytes \<Rightarrow> Framer \<Rightarrow> h2_error option \<times> Framer" where
  "write_block first i endStream b fr =
    (let endHeaders = (length b \<le> http2MaxFrameLen);
         size = (if endHeaders then length b else http2MaxFrameLen);
         (err, fr') = (if first then WriteHeaders (first_part i endStream endHeaders (take size b)) fr
           else WriteContinuation i endHeaders (take size b) fr) in
     case err of
       Some e \<Rightarrow> (Some e, fr')
     | None \<Rightarrow> if endHeaders then (None, fr') else write_block False i endStream (drop size b) fr')"
  by pat_completeness auto
termination write_block
  by (relation "measure (\<lambda>(first, i, endStream, b, fr). length b)") (auto simp: http2MaxFrameLen_def)

declare write_block.simps [simp del]

text \<open>The frames it writes.\<close>

function block_ops :: "bool \<Rightarrow> streamid \<Rightarrow> bool \<Rightarrow> bytes \<Rightarrow> write_op list" where
  "block_ops first i endStream b =
    (let op = (\<lambda>e c. if first then PutHeaders (first_part i endStream e c) else PutContinuation i e c) in
     if length b \<le> http2MaxFrameLen then [op True b]
     else op False (take http2MaxFrameLen b) # block_ops False i endStream (drop http2MaxFrameLen b))"
  by pat_completeness auto
termination block_ops
  by (relation "measure (\<lambda>(first, i, endStream, b). length b)") (auto simp: http2MaxFrameLen_def)

declare block_ops.simps [simp del]

lemma write_block_all: "write_block first i endStream b fr = write_all (block_ops first i endStream b) fr"
proof (induction first i endStream b fr rule: write_block.induct)
  case (1 first i endStream b fr)
  show ?case
  proof (cases "length b \<le> http2MaxFrameLen")
    case True
    then show ?thesis
      by (subst write_block.simps, subst block_ops.simps) (auto simp: Let_def split: prod.splits option.splits)
  next
    case False
    with 1 show ?thesis
      by (subst write_block.simps, subst block_ops.simps) (auto simp: Let_def split: prod.splits option.splits)
  qed
qed

lemma block_ops_sent:
  assumes "validStreamID i" and "b \<noteq> []"
  shows "list_all (\<lambda>op. legal op \<and> length (payload op) \<le> http2MaxFrameLen \<and> readable op) (block_ops first i endStream b)"
  using assms
proof (induction first i endStream b rule: block_ops.induct)
  case (1 first i endStream b)
  show ?case
  proof (cases "length b \<le> http2MaxFrameLen")
    case True
    with 1(2,3) show ?thesis
      by (subst block_ops.simps) (simp add: first_part_def payload_def IsZero_def pad_prefix_def)
  next
    case False
    with 1 show ?thesis
      by (subst block_ops.simps) (auto simp: first_part_def payload_def IsZero_def pad_prefix_def http2MaxFrameLen_def)
  qed
qed


section \<open>Reading a header block\<close>

text \<open>The state after fields that raise no error.\<close>

fun fields_run :: "HeaderField list \<Rightarrow> decodeState \<Rightarrow> decodeState option" where
  "fields_run [] st = Some st"
| "fields_run (f # fs) st = (case emit_field (str (hf_Name f)) (str (hf_Value f)) st of
     Ret (None, st') \<Rightarrow> fields_run fs st'
   | _ \<Rightarrow> None)"

lemma fields_run_append: "fields_run (fs @ gs) st = Option.bind (fields_run fs st) (fields_run gs)"
  by (induction fs arbitrary: st) (auto split: go.splits prod.splits option.splits)

lemma emit_all_run: "fields_run fs (hd_state d) = Some st \<Longrightarrow> emit_headers fs d = Ret (d\<lparr>hd_state := st\<rparr>)"
proof (induction fs arbitrary: d)
  case (Cons f fs)
  then obtain st1 where "emit_field (str (hf_Name f)) (str (hf_Value f)) (hd_state d) = Ret (None, st1)" "fields_run fs st1 = Some st"
    by (auto split: go.splits prod.splits option.splits)
  with Cons.IH [of "d\<lparr>hd_state := st1\<rparr>"] show ?case by (simp add: emit_header_def)
qed simp

definition ready :: "Decoder \<Rightarrow> decodeState \<Rightarrow> hpackDecoder" where
  "ready h st = \<lparr>hd_h = h, hd_state = st, hd_err = None\<rparr>"

lemma decode_chunk:
  assumes "d_Write (hd_h d) c = Some (Ret (h, fs, None))" and "fields_run fs (hd_state d) = Some st"
    and "ended \<Longrightarrow> saveBuf h = []"
  shows "decodeHTTP2Headers c ended d = Some (Ret ((ended, None), ready h st))"
  using assms emit_all_run [of fs "d\<lparr>hd_h := h, hd_err := None\<rparr>" st]
  by (auto simp: decodeHTTP2Headers_def d_Close_def ready_def Let_def)

text \<open>A block that is read without an error is read so in two parts.\<close>

lemma d_Write_split:
  assumes "d_Write h (p @ q) = Some (Ret (h', fs, None))" and "maxStrLen h = 0"
  shows "\<exists>h1 f1 f2. d_Write h p = Some (Ret (h1, f1, None)) \<and> d_Write h1 q = Some (Ret (h', f2, None)) \<and>
    fs = f1 @ f2 \<and> maxStrLen h1 = 0"
proof -
  from assms(1) obtain h1 f1 where p: "d_Write h p = Some (Ret (h1, f1, None))"
    unfolding d_Write_append [OF assms(2)]
    by (cases rule: run_bind.cases [of "(d_Write h p, undefined)"]) (auto split: option.splits)
  with assms(1) obtain f2 where "d_Write h1 q = Some (Ret (h', f2, None))" "fs = f1 @ f2"
    unfolding d_Write_append [OF assms(2)]
    by (cases rule: run_bind.cases [of "(d_Write h1 q, undefined)"]) auto
  moreover have "maxStrLen h1 = 0"
    using p assms(2) write_loop_maxStrLen by (cases "p = []") (fastforce simp: d_Write_eq)+
  ultimately show ?thesis using p by blast
qed

lemma block_split:
  assumes "d_Write h b = Some (Ret (h', fs, None))" and "maxStrLen h = 0" and "fields_run fs st0 = Some st"
  shows "\<exists>h1 f1 f2 st1. d_Write h (take n b) = Some (Ret (h1, f1, None)) \<and> d_Write h1 (drop n b) = Some (Ret (h', f2, None)) \<and>
    maxStrLen h1 = 0 \<and> fields_run f1 st0 = Some st1 \<and> fields_run f2 st1 = Some st"
proof -
  have "d_Write h (take n b @ drop n b) = Some (Ret (h', fs, None))" using assms(1) by simp
  from d_Write_split [OF this assms(2)] assms(3) show ?thesis
    by (auto simp: fields_run_append bind_eq_Some_conv)
qed

definition block_read :: "streamid \<Rightarrow> Decoder \<Rightarrow> decodeState \<Rightarrow> bool \<Rightarrow> http2Client \<Rightarrow> http2Client" where
  "block_read i h st endStream t =
    (upd_stream i (headers_arrived st endStream) t)\<lparr>t_hDec := ready h noState, t_cur := None\<rparr>"

lemma operateHeaders_last:
  assumes "d_Write (hd_h (t_hDec t)) c = Some (Ret (h, fs, None))" and "fields_run fs (hd_state (t_hDec t)) = Some st"
    and "saveBuf h = []"
  shows "operateHeaders (Some i) c True endStream t = Some (Ret (block_read i h st endStream t))"
  using decode_chunk [OF assms(1,2), of True] assms(3)
  by (simp add: operateHeaders_def block_read_def ready_def)

lemma operateHeaders_part:
  assumes "d_Write (hd_h (t_hDec t)) c = Some (Ret (h, fs, None))" and "fields_run fs (hd_state (t_hDec t)) = Some st"
  shows "operateHeaders (Some i) c False endStream t = Some (Ret (t\<lparr>t_hDec := ready h st, t_cur := Some i\<rparr>))"
  using decode_chunk [OF assms, of False] by (simp add: operateHeaders_def)

lemma block_read_upd [simp]: "block_read i h st endStream (t\<lparr>t_hDec := x, t_cur := y\<rparr>) = block_read i h st endStream t"
  by (simp add: block_read_def upd_stream_def)

lemma continuation_frame:
  "reader_frame (frame_of (PutContinuation i e c)) t = operateHeaders (t_cur t) c e e t"
  by (cases e) (simp_all add: reader_frame_def HeadersEnded_def head_op_def)

lemma headers_frame:
  assumes "validStreamID i" and "i \<in> t_active t" and "t_streams t i = Some s" and "s_id s = i"
  shows "reader_frame (frame_of (PutHeaders (first_part i es e c))) t = operateHeaders (Some i) c e es t"
  using assms Has_headers_flags [of "first_part i es e c"]
  by (simp add: reader_frame_def HeadersEnded_def StreamEnded_def head_op_def getStream_def validStreamID_iff first_part_def)

lemma read_continuations:
  assumes "d_Write (hd_h (t_hDec t)) b = Some (Ret (h, fs, None))" and "fields_run fs (hd_state (t_hDec t)) = Some st"
    and "saveBuf h = []" and "maxStrLen (hd_h (t_hDec t)) = 0" and "t_cur t = Some i"
  shows "reader_frames (map frame_of (block_ops False i es b)) t = Some (Ret (block_read i h st True t))"
  using assms
proof (induction "length b" arbitrary: b t fs rule: less_induct)
  case less
  show ?case
  proof (cases "length b \<le> http2MaxFrameLen")
    case True
    then show ?thesis
      using operateHeaders_last [OF less.prems(1-3)] less.prems(5)
      by (subst block_ops.simps) (simp add: continuation_frame del: frame_of.simps)
  next
    case False
    let ?p = "take http2MaxFrameLen b" and ?q = "drop http2MaxFrameLen b"
    obtain h1 f1 f2 st1 where w: "d_Write (hd_h (t_hDec t)) ?p = Some (Ret (h1, f1, None))" "d_Write h1 ?q = Some (Ret (h, f2, None))"
        "maxStrLen h1 = 0" and st1: "fields_run f1 (hd_state (t_hDec t)) = Some st1" "fields_run f2 st1 = Some st"
      using block_split [OF less.prems(1,4,2)] by blast
    let ?t = "t\<lparr>t_hDec := ready h1 st1, t_cur := Some i\<rparr>"
    have "reader_frames (map frame_of (block_ops False i es ?q)) ?t = Some (Ret (block_read i h st True ?t))"
      using False w st1 less.prems(3) by (intro less.hyps) (auto simp: http2MaxFrameLen_def ready_def)
    moreover have "operateHeaders (Some i) ?p False False t = Some (Ret ?t)"
      by (rule operateHeaders_part [OF w(1) st1(1)])
    ultimately show ?thesis
      using False less.prems(5) by (subst block_ops.simps) (simp add: continuation_frame del: frame_of.simps)
  qed
qed

text \<open>
  The whole block: its fields reach the stream, with the end of the stream that the first frame
  announces when there is no other frame, and as the end of the stream when there is.
\<close>

lemma read_block:
  assumes "d_Write (hd_h (t_hDec t)) b = Some (Ret (h, fs, None))" and "fields_run fs (hd_state (t_hDec t)) = Some st"
    and "saveBuf h = []" and "maxStrLen (hd_h (t_hDec t)) = 0"
    and "validStreamID i" and "i \<in> t_active t" and "t_streams t i = Some s" and "s_id s = i"
  shows "reader_frames (map frame_of (block_ops True i es b)) t =
    Some (Ret (block_read i h st (es \<or> http2MaxFrameLen < length b) t))"
proof (cases "length b \<le> http2MaxFrameLen")
  case True
  then show ?thesis
    using operateHeaders_last [OF assms(1-3)] headers_frame [OF assms(5-8)]
    by (subst block_ops.simps) (simp del: frame_of.simps)
next
  case False
  let ?p = "take http2MaxFrameLen b" and ?q = "drop http2MaxFrameLen b"
  obtain h1 f1 f2 st1 where w: "d_Write (hd_h (t_hDec t)) ?p = Some (Ret (h1, f1, None))" "d_Write h1 ?q = Some (Ret (h, f2, None))"
      "maxStrLen h1 = 0" and st1: "fields_run f1 (hd_state (t_hDec t)) = Some st1" "fields_run f2 st1 = Some st"
    using block_split [OF assms(1,4,2)] by blast
  let ?t = "t\<lparr>t_hDec := ready h1 st1, t_cur := Some i\<rparr>"
  have "reader_frames (map frame_of (block_ops False i es ?q)) ?t = Some (Ret (block_read i h st True ?t))"
    using w st1 assms(3) by (intro read_continuations [where fs = f2]) (auto simp: ready_def)
  moreover have "operateHeaders (Some i) ?p False es t = Some (Ret ?t)"
    by (rule operateHeaders_part [OF w(1) st1(1)])
  ultimately show ?thesis
    using False headers_frame [OF assms(5-8)] by (subst block_ops.simps) (simp del: frame_of.simps)
qed


section \<open>The server's end of a stream\<close>

record server_stream =
  ss_id :: streamid
  ss_headerOk :: bool
  ss_state :: streamState
  ss_trailer :: MD

record server_conn =
  sv_hEnc :: Encoder
  sv_framer :: Framer

definition errCodeName :: "ErrCode \<Rightarrow> string option" where
  "errCodeName c =
    (if c = ErrCodeNo then Some ''NO_ERROR''
     else if c = ErrCodeProtocol then Some ''PROTOCOL_ERROR''
     else if c = ErrCodeInternal then Some ''INTERNAL_ERROR''
     else if c = ErrCodeFlowControl then Some ''FLOW_CONTROL_ERROR''
     else if c = ErrCodeSettingsTimeout then Some ''SETTINGS_TIMEOUT''
     else if c = ErrCodeStreamClosed then Some ''STREAM_CLOSED''
     else if c = ErrCodeFrameSize then Some ''FRAME_SIZE_ERROR''
     else if c = ErrCodeRefusedStream then Some ''REFUSED_STREAM''
     else if c = ErrCodeCancel then Some ''CANCEL''
     else if c = ErrCodeCompression then Some ''COMPRESSION_ERROR''
     else if c = ErrCodeConnect then Some ''CONNECT_ERROR''
     else if c = ErrCodeEnhanceYourCalm then Some ''ENHANCE_YOUR_CALM''
     else if c = ErrCodeInadequateSecurity then Some ''INADEQUATE_SECURITY''
     else if c = ErrCodeHTTP11Required then Some ''HTTP_1_1_REQUIRED''
     else None)"

fun show_hex :: "nat \<Rightarrow> string" where
  "show_hex n = (if n < 16 then [hex_char n] else show_hex (n div 16) @ [hex_char (n mod 16)])"

declare show_hex.simps [simp del]

definition ErrCode_String :: "ErrCode \<Rightarrow> string" where
  "ErrCode_String e = (case errCodeName e of Some s \<Rightarrow> s | None \<Rightarrow> ''unknown error code 0x'' @ show_hex (unat e))"

fun h2_Error :: "h2_error \<Rightarrow> string" where
  "h2_Error (H2ConnectionError e) = ''connection error: '' @ ErrCode_String e"
| "h2_Error (H2StreamError i e) = ''stream error: stream ID '' @ show_nat (unat i) @ ''; '' @ ErrCode_String e"
| "h2_Error ErrFrameTooLarge = ''http2: frame too large''"
| "h2_Error (H2Error g) = Error g"

text \<open>The fields go through the encoder into a buffer, and the buffer into frames.\<close>

definition send_block :: "streamid \<Rightarrow> HeaderField list \<Rightarrow> bool \<Rightarrow> server_conn \<Rightarrow> (rpc_error option \<times> server_conn) go" where
  "send_block i hfs endStream c = go_bind (encode_ops (map OWrite hfs) (sv_hEnc c)) (\<lambda>(b, e).
     case write_block True i endStream b (sv_framer c) of (err, fr) \<Rightarrow>
       Ret (map_option (\<lambda>x. ConnectionError (''transport: '' @ h2_Error x)) err, \<lparr>sv_hEnc = e, sv_framer = fr\<rparr>))"

definition md_fields :: "MD \<Rightarrow> HeaderField list" where
  "md_fields md = concat (map (\<lambda>(k, vs). map (pair k) vs) md)"

definition response_fields :: "HeaderField list" where
  "response_fields = [pair '':status'' ''200'', pair ''content-type'' ''application/grpc'']"

definition ErrIllegalHeaderWrite :: rpc_error where
  "ErrIllegalHeaderWrite = GoError (Errorf ''transport: the stream is done or WriteHeader was already called'')"

text \<open>\<open>WriteHeader\<close> and \<open>WriteStatus\<close> once the writer has its turn.\<close>

definition WriteHeader :: "MD \<Rightarrow> server_stream \<Rightarrow> server_conn \<Rightarrow> (rpc_error option \<times> server_stream \<times> server_conn) go" where
  "WriteHeader md s c =
    (if ss_headerOk s \<or> ss_state s = streamDone then Ret (Some ErrIllegalHeaderWrite, s, c)
     else go_bind (send_block (ss_id s) (response_fields @ md_fields md) False c) (\<lambda>(err, c').
       Ret (err, s\<lparr>ss_headerOk := True\<rparr>, c')))"

definition status_fields :: "server_stream \<Rightarrow> 32 word \<Rightarrow> string \<Rightarrow> HeaderField list" where
  "status_fields s code desc = (if ss_headerOk s then [] else response_fields) @
     [pair ''grpc-status'' (show_int (int (unat code))), pair ''grpc-message'' desc] @ md_fields (ss_trailer s)"

definition WriteStatus ::
    "32 word \<Rightarrow> string \<Rightarrow> server_stream \<Rightarrow> server_conn \<Rightarrow> (rpc_error option \<times> server_stream \<times> server_conn) go" where
  "WriteStatus code desc s c =
    (if ss_state s = streamDone then Ret (None, s, c)
     else go_bind (send_block (ss_id s) (status_fields s code desc) True c) (\<lambda>(err, c').
       Ret (err, if err = None then s\<lparr>ss_state := streamDone\<rparr> else s, c')))"


section \<open>The fields at the client\<close>

text \<open>Metadata that is sent as it is: plain keys, each once, each with a value.\<close>

definition plain_key :: "string \<Rightarrow> bool" where
  "plain_key k = (isReservedHeader k = Ret False \<and> \<not> suffix binHdrSuffix k \<and> k \<noteq> ''user-agent'')"

definition plain_md :: "MD \<Rightarrow> bool" where
  "plain_md md = (distinct (map fst md) \<and> list_all (\<lambda>(k, vs). plain_key k \<and> vs \<noteq> []) md)"

lemma str_pair [simp]: "str (hf_Name (pair k v)) = k" "str (hf_Value (pair k v)) = v"
  by (simp_all add: pair_def str_def comp_def)

lemma emit_plain:
  assumes "plain_key k"
  shows "emit_field k v st = Ret (None, st\<lparr>ds_mdata := md_append (ds_mdata st) k v\<rparr>)"
proof -
  have r: "isReservedHeader k = Ret False" and s: "\<not> suffix binHdrSuffix k" "k \<noteq> ''user-agent''"
    using assms by (simp_all add: plain_key_def)
  then have "k \<noteq> ''content-type'' \<and> k \<noteq> ''grpc-status'' \<and> k \<noteq> ''grpc-message'' \<and> k \<noteq> ''grpc-timeout'' \<and> k \<noteq> '':path''"
    by (auto simp: isReservedHeader_def)
  with r s show ?thesis by (simp add: emit_field_def emit_metadata_def DecodeKeyValue_def)
qed

lemma md_append_new: "k \<notin> fst ` set m \<Longrightarrow> md_append m k v = m @ [(k, [v])]"
proof -
  assume k: "k \<notin> fst ` set m"
  then have "AList.update k w m = m @ [(k, w)]" for w by (induction m) auto
  moreover have "map_of m k = None" using k by (simp add: map_of_eq_None_iff)
  ultimately show ?thesis by (simp add: md_append_def)
qed

lemma md_append_last: "k \<notin> fst ` set m \<Longrightarrow> md_append (m @ [(k, vs)]) k v = m @ [(k, vs @ [v])]"
proof -
  assume k: "k \<notin> fst ` set m"
  then have "AList.update k w (m @ [(k, vs)]) = m @ [(k, w)]" for w by (induction m) auto
  moreover have "map_of (m @ [(k, vs)]) k = Some vs"
    using k by (auto simp: map_add_def split: option.splits dest!: map_of_SomeD intro: rev_image_eqI)
  ultimately show ?thesis by (simp add: md_append_def)
qed

lemma fields_run_values:
  assumes "plain_key k" and "k \<notin> fst ` set m"
  shows "fields_run (map (pair k) ws) (st\<lparr>ds_mdata := m @ [(k, vs)]\<rparr>) = Some (st\<lparr>ds_mdata := m @ [(k, vs @ ws)]\<rparr>)"
  using assms by (induction ws arbitrary: vs) (simp_all add: emit_plain md_append_last)

lemma fields_run_entry:
  assumes "plain_key k" and "k \<notin> fst ` set (ds_mdata st)" and "vs \<noteq> []"
  shows "fields_run (map (pair k) vs) st = Some (st\<lparr>ds_mdata := ds_mdata st @ [(k, vs)]\<rparr>)"
proof -
  obtain v ws where vs: "vs = v # ws" using assms(3) by (cases vs) auto
  show ?thesis
    using assms fields_run_values [OF assms(1,2), where ws = ws and st = st and vs = "[v]"] by (simp add: vs emit_plain md_append_new)
qed

lemma fields_run_md:
  assumes "plain_md md" and "fst ` set (ds_mdata st) \<inter> fst ` set md = {}"
  shows "fields_run (md_fields md) st = Some (st\<lparr>ds_mdata := ds_mdata st @ md\<rparr>)"
  using assms
proof (induction md arbitrary: st)
  case (Cons e md)
  obtain k vs where e: "e = (k, vs)" by (cases e)
  have "fields_run (map (pair k) vs) st = Some (st\<lparr>ds_mdata := ds_mdata st @ [(k, vs)]\<rparr>)"
    using Cons.prems by (intro fields_run_entry) (auto simp: plain_md_def e)
  moreover have "fields_run (md_fields md) (st\<lparr>ds_mdata := ds_mdata st @ [(k, vs)]\<rparr>) = Some (st\<lparr>ds_mdata := ds_mdata st @ e # md\<rparr>)"
    using Cons.prems by (subst Cons.IH) (auto simp: plain_md_def e)
  ultimately show ?case by (simp add: md_fields_def e fields_run_append)
qed (simp add: md_fields_def)

lemma Contains_grpc: "Contains ''application/grpc'' ''application/grpc''"
  by (simp add: Contains_def list_ex_iff)

lemma fields_run_response: "fields_run response_fields st = Some st"
  by (simp add: response_fields_def emit_field_def isReservedHeader_def Contains_grpc)

lemma fields_run_status:
  assumes "plain_md (ss_trailer s)"
  shows "fields_run (status_fields s code desc) noState =
    Some (noState\<lparr>ds_statusCode := code, ds_statusDesc := desc, ds_mdata := ss_trailer s\<rparr>)"
proof -
  have "ParseInt10 (show_int (int (unat code))) = Inr (int (unat code))"
    using uint_bounded [of code] by (intro ParseInt10_show) (auto simp: in64_def intro: order_trans [of _ 0])
  then have "fields_run [pair ''grpc-status'' (show_int (int (unat code))), pair ''grpc-message'' desc] st =
      Some (st\<lparr>ds_statusCode := code, ds_statusDesc := desc\<rparr>)" for st
    by (simp add: emit_field_def)
  moreover have "fields_run (if ss_headerOk s then [] else response_fields) noState = Some noState"
    by (simp add: fields_run_response)
  ultimately show ?thesis
    unfolding status_fields_def fields_run_append using fields_run_md [OF assms] by (simp add: noState_def)
qed


section \<open>From server to client\<close>

lemma reader_loop_frames:
  assumes "read_frames n rd = Ret (Inr fs, rd')" and "reader_frames fs t = Some (Ret t')"
  shows "reader_loop rd t = reader_loop rd' t'"
  using assms
proof (induction n arbitrary: rd fs t)
  case (Suc n)
  obtain res rd1 where res: "ReadFrame rd = Ret (res, rd1)" using Suc.prems(1) by (auto elim!: go_bindE)
  then obtain f where f: "res = Inr f" using Suc.prems(1) by (cases res) auto
  then obtain rest rd2 where rest: "read_frames n rd1 = Ret (rest, rd2)" using Suc.prems(1) res by (auto elim!: go_bindE)
  then obtain fs1 where r: "ReadFrame rd = Ret (Inr f, rd1)" "read_frames n rd1 = Ret (Inr fs1, rd')" "fs = f # fs1"
    using Suc.prems(1) res f by (cases rest) auto
  from Suc.prems(2) r(3) obtain t1 where t1: "reader_frame f t = Some (Ret t1)" "reader_frames fs1 t1 = Some (Ret t')"
    by (cases rule: run_bind.cases [of "(reader_frame f t, undefined)"]) auto
  from Suc.IH [OF r(2) t1(2)] r(1) t1(1) show ?case by (subst reader_loop.simps) simp
qed simp

text \<open>A connection whose two ends agree, between two header blocks.\<close>

definition connected :: "server_conn \<Rightarrow> http2Client \<Rightarrow> bool" where
  "connected c t = (synced http2InitHeaderTableSize (sv_hEnc c) (hd_h (t_hDec t)) \<and> hd_state (t_hDec t) = noState \<and>
     full_writer (sv_framer c) \<and> \<not> AllowIllegalWrites (sv_framer c))"

definition sendable :: "HeaderField list \<Rightarrow> bool" where
  "sendable fs = (fs \<noteq> [] \<and> list_all (\<lambda>f. length (hf_Name f) + length (hf_Value f) + 32 < 2 ^ 32) fs)"

lemma written_OWrite: "written (map OWrite fs) = fs"
  by (induction fs) simp_all

lemma encoded_block:
  assumes "connected c t" and "sendable fs"
  shows "\<exists>b e h. encode_ops (map OWrite fs) (sv_hEnc c) = Ret (b, e) \<and> b \<noteq> [] \<and>
    d_Write (hd_h (t_hDec t)) b = Some (Ret (h, fs, None)) \<and> synced http2InitHeaderTableSize e h"
proof -
  have ops: "list_all (op_ok http2InitHeaderTableSize) (map OWrite fs)"
    using assms(2) by (simp add: sendable_def list_all_iff)
  from encode_ops_read [OF _ ops] assms(1) obtain b e h where b: "encode_ops (map OWrite fs) (sv_hEnc c) = Ret (b, e)"
      "synced http2InitHeaderTableSize e h"
      "\<And>rest out. write_loop (hd_h (t_hDec t)) (b @ rest) out = write_loop h rest (out @ fs)"
    by (force simp: connected_def written_OWrite)
  have w: "write_loop (hd_h (t_hDec t)) b [] = Some (Ret (h, fs, None))"
    using b(3) [of "[]" "[]"] by (simp add: write_loop.simps [of h])
  then have "b \<noteq> []" using assms(2) by (auto simp: sendable_def write_loop.simps [of "hd_h (t_hDec t)"])
  with w b assms(1) show ?thesis by (auto simp: d_Write_def connected_def synced_def)
qed

text \<open>One block from a server to a stream of a client, over the wire.\<close>

lemma block_crosses:
  assumes "connected c t" and "sendable fs" and "fields_run fs noState = Some st" and "open_stream i s t"
    and "fr_sent (sv_framer c) = []"
  shows "\<exists>b e c' h. encode_ops (map OWrite fs) (sv_hEnc c) = Ret (b, e) \<and> send_block i fs es c = Ret (None, c') \<and>
    connected c' (block_read i h st (es \<or> http2MaxFrameLen < length b) t) \<and>
    (\<forall>rd rest. fr_r rd = fr_sent (sv_framer c') @ rest \<and> http2MaxFrameLen \<le> unat (maxReadSize rd) \<longrightarrow>
      (\<exists>rd'. reader_loop rd t = reader_loop rd' (block_read i h st (es \<or> http2MaxFrameLen < length b) t) \<and> fr_r rd' = rest))"
proof -
  obtain b e h where b: "encode_ops (map OWrite fs) (sv_hEnc c) = Ret (b, e)" "b \<noteq> []"
      "d_Write (hd_h (t_hDec t)) b = Some (Ret (h, fs, None))" "synced http2InitHeaderTableSize e h"
    using encoded_block [OF assms(1,2)] by blast
  let ?ops = "block_ops True i es b" and ?f = "sv_framer c" and ?t = "block_read i h st (es \<or> http2MaxFrameLen < length b) t"
  have f: "full_writer ?f" "\<not> AllowIllegalWrites ?f" using assms(1) by (simp_all add: connected_def)
  have i: "validStreamID i" "i \<in> t_active t" "t_streams t i = Some s" "s_id s = i" using assms(4) by (simp_all add: open_stream_def)
  note ok = block_ops_sent [OF i(1) b(2), of True es]
  then have "list_all (\<lambda>op. legal op \<and> length (payload op) < 2 ^ 24) ?ops"
    by (auto simp: list_all_iff http2MaxFrameLen_def)
  from write_all_total [OF f this] obtain f' where w: "write_all ?ops ?f = (None, f')" by (metis prod.collapse)
  define c' where "c' = \<lparr>sv_hEnc = e, sv_framer = f'\<rparr>"
  have send: "send_block i fs es c = Ret (None, c')"
    using b(1) w by (simp add: send_block_def write_block_all c'_def)
  have sent: "fr_sent f' = concat (map wire ?ops)" using write_all_ok(3) [OF f w] assms(5) by simp
  have read: "reader_frames (map frame_of ?ops) t = Some (Ret ?t)"
    using assms(1,3) b(3,4) i
    by (intro read_block [where fs = fs and s = s]) (auto simp: connected_def synced_def unlimited_def)
  have "\<exists>rd'. reader_loop rd t = reader_loop rd' ?t \<and> fr_r rd' = rest"
    if "fr_r rd = fr_sent f' @ rest" "http2MaxFrameLen \<le> unat (maxReadSize rd)" for rd rest
  proof -
    have "list_all (passes (maxReadSize rd)) ?ops"
      using ok that(2) by (auto simp: list_all_iff passes_def http2MaxFrameLen_def)
    from h2.get_n_puts [OF this, of rest] that(1) sent
    have "get_n (frame_get (maxReadSize rd)) (length ?ops) (fr_r rd) = Inr (map frame_of ?ops, rest)" by simp
    from read_frames_get [OF this] reader_loop_frames [OF _ read] show ?thesis by metis
  qed
  moreover have "connected c' ?t"
    using write_all_framer [OF w] f b(4) by (simp add: connected_def block_read_def ready_def c'_def)
  ultimately show ?thesis using b(1) send by (auto simp: c'_def)
qed

lemma headers_end_stream:
  assumes "s_state s \<noteq> streamDone"
  shows "s_state (headers_arrived st True s) = streamDone" "s_statusCode (headers_arrived st True s) = ds_statusCode st"
    "s_statusDesc (headers_arrived st True s) = ds_statusDesc st"
    "s_trailer (headers_arrived st True s) = (if ds_mdata st = [] then s_trailer s else ds_mdata st)"
    "rb_queue (s_buf (headers_arrived st True s)) = rb_queue (s_buf s) @ [EOF_msg]"
  using assms by (simp_all add: headers_arrived_def s_write_def Let_def rb_queue_put)

lemma block_read_stream: "t_streams t i = Some s \<Longrightarrow> t_streams (block_read i h st es t) i = Some (headers_arrived st es s)"
  by (simp add: block_read_def upd_stream_def)

text \<open>
  C6. The status a server writes is the status its client reports: whatever the code, the description and
  the plain trailer metadata, and however many frames they take, the reader of the connection that gets
  the bytes of \<open>WriteStatus\<close> ends the stream with that code, description and trailer, queues the end of
  the stream behind the data already received, goes on with the bytes that follow, and leaves the two
  header tables in agreement for the next block.
\<close>

theorem status_crosses_the_wire:
  assumes "connected c t" and "open_stream (ss_id ss) s t" and "s_state s \<noteq> streamDone" and "ss_state ss \<noteq> streamDone"
    and "plain_md (ss_trailer ss)" and "sendable (status_fields ss code desc)" and "fr_sent (sv_framer c) = []"
  shows "\<exists>ss' c' t' s'. WriteStatus code desc ss c = Ret (None, ss', c') \<and> ss_state ss' = streamDone \<and>
    (\<forall>rd rest. fr_r rd = fr_sent (sv_framer c') @ rest \<and> http2MaxFrameLen \<le> unat (maxReadSize rd) \<longrightarrow>
      (\<exists>rd'. reader_loop rd t = reader_loop rd' t' \<and> fr_r rd' = rest)) \<and>
    connected c' t' \<and> t_streams t' (ss_id ss) = Some s' \<and> s_state s' = streamDone \<and> s_statusCode s' = code \<and>
    s_statusDesc s' = desc \<and> s_trailer s' = (if ss_trailer ss = [] then s_trailer s else ss_trailer ss) \<and>
    rb_queue (s_buf s') = rb_queue (s_buf s) @ [EOF_msg]"
proof -
  let ?st = "noState\<lparr>ds_statusCode := code, ds_statusDesc := desc, ds_mdata := ss_trailer ss\<rparr>" and ?i = "ss_id ss"
  obtain b e c' h where x: "send_block ?i (status_fields ss code desc) True c = Ret (None, c')"
      "connected c' (block_read ?i h ?st True t)"
      "\<forall>rd rest. fr_r rd = fr_sent (sv_framer c') @ rest \<and> http2MaxFrameLen \<le> unat (maxReadSize rd) \<longrightarrow>
        (\<exists>rd'. reader_loop rd t = reader_loop rd' (block_read ?i h ?st True t) \<and> fr_r rd' = rest)"
    using block_crosses [OF assms(1,6) fields_run_status [OF assms(5)] assms(2,7), of True] by auto
  have "t_streams (block_read ?i h ?st True t) ?i = Some (headers_arrived ?st True s)"
    using assms(2) by (intro block_read_stream) (simp add: open_stream_def)
  with x assms(4) headers_end_stream [OF assms(3), of ?st] show ?thesis
    by (intro exI [of _ "ss\<lparr>ss_state := streamDone\<rparr>"] exI [of _ c'] exI [of _ "block_read ?i h ?st True t"]
        exI [of _ "headers_arrived ?st True s"]) (simp add: WriteStatus_def)
qed

text \<open>
  C40. A server that sends response headers of more than 16384 bytes ends the call at the client: the
  continuation frame is taken for the end of the stream, and the client reports the status \<open>OK\<close> with no
  description, and the end of the data, before any data was sent.
\<close>

theorem long_header_ends_stream:
  assumes "connected c t" and "open_stream (ss_id ss) s t" and "s_state s \<noteq> streamDone" and "ss_state ss \<noteq> streamDone"
    and "\<not> ss_headerOk ss" and "plain_md md" and "sendable (response_fields @ md_fields md)" and "fr_sent (sv_framer c) = []"
    and "encode_ops (map OWrite (response_fields @ md_fields md)) (sv_hEnc c) = Ret (b, e)" and "http2MaxFrameLen < length b"
  shows "\<exists>ss' c' t' s'. WriteHeader md ss c = Ret (None, ss', c') \<and> ss_state ss' = ss_state ss \<and>
    (\<forall>rd rest. fr_r rd = fr_sent (sv_framer c') @ rest \<and> http2MaxFrameLen \<le> unat (maxReadSize rd) \<longrightarrow>
      (\<exists>rd'. reader_loop rd t = reader_loop rd' t' \<and> fr_r rd' = rest)) \<and>
    t_streams t' (ss_id ss) = Some s' \<and> s_state s' = streamDone \<and> s_statusCode s' = code_num OK \<and> s_statusDesc s' = [] \<and>
    rb_queue (s_buf s') = rb_queue (s_buf s) @ [EOF_msg]"
proof -
  let ?st = "noState\<lparr>ds_mdata := md\<rparr>" and ?i = "ss_id ss" and ?fs = "response_fields @ md_fields md"
  have "fields_run ?fs noState = Some ?st"
    using fields_run_md [OF assms(6), of noState] by (simp add: fields_run_append fields_run_response) (simp add: noState_def)
  from block_crosses [OF assms(1,7) this assms(2,8), of False] assms(9,10)
  obtain c' h where x: "send_block ?i ?fs False c = Ret (None, c')"
      "\<forall>rd rest. fr_r rd = fr_sent (sv_framer c') @ rest \<and> http2MaxFrameLen \<le> unat (maxReadSize rd) \<longrightarrow>
        (\<exists>rd'. reader_loop rd t = reader_loop rd' (block_read ?i h ?st True t) \<and> fr_r rd' = rest)"
    by auto
  have "t_streams (block_read ?i h ?st True t) ?i = Some (headers_arrived ?st True s)"
    using assms(2) by (intro block_read_stream) (simp add: open_stream_def)
  with x assms(4,5) headers_end_stream [OF assms(3), of ?st] show ?thesis
    by (intro exI [of _ "ss\<lparr>ss_headerOk := True\<rparr>"] exI [of _ c'] exI [of _ "block_read ?i h ?st True t"]
        exI [of _ "headers_arrived ?st True s"]) (simp add: WriteHeader_def noState_def code_num_def)
qed


section \<open>A connection with one call\<close>

definition demo_server_stream :: server_stream where
  "demo_server_stream = \<lparr>ss_id = 1, ss_headerOk = False, ss_state = streamActive, ss_trailer = [(''cause'', [''timeout''])]\<rparr>"

definition demo_conn :: "Encoder \<Rightarrow> server_conn" where
  "demo_conn e = \<lparr>sv_hEnc = e, sv_framer = NewFramer (\<lambda>b. (length b, None)) []\<rparr>"

lemma demo_connected: "\<exists>e d. connected (demo_conn e) (demo_client d)"
  using start_synced [of http2InitHeaderTableSize]
  by (auto simp: connected_def demo_conn_def demo_client_def ready_def NewFramer_def SetMaxReadFrameSize_def full_writer_def
      http2InitHeaderTableSize_def)

lemma demo_sent: "fr_sent (sv_framer (demo_conn e)) = []"
  by (simp add: demo_conn_def NewFramer_def SetMaxReadFrameSize_def)

lemma length_pair: "length (hf_Name (pair k v)) = length k" "length (hf_Value (pair k v)) = length v"
  by (simp_all add: pair_def)

theorem status_crosses_the_wire_witness:
  "\<exists>e d ss' c' t' s'. WriteStatus (code_num NotFound) ''missing'' demo_server_stream (demo_conn e) = Ret (None, ss', c') \<and>
     ss_state ss' = streamDone \<and> connected c' t' \<and> t_streams t' 1 = Some s' \<and> s_state s' = streamDone \<and>
     s_statusCode s' = code_num NotFound \<and> s_statusDesc s' = ''missing'' \<and> s_trailer s' = [(''cause'', [''timeout''])] \<and>
     (\<exists>rd'. reader_loop (NewFramer (\<lambda>b. (length b, None)) (fr_sent (sv_framer c') @ [1])) (demo_client d) = reader_loop rd' t' \<and>
        fr_r rd' = [1])"
proof -
  let ?ss = demo_server_stream
  obtain e d where c: "connected (demo_conn e) (demo_client d)" using demo_connected by blast
  have tr: "plain_md (ss_trailer ?ss)"
    by (simp add: plain_md_def plain_key_def demo_server_stream_def isReservedHeader_def binHdrSuffix_def suffix_def)
  have "length (show_int (int (unat (code_num NotFound)))) < 10"
    by (simp add: code_num_def show_int_def) (subst show_nat.simps, simp)
  then have se: "sendable (status_fields ?ss (code_num NotFound) ''missing'')"
    by (simp add: sendable_def status_fields_def demo_server_stream_def response_fields_def md_fields_def length_pair)
  have o: "open_stream (ss_id ?ss) demo_stream (demo_client d)" "ss_state ?ss \<noteq> streamDone"
    using demo_open(1) by (simp_all add: demo_server_stream_def)
  from status_crosses_the_wire [OF c o(1) demo_open(2) o(2) tr se demo_sent]
  obtain ss' c' t' s' where r: "WriteStatus (code_num NotFound) ''missing'' ?ss (demo_conn e) = Ret (None, ss', c')"
      "ss_state ss' = streamDone" "connected c' t'" "t_streams t' 1 = Some s'" "s_state s' = streamDone"
      "s_statusCode s' = code_num NotFound" "s_statusDesc s' = ''missing''" "s_trailer s' = [(''cause'', [''timeout''])]"
      and rd: "\<forall>rd rest. fr_r rd = fr_sent (sv_framer c') @ rest \<and> http2MaxFrameLen \<le> unat (maxReadSize rd) \<longrightarrow>
        (\<exists>rd'. reader_loop rd (demo_client d) = reader_loop rd' t' \<and> fr_r rd' = rest)"
    by (auto simp: demo_server_stream_def)
  let ?rd = "NewFramer (\<lambda>b. (length b, None)) (fr_sent (sv_framer c') @ [1])"
  have "fr_r ?rd = fr_sent (sv_framer c') @ [1] \<and> http2MaxFrameLen \<le> unat (maxReadSize ?rd)"
    by (simp add: NewFramer_def SetMaxReadFrameSize_def maxFrameSize_def http2MaxFrameLen_def)
  with rd r show ?thesis by blast
qed

text \<open>Every field takes at least a byte.\<close>

lemma encoded_length:
  "synced A e d \<Longrightarrow> list_all (op_ok A) (map OWrite fs) \<Longrightarrow> encode_ops (map OWrite fs) e = Ret (b, e') \<Longrightarrow> length fs \<le> length b"
proof (induction fs arbitrary: e d b)
  case (Cons f fs)
  from Cons.prems(2) have "fsize f < 2 ^ 32" by (simp add: fsize_def)
  from WriteField_read [OF Cons.prems(1) this] obtain bs e1 d1 where w: "WriteField f e = Ret (bs, e1)" "synced A e1 d1"
      "\<And>rest out. write_loop d (bs @ rest) out = write_loop d1 rest (out @ [f])" by metis
  have "bs \<noteq> []"
  proof
    assume "bs = []"
    with w(3) [of "[]" "[]"] show False by (simp add: write_loop.simps [of d] write_loop.simps [of d1])
  qed
  moreover obtain cs where cs: "encode_ops (map OWrite fs) e1 = Ret (cs, e')" "b = bs @ cs"
    using Cons.prems(3) w(1) by (auto elim!: go_bindE)
  moreover have "length fs \<le> length cs" using Cons.IH [OF w(2) _ cs(1)] Cons.prems(2) by simp
  ultimately show ?case by (cases bs) auto
qed simp

definition demo_long :: MD where
  "demo_long = [(''entry'', replicate 16384 ''v'')]"

theorem long_header_ends_stream_witness:
  "\<exists>e ss' c' t' s'. WriteHeader demo_long demo_server_stream (demo_conn e) = Ret (None, ss', c') \<and> ss_state ss' = streamActive \<and>
     t_streams (t' :: http2Client) 1 = Some s' \<and> s_state s' = streamDone \<and> s_statusCode s' = code_num OK \<and> s_statusDesc s' = [] \<and>
     rb_queue (s_buf s') = [EOF_msg]"
proof -
  let ?ss = demo_server_stream and ?fs = "response_fields @ md_fields demo_long"
  obtain e d where c: "connected (demo_conn e) (demo_client d)" using demo_connected by blast
  have md: "plain_md demo_long"
    by (simp add: plain_md_def plain_key_def demo_long_def isReservedHeader_def binHdrSuffix_def suffix_def)
  have se: "sendable ?fs"
    by (simp add: sendable_def response_fields_def md_fields_def demo_long_def length_pair list_all_iff)
  then have ops: "list_all (op_ok http2InitHeaderTableSize) (map OWrite ?fs)"
    by (auto simp: sendable_def list_all_iff)
  obtain b e1 where b: "encode_ops (map OWrite ?fs) (sv_hEnc (demo_conn e)) = Ret (b, e1)"
    using encoded_block [OF c se] by blast
  have "length ?fs \<le> length b"
    using encoded_length [OF _ ops b] c by (auto simp: connected_def)
  then have big: "http2MaxFrameLen < length b"
    by (simp add: http2MaxFrameLen_def response_fields_def md_fields_def demo_long_def)
  have o: "open_stream (ss_id ?ss) demo_stream (demo_client d)" "ss_state ?ss \<noteq> streamDone" "\<not> ss_headerOk ?ss"
    using demo_open(1) by (simp_all add: demo_server_stream_def)
  have q: "rb_queue (s_buf demo_stream) = []" "ss_state ?ss = streamActive" "ss_id ?ss = 1"
    by (simp_all add: demo_stream_def newRecvBuffer_def rb_queue_def demo_server_stream_def)
  from long_header_ends_stream [OF c o(1) demo_open(2) o(2,3) md se demo_sent b big, unfolded q append_Nil] show ?thesis
    by blast
qed

end
