(* ===== verification/ClientFlow.thy ===== *)
theory ClientFlow
  imports ClientStreams
begin

text \<open>
  The client's transport as a whole, against the flow control of \<open>Transport\<close>: what its goroutines do, in
  any order (the reader dispatches a frame, a call opens or closes a stream, a stream is read, the
  controller writes an item, the transport is closed), keeps the counters of every inbound window as the
  abstract accounting has them.
\<close>

inductive client_step :: "http2Client \<Rightarrow> http2Client \<Rightarrow> bool" where
  call: "t_state t = reachable \<Longrightarrow> newStream m t = (s, t1) \<Longrightarrow> t_streams t (t_nextID t) = None \<Longrightarrow>
    client_step t (t1\<lparr>t_active := insert (s_id s) (t_active t1)\<rparr>)"
| frame: "reader_frame f t = Some (Ret t') \<Longrightarrow> length (buffer f) < 2 ^ 24 \<Longrightarrow> client_step t t'"
| read: "t_streams t i = Some s \<Longrightarrow> n \<le> fl_pendingData (s_fc s) \<or> fl_pendingData (s_fc s) = 0 \<Longrightarrow>
    client_step t (updateWindow i n t)"
| close: "client_step t (CloseStream i err t)"
| control: "controller_step t fr = Some (t', fr') \<Longrightarrow> client_step t t'"
| shutdown: "client_step t (snd (Close t))"

text \<open>A client and the accounting of its inbound windows.\<close>

definition flow_view :: "http2Client \<Rightarrow> in_conn \<Rightarrow> bool" where
  "flow_view t c \<longleftrightarrow> ic_conn c = t_fc t \<and> set (ic_ids c) = unat ` dom (t_streams t) \<and> unat ` t_active t \<subseteq> ic_active c \<and>
     (\<forall>i s. t_streams t i = Some s \<longrightarrow> s_id s = i \<and> ic_streams c (unat i) = s_fc s)"

text \<open>Steps that leave the windows alone.\<close>

definition keeps_flow :: "http2Client \<Rightarrow> http2Client \<Rightarrow> bool" where
  "keeps_flow t t' \<longleftrightarrow> t_fc t' = t_fc t \<and> t_active t' \<subseteq> t_active t \<and>
     (\<forall>i. map_option (\<lambda>s. (s_id s, s_fc s)) (t_streams t' i) = map_option (\<lambda>s. (s_id s, s_fc s)) (t_streams t i))"

lemma keeps_flow_refl [simp, intro]: "keeps_flow t t"
  by (simp add: keeps_flow_def)

lemma keeps_flow_trans: "keeps_flow t t1 \<Longrightarrow> keeps_flow t1 t2 \<Longrightarrow> keeps_flow t t2"
  by (auto simp: keeps_flow_def)

lemma keeps_flow_view:
  assumes "keeps_flow t t'" and "flow_view t c"
  shows "flow_view t' c"
proof -
  have e: "map_option (\<lambda>s. (s_id s, s_fc s)) (t_streams t' i) = map_option (\<lambda>s. (s_id s, s_fc s)) (t_streams t i)" for i
    using assms(1) by (simp add: keeps_flow_def)
  have "t_streams t' i = None \<longleftrightarrow> t_streams t i = None" for i
    using e [of i] by (cases "t_streams t' i"; cases "t_streams t i") simp_all
  then have "dom (t_streams t') = dom (t_streams t)" by (simp add: dom_def)
  moreover have "s_id s = i \<and> ic_streams c (unat i) = s_fc s" if st: "t_streams t' i = Some s" for i s
  proof -
    obtain s0 where s0: "t_streams t i = Some s0" "s_id s0 = s_id s" "s_fc s0 = s_fc s"
      using e [of i] st by (cases "t_streams t i") auto
    moreover have "s_id s0 = i \<and> ic_streams c (unat i) = s_fc s0" using assms(2) s0(1) unfolding flow_view_def by blast
    ultimately show ?thesis by simp
  qed
  moreover have "t_fc t' = t_fc t" "unat ` t_active t' \<subseteq> ic_active c"
    using assms unfolding flow_view_def keeps_flow_def by blast+
  ultimately show ?thesis using assms(2) by (simp add: flow_view_def)
qed

lemma keeps_flow_upd:
  assumes "\<And>s. s_id (g s) = s_id s \<and> s_fc (g s) = s_fc s"
  shows "keeps_flow t (upd_stream i g t)"
  using assms by (simp add: keeps_flow_def upd_stream_def option.map_comp comp_def)

lemma keeps_flow_put [simp]: "keeps_flow t (put_control x t') = keeps_flow t t'"
  by (simp add: keeps_flow_def put_control_def)

lemma keeps_flow_notify [simp]: "keeps_flow t (notifyError t') = keeps_flow t t'"
  by (simp add: keeps_flow_def notifyError_def)

lemma keeps_flow_fields [simp]:
  "keeps_flow t (t'\<lparr>t_hDec := d\<rparr>) = keeps_flow t t'" "keeps_flow t (t'\<lparr>t_cur := x\<rparr>) = keeps_flow t t'"
  "keeps_flow t (t'\<lparr>t_sendQuotaPool := q\<rparr>) = keeps_flow t t'" "keeps_flow t (t'\<lparr>t_control := cs\<rparr>) = keeps_flow t t'"
  by (simp_all add: keeps_flow_def)

lemma stream_fields [simp]:
  "s_id (s_write m s) = s_id s" "s_fc (s_write m s) = s_fc s"
  "s_id (data_ended s) = s_id s" "s_fc (data_ended s) = s_fc s" "s_id (flow_failed e s) = s_id s" "s_fc (flow_failed e s) = s_fc s"
  "s_id (stream_reset c s) = s_id s" "s_fc (stream_reset c s) = s_fc s"
  "s_id (headers_arrived st es s) = s_id s" "s_fc (headers_arrived st es s) = s_fc s"
  by (simp_all add: s_write_def data_ended_def flow_failed_def stream_reset_def headers_arrived_def Let_def)

lemma operateHeaders_keeps_flow: "operateHeaders cur fr ended es t = Some (Ret t') \<Longrightarrow> keeps_flow t t'"
  by (cases rule: run_bind.cases [of "(decodeHTTP2Headers fr ended (t_hDec t), undefined)"])
    (auto simp: operateHeaders_def Let_def keeps_flow_upd split: option.splits prod.splits if_splits)

lemma reader_frame_keeps_flow:
  assumes "reader_frame f t = Some (Ret t')" and "\<And>h d. f \<noteq> DataFrame h d"
  shows "keeps_flow t t'"
  using assms
  by (cases f) (auto simp: reader_frame_def handleRSTStream_def handleSettings_def handlePing_def handleWindowUpdate_def
      keeps_flow_upd operateHeaders_keeps_flow elim!: go_bindE split: option.splits if_splits)

lemma applySetting_keeps_flow: "keeps_flow t (applySetting s t)"
  by (auto simp: applySetting_def keeps_flow_def Let_def option.map_comp comp_def intro!: option.map_cong)

lemma applySettings_keeps_flow: "keeps_flow t (applySettings ss t)"
  unfolding applySettings_def
  by (induction ss arbitrary: t) (auto intro: keeps_flow_trans applySetting_keeps_flow)

lemma controller_keeps_flow: "controller_step t fr = Some (t', fr') \<Longrightarrow> keeps_flow t t'"
proof -
  assume "controller_step t fr = Some (t', fr')"
  then obtain x xs where "control_item x (t\<lparr>t_control := xs\<rparr>) fr = (t', fr')"
    by (auto simp: controller_step_def split: list.splits)
  moreover have "keeps_flow t (t\<lparr>t_control := xs\<rparr>)" by simp
  ultimately show ?thesis
    by (cases x) (auto split: if_splits intro: keeps_flow_trans [OF _ applySettings_keeps_flow])
qed

lemma Close_keeps_flow: "keeps_flow t (snd (Close t))"
  by (auto simp: Close_def keeps_flow_def option.map_comp comp_def intro!: option.map_cong)


section \<open>Steps that move the windows\<close>

lemma unat_same: "unat i = unat j \<longleftrightarrow> i = (j :: streamid)"
  by (simp add: word_unat_eq_iff)

lemma flow_view_update:
  assumes "flow_view t c" and "t_streams t i = Some s" and that: "\<And>s. s_id (g s) = s_id s \<and> s_fc (g s) = s_fc s"
  shows "flow_view (upd_stream i (\<lambda>s. g (s\<lparr>s_fc := f\<rparr>)) (t\<lparr>t_fc := conn\<rparr>))
      (c\<lparr>ic_streams := (ic_streams c)(unat i := f), ic_conn := conn, ic_received := rc, ic_granted := gr\<rparr>)"
proof -
  have "dom ((t_streams t)(i \<mapsto> x)) = dom (t_streams t)" for x
    using assms(2) by (auto simp: dom_def)
  then show ?thesis
    using assms that unfolding flow_view_def upd_stream_def by (auto simp: unat_same)
qed

lemma view_facts:
  assumes "flow_view t c" and "t_streams t i = Some s"
  shows "unat i \<in> set (ic_ids c)" "s_id s = i" "ic_streams c (unat i) = s_fc s" "ic_conn c = t_fc t"
    "i \<in> t_active t \<Longrightarrow> unat i \<in> ic_active c"
  using assms unfolding flow_view_def by auto

lemma handleData_flow:
  assumes "flow_view t c" and "length (buffer f) < 2 ^ 24"
  shows "\<exists>c'. flow_step\<^sup>*\<^sup>* c c' \<and> flow_view (handleData f t) c'"
proof (cases "getStream f t")
  case None
  then show ?thesis using assms(1) by (auto simp: handleData_def)
next
  case (Some s)
  let ?i = "fh_StreamID (Header f)" and ?n = "word_of_nat (length (buffer f)) :: 32 word"
  have s: "t_streams t ?i = Some s" "?i \<in> t_active t" using Some by (auto simp: getStream_def split: if_splits)
  note v = view_facts [OF assms(1) s(1)]
  have ended: "flow_view t1 c1 \<Longrightarrow> flow_view (if StreamEnded f then upd_stream ?i data_ended t1 else t1) c1" for t1 c1
    using keeps_flow_view [OF keeps_flow_upd [of data_ended]] by simp
  consider "buffer f = []" | e where "buffer f \<noteq> []" "fst (onData ?n (s_fc s) (t_fc t)) = Some e"
    | fl conn where "buffer f \<noteq> []" "onData ?n (s_fc s) (t_fc t) = (None, fl, conn)"
    by (metis fst_conv option.exhaust prod_cases3)
  then show ?thesis
  proof cases
    case 1
    then have "handleData f t = (if StreamEnded f then upd_stream ?i data_ended t else t)"
      using Some v(2) by (simp add: handleData_def Let_def)
    then show ?thesis using ended [OF assms(1)] by auto
  next
    case 2
    then have o: "onData ?n (s_fc s) (t_fc t) = (Some e, s_fc s, t_fc t)"
      by (auto simp: onData_def conn_onData_def split: if_splits option.splits)
    have "upd_stream ?i (\<lambda>x. x\<lparr>s_fc := s_fc s\<rparr>) (t\<lparr>t_fc := t_fc t\<rparr>) = t"
      using s(1) by (cases t) (auto simp: upd_stream_def fun_eq_iff)
    with o Some v(2) 2(1) have "keeps_flow t (handleData f t)"
      by (cases e) (simp_all add: handleData_def keeps_flow_upd Let_def)
    then show ?thesis using keeps_flow_view assms(1) by blast
  next
    case 3
    let ?t = "upd_stream ?i (\<lambda>s. s_write (MsgData (buffer f)) (s\<lparr>s_fc := fl\<rparr>)) (t\<lparr>t_fc := conn\<rparr>)"
    let ?c = "c\<lparr>ic_streams := (ic_streams c)(unat ?i := fl), ic_conn := conn, ic_received := ic_received c + unat ?n\<rparr>"
    have n: "unat ?n < 2 ^ 24" using assms(2) by (simp add: unat_of_nat)
    have "flow_step c ?c"
      using v 3(2) s(2) n by (intro flow_step.data) auto
    moreover have "flow_view ?t ?c"
      using flow_view_update [OF assms(1) s(1), where g = "s_write (MsgData (buffer f))" and rc = "ic_received c + unat ?n" and gr = "ic_granted c"] by simp
    moreover have "handleData f t = (if StreamEnded f then upd_stream ?i data_ended ?t else ?t)"
      using Some v(2) 3 by (simp add: handleData_def Let_def)
    ultimately show ?thesis using ended [of ?t ?c] by (intro exI [of _ ?c]) (simp add: r_into_rtranclp)
  qed
qed

lemma updateWindow_flow:
  assumes "flow_view t c" and "t_streams t i = Some s" and "n \<le> fl_pendingData (s_fc s) \<or> fl_pendingData (s_fc s) = 0"
  shows "\<exists>c'. flow_step\<^sup>*\<^sup>* c c' \<and> flow_view (updateWindow i n t) c'"
proof -
  obtain swu cwu f conn where o: "onRead n (s_fc s) (t_fc t) = ((swu, cwu), f, conn)" by (metis prod_cases4 surj_pair)
  note v = view_facts [OF assms(1,2)]
  let ?t = "upd_stream i (\<lambda>s. s\<lparr>s_fc := f\<rparr>) (t\<lparr>t_fc := conn\<rparr>)"
  let ?c = "c\<lparr>ic_streams := (ic_streams c)(unat i := f), ic_conn := conn, ic_granted := ic_granted c + unat cwu\<rparr>"
  have "flow_step c ?c" using v o assms(3) by (intro flow_step.read_data) auto
  moreover have "flow_view ?t ?c"
    using flow_view_update [OF assms(1,2), where g = id and rc = "ic_received c" and gr = "ic_granted c + unat cwu"] by simp
  moreover have "keeps_flow ?t (updateWindow i n t)"
    using assms(2) o by (simp add: updateWindow_def Let_def)
  ultimately show ?thesis using keeps_flow_view by blast
qed

lemma CloseStream_flow:
  assumes "flow_view t c"
  shows "\<exists>c'. flow_step\<^sup>*\<^sup>* c c' \<and> flow_view (CloseStream i err t) c'"
proof (cases "t_streams t i")
  case None
  then show ?thesis using assms by (auto simp: CloseStream_def)
next
  case (Some s)
  obtain q f conn where o: "restoreConn (s_fc s) (t_fc t) = (q, f, conn)" by (metis prod_cases3)
  note v = view_facts [OF assms Some]
  let ?t = "upd_stream i (\<lambda>s. s\<lparr>s_fc := f\<rparr>)
    (t\<lparr>t_active := t_active t - {i}, t_streamsQuota := map_option (qp_add 1) (t_streamsQuota t), t_fc := conn\<rparr>)"
  let ?c = "c\<lparr>ic_streams := (ic_streams c)(unat i := f), ic_conn := conn, ic_active := ic_active c - {unat i},
    ic_granted := ic_granted c + unat q\<rparr>"
  have "flow_step c ?c" using v o by (intro flow_step.close_stream) auto
  moreover have "flow_view ?t ?c"
    using flow_view_update [OF assms Some, where g = id and rc = "ic_received c" and gr = "ic_granted c + unat q"] v(5)
    by (auto simp: flow_view_def upd_stream_def unat_same)
  moreover have "keeps_flow ?t (CloseStream i err t)"
  proof -
    have "keeps_flow x (upd_stream i (\<lambda>s. s\<lparr>s_headerDone := True, s_state := streamDone\<rparr>) x)" for x
      by (rule keeps_flow_upd) simp
    then have "keeps_flow ?t (upd_stream i (\<lambda>s. s\<lparr>s_headerDone := True, s_state := streamDone\<rparr>) x)" if "keeps_flow ?t x" for x
      using keeps_flow_trans that by blast
    then show ?thesis
      using Some o by (simp add: CloseStream_def Let_def split: option.split rpc_error.split)
  qed
  ultimately show ?thesis using keeps_flow_view by blast
qed


section \<open>Every step\<close>

lemma newStream_flow_view:
  assumes "flow_view t c" and "newStream m t = (s, t1)" and "t_streams t (t_nextID t) = None"
  shows "\<exists>c'. flow_step\<^sup>*\<^sup>* c c' \<and> flow_view (t1\<lparr>t_active := insert (s_id s) (t_active t1)\<rparr>) c'"
proof -
  let ?i = "unat (t_nextID t)"
  let ?c = "c\<lparr>ic_streams := (ic_streams c)(?i := newStream_flow), ic_ids := ?i # ic_ids c, ic_active := insert ?i (ic_active c)\<rparr>"
  have "?i \<notin> set (ic_ids c)" using assms(1,3) by (auto simp: flow_view_def unat_same)
  then have "flow_step c ?c" by (rule flow_step.open_stream)
  moreover have "flow_view (t1\<lparr>t_active := insert (s_id s) (t_active t1)\<rparr>) ?c"
  proof -
    have t1: "t_streams t1 = (t_streams t)(t_nextID t \<mapsto> s)" "t_active t1 = t_active t" "t_fc t1 = t_fc t" "s_id s = t_nextID t"
        "s_fc s = newStream_flow"
      using assms(2) by (auto simp: newStream_def Let_def)
    have "unat ` insert (s_id s) (t_active t) \<subseteq> insert ?i (ic_active c)"
    proof -
      have "unat ` t_active t \<subseteq> ic_active c" using assms(1) by (simp add: flow_view_def)
      then show ?thesis unfolding t1(4) image_insert by (rule insert_mono)
    qed
    moreover have "\<forall>i x. t_streams t i = Some x \<longrightarrow> s_id x = i \<and> ic_streams c (unat i) = s_fc x"
      and "set (ic_ids c) = unat ` dom (t_streams t)" "ic_conn c = t_fc t"
      using assms(1) by (simp_all add: flow_view_def)
    ultimately show ?thesis using t1 by (auto simp: flow_view_def unat_same)
  qed
  ultimately show ?thesis by (intro exI [of _ ?c]) (simp add: r_into_rtranclp)
qed

lemma client_step_flow:
  assumes "client_step t t'" and "flow_view t c"
  shows "\<exists>c'. flow_step\<^sup>*\<^sup>* c c' \<and> flow_view t' c'"
  using assms
proof (induction rule: client_step.induct)
  case (call m t s t1)
  then show ?case by (intro newStream_flow_view)
next
  case (frame f t t')
  show ?case
  proof (cases "\<exists>h d. f = DataFrame h d")
    case True
    then have "t' = handleData f t" using frame.hyps(1) by (auto simp: reader_frame_def)
    then show ?thesis using handleData_flow [OF frame.prems frame.hyps(2)] by simp
  next
    case False
    then have "keeps_flow t t'" using frame.hyps(1) by (intro reader_frame_keeps_flow) auto
    then show ?thesis using keeps_flow_view frame.prems by blast
  qed
next
  case (read t i s n)
  then show ?case by (intro updateWindow_flow)
next
  case (close t i err)
  then show ?case by (intro CloseStream_flow)
next
  case (control t fr t' fr')
  then show ?case using keeps_flow_view controller_keeps_flow by blast
next
  case (shutdown t)
  then show ?case using keeps_flow_view Close_keeps_flow by blast
qed

text \<open>The transport that \<open>newHTTP2Client\<close> returns.\<close>

definition newHTTP2Client :: "hpackDecoder \<Rightarrow> http2Client" where
  "newHTTP2Client d = \<lparr>t_state = reachable, t_streams = Map.empty, t_active = {}, t_nextID = 1,
     t_fc = \<lparr>fl_limit = initialConnWindowSize, fl_pendingData = 0, fl_pendingUpdate = 0\<rparr>,
     t_sendQuotaPool = newQuotaPool (int (unat defaultWindowSize)), t_streamSendQuota = defaultWindowSize, t_streamsQuota = None,
     t_maxStreams = 2147483647, t_control = [], t_hDec = d, t_cur = None\<rparr>"

lemma client_reachable_flow:
  assumes "client_step\<^sup>*\<^sup>* (newHTTP2Client d) t"
  shows "\<exists>c. flow_step\<^sup>*\<^sup>* in_start c \<and> flow_view t c"
  using assms
proof (induction rule: rtranclp_induct)
  case base
  have "flow_view (newHTTP2Client d) in_start"
    by (simp add: flow_view_def newHTTP2Client_def in_start_def)
  then show ?case by blast
next
  case (step t t')
  then obtain c where "flow_step\<^sup>*\<^sup>* in_start c" "flow_view t c" by blast
  with client_step_flow [OF step.hyps(2)] show ?case by (meson rtranclp_trans)
qed



end
