(* ===== verification/Spec2Isabelle.thy ===== *)
theory Spec2Isabelle
  imports Commands Names ProtoProps LineProps Calls ClientFlow
begin

text \<open>
  The load test system as a whole. A scheduler (\<open>cmd/schedulerd\<close>, \<open>scheduler/\<close>) answers the
  requests of a client (\<open>cmd/schedulerctl\<close>): it rents droplets, an executor
  (\<open>executor/cmd/executord\<close>, \<open>executor/\<close>) boots on each and registers, the scheduler sends every
  executor the script with its share of the rate, waits, and destroys the droplets. An executor
  runs the Lua script with a growing number of jobs per second on a pool of workers, gathers one
  metric point per event in memory, and sends the points in batches to InfluxDB.

  \<^bold>\<open>Conventions.\<close> A Go \<open>error\<close> is a value of \<open>gerror\<close>, \<open>nil\<close> is \<open>None\<close>; a function
  that returns a value or an error is a sum; a function that may panic returns \<open>'a go\<close>, with
  \<open>Panic\<close> carrying the message. \<open>int32\<close> is a 32-bit word read by \<open>sint\<close>, \<open>int\<close> is \<open>int\<close> with
  \<open>wrap64\<close> where the code can overflow, \<open>float64\<close> is \<open>f64\<close> with rounding to 53 bits. Goroutines
  are step functions on a shared state; a schedule is a list of labels, and a theorem about a
  run holds for every schedule. Code outside the repository or behind an operating system
  interface is a parameter: a record of operations over an abstract world (\<open>engine_ops\<close> for the
  clock, HTTP and the Lua chunks, \<open>cloud_ops\<close> for the DigitalOcean API, \<open>net_ops\<close> for gRPC
  connections, \<open>text_ops\<close> and \<open>line_ops\<close> for the printing and reading of floats), or a function argument (JSON and TOML
  decoding, HTTP requests).

  \<^bold>\<open>Theories and the code they model.\<close>

  \<^item> \<open>Prelude\<close>, \<open>Float64\<close>, \<open>GoTime\<close>, \<open>Bytes\<close>, \<open>Decimal\<close>, \<open>ByteIO\<close>: errors, panics, machine
    integers, IEEE doubles with round to nearest even, \<open>time.ParseDuration\<close> and
    \<open>Duration.Seconds\<close>, words and bytes, decimal integers, big-endian integers and \<open>io.ReadFull\<close>,
    with the lemmas the components share. The locale \<open>framing\<close> of \<open>ByteIO\<close> is what a reader of a
    stream of frames relies on; it is interpreted on the messages of gRPC and on the frames of HTTP/2.

  \<^item> \<open>Messages\<close>: the structs and getters of \<open>executor/pb/executor.pb.go\<close> and
    \<open>scheduler/pb/scheduler.pb.go\<close>.

  \<^item> \<open>Metrics\<close>: points and batches of the InfluxDB client and
    \<open>executor/controller/metrics_gatherer.go\<close>; the locale \<open>batch_points\<close> is the contract of a
    batch, interpreted on the client's.

  \<^item> \<open>Persistence\<close>: \<open>executor/persister/\<close>, the client calls it makes, and the batch functions of
    \<open>executor/controller/controller.go\<close> (collecting, sending with retries).

  \<^item> \<open>LineProtocol\<close>, \<open>LineProps\<close>: \<open>influxdb/models/points.go\<close> and \<open>influxdb/pkg/escape\<close>, how a point
    becomes a line and how the database parses a body of lines. The locale \<open>value_text\<close> states what
    the three scanners of the parser need of the text of a field; it is interpreted on the integers
    and booleans and proved for texts and floats, and gives the round trip of whole batches.

  \<^item> \<open>LuaEngine\<close>, \<open>EngineProps\<close>: \<open>executor/engine/lua.go\<close> and \<open>http_binding.go\<close> over the
    stack operations of \<open>go-lua\<close>. A Lua chunk is an interaction tree of host calls, so a script may
    compute anything between two calls; the virtual machine itself is the parameter. Loading and
    running a script is shown to refine a pipeline without a stack.

  \<^item> \<open>Worker\<close>, \<open>Controller\<close>, \<open>ControllerProps\<close>: \<open>executor/controller/worker.go\<close> and the run loop of
    \<open>controller.go\<close> as a step relation between the main goroutine, the workers and the senders.
    The lemmas show that no point is lost or sent twice by any schedule, that a run ends once it
    is stopped, that the returned batch is complete, and that rate and queue stay in bounds.

  \<^item> \<open>Listener\<close>: \<open>executor_grpc_listener.go\<close>, the command stream of an executor: verification,
    halting, the final status and registration.

  \<^item> \<open>SchedulerDB\<close>, \<open>LaunchProps\<close>, \<open>Executors\<close>: \<open>scheduler/db.go\<close>: launching droplets as a step
    relation between the caller, one goroutine per droplet and the registrations, and the commands
    to the executors of a test.

  \<^item> \<open>SchedulerServer\<close>, \<open>ServerProps\<close>: \<open>scheduler/server.go\<close>, the whole handler of a load test
    from the check of the script to the destruction of the droplets.

  \<^item> \<open>Flags\<close>, \<open>Commands\<close>: the flag libraries (\<open>envflag\<close>, \<open>codegangsta/cli\<close>) over a heap of
    cells, the metadata client, and the \<open>main\<close> functions as compositions of the rest.

  \<^item> \<open>Skip32\<close>, \<open>Names\<close>: the cipher and the name generator the client uses for test names.

  \<^item> \<open>Wire\<close>, \<open>Proto\<close>, \<open>ProtoProps\<close>: the protocol buffers codec, the field tables of the
    program's messages and the frame of gRPC. The locale \<open>struct_codec\<close> is what reading a struct
    relies on; it is interpreted on every message type.

  \<^item> \<open>Transport\<close>: the flow control under gRPC: the quota pools and inbound windows of
    \<open>transport/control.go\<close>, the data path of \<open>http2Client.Write\<close> and \<open>handleData\<close> as step relations,
    the receive buffer of a stream and the window of \<open>x/net/http2\<close>. The locale \<open>quota_pool\<close> is what a
    writer relies on; it is interpreted on the pools.

  \<^item> \<open>Huffman\<close>, \<open>HuffmanProps\<close>, \<open>Hpack\<close>, \<open>HpackProps\<close>: the header compression of HTTP/2,
    \<open>x/net/http2/hpack\<close>. The code table is shown to be free of prefixes, the decoding tree to lead to
    every symbol, and the two coders to be inverse. The locale \<open>header_table\<close> is what encoder and
    decoder rely on in a dynamic table, and that two tables stay in step is proved in it.

  \<^item> \<open>Frames\<close>, \<open>FrameProps\<close>: the frames of HTTP/2, \<open>x/net/http2/frame.go\<close> with \<open>errors.go\<close> and
    the settings of \<open>http2.go\<close>: the writers and parsers of the ten types of frame and the checks of
    \<open>ReadFrame\<close>. Every frame the writers produce reads back, and whatever bytes arrive, a frame that
    \<open>ReadFrame\<close> returns is well formed.

  \<^item> \<open>GrpcHeaders\<close>: \<open>grpc/transport/http_util.go\<close> and \<open>grpc/metadata\<close>: timeouts, base64 and
    binary metadata, the decoder of header blocks, the tables of status codes. A timeout that crosses
    the wire is never shortened.

  \<^item> \<open>ClientStreams\<close>, \<open>ClientFlow\<close>, \<open>Calls\<close>: the client's transport
    (\<open>grpc/transport/http2_client.go\<close>, \<open>transport.go\<close>): opening, writing, resetting and closing
    streams, the reader with one handler per frame, the controller, and the writing of header blocks on
    both sides (\<open>NewStream\<close>, and \<open>WriteHeader\<close>, \<open>WriteStatus\<close> of \<open>http2_server.go\<close>). The lemmas show
    that a stream hands on the bytes of its data frames in order, that the status a server writes
    is the one the client's stream ends with, and that the steps of the client refine those of the
    flow control in \<open>Transport\<close>, so that its invariants hold of the client.

  \<^bold>\<open>Bounds and fuel.\<close> Loops that may not end are \<open>partial_function (option)\<close> (\<open>dial_loop\<close>,
  \<open>walk\<close>, the loops of the Huffman and header decoders) and proved to return under stated conditions. \<open>unmarshalType\<close> takes as fuel one more than
  the number of bytes and \<open>skip\<close> twice the number plus two, since every turn consumes a byte;
  \<open>Unmarshal_always_returns\<close> shows that this is enough for every input. The loops of the client's
  reader and of the writers of header blocks are total, by the number of bytes left. The step
  relations have no fuel: a schedule is any finite list of steps.

  \<^bold>\<open>Not modelled.\<close> The Lua compiler and virtual machine of \<open>go-lua\<close>, the server
  and the transport of \<open>x/net/http2\<close>, which carry plain HTTP requests; of gRPC the dialling and
  authentication of a connection, the waiting for stream quotas, the reading half of the server's
  transport, contexts and the flushing of its buffered writers; the request plumbing of \<open>godo\<close> and \<open>oauth2\<close>, and the log
  formatting of \<open>logrus\<close>: the program calls them through the interfaces that are parameters
  here. Help texts and usage output are not modelled either.
\<close>

end
